(* ===== verification/Prelude.thy ===== *)
theory Prelude
  imports Main "HOL-Library.Word"
begin

unbundle bit_operations_syntax

text \<open>
  Shared vocabulary of the development: the machine integer types of the C code, the linear
  slot scans and array shifts that nearly every kernel table uses, page arithmetic on 64-bit
  addresses, and the generic lemmas that the component theories rely on.

  Conventions. A C array with a separate element count (\<open>g_free_ranges\<close>/\<open>g_free_range_count\<close>)
  is the list of its live prefix; a fixed table that is indexed by slot (\<open>g_fds\<close>, \<open>g_ttys\<close>) is a
  function from slot numbers. Status codes of type \<open>int\<close> are HOL integers.
\<close>

subsection \<open>Machine integers\<close>

type_synonym u8 = "8 word"
type_synonym u16 = "16 word"
type_synonym u32 = "32 word"
type_synonym u64 = "64 word"

named_theorems kesh_defs \<open>definitions that component proofs unfold together\<close>
named_theorems inv_intros \<open>preservation lemmas, one per operation\<close>

subsection \<open>Array shifts\<close>

text \<open>The two shifting loops of the C code: opening a gap at \<open>pos\<close>, and closing it.\<close>

definition insert_at :: "nat \<Rightarrow> 'a \<Rightarrow> 'a list \<Rightarrow> 'a list" where
  "insert_at pos x xs = take pos xs @ x # drop pos xs"

definition delete_at :: "nat \<Rightarrow> 'a list \<Rightarrow> 'a list" where
  "delete_at pos xs = take pos xs @ drop (Suc pos) xs"

lemma insert_at_append [simp]: "insert_at (length xs) x (xs @ ys) = xs @ x # ys"
  by (simp add: insert_at_def)

lemma delete_at_append [simp]: "delete_at (length xs) (xs @ y # ys) = xs @ ys"
  by (simp add: delete_at_def)

lemma length_insert_at [simp]: "length (insert_at pos x xs) = Suc (length xs)"
  by (simp add: insert_at_def)

lemma length_delete_at [simp]: "pos < length xs \<Longrightarrow> length (delete_at pos xs) = length xs - 1"
  by (simp add: delete_at_def)

lemma set_delete_at: "set (delete_at pos xs) \<subseteq> set xs"
  unfolding delete_at_def by (auto dest: in_set_takeD in_set_dropD)

lemma delete_insert_at: "pos \<le> length xs \<Longrightarrow> delete_at pos (insert_at pos x xs) = xs"
  by (simp add: delete_at_def insert_at_def min_def)

subsection \<open>Linear scans\<close>

text \<open>
  \<open>first_from P lo n\<close> is the loop \<open>for (i = lo; i < lo + n; ++i) if (P(i)) return i;\<close>
  with \<open>None\<close> for running off the end.
\<close>

fun first_from :: "(nat \<Rightarrow> bool) \<Rightarrow> nat \<Rightarrow> nat \<Rightarrow> nat option" where
  "first_from P lo 0 = None"
| "first_from P lo (Suc n) = (if P lo then Some lo else first_from P (Suc lo) n)"

lemma first_from_numeral [simp]:
  "first_from P lo (numeral k) =
     (if P lo then Some lo else first_from P (Suc lo) (pred_numeral k))"
  by (simp add: numeral_eq_Suc)

lemma first_from_Some_iff:
  "first_from P lo n = Some i \<longleftrightarrow> lo \<le> i \<and> i < lo + n \<and> P i \<and> (\<forall>j. lo \<le> j \<and> j < i \<longrightarrow> \<not> P j)"
proof (induction n arbitrary: lo)
  case 0
  then show ?case by simp
next
  case (Suc n)
  show ?case
  proof (cases "P lo")
    case True
    then show ?thesis by (auto simp: le_less)
  next
    case False
    then show ?thesis
      using Suc.IH [of "Suc lo"] by (auto simp: Suc_le_eq) (metis le_less)+
  qed
qed

lemma first_from_None_iff: "first_from P lo n = None \<longleftrightarrow> (\<forall>i. lo \<le> i \<and> i < lo + n \<longrightarrow> \<not> P i)"
proof (induction n arbitrary: lo)
  case 0
  then show ?case by auto
next
  case (Suc n)
  show ?case
  proof (cases "P lo")
    case True
    then show ?thesis by auto
  next
    case False
    then show ?thesis
      using Suc.IH [of "Suc lo"] by (auto simp: Suc_le_eq) (metis le_less)
  qed
qed

lemma first_from_SomeD:
  assumes "first_from P lo n = Some i"
  shows "P i" and "i < lo + n" and "lo \<le> i"
  using assms by (auto simp: first_from_Some_iff)

subsection \<open>Page arithmetic\<close>

abbreviation (input) PAGE_SIZE :: u64 where "PAGE_SIZE \<equiv> 4096"

definition page_aligned :: "u64 \<Rightarrow> bool" where
  "page_aligned a \<longleftrightarrow> a AND (PAGE_SIZE - 1) = 0"

definition page_down :: "u64 \<Rightarrow> u64" where
  "page_down a = a AND NOT (PAGE_SIZE - 1)"

lemma page_aligned_take_bit: "page_aligned a \<longleftrightarrow> take_bit 12 a = 0"
  by (simp add: page_aligned_def take_bit_eq_mask mask_eq_exp_minus_1)

lemma page_aligned_iff: "page_aligned a \<longleftrightarrow> 4096 dvd unat a"
proof -
  have "unat (take_bit 12 a) = unat a mod 4096"
    by (simp only: unsigned_take_bit_eq) (simp add: take_bit_eq_mod)
  then show ?thesis
    by (metis page_aligned_take_bit dvd_eq_mod_eq_0 unat_eq_zero)
qed

lemma page_aligned_add:
  assumes "page_aligned a" and "page_aligned b"
  shows "page_aligned (a + b)"
proof -
  have "4096 dvd unat a + unat b"
    using assms by (simp add: page_aligned_iff)
  moreover have "(4096 :: nat) dvd 2 ^ 64" by simp
  ultimately have "4096 dvd (unat a + unat b) mod 2 ^ 64"
    by (rule dvd_mod)
  then show ?thesis by (simp add: page_aligned_iff unat_word_ariths)
qed

lemma page_aligned_mult: "page_aligned (n * PAGE_SIZE)"
proof -
  have "4096 dvd (unat n * 4096) mod 2 ^ 64"
    by (rule dvd_mod) simp_all
  then show ?thesis by (simp add: page_aligned_iff unat_word_ariths)
qed

lemma unat_page_down: "unat (page_down a) = unat a - unat a mod 4096"
proof -
  have m: "unat (take_bit 12 a) = unat a mod 4096"
    by (simp only: unsigned_take_bit_eq) (simp add: take_bit_eq_mod)
  have "(a AND NOT (mask 12)) AND (a AND mask 12) = 0"
    by (auto simp: bit_eq_iff bit_simps)
  moreover have "(a AND NOT (mask 12)) OR (a AND mask 12) = a"
    by (auto simp: bit_eq_iff bit_simps)
  ultimately have "(a AND NOT (mask 12)) + (a AND mask 12) = a"
    using word_plus_and_or [of "a AND NOT (mask 12)" "a AND mask 12"] by simp
  then have "a AND NOT (mask 12) = a - take_bit 12 a"
    by (simp add: take_bit_eq_mask eq_diff_eq)
  moreover have "unat (a - take_bit 12 a) = unat a - unat (take_bit 12 a)"
    by (rule unat_sub) (simp add: word_le_nat_alt m)
  ultimately show ?thesis
    by (simp add: page_down_def m mask_eq_exp_minus_1)
qed

lemma page_down_le: "page_down a \<le> a"
  by (simp add: word_le_nat_alt unat_page_down)

lemma page_aligned_page_down: "page_aligned (page_down a)"
  by (simp add: page_aligned_def page_down_def and.assoc)

subsection \<open>Little-endian fields\<close>

text \<open>On-disk and in-file structures are packed structs: a field is \<open>n\<close> bytes at offset \<open>off\<close>.\<close>

fun le_word :: "u8 list \<Rightarrow> u64" where
  "le_word [] = 0"
| "le_word (b # bs) = ucast b OR push_bit 8 (le_word bs)"

definition field :: "u8 list \<Rightarrow> nat \<Rightarrow> nat \<Rightarrow> u64" where
  "field bs off n = le_word (take n (drop off bs))"

fun le_bytes :: "nat \<Rightarrow> u64 \<Rightarrow> u8 list" where
  "le_bytes 0 w = []"
| "le_bytes (Suc n) w = ucast w # le_bytes n (drop_bit 8 w)"

lemma length_le_bytes [simp]: "length (le_bytes n w) = n"
  by (induction n arbitrary: w) simp_all

lemma bit_u8: "bit (z :: u8) n \<Longrightarrow> n < 8"
  by (auto dest: bit_imp_le_length)

lemma unat_ucast_u8 [simp]: "unat (ucast (z :: u8) :: u32) = unat z" "unat (ucast z :: u64) = unat z"
  by (simp_all add: unsigned_ucast_eq take_bit_nat_eq_self unsigned_less [of z, THEN less_trans])

lemma le_word_bound: "bit (le_word zs) n \<Longrightarrow> n < 8 * length zs"
proof (induction zs arbitrary: n)
  case (Cons z zs)
  from Cons.prems consider "bit z n" | "8 \<le> n" "bit (le_word zs) (n - 8)"
    by (auto simp: bit_simps)
  then show ?case
  proof cases
    case 1
    then show ?thesis using bit_u8 by fastforce
  next
    case 2
    then show ?thesis using Cons.IH [of "n - 8"] by auto
  qed
qed simp

lemma le_word_le_bytes: "le_word (le_bytes n w) = take_bit (8 * n) w"
proof (induction n arbitrary: w)
  case (Suc n)
  have "ucast (ucast w :: u8) OR push_bit 8 (take_bit (8 * n) (drop_bit 8 w)) = take_bit (8 * Suc n) w"
  proof (rule bit_eqI)
    fix k assume "possible_bit TYPE(u64) k"
    then show "bit (ucast (ucast w :: u8) OR push_bit 8 (take_bit (8 * n) (drop_bit 8 w))) k = bit (take_bit (8 * Suc n) w) k"
      by (cases "k < 8") (auto simp: bit_simps possible_bit_def)
  qed
  with Suc show ?case by simp
qed simp

lemma le_word_Cons_split:
  "take_bit 8 (le_word (x # xs)) = ucast x" "length xs < 8 \<Longrightarrow> drop_bit 8 (le_word (x # xs)) = le_word xs"
proof -
  show "take_bit 8 (le_word (x # xs)) = ucast x"
    by (rule bit_eqI) (auto simp: bit_simps dest: bit_u8)
  assume xs: "length xs < 8"
  have "bit (le_word xs) n \<Longrightarrow> n < 56" for n using le_word_bound [of xs n] xs by linarith
  then show "drop_bit 8 (le_word (x # xs)) = le_word xs"
    by (intro bit_eqI) (auto simp: bit_simps possible_bit_def dest: bit_u8)
qed

lemma le_word_inj: "length xs = length ys \<Longrightarrow> length xs \<le> 8 \<Longrightarrow> le_word xs = le_word ys \<Longrightarrow> xs = ys"
proof (induction xs ys rule: list_induct2)
  case (Cons x xs y ys)
  have "(ucast x :: u64) = ucast y"
    using le_word_Cons_split(1) [of x xs] le_word_Cons_split(1) [of y ys] Cons.prems(2) by metis
  then have "x = y" by (metis unat_ucast_u8(2) word_unat_eq_iff)
  moreover have "le_word xs = le_word ys"
    using le_word_Cons_split(2) [of xs x] le_word_Cons_split(2) [of ys y] Cons.prems Cons.hyps by (metis Suc_le_eq length_Cons)
  ultimately show ?case using Cons by simp
qed simp

text \<open>A field of at most four bytes survives the cast to 32 bits.\<close>

lemma field_u32: "n \<le> 4 \<Longrightarrow> ucast (ucast (field s off n) :: u32) = field s off n"
proof (rule bit_eqI)
  fix k assume n: "n \<le> 4" and "possible_bit TYPE(u64) k"
  have "bit (field s off n) k \<Longrightarrow> k < 32" using le_word_bound [of "take n (drop off s)" k] n by (auto simp: field_def)
  then show "bit (ucast (ucast (field s off n) :: u32) :: u64) k = bit (field s off n) k" by (auto simp: bit_simps)
qed

lemma field_append [simp]: "off + n \<le> length xs \<Longrightarrow> field (xs @ ys) off n = field xs off n"
  by (simp add: field_def)

subsection \<open>Word intervals\<close>

lemma card_word_interval: "card {a..<b :: 'a::len word} = unat b - unat a"
proof -
  have "unat ` {a..<b} = {unat a..<unat b}"
  proof
    show "unat ` {a..<b} \<subseteq> {unat a..<unat b}"
      by (auto simp: word_le_nat_alt word_less_nat_alt)
    show "{unat a..<unat b} \<subseteq> unat ` {a..<b}"
    proof
      fix n assume n: "n \<in> {unat a..<unat b}"
      then have "n < 2 ^ LENGTH('a)"
        using unsigned_less [of b] by (meson atLeastLessThan_iff less_trans)
      then have "unat (word_of_nat n :: 'a word) = n"
        by (simp add: unsigned_of_nat take_bit_nat_eq_self)
      with n show "n \<in> unat ` {a..<b}"
        by (intro image_eqI [of _ _ "word_of_nat n"])
           (auto simp: word_le_nat_alt word_less_nat_alt)
    qed
  qed
  moreover have "card (unat ` {a..<b}) = card {a..<b}"
    by (rule card_image) (meson inj_onI word_unat_eq_iff)
  ultimately show ?thesis by simp
qed

lemma word_lessThan: "{..<b :: 'a::len word} = {0..<b}"
  by auto

lemma word_add_within:
  fixes a b c :: "'a::len word"
  assumes "a \<le> b" and "c \<le> b - a"
  shows "unat (a + c) = unat a + unat c" and "a + c \<le> b" and "0 < c \<Longrightarrow> a < a + c"
proof -
  have "unat (b - a) = unat b - unat a" using assms(1) by (simp add: unat_sub)
  then have le: "unat a + unat c \<le> unat b" using assms by (simp add: word_le_nat_alt)
  also have "unat b < 2 ^ LENGTH('a)" by (rule unsigned_less)
  finally show eq: "unat (a + c) = unat a + unat c" by (simp add: unat_word_ariths)
  show "a + c \<le> b" using le eq by (simp add: word_le_nat_alt)
  show "a < a + c" if "0 < c" using that eq by (simp add: word_less_nat_alt)
qed

end
