(* ===== verification/Pmm.thy ===== *)
theory Pmm
  imports Prelude
begin

text \<open>
  The physical memory manager of \<open>kernel/memory.c\<close>: managed regions taken from the boot
  loader's memory map, a sorted table of coalesced free ranges, best-fit page allocation with
  zeroing, and freeing with overlap rejection. Physical memory itself is part of the state, as
  a function from 64-bit-word indices (physical address divided by eight) to words; the higher
  half direct map through which the kernel reaches it is the bijection \<open>phys + g_hhdm_offset\<close>
  and is left out. Every operation runs under \<open>g_pmm_lock\<close> with interrupts off, so operations
  are atomic steps.
\<close>

subsection \<open>State\<close>

record pmm_range =
  r_base :: u64
  r_end :: u64

record mm =
  g_regions :: "pmm_range list"
  g_free_ranges :: "pmm_range list"
  g_kernel_pml4_phys :: u64
  g_total_usable_ram :: u64
  g_allocated_bytes :: u64
  g_peak_allocated_bytes :: u64
  g_allocation_count :: u64
  g_free_count :: u64
  g_failed_allocations :: u64
  cpu_cr3 :: u64
  phys_mem :: "u64 \<Rightarrow> u64"

record memmap_entry =
  e_base :: u64
  e_length :: u64
  e_type :: u64

abbreviation (input) PMM_MAX_REGIONS :: nat where "PMM_MAX_REGIONS \<equiv> 64"
abbreviation (input) PMM_MAX_FREE_RANGES :: nat where "PMM_MAX_FREE_RANGES \<equiv> 16384"
abbreviation (input) PTE_ADDR_MASK :: u64 where "PTE_ADDR_MASK \<equiv> 0x000FFFFFFFFFF000"
abbreviation (input) LIMINE_MEMMAP_USABLE :: u64 where "LIMINE_MEMMAP_USABLE \<equiv> 0"

text \<open>The largest page count whose byte size fits 64 bits, \<open>~0ULL / PAGE_SIZE\<close>.\<close>

definition PMM_MAX_PAGES :: u64 where
  "PMM_MAX_PAGES = 0x000FFFFFFFFFFFFF"

subsection \<open>Operations\<close>

definition range_overlaps :: "u64 \<Rightarrow> u64 \<Rightarrow> u64 \<Rightarrow> u64 \<Rightarrow> bool" where
  "range_overlaps a_base a_end b_base b_end \<longleftrightarrow> a_base < b_end \<and> b_base < a_end"

definition pmm_managed_range :: "pmm_range list \<Rightarrow> u64 \<Rightarrow> u64 \<Rightarrow> bool" where
  "pmm_managed_range regions b e \<longleftrightarrow> (\<exists>r \<in> set regions. b \<ge> r_base r \<and> e \<le> r_end r)"

definition pmm_insert_free_range :: "u64 \<Rightarrow> u64 \<Rightarrow> pmm_range list \<Rightarrow> pmm_range list option" where
  "pmm_insert_free_range b e fr =
     (if b \<ge> e \<or> length fr \<ge> PMM_MAX_FREE_RANGES then None
      else
        let pos = length (takeWhile (\<lambda>r. r_base r < b) fr) in
        if pos > 0 \<and> r_end (fr ! (pos - 1)) > b then None
        else if pos < length fr \<and> r_base (fr ! pos) < e then None
        else
          let fr1 = insert_at pos \<lparr>r_base = b, r_end = e\<rparr> fr;
              (fr2, pos2) =
                (if pos > 0 \<and> r_end (fr1 ! (pos - 1)) = r_base (fr1 ! pos)
                 then (delete_at pos (fr1[pos - 1 := (fr1 ! (pos - 1))\<lparr>r_end := r_end (fr1 ! pos)\<rparr>]),
                       pos - 1)
                 else (fr1, pos))
          in Some
               (if pos2 + 1 < length fr2 \<and> r_end (fr2 ! pos2) = r_base (fr2 ! (pos2 + 1))
                then delete_at (pos2 + 1)
                       (fr2[pos2 := (fr2 ! pos2)\<lparr>r_end := r_end (fr2 ! (pos2 + 1))\<rparr>])
                else fr2))"

text \<open>The memory-map loop of \<open>pmm_init\<close>: usable entries, rounded inwards to whole pages.\<close>

fun pmm_scan_memmap :: "memmap_entry list \<Rightarrow> pmm_range list \<Rightarrow> u64 \<Rightarrow> pmm_range list \<times> u64" where
  "pmm_scan_memmap [] regions tot = (regions, tot)"
| "pmm_scan_memmap (e # es) regions tot =
     (if e_type e \<noteq> LIMINE_MEMMAP_USABLE then pmm_scan_memmap es regions tot
      else if length regions \<ge> PMM_MAX_REGIONS then pmm_scan_memmap es regions tot
      else
        let end_raw = e_base e + e_length e in
        if end_raw < e_base e then pmm_scan_memmap es regions tot
        else
          let b = (e_base e + PAGE_SIZE - 1) AND NOT (PAGE_SIZE - 1);
              n = end_raw AND NOT (PAGE_SIZE - 1) in
          if n \<le> b then pmm_scan_memmap es regions tot
          else pmm_scan_memmap es (regions @ [\<lparr>r_base = b, r_end = n\<rparr>]) (tot + (n - b)))"

text \<open>\<open>pmm_init\<close> ignores the status of each insertion, as the code does.\<close>

definition pmm_seed :: "pmm_range list \<Rightarrow> pmm_range list \<Rightarrow> pmm_range list" where
  "pmm_seed regions fr0 =
     fold (\<lambda>r fr. case pmm_insert_free_range (r_base r) (r_end r) fr of None \<Rightarrow> fr | Some fr' \<Rightarrow> fr')
       regions fr0"

definition pmm_init :: "memmap_entry list option \<Rightarrow> mm \<Rightarrow> mm" where
  "pmm_init memmap s =
     (let (regions, tot) =
            (case memmap of None \<Rightarrow> ([], 0) | Some es \<Rightarrow> pmm_scan_memmap es [] 0);
          (regions', tot') =
            (if regions = []
             then ([\<lparr>r_base = 0x02000000, r_end = 0x02200000\<rparr>], 0x02200000 - 0x02000000)
             else (regions, tot))
      in s\<lparr>g_regions := regions',
           g_free_ranges := pmm_seed regions' [],
           g_kernel_pml4_phys := cpu_cr3 s AND PTE_ADDR_MASK,
           g_total_usable_ram := tot',
           g_allocated_bytes := 0,
           g_peak_allocated_bytes := 0,
           g_allocation_count := 0,
           g_free_count := 0,
           g_failed_allocations := 0\<rparr>)"

text \<open>The best-fit scan: \<open>i\<close> is the loop index, \<open>best\<close>/\<open>best_size\<close> the running choice.\<close>

fun pmm_best_fit :: "u64 \<Rightarrow> pmm_range list \<Rightarrow> nat \<Rightarrow> nat \<Rightarrow> u64 \<Rightarrow> nat" where
  "pmm_best_fit bytes [] i best best_size = best"
| "pmm_best_fit bytes (r # rs) i best best_size =
     (let size = r_end r - r_base r in
      if size \<ge> bytes \<and> size < best_size
      then pmm_best_fit bytes rs (Suc i) i size
      else pmm_best_fit bytes rs (Suc i) best best_size)"

text \<open>Storing zero in the \<open>n\<close> words that start at word index \<open>start\<close>.\<close>

definition zero_words :: "u64 \<Rightarrow> u64 \<Rightarrow> (u64 \<Rightarrow> u64) \<Rightarrow> u64 \<Rightarrow> u64" where
  "zero_words start n m = (\<lambda>a. if a - start < n then 0 else m a)"

definition pmm_alloc_pages :: "u64 \<Rightarrow> mm \<Rightarrow> u64 \<times> mm" where
  "pmm_alloc_pages count s =
     (if count = 0 \<or> count > PMM_MAX_PAGES
      then (0, s\<lparr>g_failed_allocations := g_failed_allocations s + 1\<rparr>)
      else
        let bytes = count * PAGE_SIZE;
            fr = g_free_ranges s;
            best = pmm_best_fit bytes fr 0 (length fr) (- 1)
        in if best < length fr
           then
             let r = fr ! best;
                 phys = r_base r;
                 r' = r\<lparr>r_base := r_base r + bytes\<rparr>;
                 fr' = (if r_base r' = r_end r' then delete_at best fr else fr[best := r']);
                 allocated = g_allocated_bytes s + bytes;
                 s' = s\<lparr>g_free_ranges := fr',
                        g_allocated_bytes := allocated,
                        g_peak_allocated_bytes :=
                          (if allocated > g_peak_allocated_bytes s then allocated
                           else g_peak_allocated_bytes s),
                        g_allocation_count := g_allocation_count s + 1\<rparr>
             in if phys = 0 then (0, s')
                else (phys, s'\<lparr>phys_mem := zero_words (drop_bit 3 phys) (bytes div 8) (phys_mem s')\<rparr>)
           else (0, s\<lparr>g_failed_allocations := g_failed_allocations s + 1\<rparr>))"

definition pmm_alloc_page :: "mm \<Rightarrow> u64 \<times> mm" where
  "pmm_alloc_page s = pmm_alloc_pages 1 s"

definition pmm_free_pages :: "u64 \<Rightarrow> u64 \<Rightarrow> mm \<Rightarrow> int \<times> mm" where
  "pmm_free_pages phys count s =
     (if count = 0 \<or> phys AND (PAGE_SIZE - 1) \<noteq> 0 then (- 1, s)
      else if count > PMM_MAX_PAGES then (- 1, s)
      else
        let bytes = count * PAGE_SIZE;
            e = phys + bytes
        in if e < phys then (- 1, s)
           else if \<not> pmm_managed_range (g_regions s) phys e then (- 1, s)
           else if \<exists>r \<in> set (g_free_ranges s). range_overlaps phys e (r_base r) (r_end r) then (- 1, s)
           else case pmm_insert_free_range phys e (g_free_ranges s) of
                  None \<Rightarrow> (- 1, s)
                | Some fr \<Rightarrow>
                    (0, s\<lparr>g_free_ranges := fr,
                          g_allocated_bytes :=
                            (if g_allocated_bytes s \<ge> bytes then g_allocated_bytes s - bytes else 0),
                          g_free_count := g_free_count s + 1\<rparr>))"

definition pmm_free_page :: "u64 \<Rightarrow> mm \<Rightarrow> int \<times> mm" where
  "pmm_free_page phys s = pmm_free_pages phys 1 s"

definition pmm_get_stats :: "mm \<Rightarrow> u64 \<times> u64" where
  "pmm_get_stats s =
     (g_total_usable_ram s,
      if g_allocated_bytes s > g_total_usable_ram s then g_total_usable_ram s else g_allocated_bytes s)"

record pmm_diagnostics =
  d_total_bytes :: u64
  d_allocated_bytes :: u64
  d_free_bytes :: u64
  d_largest_free_run :: u64
  d_peak_allocated_bytes :: u64
  d_allocation_count :: u64
  d_free_count :: u64
  d_failed_allocations :: u64
  d_free_range_count :: u32

fun pmm_diag_scan :: "pmm_range list \<Rightarrow> u64 \<Rightarrow> u64 \<Rightarrow> u64 \<times> u64" where
  "pmm_diag_scan [] free_bytes largest = (free_bytes, largest)"
| "pmm_diag_scan (r # rs) free_bytes largest =
     (let size = r_end r - r_base r in
      pmm_diag_scan rs (free_bytes + size) (if size > largest then size else largest))"

definition pmm_get_diagnostics :: "mm \<Rightarrow> pmm_diagnostics" where
  "pmm_get_diagnostics s =
     (let (free_bytes, largest) = pmm_diag_scan (g_free_ranges s) 0 0 in
      \<lparr>d_total_bytes = g_total_usable_ram s,
       d_allocated_bytes = g_allocated_bytes s,
       d_free_bytes = free_bytes,
       d_largest_free_run = largest,
       d_peak_allocated_bytes = g_peak_allocated_bytes s,
       d_allocation_count = g_allocation_count s,
       d_free_count = g_free_count s,
       d_failed_allocations = g_failed_allocations s,
       d_free_range_count = word_of_nat (length (g_free_ranges s))\<rparr>)"

definition range_set :: "pmm_range \<Rightarrow> u64 set" where
  "range_set r = {r_base r..<r_end r}"

definition free_set :: "pmm_range list \<Rightarrow> u64 set" where
  "free_set fr = (\<Union>r \<in> set fr. range_set r)"

definition ranges_ok :: "pmm_range list \<Rightarrow> bool" where
  "ranges_ok fr \<longleftrightarrow> (\<forall>r \<in> set fr. r_base r < r_end r) \<and> sorted_wrt (\<lambda>a b. r_end a < r_base b) fr"

lemma free_set_simps [simp]:
  "free_set [] = {}"
  "free_set (r # fr) = range_set r \<union> free_set fr"
  "free_set (fr @ fr') = free_set fr \<union> free_set fr'"
  by (auto simp: free_set_def)

lemma ranges_ok_simps:
  "ranges_ok []"
  "ranges_ok (r # fr) \<longleftrightarrow> r_base r < r_end r \<and> (\<forall>q \<in> set fr. r_end r < r_base q) \<and> ranges_ok fr"
  "ranges_ok (fr @ fr') \<longleftrightarrow> ranges_ok fr \<and> ranges_ok fr' \<and>
     (\<forall>p \<in> set fr. \<forall>q \<in> set fr'. r_end p < r_base q)"
  by (auto simp: ranges_ok_def sorted_wrt_append)

definition pmm_glue :: "pmm_range list \<Rightarrow> pmm_range \<Rightarrow> pmm_range list \<Rightarrow> pmm_range list" where
  "pmm_glue xs n ys =
     (let (xs', n') = (if xs \<noteq> [] \<and> r_end (last xs) = r_base n
                       then (butlast xs, (last xs)\<lparr>r_end := r_end n\<rparr>) else (xs, n))
      in if ys \<noteq> [] \<and> r_end n' = r_base (hd ys)
         then xs' @ n'\<lparr>r_end := r_end (hd ys)\<rparr> # tl ys else xs' @ n' # ys)"

lemma pmm_insert_split:
  assumes xs: "takeWhile (\<lambda>r. r_base r < b) fr = xs" and ys: "dropWhile (\<lambda>r. r_base r < b) fr = ys"
  shows "pmm_insert_free_range b e fr =
    (if b \<ge> e \<or> length fr \<ge> PMM_MAX_FREE_RANGES then None
     else if xs \<noteq> [] \<and> r_end (last xs) > b then None
     else if ys \<noteq> [] \<and> r_base (hd ys) < e then None
     else Some (pmm_glue xs \<lparr>r_base = b, r_end = e\<rparr> ys))"
proof -
  have fr: "fr = xs @ ys" using xs ys by auto
  have len: "length (takeWhile (\<lambda>r. r_base r < b) fr) = length xs" using xs by simp
  show ?thesis
  proof (cases xs rule: rev_cases)
    case Nil
    then show ?thesis
      unfolding pmm_insert_free_range_def len
      by (cases ys) (auto simp: fr pmm_glue_def insert_at_def delete_at_def)
  next
    case (snoc xs' p)
    have d: "delete_at (Suc (length xs')) (xs' @ a # c # zs) = xs' @ a # zs"
      "delete_at (Suc (Suc (length xs'))) (xs' @ a # d # c # zs) = xs' @ a # d # zs" for a c d zs
      by (simp_all add: delete_at_def)
    show ?thesis
      unfolding pmm_insert_free_range_def len
      by (cases ys) (auto simp: fr snoc pmm_glue_def insert_at_def nth_append list_update_append d)
  qed
qed

lemma takeWhile_dropWhile_split:
  assumes "ranges_ok fr" and "xs = takeWhile (\<lambda>r. r_base r < b) fr"
    and "ys = dropWhile (\<lambda>r. r_base r < b) fr"
  shows "fr = xs @ ys" and "\<forall>r \<in> set xs. r_base r < b" and "\<forall>r \<in> set ys. b \<le> r_base r"
proof -
  show fr: "fr = xs @ ys" using assms(2,3) by simp
  show "\<forall>r \<in> set xs. r_base r < b" using assms(2) by (auto dest: set_takeWhileD)
  show "\<forall>r \<in> set ys. b \<le> r_base r"
  proof (cases ys)
    case (Cons q ys')
    have "b \<le> r_base q"
      using assms(3) Cons hd_dropWhile [of "\<lambda>r. r_base r < b" fr] by (metis linorder_not_le list.discI list.sel(1))
    moreover have "\<forall>r \<in> set ys'. r_base q < r_base r"
      using assms(1) fr Cons by (auto simp: ranges_ok_simps)
    ultimately show ?thesis using Cons by (auto intro: order.trans less_imp_le)
  qed simp
qed

lemma last_bounds:
  assumes "ranges_ok xs" and "r \<in> set xs"
  shows "r_end r \<le> r_end (last xs)"
  using assms
  by (cases xs rule: rev_cases) (auto simp: ranges_ok_simps)

lemma pmm_glue_ok:
  assumes ok: "ranges_ok (xs @ ys)" and n: "r_base n < r_end n"
    and l: "xs \<noteq> [] \<longrightarrow> r_end (last xs) \<le> r_base n"
    and r: "ys \<noteq> [] \<longrightarrow> r_end n \<le> r_base (hd ys)"
  shows "ranges_ok (pmm_glue xs n ys)"
    and "free_set (pmm_glue xs n ys) = free_set (xs @ ys) \<union> range_set n"
    and "length (pmm_glue xs n ys) \<le> Suc (length (xs @ ys))"
proof -
  show "length (pmm_glue xs n ys) \<le> Suc (length (xs @ ys))"
    by (auto simp: pmm_glue_def Let_def)
  have ord: "a < b \<Longrightarrow> b \<le> c \<Longrightarrow> c < d \<Longrightarrow> a < d" for a b c d :: u64
    by order
  show "ranges_ok (pmm_glue xs n ys)"
    using ok n l r
    by (cases xs rule: rev_cases; cases ys)
       (auto simp: pmm_glue_def ranges_ok_simps ball_Un intro: ord)
  have neighbours: "r_base (last xs) < r_end (last xs)" if "xs \<noteq> []"
    using that ok by (cases xs rule: rev_cases) (auto simp: ranges_ok_simps)
  have neighbours': "r_base (hd ys) < r_end (hd ys)" if "ys \<noteq> []"
    using that ok by (cases ys) (auto simp: ranges_ok_simps)
  show "free_set (pmm_glue xs n ys) = free_set (xs @ ys) \<union> range_set n"
    using n neighbours neighbours'
    by (cases xs rule: rev_cases; cases ys)
       (auto simp: pmm_glue_def range_set_def)
qed

lemma pmm_insert_ok:
  assumes ok: "ranges_ok fr" and ins: "pmm_insert_free_range b e fr = Some fr'"
  shows "b < e" and "ranges_ok fr'" and "free_set fr' = free_set fr \<union> {b..<e}"
    and "length fr' \<le> PMM_MAX_FREE_RANGES"
proof -
  define xs ys where "xs = takeWhile (\<lambda>r. r_base r < b) fr" and "ys = dropWhile (\<lambda>r. r_base r < b) fr"
  note split = takeWhile_dropWhile_split [OF ok xs_def ys_def]
  have c: "b < e" "length fr < PMM_MAX_FREE_RANGES" "xs \<noteq> [] \<longrightarrow> r_end (last xs) \<le> b"
    "ys \<noteq> [] \<longrightarrow> e \<le> r_base (hd ys)" "fr' = pmm_glue xs \<lparr>r_base = b, r_end = e\<rparr> ys"
    using ins unfolding pmm_insert_split [OF xs_def [symmetric] ys_def [symmetric]]
    by (auto split: if_splits)
  show "b < e" by (rule c(1))
  have "ranges_ok (xs @ ys)" using ok split(1) by simp
  note glue = pmm_glue_ok [OF this, of "\<lparr>r_base = b, r_end = e\<rparr>"]
  show "ranges_ok fr'" using glue(1) c by simp
  show "free_set fr' = free_set fr \<union> {b..<e}" using glue(2) c split(1) by (simp add: range_set_def)
  show "length fr' \<le> PMM_MAX_FREE_RANGES"
    using glue(3) c split(1) by (metis Suc_leI le_trans pmm_range.select_convs)
qed

lemma pmm_insert_length:
  assumes ins: "pmm_insert_free_range b e fr = Some fr'"
  shows "length fr' \<le> Suc (length fr)"
proof -
  define xs ys where "xs = takeWhile (\<lambda>r. r_base r < b) fr" and "ys = dropWhile (\<lambda>r. r_base r < b) fr"
  have "length fr = length xs + length ys" unfolding xs_def ys_def by (metis length_append takeWhile_dropWhile_id)
  moreover have "fr' = pmm_glue xs \<lparr>r_base = b, r_end = e\<rparr> ys"
    using ins unfolding pmm_insert_split [OF xs_def [symmetric] ys_def [symmetric]]
    by (auto split: if_splits)
  ultimately show ?thesis by (auto simp: pmm_glue_def Let_def)
qed

lemma pmm_insert_succeeds:
  assumes ok: "ranges_ok fr" and "b < e" and "length fr < PMM_MAX_FREE_RANGES"
    and disj: "{b..<e} \<inter> free_set fr = {}"
  shows "\<exists>fr'. pmm_insert_free_range b e fr = Some fr'"
proof -
  define xs ys where "xs = takeWhile (\<lambda>r. r_base r < b) fr" and "ys = dropWhile (\<lambda>r. r_base r < b) fr"
  note split = takeWhile_dropWhile_split [OF ok xs_def ys_def]
  have "r_end (last xs) \<le> b" if "xs \<noteq> []"
  proof (rule ccontr)
    assume "\<not> r_end (last xs) \<le> b"
    with that split have "b \<in> range_set (last xs)" "last xs \<in> set fr"
      by (auto simp: range_set_def intro: less_imp_le)
    with disj \<open>b < e\<close> show False by (auto simp: free_set_def)
  qed
  moreover have "e \<le> r_base (hd ys)" if "ys \<noteq> []"
  proof (rule ccontr)
    assume "\<not> e \<le> r_base (hd ys)"
    moreover have h: "hd ys \<in> set fr" "b \<le> r_base (hd ys)" "hd ys \<in> set ys" using that split by auto
    moreover have "r_base (hd ys) \<in> range_set (hd ys)"
      using h(1) ok by (auto simp: ranges_ok_def range_set_def)
    ultimately have "r_base (hd ys) \<in> {b..<e} \<inter> free_set fr"
      by (auto simp: free_set_def not_le)
    with disj show False by simp
  qed
  ultimately show ?thesis
    using assms(2,3) unfolding pmm_insert_split [OF xs_def [symmetric] ys_def [symmetric]]
    by (auto simp: not_less not_le)
qed

definition ranges_aligned :: "pmm_range list \<Rightarrow> bool" where
  "ranges_aligned fr \<longleftrightarrow> (\<forall>r \<in> set fr. page_aligned (r_base r) \<and> page_aligned (r_end r))"

lemma pmm_insert_aligned:
  assumes "pmm_insert_free_range b e fr = Some fr'"
    and "ranges_aligned fr" and "page_aligned b" and "page_aligned e"
  shows "ranges_aligned fr'"
proof -
  define xs ys where "xs = takeWhile (\<lambda>r. r_base r < b) fr" and "ys = dropWhile (\<lambda>r. r_base r < b) fr"
  have fr: "fr = xs @ ys" by (simp add: xs_def ys_def)
  have "fr' = pmm_glue xs \<lparr>r_base = b, r_end = e\<rparr> ys"
    using assms(1) unfolding pmm_insert_split [OF xs_def [symmetric] ys_def [symmetric]]
    by (auto split: if_splits)
  with assms(2-4) show ?thesis unfolding fr
    by (cases xs rule: rev_cases; cases ys) (auto simp: pmm_glue_def ranges_aligned_def)
qed

subsection \<open>Best fit\<close>

abbreviation range_size :: "pmm_range \<Rightarrow> u64" where
  "range_size r \<equiv> r_end r - r_base r"

lemma pmm_best_fit_spec:
  "(pmm_best_fit bytes rs i best bs = best \<and>
     (\<forall>r \<in> set rs. \<not> (range_size r \<ge> bytes \<and> range_size r < bs))) \<or>
   (\<exists>j < length rs. pmm_best_fit bytes rs i best bs = i + j \<and> range_size (rs ! j) \<ge> bytes \<and>
     range_size (rs ! j) < bs \<and> (\<forall>r \<in> set rs. range_size r \<ge> bytes \<longrightarrow> range_size (rs ! j) \<le> range_size r))"
proof (induction rs arbitrary: i best bs)
  case (Cons r rs)
  show ?case
  proof (cases "range_size r \<ge> bytes \<and> range_size r < bs")
    case True
    from Cons.IH [of "Suc i" i "range_size r"] show ?thesis
    proof
      assume "pmm_best_fit bytes rs (Suc i) i (range_size r) = i \<and>
        (\<forall>q \<in> set rs. \<not> (range_size q \<ge> bytes \<and> range_size q < range_size r))"
      with True show ?thesis by (intro disjI2 exI [of _ 0]) (auto simp: not_less)
    next
      assume "\<exists>j < length rs. pmm_best_fit bytes rs (Suc i) i (range_size r) = Suc i + j \<and>
        range_size (rs ! j) \<ge> bytes \<and> range_size (rs ! j) < range_size r \<and>
        (\<forall>q \<in> set rs. range_size q \<ge> bytes \<longrightarrow> range_size (rs ! j) \<le> range_size q)"
      then obtain j where "j < length rs" "pmm_best_fit bytes rs (Suc i) i (range_size r) = Suc i + j"
        "range_size (rs ! j) \<ge> bytes" "range_size (rs ! j) < range_size r"
        "\<forall>q \<in> set rs. range_size q \<ge> bytes \<longrightarrow> range_size (rs ! j) \<le> range_size q" by blast
      with True show ?thesis by (intro disjI2 exI [of _ "Suc j"]) auto
    qed
  next
    case False
    from Cons.IH [of "Suc i" best bs] show ?thesis
    proof
      assume "pmm_best_fit bytes rs (Suc i) best bs = best \<and>
        (\<forall>q \<in> set rs. \<not> (range_size q \<ge> bytes \<and> range_size q < bs))"
      with False show ?thesis by auto
    next
      assume "\<exists>j < length rs. pmm_best_fit bytes rs (Suc i) best bs = Suc i + j \<and>
        range_size (rs ! j) \<ge> bytes \<and> range_size (rs ! j) < bs \<and>
        (\<forall>q \<in> set rs. range_size q \<ge> bytes \<longrightarrow> range_size (rs ! j) \<le> range_size q)"
      then obtain j where "j < length rs" "pmm_best_fit bytes rs (Suc i) best bs = Suc i + j"
        "range_size (rs ! j) \<ge> bytes" "range_size (rs ! j) < bs"
        "\<forall>q \<in> set rs. range_size q \<ge> bytes \<longrightarrow> range_size (rs ! j) \<le> range_size q" by blast
      with False show ?thesis by (intro disjI2 exI [of _ "Suc j"]) auto
    qed
  qed
qed simp

lemma pmm_carve:
  assumes ok: "ranges_ok fr" and i: "i < length fr"
    and b: "0 < bytes" "bytes \<le> range_size (fr ! i)"
    and fr': "fr' = (if r_base (fr ! i) + bytes = r_end (fr ! i) then delete_at i fr
                     else fr[i := (fr ! i)\<lparr>r_base := r_base (fr ! i) + bytes\<rparr>])"
  defines "hole \<equiv> {r_base (fr ! i)..<r_base (fr ! i) + bytes}"
  shows "ranges_ok fr'" and "free_set fr' = free_set fr - hole" and "hole \<subseteq> free_set fr"
    and "length fr' \<le> length fr" and "card hole = unat bytes"
    and "r_base (fr ! i) < r_base (fr ! i) + bytes"
proof -
  define r xs ys where "r = fr ! i" and "xs = take i fr" and "ys = drop (Suc i) fr"
  have fr: "fr = xs @ r # ys" and len: "length xs = i"
    using i by (simp_all add: r_def xs_def ys_def id_take_nth_drop)
  have r: "r_base r < r_end r" using ok fr by (simp add: ranges_ok_simps)
  have le: "r_base r + bytes \<le> r_end r" "r_base r < r_base r + bytes"
    "unat (r_base r + bytes) = unat (r_base r) + unat bytes"
    using word_add_within [of "r_base r" "r_end r" bytes] r b unfolding r_def [symmetric] by auto
  have f: "fr' = xs @ (if r_base r + bytes = r_end r then ys else r\<lparr>r_base := r_base r + bytes\<rparr> # ys)"
    unfolding fr' r_def [symmetric] using len by (simp add: fr list_update_append) (metis delete_at_append)
  show "ranges_ok fr'"
    using ok le unfolding f fr by (auto simp: ranges_ok_simps intro: order.strict_trans)
  have dx: "range_set p \<inter> hole = {}" if "p \<in> set xs \<union> set ys" for p
  proof -
    have "r_end p < r_base r \<or> r_end r < r_base p"
      using that ok unfolding fr by (auto simp: ranges_ok_simps)
    then show ?thesis
      using le unfolding range_set_def hole_def r_def [symmetric] by auto
  qed
  then have "free_set xs \<inter> hole = {}" "free_set ys \<inter> hole = {}"
    by (auto simp: free_set_def)
  moreover have "range_set r - hole = {r_base r + bytes..<r_end r}"
    using le r by (auto simp: range_set_def hole_def r_def [symmetric])
  ultimately show "free_set fr' = free_set fr - hole"
    unfolding f fr by (auto simp: range_set_def)
  show "hole \<subseteq> free_set fr" unfolding fr using le by (auto simp: hole_def range_set_def r_def [symmetric])
  show "length fr' \<le> length fr" unfolding f fr by simp
  show "card hole = unat bytes" unfolding hole_def r_def [symmetric] card_word_interval using le by simp
  show "r_base (fr ! i) < r_base (fr ! i) + bytes" using le(2) by (simp add: r_def)
qed

subsection \<open>The allocator invariant\<close>

definition region_set :: "mm \<Rightarrow> u64 set" where
  "region_set s = free_set (g_regions s)"

definition pmm_free :: "mm \<Rightarrow> u64 set" where
  "pmm_free s = free_set (g_free_ranges s)"

definition pmm_inv :: "mm \<Rightarrow> bool" where
  "pmm_inv s \<longleftrightarrow>
     ranges_ok (g_free_ranges s) \<and> ranges_aligned (g_free_ranges s) \<and>
     length (g_free_ranges s) \<le> PMM_MAX_FREE_RANGES \<and>
     pmm_free s \<subseteq> region_set s \<and>
     unat (g_allocated_bytes s) + card (pmm_free s) = card (region_set s) \<and>
     unat (g_total_usable_ram s) = card (region_set s)"

lemma unat_page_bytes: "count \<le> PMM_MAX_PAGES \<Longrightarrow> unat (count * PAGE_SIZE) = unat count * 4096"
proof -
  assume "count \<le> PMM_MAX_PAGES"
  then have "unat count \<le> 0x000FFFFFFFFFFFFF"
    by (simp add: PMM_MAX_PAGES_def word_le_nat_alt)
  then show ?thesis by (simp add: unat_word_ariths)
qed

lemma page_bytes_pos: "count \<noteq> 0 \<Longrightarrow> count \<le> PMM_MAX_PAGES \<Longrightarrow> 0 < count * PAGE_SIZE"
  by (simp add: word_less_nat_alt unat_page_bytes unat_gt_0)

text \<open>One allocation, case by case: rejected request, no fitting range, or a carved range.\<close>

lemma pmm_alloc_pages_cases:
  assumes "pmm_alloc_pages count s = (p, s')"
  obtains
    (bad) "count = 0 \<or> count > PMM_MAX_PAGES" "p = 0"
      "s' = s\<lparr>g_failed_allocations := g_failed_allocations s + 1\<rparr>"
  | (nofit) "count \<noteq> 0" "count \<le> PMM_MAX_PAGES" "p = 0"
      "s' = s\<lparr>g_failed_allocations := g_failed_allocations s + 1\<rparr>"
      "\<forall>r \<in> set (g_free_ranges s). \<not> (range_size r \<ge> count * PAGE_SIZE \<and> range_size r < - 1)"
  | (fit) i where "count \<noteq> 0" "count \<le> PMM_MAX_PAGES" "i < length (g_free_ranges s)"
      "p = r_base (g_free_ranges s ! i)" "count * PAGE_SIZE \<le> range_size (g_free_ranges s ! i)"
      "\<forall>r \<in> set (g_free_ranges s). range_size r \<ge> count * PAGE_SIZE \<longrightarrow>
         range_size (g_free_ranges s ! i) \<le> range_size r"
      "g_free_ranges s' = (if p + count * PAGE_SIZE = r_end (g_free_ranges s ! i)
         then delete_at i (g_free_ranges s)
         else (g_free_ranges s)[i := (g_free_ranges s ! i)\<lparr>r_base := p + count * PAGE_SIZE\<rparr>])"
      "g_regions s' = g_regions s" "g_total_usable_ram s' = g_total_usable_ram s"
      "g_allocated_bytes s' = g_allocated_bytes s + count * PAGE_SIZE"
      "g_kernel_pml4_phys s' = g_kernel_pml4_phys s" "cpu_cr3 s' = cpu_cr3 s"
      "phys_mem s' = (if p = 0 then phys_mem s
         else zero_words (drop_bit 3 p) (count * PAGE_SIZE div 8) (phys_mem s))"
proof -
  let ?fr = "g_free_ranges s" and ?bytes = "count * PAGE_SIZE"
  let ?best = "pmm_best_fit ?bytes ?fr 0 (length ?fr) (- 1)"
  show thesis
  proof (cases "count = 0 \<or> count > PMM_MAX_PAGES")
    case True
    with assms bad show thesis by (auto simp: pmm_alloc_pages_def)
  next
    case ok: False
    show thesis
    proof (cases "?best < length ?fr")
      case False
      with pmm_best_fit_spec [of ?bytes ?fr 0 "length ?fr" "- 1"]
      have "\<forall>r \<in> set ?fr. \<not> (range_size r \<ge> ?bytes \<and> range_size r < - 1)" by auto
      moreover have "p = 0 \<and> s' = s\<lparr>g_failed_allocations := g_failed_allocations s + 1\<rparr>"
        using ok False assms by (simp add: pmm_alloc_pages_def Let_def)
      ultimately show thesis using nofit ok by (meson not_less)
    next
      case True
      with pmm_best_fit_spec [of ?bytes ?fr 0 "length ?fr" "- 1"]
      have best: "range_size (?fr ! ?best) \<ge> ?bytes"
        "\<forall>r \<in> set ?fr. range_size r \<ge> ?bytes \<longrightarrow> range_size (?fr ! ?best) \<le> range_size r" by auto
      show thesis
        by (rule fit [OF _ _ True _ best(1)])
           (use ok True assms best in \<open>simp_all add: pmm_alloc_pages_def Let_def split: if_splits, auto\<close>)
    qed
  qed
qed

lemma card_region_bound: "pmm_inv s \<Longrightarrow> card (region_set s) < 2 ^ 64"
  using unsigned_less [of "g_total_usable_ram s", where ?'a = nat] by (simp add: pmm_inv_def)

lemma pmm_alloc_pages_ok:
  assumes inv: "pmm_inv s" and al: "pmm_alloc_pages count s = (p, s')"
  shows "pmm_inv s'" and "region_set s' = region_set s" and "pmm_free s' \<subseteq> pmm_free s"
    and "p \<noteq> 0 \<Longrightarrow> {p..<p + count * PAGE_SIZE} \<subseteq> pmm_free s"
    and "p \<noteq> 0 \<Longrightarrow> pmm_free s' = pmm_free s - {p..<p + count * PAGE_SIZE}"
    and "p \<noteq> 0 \<Longrightarrow> p < p + count * PAGE_SIZE"
    and "page_aligned p"
proof -
  have "pmm_inv s' \<and> region_set s' = region_set s \<and> pmm_free s' \<subseteq> pmm_free s \<and>
    (p \<noteq> 0 \<longrightarrow> {p..<p + count * PAGE_SIZE} \<subseteq> pmm_free s \<and>
       pmm_free s' = pmm_free s - {p..<p + count * PAGE_SIZE} \<and> p < p + count * PAGE_SIZE) \<and> page_aligned p"
    using al
  proof (cases rule: pmm_alloc_pages_cases)
    case bad
    with inv show ?thesis by (simp add: pmm_inv_def region_set_def pmm_free_def page_aligned_def)
  next
    case nofit
    with inv show ?thesis by (simp add: pmm_inv_def region_set_def pmm_free_def page_aligned_def)
  next
    case (fit i)
    have ok: "ranges_ok (g_free_ranges s)" and al: "ranges_aligned (g_free_ranges s)"
      and len: "length (g_free_ranges s) \<le> PMM_MAX_FREE_RANGES"
      and sub: "pmm_free s \<subseteq> region_set s"
      and acc: "unat (g_allocated_bytes s) + card (pmm_free s) = card (region_set s)"
      using inv by (simp_all add: pmm_inv_def)
    note carve = pmm_carve [OF ok fit(3) page_bytes_pos [OF fit(1,2)] fit(5) fit(7) [unfolded fit(4)], folded fit(4)]
    have reg: "region_set s' = region_set s" using fit by (simp add: region_set_def)
    have p: "page_aligned p" using al fit by (simp add: ranges_aligned_def)
    then have "page_aligned (p + count * PAGE_SIZE)"
      by (rule page_aligned_add) (rule page_aligned_mult)
    with al fit(3,7) have al': "ranges_aligned (g_free_ranges s')"
      by (auto simp: ranges_aligned_def dest!: set_mp [OF set_delete_at] set_mp [OF set_update_subset_insert])
    have free: "pmm_free s' = pmm_free s - {p..<p + count * PAGE_SIZE}"
      and cut: "{p..<p + count * PAGE_SIZE} \<subseteq> pmm_free s"
      using carve by (simp_all add: pmm_free_def)
    have fin: "finite (pmm_free s)" by simp
    have card: "card (pmm_free s') + unat (count * PAGE_SIZE) = card (pmm_free s)"
      using card_Diff_subset [OF _ cut] card_mono [OF fin cut] carve(5) by (simp add: free)
    have "unat (g_allocated_bytes s') = unat (g_allocated_bytes s) + unat (count * PAGE_SIZE)"
      using card acc card_region_bound [OF inv] by (simp add: fit(10) unat_word_ariths)
    with card acc have acc': "unat (g_allocated_bytes s') + card (pmm_free s') = card (region_set s')"
      using reg by simp
    have "pmm_inv s'"
      using carve(1,4) al' len sub free acc' reg inv fit(9) by (auto simp: pmm_inv_def)
    then show ?thesis using reg free cut carve(6) p by auto
  qed
  then show "pmm_inv s'" "region_set s' = region_set s" "pmm_free s' \<subseteq> pmm_free s"
    "p \<noteq> 0 \<Longrightarrow> {p..<p + count * PAGE_SIZE} \<subseteq> pmm_free s"
    "p \<noteq> 0 \<Longrightarrow> pmm_free s' = pmm_free s - {p..<p + count * PAGE_SIZE}"
    "p \<noteq> 0 \<Longrightarrow> p < p + count * PAGE_SIZE" "page_aligned p" by blast+
qed

lemma range_overlaps_iff:
  assumes "b < e" and "r_base r < r_end r"
  shows "range_overlaps b e (r_base r) (r_end r) \<longleftrightarrow> {b..<e} \<inter> range_set r \<noteq> {}"
proof
  assume "range_overlaps b e (r_base r) (r_end r)"
  then have "max b (r_base r) \<in> {b..<e} \<inter> range_set r"
    using assms by (auto simp: range_overlaps_def range_set_def max_def)
  then show "{b..<e} \<inter> range_set r \<noteq> {}" by blast
next
  assume "{b..<e} \<inter> range_set r \<noteq> {}"
  then obtain x where "x \<in> {b..<e} \<inter> range_set r" by (meson ex_in_conv)
  then have "b \<le> x" "x < e" "r_base r \<le> x" "x < r_end r" by (simp_all add: range_set_def)
  then show "range_overlaps b e (r_base r) (r_end r)"
    by (auto simp: range_overlaps_def)
qed

lemma overlap_scan_iff:
  assumes "ranges_ok fr" and "b < e"
  shows "(\<exists>r \<in> set fr. range_overlaps b e (r_base r) (r_end r)) \<longleftrightarrow> {b..<e} \<inter> free_set fr \<noteq> {}"
  using assms range_overlaps_iff [OF assms(2)] by (auto simp: ranges_ok_def free_set_def)

definition pmm_can_free :: "u64 \<Rightarrow> u64 \<Rightarrow> mm \<Rightarrow> bool" where
  "pmm_can_free phys count s \<longleftrightarrow>
     count \<noteq> 0 \<and> page_aligned phys \<and> count \<le> PMM_MAX_PAGES \<and> phys \<le> phys + count * PAGE_SIZE \<and>
     pmm_managed_range (g_regions s) phys (phys + count * PAGE_SIZE) \<and>
     {phys..<phys + count * PAGE_SIZE} \<inter> pmm_free s = {} \<and>
     length (g_free_ranges s) < PMM_MAX_FREE_RANGES"

lemma pmm_free_pages_cases:
  assumes inv: "pmm_inv s"
  shows "\<not> pmm_can_free phys count s \<Longrightarrow> pmm_free_pages phys count s = (- 1, s)"
    and "pmm_can_free phys count s \<Longrightarrow>
      \<exists>fr. pmm_insert_free_range phys (phys + count * PAGE_SIZE) (g_free_ranges s) = Some fr \<and>
        pmm_free_pages phys count s =
          (0, s\<lparr>g_free_ranges := fr,
               g_allocated_bytes := (if g_allocated_bytes s \<ge> count * PAGE_SIZE
                 then g_allocated_bytes s - count * PAGE_SIZE else 0),
               g_free_count := g_free_count s + 1\<rparr>)"
proof -
  let ?e = "phys + count * PAGE_SIZE" and ?fr = "g_free_ranges s"
  have ok: "ranges_ok ?fr" using inv by (simp add: pmm_inv_def)
  show "pmm_free_pages phys count s = (- 1, s)" if no: "\<not> pmm_can_free phys count s"
  proof (cases "phys < ?e")
    case True
    have "pmm_insert_free_range phys ?e ?fr = None" if "\<not> length ?fr < PMM_MAX_FREE_RANGES"
      using that by (simp add: pmm_insert_free_range_def)
    with no True overlap_scan_iff [OF ok True] show ?thesis
      by (auto simp: pmm_free_pages_def pmm_can_free_def page_aligned_def pmm_free_def Let_def not_less
          split: if_splits option.splits)
  next
    case False
    then have "pmm_insert_free_range phys ?e ?fr = None"
      by (simp add: pmm_insert_free_range_def not_less)
    then show ?thesis by (simp add: pmm_free_pages_def Let_def)
  qed
  assume can: "pmm_can_free phys count s"
  have bytes: "0 < count * PAGE_SIZE" using can by (intro page_bytes_pos) (simp_all add: pmm_can_free_def)
  have lt: "phys < ?e"
  proof -
    have "phys \<noteq> ?e" using bytes by (metis add_cancel_right_right less_irrefl)
    with can show ?thesis by (auto simp: pmm_can_free_def le_less)
  qed
  obtain fr where fr: "pmm_insert_free_range phys ?e ?fr = Some fr"
    using pmm_insert_succeeds [OF ok lt] can by (auto simp: pmm_can_free_def pmm_free_def)
  have "\<not> (\<exists>r \<in> set ?fr. range_overlaps phys ?e (r_base r) (r_end r))"
    using overlap_scan_iff [OF ok lt] can by (simp add: pmm_can_free_def pmm_free_def)
  with can fr show "\<exists>fr. pmm_insert_free_range phys ?e ?fr = Some fr \<and> pmm_free_pages phys count s =
      (0, s\<lparr>g_free_ranges := fr,
           g_allocated_bytes := (if g_allocated_bytes s \<ge> count * PAGE_SIZE
             then g_allocated_bytes s - count * PAGE_SIZE else 0),
           g_free_count := g_free_count s + 1\<rparr>)"
    by (simp add: pmm_free_pages_def pmm_can_free_def page_aligned_def Let_def not_less)
qed

lemma pmm_free_pages_ok:
  assumes inv: "pmm_inv s" and can: "pmm_can_free phys count s"
  obtains s' where "pmm_free_pages phys count s = (0, s')" "pmm_inv s'"
    "pmm_free s' = pmm_free s \<union> {phys..<phys + count * PAGE_SIZE}"
    "region_set s' = region_set s" "g_regions s' = g_regions s" "phys_mem s' = phys_mem s"
    "g_kernel_pml4_phys s' = g_kernel_pml4_phys s" "cpu_cr3 s' = cpu_cr3 s"
    "unat (g_allocated_bytes s') + unat (count * PAGE_SIZE) = unat (g_allocated_bytes s)"
proof -
  let ?e = "phys + count * PAGE_SIZE" and ?hole = "{phys..<phys + count * PAGE_SIZE}"
  obtain fr where ins: "pmm_insert_free_range phys ?e (g_free_ranges s) = Some fr" and
    res: "pmm_free_pages phys count s =
          (0, s\<lparr>g_free_ranges := fr,
               g_allocated_bytes := (if g_allocated_bytes s \<ge> count * PAGE_SIZE
                 then g_allocated_bytes s - count * PAGE_SIZE else 0),
               g_free_count := g_free_count s + 1\<rparr>)" (is "_ = (0, ?s')")
    using pmm_free_pages_cases(2) [OF inv can] by blast
  have i: "ranges_ok (g_free_ranges s)" "ranges_aligned (g_free_ranges s)"
    "pmm_free s \<subseteq> region_set s" "unat (g_allocated_bytes s) + card (pmm_free s) = card (region_set s)"
    using inv by (simp_all add: pmm_inv_def)
  note ins_ok = pmm_insert_ok [OF i(1) ins]
  have al: "page_aligned phys" using can by (simp add: pmm_can_free_def)
  have al': "ranges_aligned fr"
    by (rule pmm_insert_aligned [OF ins i(2) al page_aligned_add [OF al page_aligned_mult]])
  have hole: "?hole \<subseteq> region_set s"
    using can by (auto simp: pmm_can_free_def pmm_managed_range_def region_set_def free_set_def range_set_def)
       (meson order.trans order.strict_trans2)
  have bytes: "card ?hole = unat (count * PAGE_SIZE)"
  proof -
    have "unat (?e - phys) = unat ?e - unat phys"
      using ins_ok(1) by (intro unat_sub) (rule less_imp_le)
    then show ?thesis by (simp add: card_word_interval)
  qed
  have card: "card (pmm_free s \<union> ?hole) = card (pmm_free s) + unat (count * PAGE_SIZE)"
    using can bytes by (subst card_Un_disjoint) (auto simp: pmm_can_free_def)
  have "card (pmm_free s \<union> ?hole) \<le> card (region_set s)"
    using i(3) hole by (intro card_mono) auto
  with card i(4) have le: "unat (count * PAGE_SIZE) \<le> unat (g_allocated_bytes s)" by simp
  then have acc: "unat (g_allocated_bytes ?s') + unat (count * PAGE_SIZE) = unat (g_allocated_bytes s)"
    by (simp add: word_le_nat_alt unat_sub)
  have free: "pmm_free ?s' = pmm_free s \<union> ?hole" using ins_ok(3) by (simp add: pmm_free_def)
  have reg: "region_set ?s' = region_set s" by (simp add: region_set_def)
  have "pmm_inv ?s'"
    unfolding pmm_inv_def reg free
    using ins_ok al' i(3) hole acc card i(4) inv by (auto simp: pmm_inv_def)
  then show thesis by (rule that [OF res _ free reg]) (use acc in simp_all)
qed

subsection \<open>Initialisation from the boot memory map\<close>

text \<open>
  What the boot loader documents about its memory map: usable entries lie in the 52-bit physical
  address space of the architecture and do not overlap each other.
\<close>

definition entry_set :: "memmap_entry \<Rightarrow> u64 set" where
  "entry_set e = {e_base e..<e_base e + e_length e}"

definition memmap_ok :: "memmap_entry list \<Rightarrow> bool" where
  "memmap_ok es \<longleftrightarrow>
     (\<forall>e \<in> set es. e_type e = LIMINE_MEMMAP_USABLE \<longrightarrow> unat (e_base e) + unat (e_length e) \<le> 2 ^ 52) \<and>
     sorted_wrt (\<lambda>a b. e_type a = LIMINE_MEMMAP_USABLE \<longrightarrow> e_type b = LIMINE_MEMMAP_USABLE \<longrightarrow>
       entry_set a \<inter> entry_set b = {}) es"

definition regions_ok :: "pmm_range list \<Rightarrow> bool" where
  "regions_ok rs \<longleftrightarrow>
     (\<forall>r \<in> set rs. r_base r < r_end r \<and> page_aligned (r_base r) \<and> page_aligned (r_end r)) \<and>
     sorted_wrt (\<lambda>a b. range_set a \<inter> range_set b = {}) rs"

lemma entry_rounding:
  assumes bound: "unat (e_base e) + unat (e_length e) \<le> 2 ^ 52"
    and b: "b = (e_base e + PAGE_SIZE - 1) AND NOT (PAGE_SIZE - 1)"
    and n: "n = (e_base e + e_length e) AND NOT (PAGE_SIZE - 1)"
  shows "{b..<n} \<subseteq> entry_set e" and "page_aligned b" and "page_aligned n"
    and "entry_set e \<subseteq> {..<2 ^ 52}"
proof -
  have bn: "b = page_down (e_base e + 4095)" "n = page_down (e_base e + e_length e)"
    unfolding b n page_down_def by (simp_all add: algebra_simps)
  then show "page_aligned b" "page_aligned n" by (simp_all add: page_aligned_page_down)
  have sum: "unat (e_base e + e_length e) = unat (e_base e) + unat (e_length e)"
    "unat (e_base e + 4095) = unat (e_base e) + 4095"
    using bound by (simp_all add: unat_word_ariths)
  have "unat (e_base e) \<le> unat b"
    unfolding bn unat_page_down sum
    using mod_less_divisor [of 4096 "unat (e_base e) + 4095"] by linarith
  moreover have "unat n \<le> unat (e_base e + e_length e)"
    unfolding bn unat_page_down by simp
  ultimately show "{b..<n} \<subseteq> entry_set e"
    by (auto simp: entry_set_def word_le_nat_alt word_less_nat_alt)
  show "entry_set e \<subseteq> {..<2 ^ 52}"
    using bound sum by (auto simp: entry_set_def word_less_nat_alt)
qed

lemma pmm_scan_memmap_ok:
  assumes "pmm_scan_memmap es regs tot = (regs', tot')" and "memmap_ok es" and "regions_ok regs"
    and "\<forall>e \<in> set es. e_type e = LIMINE_MEMMAP_USABLE \<longrightarrow> free_set regs \<inter> entry_set e = {}"
    and "free_set regs \<subseteq> {..<2 ^ 52}" and "unat tot = card (free_set regs)"
    and "length regs \<le> PMM_MAX_REGIONS"
  shows "regions_ok regs' \<and> free_set regs' \<subseteq> {..<2 ^ 52} \<and> unat tot' = card (free_set regs') \<and>
    length regs' \<le> PMM_MAX_REGIONS"
  using assms
proof (induction es arbitrary: regs tot)
  case Nil
  then show ?case by simp
next
  case (Cons e es)
  note prems = Cons.prems
  have es: "memmap_ok es" using prems(2) by (simp add: memmap_ok_def)
  define b n where "b = (e_base e + PAGE_SIZE - 1) AND NOT (PAGE_SIZE - 1)"
    and "n = (e_base e + e_length e) AND NOT (PAGE_SIZE - 1)"
  show ?case
  proof (cases "e_type e \<noteq> 0 \<or> PMM_MAX_REGIONS \<le> length regs \<or> e_base e + e_length e < e_base e \<or> n \<le> b")
    case True
    then have "pmm_scan_memmap es regs tot = (regs', tot')"
      using prems(1) by (auto simp: b_def n_def Let_def split: if_splits)
    then show ?thesis by (rule Cons.IH) (use prems es in auto)
  next
    case False
    then have bn: "b < n" and us: "e_type e = 0" and len: "length regs < PMM_MAX_REGIONS" by auto
    let ?r = "\<lparr>r_base = b, r_end = n\<rparr>"
    have "unat (e_base e) + unat (e_length e) \<le> 2 ^ 52" using prems(2) us by (simp add: memmap_ok_def)
    note round = entry_rounding [OF this b_def n_def]
    have step: "pmm_scan_memmap es (regs @ [?r]) (tot + (n - b)) = (regs', tot')"
      using prems(1) False by (simp add: b_def n_def Let_def)
    have disj: "free_set regs \<inter> {b..<n} = {}" using prems(4) us round(1) by fastforce
    have "range_set ?r = {b..<n}" by (simp add: range_set_def)
    moreover from disj have "\<forall>x \<in> set regs. range_set x \<inter> {b..<n} = {}" unfolding free_set_def by blast
    ultimately have "regions_ok (regs @ [?r])"
      using prems(3) bn round(2,3) by (auto simp: regions_ok_def sorted_wrt_append)
    moreover have "\<forall>e' \<in> set es. e_type e' = 0 \<longrightarrow> free_set (regs @ [?r]) \<inter> entry_set e' = {}"
      using prems(2,4) us round(1) by (fastforce simp: memmap_ok_def range_set_def)
    moreover have sub: "free_set (regs @ [?r]) \<subseteq> {..<2 ^ 52}"
      using prems(5) round(1,4) by (auto simp: range_set_def)
    moreover have "unat (tot + (n - b)) = card (free_set (regs @ [?r]))"
    proof -
      have "card (free_set (regs @ [?r])) = unat tot + unat (n - b)"
        using disj bn prems(6) by (simp add: range_set_def card_Un_disjoint card_word_interval unat_sub)
      moreover have "card (free_set (regs @ [?r])) \<le> card {..<2 ^ 52 :: u64}"
        by (rule card_mono [OF _ sub]) simp
      moreover have "card {..<2 ^ 52 :: u64} = 2 ^ 52"
        unfolding word_lessThan card_word_interval by simp
      ultimately show ?thesis by (simp add: unat_word_ariths)
    qed
    ultimately show ?thesis
      by (intro Cons.IH [OF step es]) (use len in simp_all)
  qed
qed

lemma pmm_seed_ok:
  assumes "regions_ok rs" and "ranges_ok fr" and "ranges_aligned fr"
    and "\<forall>r \<in> set rs. range_set r \<inter> free_set fr = {}"
    and "length fr + length rs < PMM_MAX_FREE_RANGES"
  shows "ranges_ok (pmm_seed rs fr) \<and> ranges_aligned (pmm_seed rs fr) \<and>
    free_set (pmm_seed rs fr) = free_set fr \<union> free_set rs \<and> length (pmm_seed rs fr) \<le> length fr + length rs"
  using assms
proof (induction rs arbitrary: fr)
  case Nil
  then show ?case by (simp add: pmm_seed_def)
next
  case (Cons r rs)
  have r: "r_base r < r_end r" "page_aligned (r_base r)" "page_aligned (r_end r)" "regions_ok rs"
    "\<forall>q \<in> set rs. range_set r \<inter> range_set q = {}"
    using Cons.prems(1) by (auto simp: regions_ok_def)
  have "{r_base r..<r_end r} \<inter> free_set fr = {}"
    using Cons.prems(4) by (simp add: range_set_def)
  then obtain fr' where ins: "pmm_insert_free_range (r_base r) (r_end r) fr = Some fr'"
    using pmm_insert_succeeds [OF Cons.prems(2) r(1)] Cons.prems(5) by auto
  note ok = pmm_insert_ok [OF Cons.prems(2) ins]
  have len: "length fr' \<le> Suc (length fr)" by (rule pmm_insert_length [OF ins])
  have seed: "pmm_seed (r # rs) fr = pmm_seed rs fr'" by (simp add: pmm_seed_def ins)
  have "\<forall>q \<in> set rs. range_set q \<inter> free_set fr' = {}"
    using Cons.prems(4) r(5) unfolding ok(3) range_set_def [of r, symmetric] by fastforce
  from Cons.IH [OF r(4) ok(2) pmm_insert_aligned [OF ins Cons.prems(3) r(2,3)] this] len Cons.prems(5)
  show ?case unfolding seed using ok(3) by (auto simp: range_set_def)
qed

lemma pmm_init_inv:
  assumes "memmap_ok es"
  shows "pmm_inv (pmm_init (Some es) s) \<and> pmm_free (pmm_init (Some es) s) = region_set (pmm_init (Some es) s)"
proof -
  obtain rs tot where scan: "pmm_scan_memmap es [] 0 = (rs, tot)" by force
  have sc: "regions_ok rs" "free_set rs \<subseteq> {..<2 ^ 52}" "unat tot = card (free_set rs)"
    "length rs \<le> PMM_MAX_REGIONS"
    using pmm_scan_memmap_ok [OF scan assms] by (simp_all add: regions_ok_def)
  define rs' tot' where "rs' = (if rs = [] then [\<lparr>r_base = 0x02000000, r_end = 0x02200000\<rparr>] else rs)"
    and "tot' = (if rs = [] then 0x02200000 - 0x02000000 else tot)"
  have rs': "regions_ok rs' \<and> unat tot' = card (free_set rs') \<and> length rs' \<le> PMM_MAX_REGIONS"
    using sc by (auto simp: rs'_def tot'_def regions_ok_def page_aligned_def range_set_def card_word_interval)
  have seed: "ranges_ok (pmm_seed rs' [])" "ranges_aligned (pmm_seed rs' [])"
    "free_set (pmm_seed rs' []) = free_set rs'" "length (pmm_seed rs' []) \<le> length rs'"
    using pmm_seed_ok [of rs' "[]"] rs' by (simp_all add: ranges_ok_simps ranges_aligned_def)
  have eq: "g_free_ranges (pmm_init (Some es) s) = pmm_seed rs' []" "g_regions (pmm_init (Some es) s) = rs'"
    "g_total_usable_ram (pmm_init (Some es) s) = tot'" "g_allocated_bytes (pmm_init (Some es) s) = 0"
    by (simp_all add: pmm_init_def scan rs'_def tot'_def)
  show ?thesis
    using seed rs' by (simp add: pmm_inv_def pmm_free_def region_set_def eq)
qed

subsection \<open>Free ranges are a canonical form\<close>

lemma ranges_ok_end_notin:
  assumes "ranges_ok (r # fr)"
  shows "r_end r \<notin> free_set (r # fr)" and "\<forall>x \<in> free_set (r # fr). r_base r \<le> x"
    and "range_set r \<inter> free_set fr = {}"
  using assms by (fastforce simp: ranges_ok_simps range_set_def free_set_def)+

lemma ranges_ok_unique:
  assumes "ranges_ok xs" and "ranges_ok ys" and "free_set xs = free_set ys"
  shows "xs = ys"
  using assms
proof (induction xs arbitrary: ys)
  case Nil
  then show ?case
    by (cases ys) (auto simp: ranges_ok_simps range_set_def)
next
  case (Cons r xs)
  have rin: "r_base r \<in> free_set (r # xs)" using Cons.prems(1) by (simp add: ranges_ok_simps range_set_def)
  show ?case
  proof (cases ys)
    case Nil
    with Cons.prems rin show ?thesis by auto
  next
    case ys: (Cons q ys')
    have qin: "r_base q \<in> free_set (q # ys')" using Cons.prems(2) ys by (simp add: ranges_ok_simps range_set_def)
    note er = ranges_ok_end_notin [OF Cons.prems(1)]
      and eq = ranges_ok_end_notin [OF Cons.prems(2) [unfolded ys]]
    have set_eq: "free_set (r # xs) = free_set (q # ys')" using Cons.prems(3) ys by simp
    have b: "r_base r = r_base q"
      using er(2) eq(2) rin qin set_eq by (metis order.antisym)
    have bounds: "r_base r < r_end r" "r_base q < r_end q"
      using Cons.prems(1,2) ys by (simp_all add: ranges_ok_simps)
    have e: "r_end r = r_end q"
    proof (rule ccontr)
      assume "r_end r \<noteq> r_end q"
      then have "r_end r \<in> range_set q \<or> r_end q \<in> range_set r"
        using b bounds by (auto simp: range_set_def)
      with er(1) eq(1) set_eq show False by auto
    qed
    from b e have "r = q" by simp
    moreover have "free_set xs = free_set ys'"
      using set_eq er(3) eq(3) \<open>r = q\<close> by auto
    ultimately show ?thesis
      using Cons ys by (auto simp: ranges_ok_simps)
  qed
qed

subsection \<open>The interface of a page pool\<close>

definition frame_bytes :: "u64 \<Rightarrow> u64 \<Rightarrow> u64 set" where
  "frame_bytes p n = {p..<p + n * PAGE_SIZE}"

text \<open>
  What clients of the allocator rely on: allocation hands out bytes that were free and are then
  not free, release puts back exactly the released bytes or refuses without effect.
\<close>

locale page_pool =
  fixes inv :: "'s \<Rightarrow> bool"
    and free :: "'s \<Rightarrow> u64 set"
    and alloc :: "u64 \<Rightarrow> 's \<Rightarrow> u64 \<times> 's"
    and release :: "u64 \<Rightarrow> u64 \<Rightarrow> 's \<Rightarrow> int \<times> 's"
    and releasable :: "u64 \<Rightarrow> u64 \<Rightarrow> 's \<Rightarrow> bool"
  assumes alloc_inv: "inv s \<Longrightarrow> alloc n s = (p, s') \<Longrightarrow> inv s'"
    and alloc_shrinks: "inv s \<Longrightarrow> alloc n s = (p, s') \<Longrightarrow> free s' \<subseteq> free s"
    and alloc_takes: "inv s \<Longrightarrow> alloc n s = (p, s') \<Longrightarrow> p \<noteq> 0 \<Longrightarrow>
          frame_bytes p n \<subseteq> free s \<and> free s' = free s - frame_bytes p n \<and> p \<in> frame_bytes p n"
    and release_gives: "inv s \<Longrightarrow> releasable p n s \<Longrightarrow>
          \<exists>s'. release p n s = (0, s') \<and> inv s' \<and> free s' = free s \<union> frame_bytes p n"
    and release_refuses: "inv s \<Longrightarrow> \<not> releasable p n s \<Longrightarrow> release p n s = (- 1, s)"
    and releasable_disjoint: "releasable p n s \<Longrightarrow> frame_bytes p n \<inter> free s = {} \<and> p \<in> frame_bytes p n"
begin

lemma allocs_disjoint:
  assumes "inv s" "alloc n s = (p, s1)" "p \<noteq> 0" "alloc m s1 = (q, s2)" "q \<noteq> 0"
  shows "frame_bytes p n \<inter> frame_bytes q m = {}"
proof -
  have "free s1 = free s - frame_bytes p n" using alloc_takes [OF assms(1,2,3)] by (elim conjE)
  moreover have "frame_bytes q m \<subseteq> free s1"
    using alloc_takes [OF alloc_inv [OF assms(1,2)] assms(4,5)] by (elim conjE)
  ultimately show ?thesis by auto
qed

lemma double_release_refused:
  assumes "inv s" "release p n s = (0, s')"
  shows "release p n s' = (- 1, s')"
proof -
  have "releasable p n s" using assms release_refuses by fastforce
  from release_gives [OF assms(1) this] assms(2)
  have inv': "inv s'" and "free s' = free s \<union> frame_bytes p n" by simp_all
  moreover have "p \<in> frame_bytes p n" using releasable_disjoint [OF \<open>releasable p n s\<close>] by (elim conjE)
  ultimately have "p \<in> frame_bytes p n \<inter> free s'" by simp
  then have "\<not> releasable p n s'" using releasable_disjoint [of p n s'] by auto
  with inv' show ?thesis by (rule release_refuses)
qed

lemma alloc_release:
  assumes "inv s" "alloc n s = (p, s1)" "p \<noteq> 0" "releasable p n s1"
  shows "\<exists>s2. release p n s1 = (0, s2) \<and> inv s2 \<and> free s2 = free s"
proof -
  have "frame_bytes p n \<subseteq> free s" "free s1 = free s - frame_bytes p n"
    using alloc_takes [OF assms(1-3)] by simp_all
  then have "free s1 \<union> frame_bytes p n = free s" by auto
  with release_gives [OF alloc_inv [OF assms(1,2)] assms(4)] show ?thesis by simp
qed

end

lemma pmm_can_free_start:
  assumes "pmm_can_free p n s"
  shows "p < p + n * PAGE_SIZE"
proof -
  have "0 < n * PAGE_SIZE" using assms by (intro page_bytes_pos) (simp_all add: pmm_can_free_def)
  then have "p \<noteq> p + n * PAGE_SIZE" by (metis add_cancel_right_right less_irrefl)
  with assms show ?thesis by (auto simp: pmm_can_free_def le_less)
qed

interpretation pmm: page_pool pmm_inv pmm_free pmm_alloc_pages pmm_free_pages pmm_can_free
proof (unfold_locales, goal_cases)
  case (1 s n p s')
  then show ?case by (rule pmm_alloc_pages_ok(1))
next
  case (2 s n p s')
  then show ?case by (rule pmm_alloc_pages_ok(3))
next
  case (3 s n p s')
  show ?case using pmm_alloc_pages_ok(4-6) [OF 3(1,2) 3(3)] by (simp add: frame_bytes_def)
next
  case (4 s p n)
  show ?case by (rule pmm_free_pages_ok [OF 4]) (simp add: frame_bytes_def)
next
  case (5 s p n)
  then show ?case by (rule pmm_free_pages_cases(1))
next
  case (6 p n s)
  then show ?case using pmm_can_free_start [OF 6] by (simp add: pmm_can_free_def frame_bytes_def)
qed

subsection \<open>Accounting\<close>

lemma pmm_diag_scan_ok:
  assumes "ranges_ok fr" and "unat acc + card (free_set fr) < 2 ^ 64"
  shows "unat (fst (pmm_diag_scan fr acc lg)) = unat acc + card (free_set fr)"
    and "snd (pmm_diag_scan fr acc lg) = Max (insert lg (range_size ` set fr))"
proof -
  show "unat (fst (pmm_diag_scan fr acc lg)) = unat acc + card (free_set fr)"
    using assms
  proof (induction fr arbitrary: acc lg)
    case (Cons r fr)
    have r: "r_base r < r_end r" using Cons.prems(1) by (simp add: ranges_ok_simps)
    have "card (free_set (r # fr)) = unat (range_size r) + card (free_set fr)"
      using ranges_ok_end_notin(3) [OF Cons.prems(1)] r
      by (simp add: card_Un_disjoint range_set_def card_word_interval unat_sub)
    moreover from this Cons.prems(2) have "unat (acc + range_size r) = unat acc + unat (range_size r)"
      by (simp add: unat_word_ariths)
    ultimately show ?case
      using Cons.IH [of "acc + range_size r"] Cons.prems by (simp add: ranges_ok_simps Let_def)
  qed simp
  show "snd (pmm_diag_scan fr acc lg) = Max (insert lg (range_size ` set fr))"
  proof (induction fr arbitrary: acc lg)
    case (Cons r fr)
    have "Max (insert (if range_size r > lg then range_size r else lg) (range_size ` set fr)) =
      Max (insert lg (range_size ` set (r # fr)))"
      by (cases "set fr = {}") (auto simp: max_def)
    with Cons show ?case by (simp add: Let_def)
  qed simp
qed

subsection \<open>Runs of the allocator\<close>

text \<open>
  The allocator after boot: any interleaving of allocations and releases with any arguments, and
  of stores by the holders of memory.
\<close>

inductive pmm_reach :: "memmap_entry list \<Rightarrow> mm \<Rightarrow> bool" for es where
  boot: "pmm_reach es (pmm_init (Some es) s)"
| alloc: "pmm_reach es s \<Longrightarrow> pmm_alloc_pages n s = (p, s') \<Longrightarrow> pmm_reach es s'"
| free: "pmm_reach es s \<Longrightarrow> pmm_free_pages p n s = (r, s') \<Longrightarrow> pmm_reach es s'"
| store: "pmm_reach es s \<Longrightarrow> pmm_reach es (s\<lparr>phys_mem := m\<rparr>)"

lemma pmm_free_pages_inv [inv_intros]:
  assumes "pmm_inv s" and "pmm_free_pages p n s = (r, s')"
  shows "pmm_inv s'"
proof (cases "pmm_can_free p n s")
  case True
  from pmm.release_gives [OF assms(1) this] assms(2) show ?thesis by auto
next
  case False
  from pmm.release_refuses [OF assms(1) this] assms show ?thesis by simp
qed

lemma pmm_reach_inv: "pmm_reach es s \<Longrightarrow> memmap_ok es \<Longrightarrow> pmm_inv s"
proof (induction rule: pmm_reach.induct)
  case (boot s)
  then show ?case by (simp add: pmm_init_inv)
next
  case (alloc s n p s')
  then show ?case by (blast intro: pmm.alloc_inv)
next
  case (free s p n r s')
  then show ?case by (blast intro: pmm_free_pages_inv)
next
  case (store s m)
  then show ?case by (simp add: pmm_inv_def pmm_free_def region_set_def)
qed

subsection \<open>Properties\<close>

text \<open>A concrete machine for the witnesses: zeroed statics and memory, and one usable megabyte.\<close>

definition mm_zero :: mm where
  "mm_zero = \<lparr>g_regions = [], g_free_ranges = [], g_kernel_pml4_phys = 0, g_total_usable_ram = 0,
     g_allocated_bytes = 0, g_peak_allocated_bytes = 0, g_allocation_count = 0, g_free_count = 0,
     g_failed_allocations = 0, cpu_cr3 = 0, phys_mem = (\<lambda>_. 0)\<rparr>"

definition memmap_example :: "memmap_entry list" where
  "memmap_example = [\<lparr>e_base = 0x100000, e_length = 0x100000, e_type = 0\<rparr>]"

definition mm_example :: mm where
  "mm_example = pmm_init (Some memmap_example) mm_zero"

lemma memmap_example_ok: "memmap_ok memmap_example"
  by (simp add: memmap_ok_def memmap_example_def)

lemma mm_example_simps:
  "g_regions mm_example = [\<lparr>r_base = 0x100000, r_end = 0x200000\<rparr>]"
  "g_free_ranges mm_example = [\<lparr>r_base = 0x100000, r_end = 0x200000\<rparr>]"
  "g_allocated_bytes mm_example = 0"
  "pmm_inv mm_example"
  by (simp_all add: mm_example_def pmm_init_inv memmap_example_ok)
     (simp_all add: pmm_init_def memmap_example_def pmm_seed_def pmm_insert_free_range_def insert_at_def mm_zero_def)

text \<open>
  C1. In every state the allocator can reach from boot on a well-formed memory map, the free table is
  sorted, disjoint, coalesced, page aligned, within its bound and inside managed memory, and the
  reported figures are exact: the used bytes of \<open>pmm_get_stats\<close> plus the free bytes of
  \<open>pmm_get_diagnostics\<close> are the total usable memory.
\<close>

theorem pmm_reachable_exact:
  assumes "memmap_ok es" and "pmm_reach es s"
  shows "pmm_inv s \<and>
    unat (snd (pmm_get_stats s)) + unat (d_free_bytes (pmm_get_diagnostics s)) = unat (fst (pmm_get_stats s)) \<and>
    snd (pmm_get_stats s) = g_allocated_bytes s"
proof -
  have inv: "pmm_inv s" by (rule pmm_reach_inv [OF assms(2,1)])
  then have ok: "ranges_ok (g_free_ranges s)" and
    acc: "unat (g_allocated_bytes s) + card (pmm_free s) = unat (g_total_usable_ram s)"
    by (simp_all add: pmm_inv_def)
  have "card (pmm_free s) < 2 ^ 64"
    using acc card_region_bound [OF inv] inv by (simp add: pmm_inv_def)
  then have "unat (d_free_bytes (pmm_get_diagnostics s)) = card (pmm_free s)"
    using pmm_diag_scan_ok(1) [OF ok, of 0 0]
    by (simp add: pmm_get_diagnostics_def pmm_free_def case_prod_beta)
  moreover have "\<not> g_allocated_bytes s > g_total_usable_ram s"
    using acc by (simp add: word_less_nat_alt)
  ultimately show ?thesis using inv acc by (simp add: pmm_get_stats_def)
qed

theorem pmm_reachable_exact_witness:
  "pmm_reach memmap_example (snd (pmm_alloc_pages 3 mm_example)) \<and>
   g_allocated_bytes (snd (pmm_alloc_pages 3 mm_example)) = 0x3000 \<and>
   snd (pmm_get_stats (snd (pmm_alloc_pages 3 mm_example))) = 0x3000"
proof -
  have r: "pmm_reach memmap_example (snd (pmm_alloc_pages 3 mm_example))"
    by (rule pmm_reach.alloc [of _ mm_example 3 "fst (pmm_alloc_pages 3 mm_example)"])
       (simp_all add: mm_example_def pmm_reach.boot)
  have "g_allocated_bytes (snd (pmm_alloc_pages 3 mm_example)) = 0x3000"
    by (simp add: pmm_alloc_pages_def mm_example_simps PMM_MAX_PAGES_def)
  with r pmm_reachable_exact [OF memmap_example_ok r] show ?thesis by simp
qed

text \<open>
  C2. A successful \<open>pmm_alloc_pages\<close> returns a page-aligned run of managed bytes that were free and
  now are not, and nothing else leaves the free set; the run is cut from the front of a smallest
  sufficient free range (best fit); every word of the run reads zero afterwards and no other word of
  physical memory has changed.
\<close>

theorem pmm_alloc_pages_correct:
  assumes inv: "pmm_inv s" and al: "pmm_alloc_pages n s = (p, s')" and p: "p \<noteq> 0"
  shows "page_aligned p \<and> p < p + n * PAGE_SIZE \<and>
    frame_bytes p n \<subseteq> pmm_free s \<and> frame_bytes p n \<subseteq> region_set s \<and>
    pmm_free s' = pmm_free s - frame_bytes p n \<and>
    (\<exists>r \<in> set (g_free_ranges s). r_base r = p \<and>
       (\<forall>q \<in> set (g_free_ranges s). range_size q \<ge> n * PAGE_SIZE \<longrightarrow> range_size r \<le> range_size q)) \<and>
    (\<forall>a. phys_mem s' a = (if a - drop_bit 3 p < n * PAGE_SIZE div 8 then 0 else phys_mem s a))"
proof -
  note ok = pmm_alloc_pages_ok [OF inv al]
  have "(\<exists>r \<in> set (g_free_ranges s). r_base r = p \<and>
       (\<forall>q \<in> set (g_free_ranges s). range_size q \<ge> n * PAGE_SIZE \<longrightarrow> range_size r \<le> range_size q)) \<and>
    (\<forall>a. phys_mem s' a = (if a - drop_bit 3 p < n * PAGE_SIZE div 8 then 0 else phys_mem s a))"
    using al
  proof (cases rule: pmm_alloc_pages_cases)
    case (fit i)
    with p show ?thesis by (force simp: zero_words_def)
  qed (use p in simp_all)
  moreover have "pmm_free s \<subseteq> region_set s" using inv by (simp add: pmm_inv_def)
  ultimately show ?thesis
    using ok(4-6) [OF p] ok(7) unfolding frame_bytes_def by (intro conjI) (elim conjE, assumption | blast)+
qed

theorem pmm_alloc_pages_correct_witness:
  "pmm_alloc_pages 2 mm_example = (0x100000, snd (pmm_alloc_pages 2 mm_example)) \<and>
   frame_bytes 0x100000 2 \<subseteq> pmm_free mm_example"
proof -
  have a: "pmm_alloc_pages 2 mm_example = (0x100000, snd (pmm_alloc_pages 2 mm_example))"
    by (simp add: pmm_alloc_pages_def mm_example_simps PMM_MAX_PAGES_def)
  with pmm_alloc_pages_correct [OF mm_example_simps(4) a] show ?thesis by simp
qed

text \<open>
  C3. Allocation is complete: as long as physical page zero is not in the pool, a request for a
  representable, non-zero number of pages fails exactly when no free range is large enough, and a
  failure changes nothing but the failure counter.
\<close>

theorem pmm_alloc_pages_complete:
  assumes inv: "pmm_inv s" and zero: "0 \<notin> pmm_free s" and n: "n \<noteq> 0" "n \<le> PMM_MAX_PAGES"
  shows "(fst (pmm_alloc_pages n s) = 0 \<longleftrightarrow> (\<forall>r \<in> set (g_free_ranges s). range_size r < n * PAGE_SIZE)) \<and>
    (fst (pmm_alloc_pages n s) = 0 \<longrightarrow>
      snd (pmm_alloc_pages n s) = s\<lparr>g_failed_allocations := g_failed_allocations s + 1\<rparr>)"
proof -
  obtain p s' where al: "pmm_alloc_pages n s = (p, s')" by force
  have ok: "ranges_ok (g_free_ranges s)" "ranges_aligned (g_free_ranges s)"
    using inv by (simp_all add: pmm_inv_def)
  have size: "range_size r < - 1" if "r \<in> set (g_free_ranges s)" for r
  proof -
    have "4096 dvd unat (range_size r)"
      using that ok by (auto simp: ranges_ok_def ranges_aligned_def page_aligned_iff unat_sub less_imp_le)
    then have "range_size r \<noteq> - 1" by (auto simp: unsigned_minus_1_eq_mask mask_eq_exp_minus_1)
    then show ?thesis by (simp add: word_order.not_eq_extremum)
  qed
  have "(p = 0 \<longleftrightarrow> (\<forall>r \<in> set (g_free_ranges s). range_size r < n * PAGE_SIZE)) \<and>
    (p = 0 \<longrightarrow> s' = s\<lparr>g_failed_allocations := g_failed_allocations s + 1\<rparr>)"
    using al
  proof (cases rule: pmm_alloc_pages_cases)
    case (fit i)
    have "r_base (g_free_ranges s ! i) \<in> pmm_free s"
      using fit(3) ok by (auto simp: pmm_free_def free_set_def range_set_def ranges_ok_def intro!: bexI [of _ "g_free_ranges s ! i"])
    with zero fit have "p \<noteq> 0" by auto
    moreover have "\<not> (\<forall>r \<in> set (g_free_ranges s). range_size r < n * PAGE_SIZE)"
      using fit(3,5) by (auto simp: not_less intro!: bexI [of _ "g_free_ranges s ! i"])
    ultimately show ?thesis by simp
  next
    case nofit
    then show ?thesis using size by (auto simp: not_le)
  qed (use n in auto)
  with al show ?thesis by simp
qed

theorem pmm_alloc_pages_complete_witness:
  "fst (pmm_alloc_pages 257 mm_example) = 0 \<and> fst (pmm_alloc_pages 256 mm_example) \<noteq> 0"
proof -
  have z: "0 \<notin> pmm_free mm_example" by (simp add: pmm_free_def mm_example_simps range_set_def)
  have n: "(257 :: u64) \<noteq> 0" "257 \<le> PMM_MAX_PAGES" "(256 :: u64) \<noteq> 0" "256 \<le> PMM_MAX_PAGES"
    by (simp_all add: PMM_MAX_PAGES_def)
  show ?thesis
    using pmm_alloc_pages_complete [OF mm_example_simps(4) z n(1,2)]
      pmm_alloc_pages_complete [OF mm_example_simps(4) z n(3,4)]
    by (simp add: mm_example_simps)
qed

text \<open>
  C4. \<open>pmm_free_pages\<close> decides exactly: it accepts a non-empty page-aligned range that lies in one
  managed region, overlaps no free byte and finds room in the table, and then adds exactly that range
  to the free set and leaves memory untouched; it refuses everything else with \<open>-1\<close> and no effect.
  In particular a second release of the same range is refused.
\<close>

theorem pmm_free_pages_correct:
  assumes inv: "pmm_inv s" and f: "pmm_free_pages p n s = (r, s')"
  shows "(pmm_can_free p n s \<longrightarrow> r = 0 \<and> pmm_free s' = pmm_free s \<union> frame_bytes p n \<and>
        phys_mem s' = phys_mem s \<and> pmm_free_pages p n s' = (- 1, s')) \<and>
    (\<not> pmm_can_free p n s \<longrightarrow> r = - 1 \<and> s' = s)"
proof (cases "pmm_can_free p n s")
  case True
  from pmm_free_pages_ok [OF inv True] obtain s'' where s'': "pmm_free_pages p n s = (0, s'')"
    "pmm_free s'' = pmm_free s \<union> {p..<p + n * PAGE_SIZE}" "phys_mem s'' = phys_mem s" by metis
  with f have "r = 0" "s'' = s'" by simp_all
  with True s'' pmm.double_release_refused [OF inv s''(1)] show ?thesis by (simp add: frame_bytes_def)
next
  case False
  with pmm.release_refuses [OF inv False] f show ?thesis by simp
qed

theorem pmm_free_pages_correct_witness:
  "pmm_free_pages 0x100000 1 mm_example = (- 1, mm_example)"
proof -
  have no: "\<not> pmm_can_free 0x100000 1 mm_example"
    by (simp add: pmm_can_free_def pmm_free_def mm_example_simps range_set_def)
  obtain r s' where f: "pmm_free_pages 0x100000 1 mm_example = (r, s')" by force
  from pmm_free_pages_correct [OF mm_example_simps(4) f] no f show ?thesis by simp
qed

text \<open>
  C5. Allocating and releasing is the identity on the free table: if the run lies in one managed
  region and the table has a spare slot, \<open>pmm_free_pages\<close> succeeds on what \<open>pmm_alloc_pages\<close> returned
  and restores the free-range table, slot by slot, and the allocated byte count.
\<close>

theorem pmm_alloc_free_roundtrip:
  assumes inv: "pmm_inv s" and al: "pmm_alloc_pages n s = (p, s1)" and p: "p \<noteq> 0"
    and reg: "pmm_managed_range (g_regions s) p (p + n * PAGE_SIZE)"
    and room: "length (g_free_ranges s1) < PMM_MAX_FREE_RANGES"
  shows "\<exists>s2. pmm_free_pages p n s1 = (0, s2) \<and> g_free_ranges s2 = g_free_ranges s \<and>
    g_allocated_bytes s2 = g_allocated_bytes s"
proof -
  note ok = pmm_alloc_pages_ok [OF inv al]
  have fit: "n \<noteq> 0 \<and> n \<le> PMM_MAX_PAGES \<and> g_regions s1 = g_regions s \<and>
    g_allocated_bytes s1 = g_allocated_bytes s + n * PAGE_SIZE"
    using al by (cases rule: pmm_alloc_pages_cases) (use p in auto)
  have can: "pmm_can_free p n s1"
    using fit ok(5-7) p reg room by (auto simp: pmm_can_free_def less_imp_le)
  from pmm_free_pages_ok [OF ok(1) can] obtain s2 where s2: "pmm_free_pages p n s1 = (0, s2)" "pmm_inv s2"
    "unat (g_allocated_bytes s2) + unat (n * PAGE_SIZE) = unat (g_allocated_bytes s1)" by metis
  have "pmm_free s2 = pmm_free s" using pmm.alloc_release [OF inv al p can] s2(1) by simp
  then have "g_free_ranges s2 = g_free_ranges s"
    using inv s2(2) by (intro ranges_ok_unique) (simp_all add: pmm_inv_def pmm_free_def)
  moreover have "g_allocated_bytes s2 = g_allocated_bytes s"
  proof -
    have "word_of_nat (unat (g_allocated_bytes s2) + unat (n * PAGE_SIZE)) = g_allocated_bytes s1"
      using s2(3) by simp
    then show ?thesis using fit by simp
  qed
  ultimately show ?thesis using s2(1) by blast
qed

theorem pmm_alloc_free_roundtrip_witness:
  "\<exists>s2. pmm_free_pages 0x100000 2 (snd (pmm_alloc_pages 2 mm_example)) = (0, s2) \<and>
     g_free_ranges s2 = [\<lparr>r_base = 0x100000, r_end = 0x200000\<rparr>]"
proof -
  have a: "pmm_alloc_pages 2 mm_example = (0x100000, snd (pmm_alloc_pages 2 mm_example))"
    by (simp add: pmm_alloc_pages_def mm_example_simps PMM_MAX_PAGES_def)
  have reg: "pmm_managed_range (g_regions mm_example) 0x100000 (0x100000 + 2 * PAGE_SIZE)"
    by (simp add: pmm_managed_range_def mm_example_simps)
  have room: "length (g_free_ranges (snd (pmm_alloc_pages 2 mm_example))) < PMM_MAX_FREE_RANGES"
    by (simp add: pmm_alloc_pages_def mm_example_simps PMM_MAX_PAGES_def)
  from pmm_alloc_free_roundtrip [OF mm_example_simps(4) a _ reg room] show ?thesis
    by (auto simp: mm_example_simps)
qed


end
