(* ===== verification/Ring.thy ===== *)
theory Ring
  imports Prelude
begin

text \<open>
  Byte ring buffers. Three components of the kernel keep one: the terminals (\<open>tty_ring_t\<close> in
  \<open>kernel/tty.c\<close>), the pipes (\<open>fd_pipe_t\<close> in \<open>kernel/fd.c\<close>) and the UNIX sockets
  (\<open>struct unix_socket\<close> in \<open>kernel/unix_ipc.c\<close>). They share the layout (data, head, tail, fill count)
  and differ in capacity and in how their copy loops are written. This theory has the layout, the
  single-byte steps, the abstraction to a list, and the contract \<open>byte_fifo\<close> that each component
  proves of its own loops. Indices and fill counts stay below the capacity, which fits the
  16 or 32 bit fields of the code, so they are natural numbers.
\<close>

record ring =
  ring_data :: "nat \<Rightarrow> u8"
  ring_head :: nat
  ring_tail :: nat
  ring_used :: nat

definition ring_reset :: "ring \<Rightarrow> ring" where
  "ring_reset r = r\<lparr>ring_head := 0, ring_tail := 0, ring_used := 0\<rparr>"

text \<open>Storing one byte at the head and fetching one from the tail, without the fill count.\<close>

definition ring_push :: "nat \<Rightarrow> u8 \<Rightarrow> ring \<Rightarrow> ring" where
  "ring_push N b r = r\<lparr>ring_data := (ring_data r)(ring_head r := b), ring_head := (ring_head r + 1) mod N\<rparr>"

definition ring_pop :: "nat \<Rightarrow> ring \<Rightarrow> u8 \<times> ring" where
  "ring_pop N r = (ring_data r (ring_tail r), r\<lparr>ring_tail := (ring_tail r + 1) mod N\<rparr>)"

definition ring_store :: "nat \<Rightarrow> u8 \<Rightarrow> ring \<Rightarrow> ring" where
  "ring_store N b r = (ring_push N b r)\<lparr>ring_used := ring_used r + 1\<rparr>"

definition ring_fetch :: "nat \<Rightarrow> ring \<Rightarrow> u8 \<times> ring" where
  "ring_fetch N r = (fst (ring_pop N r), (snd (ring_pop N r))\<lparr>ring_used := ring_used r - 1\<rparr>)"

subsection \<open>Abstraction to a list\<close>

definition ring_content :: "nat \<Rightarrow> ring \<Rightarrow> u8 list" where
  "ring_content N r = map (\<lambda>i. ring_data r ((ring_tail r + i) mod N)) [0..<ring_used r]"

definition ring_wf :: "nat \<Rightarrow> ring \<Rightarrow> bool" where
  "ring_wf N r \<longleftrightarrow> ring_tail r < N \<and> ring_used r \<le> N \<and> ring_head r = (ring_tail r + ring_used r) mod N"

lemma length_ring_content [simp]: "length (ring_content N r) = ring_used r"
  by (simp add: ring_content_def)

lemma ring_reset_wf [simp]: "0 < N \<Longrightarrow> ring_wf N (ring_reset r)"
  by (simp add: ring_wf_def ring_reset_def)

lemma ring_reset_content [simp]: "ring_content N (ring_reset r) = []"
  by (simp add: ring_content_def ring_reset_def)

lemma ring_store_ok:
  assumes "ring_wf N r" and "ring_used r < N"
  shows "ring_wf N (ring_store N b r)" and "ring_content N (ring_store N b r) = ring_content N r @ [b]"
    and "ring_used (ring_store N b r) = Suc (ring_used r)"
proof -
  have N: "0 < N" using assms(2) by simp
  show "ring_wf N (ring_store N b r)"
    using assms N by (auto simp: ring_wf_def ring_store_def ring_push_def mod_Suc_eq)
  have ne: "(ring_tail r + i) mod N \<noteq> (ring_tail r + ring_used r) mod N" if "i < ring_used r" for i
  proof
    assume "(ring_tail r + i) mod N = (ring_tail r + ring_used r) mod N"
    then have "N dvd (ring_tail r + ring_used r) - (ring_tail r + i)"
      using that by (intro mod_eq_dvd_iff_nat [THEN iffD1]) simp_all
    with that assms(2) show False by (auto dest: dvd_imp_le)
  qed
  show "ring_content N (ring_store N b r) = ring_content N r @ [b]"
    using assms ne by (simp add: ring_content_def ring_store_def ring_push_def ring_wf_def)
  show "ring_used (ring_store N b r) = Suc (ring_used r)" by (simp add: ring_store_def)
qed

lemma ring_fetch_ok:
  assumes "ring_wf N r" and "0 < ring_used r"
  shows "ring_wf N (snd (ring_fetch N r))" and "ring_content N r = fst (ring_fetch N r) # ring_content N (snd (ring_fetch N r))"
    and "ring_used (snd (ring_fetch N r)) = ring_used r - 1"
proof -
  obtain u where u: "ring_used r = Suc u" using assms(2) by (cases "ring_used r") auto
  show "ring_wf N (snd (ring_fetch N r))"
    using assms u by (auto simp: ring_wf_def ring_fetch_def ring_pop_def mod_add_left_eq mod_Suc_eq)
  show "ring_content N r = fst (ring_fetch N r) # ring_content N (snd (ring_fetch N r))"
    using assms u
    by (simp add: ring_content_def ring_fetch_def ring_pop_def ring_wf_def upt_conv_Cons
        map_Suc_upt [symmetric] mod_simps del: upt_Suc)
  show "ring_used (snd (ring_fetch N r)) = ring_used r - 1" by (simp add: ring_fetch_def)
qed

subsection \<open>The contract of a byte queue\<close>

datatype fifo_op = Put "u8 list" | Get nat

text \<open>
  A run of queue operations, with the bytes that the queue accepted and the bytes it delivered.
\<close>

fun fifo_run :: "(u8 list \<Rightarrow> 'r \<Rightarrow> nat \<times> 'r) \<Rightarrow> (nat \<Rightarrow> 'r \<Rightarrow> u8 list \<times> 'r) \<Rightarrow> fifo_op list \<Rightarrow> 'r \<Rightarrow>
    u8 list \<times> u8 list \<times> 'r" where
  "fifo_run put get [] r = ([], [], r)"
| "fifo_run put get (Put bs # ops) r =
     (let (n, r1) = put bs r; (acc, out, r2) = fifo_run put get ops r1 in (take n bs @ acc, out, r2))"
| "fifo_run put get (Get k # ops) r =
     (let (bs, r1) = get k r; (acc, out, r2) = fifo_run put get ops r1 in (acc, bs @ out, r2))"

locale byte_fifo =
  fixes cap :: nat
    and wf :: "'r \<Rightarrow> bool"
    and content :: "'r \<Rightarrow> u8 list"
    and put :: "u8 list \<Rightarrow> 'r \<Rightarrow> nat \<times> 'r"
    and get :: "nat \<Rightarrow> 'r \<Rightarrow> u8 list \<times> 'r"
  assumes put_wf: "wf r \<Longrightarrow> wf (snd (put bs r))"
    and put_count: "wf r \<Longrightarrow> fst (put bs r) = min (length bs) (cap - length (content r))"
    and put_content: "wf r \<Longrightarrow> content (snd (put bs r)) = content r @ take (fst (put bs r)) bs"
    and get_wf: "wf r \<Longrightarrow> wf (snd (get k r))"
    and get_bytes: "wf r \<Longrightarrow> fst (get k r) = take k (content r)"
    and get_content: "wf r \<Longrightarrow> content (snd (get k r)) = drop k (content r)"
    and bounded: "wf r \<Longrightarrow> length (content r) \<le> cap"
begin

lemma run_stream:
  assumes "wf r" and "fifo_run put get ops r = (acc, out, r')"
  shows "wf r' \<and> content r @ acc = out @ content r'"
  using assms
proof (induction ops arbitrary: r acc out)
  case Nil
  then show ?case by simp
next
  case (Cons op ops)
  show ?case
  proof (cases op)
    case (Put bs)
    obtain acc1 where run: "fifo_run put get ops (snd (put bs r)) = (acc1, out, r')"
      and acc: "acc = take (fst (put bs r)) bs @ acc1"
      using Cons.prems(2) Put by (auto simp: case_prod_beta prod_eq_iff Let_def)
    from Cons.IH [OF put_wf [OF Cons.prems(1)] run] put_content [OF Cons.prems(1), of bs] acc
    show ?thesis by simp
  next
    case (Get k)
    obtain out1 where run: "fifo_run put get ops (snd (get k r)) = (acc, out1, r')"
      and out: "out = fst (get k r) @ out1"
      using Cons.prems(2) Get by (auto simp: case_prod_beta prod_eq_iff Let_def)
    from Cons.IH [OF get_wf [OF Cons.prems(1)] run]
    have IH: "wf r' \<and> drop k (content r) @ acc = out1 @ content r'"
      by (simp add: get_content [OF Cons.prems(1)])
    have "content r @ acc = take k (content r) @ drop k (content r) @ acc" by simp
    with IH show ?thesis by (simp add: out get_bytes [OF Cons.prems(1)])
  qed
qed

lemma put_then_get:
  assumes "wf r" and "content r = []" and "length bs \<le> cap"
  shows "fst (get (length bs) (snd (put bs r))) = bs" and "fst (put bs r) = length bs"
  using assms put_wf [OF assms(1)] by (simp_all add: get_bytes put_content put_count)

end

end
