(* ===== verification/Tty.thy ===== *)
theory Tty
  imports Ring
begin

text \<open>
  Terminals and pseudo terminals of \<open>kernel/tty.c\<close>: four ttys and four ptys, each with an input and an
  output ring of 1024 bytes; ownership by process number; the line discipline of a pty master
  (canonical mode, echo, erase, end of file, and the interrupt and stop characters).
  A buffer argument is the list of its bytes (the code's null-pointer guards have no counterpart).
  Where the code calls \<open>process_signal_group\<close> as its last act, the model returns the requested
  signal. Of \<open>pty_attach\<close>, which also changes descriptors and processes, this theory has the section
  that changes the pty.
\<close>

abbreviation (input) TTY_MAX :: nat where "TTY_MAX \<equiv> 4"
abbreviation (input) PTY_MAX :: nat where "PTY_MAX \<equiv> 4"
abbreviation (input) TTY_BUFFER_SIZE :: nat where "TTY_BUFFER_SIZE \<equiv> 1024"
abbreviation (input) PTY_LINE_SIZE :: nat where "PTY_LINE_SIZE \<equiv> 256"
abbreviation (input) PTY_MODE_CANONICAL :: u32 where "PTY_MODE_CANONICAL \<equiv> 1"
abbreviation (input) PTY_MODE_ECHO :: u32 where "PTY_MODE_ECHO \<equiv> 2"
abbreviation (input) KESH_SIGINT :: int where "KESH_SIGINT \<equiv> 2"
abbreviation (input) KESH_SIGKILL :: int where "KESH_SIGKILL \<equiv> 9"
abbreviation (input) KESH_SIGTERM :: int where "KESH_SIGTERM \<equiv> 15"
abbreviation (input) KESH_SIGCONT :: int where "KESH_SIGCONT \<equiv> 18"
abbreviation (input) KESH_SIGSTOP :: int where "KESH_SIGSTOP \<equiv> 19"

record tty =
  tty_allocated :: bool
  tty_owner_pid :: int
  tty_input :: ring
  tty_output :: ring

record pty =
  pty_allocated :: bool
  master_open :: bool
  slave_open :: bool
  master_pid :: int
  slave_pid :: int
  pty_mode :: u32
  pty_input :: ring
  pty_output :: ring
  pty_line :: "u8 list"
  foreground_group :: int

record ttys =
  g_ttys :: "nat \<Rightarrow> tty"
  g_ptys :: "nat \<Rightarrow> pty"

subsection \<open>Ring loops\<close>

fun ring_write :: "u8 list \<Rightarrow> ring \<Rightarrow> nat \<times> ring" where
  "ring_write [] r = (0, r)"
| "ring_write (b # bs) r =
     (if ring_used r < TTY_BUFFER_SIZE
      then let (n, r') = ring_write bs (ring_store TTY_BUFFER_SIZE b r) in (Suc n, r')
      else (0, r))"

fun ring_read :: "nat \<Rightarrow> ring \<Rightarrow> u8 list \<times> ring" where
  "ring_read 0 r = ([], r)"
| "ring_read (Suc k) r =
     (if ring_used r \<noteq> 0
      then let (b, r1) = ring_fetch TTY_BUFFER_SIZE r; (bs, r2) = ring_read k r1 in (b # bs, r2)
      else ([], r))"

subsection \<open>Terminals\<close>

definition tty_at :: "ttys \<Rightarrow> int \<Rightarrow> nat option" where
  "tty_at s i = (if i \<ge> 0 \<and> i < int TTY_MAX \<and> tty_allocated (g_ttys s (nat i)) then Some (nat i) else None)"

definition tty_init :: "ttys \<Rightarrow> ttys" where
  "tty_init s =
     s\<lparr>g_ttys := (\<lambda>i. if i < TTY_MAX then (g_ttys s i)\<lparr>tty_allocated := False, tty_owner_pid := - 1\<rparr> else g_ttys s i),
       g_ptys := (\<lambda>i. if i < PTY_MAX then (g_ptys s i)\<lparr>pty_allocated := False\<rparr> else g_ptys s i)\<rparr>"

definition tty_create_for_process :: "int \<Rightarrow> ttys \<Rightarrow> int \<times> ttys" where
  "tty_create_for_process owner s =
     (if owner < 0 then (- 1, s)
      else case first_from (\<lambda>i. \<not> tty_allocated (g_ttys s i)) 0 TTY_MAX of
             None \<Rightarrow> (- 1, s)
           | Some i \<Rightarrow>
               (int i, s\<lparr>g_ttys := (g_ttys s)(i := (g_ttys s i)\<lparr>tty_allocated := True, tty_owner_pid := owner,
                  tty_input := ring_reset (tty_input (g_ttys s i)),
                  tty_output := ring_reset (tty_output (g_ttys s i))\<rparr>)\<rparr>))"

definition tty_close :: "int \<Rightarrow> int \<Rightarrow> ttys \<Rightarrow> int \<times> ttys" where
  "tty_close owner tid s =
     (case tty_at s tid of
        None \<Rightarrow> (- 1, s)
      | Some i \<Rightarrow>
          if tty_owner_pid (g_ttys s i) \<noteq> owner then (- 1, s)
          else (0, s\<lparr>g_ttys := (g_ttys s)(i := (g_ttys s i)\<lparr>tty_allocated := False, tty_owner_pid := - 1,
                  tty_input := ring_reset (tty_input (g_ttys s i)),
                  tty_output := ring_reset (tty_output (g_ttys s i))\<rparr>)\<rparr>))"

text \<open>Releasing one pty end or both for a process that goes away.\<close>

definition pty_drop_owner :: "int \<Rightarrow> pty \<Rightarrow> pty" where
  "pty_drop_owner owner p =
     (if pty_allocated p
      then
        let p1 = (if master_open p \<and> master_pid p = owner then p\<lparr>master_open := False\<rparr> else p);
            p2 = (if slave_open p1 \<and> slave_pid p1 = owner then p1\<lparr>slave_open := False\<rparr> else p1)
        in if \<not> master_open p2 \<and> \<not> slave_open p2 then p2\<lparr>pty_allocated := False\<rparr> else p2
      else p)"

definition tty_close_owner :: "int \<Rightarrow> ttys \<Rightarrow> ttys" where
  "tty_close_owner owner s =
     (let s1 = fold (\<lambda>i s. if tty_allocated (g_ttys s i) \<and> tty_owner_pid (g_ttys s i) = owner
                           then snd (tty_close owner (int i) s) else s) [0..<TTY_MAX] s
      in s1\<lparr>g_ptys := (\<lambda>i. if i < PTY_MAX then pty_drop_owner owner (g_ptys s1 i) else g_ptys s1 i)\<rparr>)"

definition tty_write_input :: "int \<Rightarrow> u8 list \<Rightarrow> ttys \<Rightarrow> int \<times> ttys" where
  "tty_write_input tid data s =
     (case tty_at s tid of
        None \<Rightarrow> (- 1, s)
      | Some i \<Rightarrow> let (n, r) = ring_write data (tty_input (g_ttys s i))
                 in (int n, s\<lparr>g_ttys := (g_ttys s)(i := (g_ttys s i)\<lparr>tty_input := r\<rparr>)\<rparr>))"

definition tty_read_input :: "int \<Rightarrow> nat \<Rightarrow> ttys \<Rightarrow> int \<times> u8 list \<times> ttys" where
  "tty_read_input tid sz s =
     (case tty_at s tid of
        None \<Rightarrow> (- 1, [], s)
      | Some i \<Rightarrow> let (bs, r) = ring_read sz (tty_input (g_ttys s i))
                 in (int (length bs), bs, s\<lparr>g_ttys := (g_ttys s)(i := (g_ttys s i)\<lparr>tty_input := r\<rparr>)\<rparr>))"

definition tty_write_output :: "int \<Rightarrow> u8 list \<Rightarrow> ttys \<Rightarrow> int \<times> ttys" where
  "tty_write_output tid data s =
     (case tty_at s tid of
        None \<Rightarrow> (- 1, s)
      | Some i \<Rightarrow> let (n, r) = ring_write data (tty_output (g_ttys s i))
                 in (int n, s\<lparr>g_ttys := (g_ttys s)(i := (g_ttys s i)\<lparr>tty_output := r\<rparr>)\<rparr>))"

definition tty_read_output :: "int \<Rightarrow> nat \<Rightarrow> ttys \<Rightarrow> int \<times> u8 list \<times> ttys" where
  "tty_read_output tid sz s =
     (case tty_at s tid of
        None \<Rightarrow> (- 1, [], s)
      | Some i \<Rightarrow> let (bs, r) = ring_read sz (tty_output (g_ttys s i))
                 in (int (length bs), bs, s\<lparr>g_ttys := (g_ttys s)(i := (g_ttys s i)\<lparr>tty_output := r\<rparr>)\<rparr>))"

definition tty_owned :: "ttys \<Rightarrow> int \<Rightarrow> int \<Rightarrow> bool" where
  "tty_owned s owner tid = (case tty_at s tid of None \<Rightarrow> False | Some i \<Rightarrow> tty_owner_pid (g_ttys s i) = owner)"

definition tty_write_process :: "int \<Rightarrow> int \<Rightarrow> u8 list \<Rightarrow> ttys \<Rightarrow> int \<times> ttys" where
  "tty_write_process owner tid data s =
     (if tty_owned s owner tid then tty_write_output tid data s else (- 1, s))"

definition tty_read_process :: "int \<Rightarrow> int \<Rightarrow> nat \<Rightarrow> ttys \<Rightarrow> int \<times> u8 list \<times> ttys" where
  "tty_read_process owner tid sz s =
     (if tty_owned s owner tid then tty_read_input tid sz s else (- 1, [], s))"

definition tty_available_process :: "int \<Rightarrow> int \<Rightarrow> ttys \<Rightarrow> int" where
  "tty_available_process owner tid s =
     (case tty_at s tid of
        None \<Rightarrow> - 1
      | Some i \<Rightarrow> if tty_owner_pid (g_ttys s i) = owner then int (ring_used (tty_input (g_ttys s i))) else - 1)"

subsection \<open>Pseudo terminals\<close>

definition pty_index :: "int \<Rightarrow> int" where
  "pty_index handle = (let v = handle - 0x100 in if v \<ge> 0 then v div 2 else - 1)"

definition pty_is_slave :: "int \<Rightarrow> bool" where
  "pty_is_slave handle \<longleftrightarrow> (handle - 0x100) mod 2 = 1"

definition pty_at :: "ttys \<Rightarrow> int \<Rightarrow> nat option" where
  "pty_at s handle =
     (let i = pty_index handle in
      if i \<ge> 0 \<and> i < int PTY_MAX \<and> pty_allocated (g_ptys s (nat i)) then Some (nat i) else None)"

definition pty_allowed :: "pty \<Rightarrow> int \<Rightarrow> bool \<Rightarrow> bool" where
  "pty_allowed p pid slave \<longleftrightarrow>
     (if slave then slave_open p \<and> slave_pid p = pid else master_open p \<and> master_pid p = pid)"

definition pty_create :: "int \<Rightarrow> ttys \<Rightarrow> (int \<times> int) option \<times> ttys" where
  "pty_create owner s =
     (if owner < 0 then (None, s)
      else case first_from (\<lambda>i. \<not> pty_allocated (g_ptys s i)) 0 PTY_MAX of
             None \<Rightarrow> (None, s)
           | Some i \<Rightarrow>
               (Some (0x100 + int i * 2, 0x100 + int i * 2 + 1),
                s\<lparr>g_ptys := (g_ptys s)(i := (g_ptys s i)\<lparr>pty_allocated := True, master_open := True, slave_open := True,
                   master_pid := owner, slave_pid := owner,
                   pty_mode := PTY_MODE_CANONICAL OR PTY_MODE_ECHO,
                   pty_line := [], foreground_group := - 1,
                   pty_input := ring_reset (pty_input (g_ptys s i)),
                   pty_output := ring_reset (pty_output (g_ptys s i))\<rparr>)\<rparr>))"

text \<open>
  The locked section of \<open>pty_attach\<close>: the slave end passes to the target process, whose group becomes
  the foreground group.
\<close>

definition pty_attach_slave :: "int \<Rightarrow> int \<Rightarrow> int \<Rightarrow> ttys \<Rightarrow> ttys" where
  "pty_attach_slave slave_handle target target_group s =
     (case pty_at s slave_handle of
        None \<Rightarrow> s
      | Some i \<Rightarrow> s\<lparr>g_ptys := (g_ptys s)(i := (g_ptys s i)\<lparr>slave_pid := target, foreground_group := target_group\<rparr>)\<rparr>)"

definition pty_close :: "int \<Rightarrow> int \<Rightarrow> ttys \<Rightarrow> int \<times> ttys" where
  "pty_close owner handle s =
     (case pty_at s handle of
        None \<Rightarrow> (- 1, s)
      | Some i \<Rightarrow>
          let p = g_ptys s i; slave = pty_is_slave handle in
          if \<not> pty_allowed p owner slave then (- 1, s)
          else
            let p1 = (if slave then p\<lparr>slave_open := False\<rparr> else p\<lparr>master_open := False\<rparr>);
                p2 = (if \<not> master_open p1 \<and> \<not> slave_open p1 then p1\<lparr>pty_allocated := False\<rparr> else p1)
            in (0, s\<lparr>g_ptys := (g_ptys s)(i := p2)\<rparr>))"

definition pty_read :: "int \<Rightarrow> int \<Rightarrow> nat \<Rightarrow> ttys \<Rightarrow> int \<times> u8 list \<times> ttys" where
  "pty_read owner handle sz s =
     (case pty_at s handle of
        None \<Rightarrow> (- 1, [], s)
      | Some i \<Rightarrow>
          let p = g_ptys s i; slave = pty_is_slave handle in
          if \<not> pty_allowed p owner slave then (- 1, [], s)
          else if slave
          then let (bs, r) = ring_read sz (pty_input p)
               in (int (length bs), bs, s\<lparr>g_ptys := (g_ptys s)(i := p\<lparr>pty_input := r\<rparr>)\<rparr>)
          else let (bs, r) = ring_read sz (pty_output p)
               in (int (length bs), bs, s\<lparr>g_ptys := (g_ptys s)(i := p\<lparr>pty_output := r\<rparr>)\<rparr>))"

definition pty_echo :: "u8 list \<Rightarrow> pty \<Rightarrow> pty" where
  "pty_echo bs p =
     (if pty_mode p AND PTY_MODE_ECHO \<noteq> 0 then p\<lparr>pty_output := snd (ring_write bs (pty_output p))\<rparr> else p)"

definition pty_flush_line :: "pty \<Rightarrow> pty" where
  "pty_flush_line p = p\<lparr>pty_input := snd (ring_write (pty_line p) (pty_input p)), pty_line := []\<rparr>"

definition pty_line_fits :: "pty \<Rightarrow> bool" where
  "pty_line_fits p \<longleftrightarrow> \<not> (TTY_BUFFER_SIZE - ring_used (pty_input p) < length (pty_line p))"

text \<open>
  The body of the character loop of a master write: go on with the next character, leave the loop
  without consuming this one, or leave it because of an interrupt or stop character.
\<close>

datatype pty_step = Consumed pty | Refused pty | Control pty

definition pty_master_char :: "u8 \<Rightarrow> pty \<Rightarrow> pty_step" where
  "pty_master_char c p =
     (if c = 3 \<or> c = 26 then Control p
      else if pty_mode p AND PTY_MODE_CANONICAL = 0
      then (let (n, r) = ring_write [c] (pty_input p); p1 = p\<lparr>pty_input := r\<rparr> in
            if n \<noteq> 1 then Refused p1 else Consumed (pty_echo [c] p1))
      else if c = 8 \<or> c = 127
      then (if pty_line p \<noteq> []
            then Consumed (pty_echo [8, 32, 8] (p\<lparr>pty_line := butlast (pty_line p)\<rparr>))
            else Consumed p)
      else if c = 4
      then (if pty_line p \<noteq> []
            then if \<not> pty_line_fits p then Refused p else Consumed (pty_flush_line p)
            else Consumed p)
      else if length (pty_line p) \<ge> PTY_LINE_SIZE then Refused p
      else
        let p1 = pty_echo [c] (p\<lparr>pty_line := pty_line p @ [c]\<rparr>) in
        if c = 10
        then if \<not> pty_line_fits p1 then Refused p1 else Consumed (pty_flush_line p1)
        else Consumed p1)"

text \<open>The loop itself: consumed characters, the pty, and the control character that ended it.\<close>

fun pty_master_loop :: "u8 list \<Rightarrow> nat \<Rightarrow> pty \<Rightarrow> nat \<times> pty \<times> u8 option" where
  "pty_master_loop [] consumed p = (consumed, p, None)"
| "pty_master_loop (c # cs) consumed p =
     (case pty_master_char c p of
        Consumed p1 \<Rightarrow> pty_master_loop cs (consumed + 1) p1
      | Refused p1 \<Rightarrow> (consumed, p1, None)
      | Control p1 \<Rightarrow> (consumed + 1, p1, Some c))"

text \<open>
  \<open>pty_write\<close>. The third component is the group and signal for \<open>process_signal_group\<close>, which the
  code calls after unlocking the pty when the loop met an interrupt or stop character.
\<close>

definition pty_write :: "int \<Rightarrow> int \<Rightarrow> u8 list \<Rightarrow> ttys \<Rightarrow> int \<times> ttys \<times> (int \<times> int) option" where
  "pty_write owner handle data s =
     (case pty_at s handle of
        None \<Rightarrow> (- 1, s, None)
      | Some i \<Rightarrow>
          let p = g_ptys s i; slave = pty_is_slave handle in
          if \<not> pty_allowed p owner slave then (- 1, s, None)
          else if slave
          then let (n, r) = ring_write data (pty_output p)
               in (int n, s\<lparr>g_ptys := (g_ptys s)(i := p\<lparr>pty_output := r\<rparr>)\<rparr>, None)
          else
            let (consumed, p1, ctl) = pty_master_loop data 0 p in
            (int consumed, s\<lparr>g_ptys := (g_ptys s)(i := p1)\<rparr>,
             case ctl of
               None \<Rightarrow> None
             | Some c \<Rightarrow> if foreground_group p1 \<ge> 0
                         then Some (foreground_group p1, if c = 3 then KESH_SIGINT else KESH_SIGSTOP)
                         else None))"

definition pty_available :: "int \<Rightarrow> int \<Rightarrow> ttys \<Rightarrow> int" where
  "pty_available owner handle s =
     (case pty_at s handle of
        None \<Rightarrow> - 1
      | Some i \<Rightarrow>
          let p = g_ptys s i; slave = pty_is_slave handle in
          if \<not> pty_allowed p owner slave then - 1
          else int (ring_used (if slave then pty_input p else pty_output p)))"

definition pty_master_of :: "ttys \<Rightarrow> int \<Rightarrow> int \<Rightarrow> nat option" where
  "pty_master_of s owner handle =
     (case pty_at s handle of
        None \<Rightarrow> None
      | Some i \<Rightarrow> if pty_is_slave handle \<or> master_pid (g_ptys s i) \<noteq> owner then None else Some i)"

definition pty_set_mode :: "int \<Rightarrow> int \<Rightarrow> u32 \<Rightarrow> ttys \<Rightarrow> int \<times> ttys" where
  "pty_set_mode owner handle mode s =
     (case pty_master_of s owner handle of
        None \<Rightarrow> (- 1, s)
      | Some i \<Rightarrow>
          if mode AND NOT (PTY_MODE_CANONICAL OR PTY_MODE_ECHO) \<noteq> 0 then (- 1, s)
          else (0, s\<lparr>g_ptys := (g_ptys s)(i := (g_ptys s i)\<lparr>pty_mode := mode, pty_line := []\<rparr>)\<rparr>))"

definition pty_set_foreground_group :: "int \<Rightarrow> int \<Rightarrow> int \<Rightarrow> ttys \<Rightarrow> int \<times> ttys" where
  "pty_set_foreground_group owner handle grp s =
     (case pty_master_of s owner handle of
        None \<Rightarrow> (- 1, s)
      | Some i \<Rightarrow>
          if grp < 0 then (- 1, s)
          else (0, s\<lparr>g_ptys := (g_ptys s)(i := (g_ptys s i)\<lparr>foreground_group := grp\<rparr>)\<rparr>))"

definition pty_get_foreground_group :: "int \<Rightarrow> int \<Rightarrow> ttys \<Rightarrow> int" where
  "pty_get_foreground_group owner handle s =
     (case pty_master_of s owner handle of None \<Rightarrow> - 1 | Some i \<Rightarrow> foreground_group (g_ptys s i))"

text \<open>The signal that \<open>pty_signal_foreground\<close> hands to \<open>process_signal_group\<close>, or \<open>None\<close> for \<open>-1\<close>.\<close>

definition pty_signal_foreground :: "int \<Rightarrow> int \<Rightarrow> int \<Rightarrow> ttys \<Rightarrow> (int \<times> int) option" where
  "pty_signal_foreground owner handle sig s =
     (case pty_master_of s owner handle of
        None \<Rightarrow> None
      | Some i \<Rightarrow>
          if sig \<noteq> KESH_SIGINT \<and> sig \<noteq> KESH_SIGTERM \<and> sig \<noteq> KESH_SIGKILL \<and> sig \<noteq> KESH_SIGSTOP \<and> sig \<noteq> KESH_SIGCONT
          then None else Some (foreground_group (g_ptys s i), sig))"

subsection \<open>The rings are byte queues\<close>

lemma ring_write_ok:
  assumes "ring_wf TTY_BUFFER_SIZE r"
  shows "ring_wf TTY_BUFFER_SIZE (snd (ring_write bs r))"
    and "fst (ring_write bs r) = min (length bs) (TTY_BUFFER_SIZE - ring_used r)"
    and "ring_content TTY_BUFFER_SIZE (snd (ring_write bs r)) =
      ring_content TTY_BUFFER_SIZE r @ take (fst (ring_write bs r)) bs"
proof -
  have "ring_wf TTY_BUFFER_SIZE (snd (ring_write bs r)) \<and>
    fst (ring_write bs r) = min (length bs) (TTY_BUFFER_SIZE - ring_used r) \<and>
    ring_content TTY_BUFFER_SIZE (snd (ring_write bs r)) =
      ring_content TTY_BUFFER_SIZE r @ take (fst (ring_write bs r)) bs"
    using assms
  proof (induction bs arbitrary: r)
    case (Cons b bs)
    show ?case
    proof (cases "ring_used r < TTY_BUFFER_SIZE")
      case True
      note st = ring_store_ok [OF Cons.prems True, of b]
      have "1024 - ring_used r = Suc (1023 - ring_used r)" using True by simp
      with Cons.IH [OF st(1)] st True show ?thesis by (simp add: case_prod_beta)
    next
      case False
      then show ?thesis using Cons.prems by simp
    qed
  qed simp
  then show "ring_wf TTY_BUFFER_SIZE (snd (ring_write bs r))"
    and "fst (ring_write bs r) = min (length bs) (TTY_BUFFER_SIZE - ring_used r)"
    and "ring_content TTY_BUFFER_SIZE (snd (ring_write bs r)) =
      ring_content TTY_BUFFER_SIZE r @ take (fst (ring_write bs r)) bs" by simp_all
qed

lemma ring_read_ok:
  assumes "ring_wf TTY_BUFFER_SIZE r"
  shows "ring_wf TTY_BUFFER_SIZE (snd (ring_read k r))"
    and "fst (ring_read k r) = take k (ring_content TTY_BUFFER_SIZE r)"
    and "ring_content TTY_BUFFER_SIZE (snd (ring_read k r)) = drop k (ring_content TTY_BUFFER_SIZE r)"
proof -
  have "ring_wf TTY_BUFFER_SIZE (snd (ring_read k r)) \<and>
    fst (ring_read k r) = take k (ring_content TTY_BUFFER_SIZE r) \<and>
    ring_content TTY_BUFFER_SIZE (snd (ring_read k r)) = drop k (ring_content TTY_BUFFER_SIZE r)"
    using assms
  proof (induction k arbitrary: r)
    case (Suc k)
    show ?case
    proof (cases "ring_used r = 0")
      case True
      then show ?thesis using Suc.prems by (simp add: ring_content_def)
    next
      case False
      note ft = ring_fetch_ok [OF Suc.prems]
      from Suc.IH [OF ft(1)] ft(2) False show ?thesis
        by (simp add: case_prod_beta)
    qed
  qed simp
  then show "ring_wf TTY_BUFFER_SIZE (snd (ring_read k r))"
    and "fst (ring_read k r) = take k (ring_content TTY_BUFFER_SIZE r)"
    and "ring_content TTY_BUFFER_SIZE (snd (ring_read k r)) = drop k (ring_content TTY_BUFFER_SIZE r)"
    by simp_all
qed

interpretation tty_ring: byte_fifo 1024 "ring_wf 1024" "ring_content 1024" ring_write ring_read
  by unfold_locales (simp_all add: ring_write_ok ring_read_ok, simp add: ring_wf_def)

subsection \<open>Invariant\<close>

definition pty_inv :: "pty \<Rightarrow> bool" where
  "pty_inv p \<longleftrightarrow> ring_wf TTY_BUFFER_SIZE (pty_input p) \<and> ring_wf TTY_BUFFER_SIZE (pty_output p) \<and>
     length (pty_line p) \<le> PTY_LINE_SIZE \<and> (pty_allocated p \<longrightarrow> master_open p \<or> slave_open p)"

definition tty_inv :: "tty \<Rightarrow> bool" where
  "tty_inv t \<longleftrightarrow> ring_wf TTY_BUFFER_SIZE (tty_input t) \<and> ring_wf TTY_BUFFER_SIZE (tty_output t) \<and>
     (tty_allocated t \<longrightarrow> tty_owner_pid t \<ge> 0)"

definition ttys_inv :: "ttys \<Rightarrow> bool" where
  "ttys_inv s \<longleftrightarrow> (\<forall>i. tty_inv (g_ttys s i)) \<and> (\<forall>i. pty_inv (g_ptys s i))"

lemma ttys_inv_tty: "ttys_inv s \<Longrightarrow> tty_inv (g_ttys s i)"
  and ttys_inv_pty: "ttys_inv s \<Longrightarrow> pty_inv (g_ptys s i)"
  by (simp_all add: ttys_inv_def)

lemma ttys_inv_upd_tty: "ttys_inv s \<Longrightarrow> tty_inv t \<Longrightarrow> ttys_inv (s\<lparr>g_ttys := (g_ttys s)(i := t)\<rparr>)"
  and ttys_inv_upd_pty: "ttys_inv s \<Longrightarrow> pty_inv p \<Longrightarrow> ttys_inv (s\<lparr>g_ptys := (g_ptys s)(i := p)\<rparr>)"
  by (simp_all add: ttys_inv_def)

lemma pty_echo_inv: "pty_inv p \<Longrightarrow> pty_inv (pty_echo bs p)"
  by (simp add: pty_inv_def pty_echo_def ring_write_ok)

lemma pty_flush_line_inv: "pty_inv p \<Longrightarrow> pty_inv (pty_flush_line p)"
  by (simp add: pty_inv_def pty_flush_line_def ring_write_ok)

lemma pty_echo_simps [simp]:
  "pty_input (pty_echo bs p) = pty_input p" "pty_line (pty_echo bs p) = pty_line p"
  "pty_mode (pty_echo bs p) = pty_mode p" "foreground_group (pty_echo bs p) = foreground_group p"
  "pty_allocated (pty_echo bs p) = pty_allocated p"
  by (simp_all add: pty_echo_def)

primrec step_pty :: "pty_step \<Rightarrow> pty" where
  "step_pty (Consumed p) = p"
| "step_pty (Refused p) = p"
| "step_pty (Control p) = p"

lemma pty_master_char_inv:
  assumes "pty_inv p"
  shows "pty_inv (step_pty (pty_master_char c p))"
proof -
  have inp: "pty_inv (p\<lparr>pty_input := snd (ring_write bs (pty_input p))\<rparr>)" for bs
    using assms ring_write_ok(1) [of "pty_input p" bs] by (simp add: pty_inv_def)
  have bl: "pty_inv (p\<lparr>pty_line := butlast (pty_line p)\<rparr>)"
    using assms by (auto simp: pty_inv_def)
  have add: "pty_inv (p\<lparr>pty_line := l\<rparr>)" if "length l \<le> PTY_LINE_SIZE" for l
    using assms that by (auto simp: pty_inv_def)
  show ?thesis
    using assms inp bl add unfolding pty_master_char_def
    by (simp add: case_prod_beta Let_def pty_echo_inv pty_flush_line_inv del: ring_write.simps)
qed

lemma pty_master_loop_inv: "pty_inv p \<Longrightarrow> pty_inv (fst (snd (pty_master_loop cs k p)))"
proof (induction cs arbitrary: k p)
  case (Cons c cs)
  from pty_master_char_inv [OF Cons.prems, of c] Cons.IH show ?case
    by (auto split: pty_step.splits)
qed simp

lemma pty_drop_owner_inv: "pty_inv p \<Longrightarrow> pty_inv (pty_drop_owner owner p)"
  by (auto simp: pty_inv_def pty_drop_owner_def Let_def)

lemma tty_init_inv: "ttys_inv s \<Longrightarrow> ttys_inv (tty_init s)"
  by (auto simp: ttys_inv_def tty_init_def tty_inv_def pty_inv_def)

lemma tty_create_inv: "ttys_inv s \<Longrightarrow> ttys_inv (snd (tty_create_for_process owner s))"
  by (auto simp: tty_create_for_process_def tty_inv_def split: option.splits intro!: ttys_inv_upd_tty)

lemma tty_close_inv: "ttys_inv s \<Longrightarrow> ttys_inv (snd (tty_close owner tid s))"
  by (auto simp: tty_close_def tty_inv_def split: option.splits intro!: ttys_inv_upd_tty)

lemma tty_close_owner_inv:
  assumes "ttys_inv s"
  shows "ttys_inv (tty_close_owner owner s)"
proof -
  have "ttys_inv (fold (\<lambda>i s. if tty_allocated (g_ttys s i) \<and> tty_owner_pid (g_ttys s i) = owner
                           then snd (tty_close owner (int i) s) else s) is s)" for "is"
    using assms by (induction "is" arbitrary: s) (simp_all add: tty_close_inv)
  then show ?thesis
    by (simp add: tty_close_owner_def Let_def ttys_inv_def pty_drop_owner_inv del: upt.simps upt_rec_numeral)
qed

lemma tty_write_input_inv: "ttys_inv s \<Longrightarrow> ttys_inv (snd (tty_write_input tid data s))"
  and tty_write_output_inv: "ttys_inv s \<Longrightarrow> ttys_inv (snd (tty_write_output tid data s))"
  using ttys_inv_tty [of s]
  by (auto simp: tty_write_input_def tty_write_output_def case_prod_beta tty_inv_def ring_write_ok
      split: option.splits intro!: ttys_inv_upd_tty)

lemma tty_read_input_inv: "ttys_inv s \<Longrightarrow> ttys_inv (snd (snd (tty_read_input tid n s)))"
  and tty_read_output_inv: "ttys_inv s \<Longrightarrow> ttys_inv (snd (snd (tty_read_output tid n s)))"
  using ttys_inv_tty [of s]
  by (auto simp: tty_read_input_def tty_read_output_def case_prod_beta tty_inv_def ring_read_ok
      split: option.splits intro!: ttys_inv_upd_tty)

lemma pty_create_inv: "ttys_inv s \<Longrightarrow> ttys_inv (snd (pty_create owner s))"
  by (auto simp: pty_create_def pty_inv_def split: option.splits intro!: ttys_inv_upd_pty)

lemma pty_attach_slave_inv: "ttys_inv s \<Longrightarrow> ttys_inv (pty_attach_slave h pid g s)"
  using ttys_inv_pty [of s]
  by (auto simp: pty_attach_slave_def pty_inv_def split: option.splits intro!: ttys_inv_upd_pty)

lemma pty_close_inv: "ttys_inv s \<Longrightarrow> ttys_inv (snd (pty_close owner h s))"
  using ttys_inv_pty [of s]
  by (auto simp: pty_close_def pty_inv_def Let_def split: option.splits intro!: ttys_inv_upd_pty)

lemma pty_read_inv: "ttys_inv s \<Longrightarrow> ttys_inv (snd (snd (pty_read owner h n s)))"
  using ttys_inv_pty [of s]
  by (auto simp: pty_read_def pty_inv_def Let_def case_prod_beta ring_read_ok split: option.splits intro!: ttys_inv_upd_pty)

lemma pty_write_inv: "ttys_inv s \<Longrightarrow> ttys_inv (fst (snd (pty_write owner h data s)))"
  using ttys_inv_pty [of s] pty_master_loop_inv
  by (auto simp: pty_write_def Let_def case_prod_beta split: option.splits intro!: ttys_inv_upd_pty)
     (simp add: pty_inv_def ring_write_ok)

lemma pty_set_mode_inv: "ttys_inv s \<Longrightarrow> ttys_inv (snd (pty_set_mode owner h m s))"
  and pty_set_foreground_group_inv: "ttys_inv s \<Longrightarrow> ttys_inv (snd (pty_set_foreground_group owner h g s))"
  using ttys_inv_pty [of s]
  by (auto simp: pty_set_mode_def pty_set_foreground_group_def pty_inv_def split: option.splits intro!: ttys_inv_upd_pty)

lemmas ttys_inv_ops = tty_init_inv tty_create_inv tty_close_inv tty_close_owner_inv tty_write_input_inv
  tty_write_output_inv tty_read_input_inv tty_read_output_inv pty_create_inv pty_attach_slave_inv pty_close_inv pty_read_inv
  pty_write_inv pty_set_mode_inv pty_set_foreground_group_inv

subsection \<open>Runs of the terminal layer\<close>

definition ring_zero :: ring where
  "ring_zero = \<lparr>ring_data = (\<lambda>_. 0), ring_head = 0, ring_tail = 0, ring_used = 0\<rparr>"

definition pty_zero :: pty where
  "pty_zero = \<lparr>pty_allocated = False, master_open = False, slave_open = False, master_pid = 0, slave_pid = 0,
     pty_mode = 0, pty_input = ring_zero, pty_output = ring_zero, pty_line = [], foreground_group = 0\<rparr>"

definition tty_zero :: tty where
  "tty_zero = \<lparr>tty_allocated = False, tty_owner_pid = 0, tty_input = ring_zero, tty_output = ring_zero\<rparr>"

text \<open>Zeroed static storage.\<close>

definition ttys_zero :: ttys where
  "ttys_zero = \<lparr>g_ttys = (\<lambda>_. tty_zero), g_ptys = (\<lambda>_. pty_zero)\<rparr>"

inductive tty_step :: "ttys \<Rightarrow> ttys \<Rightarrow> bool" where
  init: "tty_step s (tty_init s)"
| create: "tty_step s (snd (tty_create_for_process pid s))"
| close: "tty_step s (snd (tty_close pid tid s))"
| close_owner: "tty_step s (tty_close_owner pid s)"
| write_input: "tty_step s (snd (tty_write_input tid data s))"
| write_output: "tty_step s (snd (tty_write_output tid data s))"
| read_input: "tty_step s (snd (snd (tty_read_input tid n s)))"
| read_output: "tty_step s (snd (snd (tty_read_output tid n s)))"
| write_process: "tty_step s (snd (tty_write_process pid tid data s))"
| read_process: "tty_step s (snd (snd (tty_read_process pid tid n s)))"
| p_create: "tty_step s (snd (pty_create pid s))"
| p_attach: "tty_step s (pty_attach_slave h pid g s)"
| p_close: "tty_step s (snd (pty_close pid h s))"
| p_read: "tty_step s (snd (snd (pty_read pid h n s)))"
| p_write: "tty_step s (fst (snd (pty_write pid h data s)))"
| p_mode: "tty_step s (snd (pty_set_mode pid h mode s))"
| p_group: "tty_step s (snd (pty_set_foreground_group pid h g s))"

inductive tty_reach :: "ttys \<Rightarrow> bool" where
  boot: "tty_reach ttys_zero"
| step: "tty_reach s \<Longrightarrow> tty_step s s' \<Longrightarrow> tty_reach s'"

lemma tty_step_inv: "tty_step s s' \<Longrightarrow> ttys_inv s \<Longrightarrow> ttys_inv s'"
  by (induction rule: tty_step.induct)
     (simp_all add: ttys_inv_ops tty_write_process_def tty_read_process_def)

lemma ttys_zero_inv: "ttys_inv ttys_zero"
  by (simp add: ttys_inv_def ttys_zero_def tty_zero_def pty_zero_def tty_inv_def pty_inv_def ring_wf_def ring_zero_def)

text \<open>
  C7. Every state the terminal layer can reach has well-formed rings (indices and fill count within the
  1024-byte buffer, head consistent with tail and fill), line buffers within 256 bytes, no allocated
  tty without an owner and no allocated pty with both ends closed.
\<close>

theorem tty_reachable_inv: "tty_reach s \<Longrightarrow> ttys_inv s"
  by (induction rule: tty_reach.induct) (auto intro: ttys_zero_inv tty_step_inv)

theorem tty_reachable_inv_witness:
  "ttys_inv (fst (snd (pty_write 7 0x100 [104, 105, 10] (snd (pty_create 7 ttys_zero)))))"
  by (rule tty_reachable_inv)
     (rule tty_reach.step [OF tty_reach.step [OF tty_reach.boot tty_step.p_create] tty_step.p_write])

subsection \<open>Stream integrity\<close>

text \<open>
  A terminal ring is a faithful byte stream: over any run of writes and reads from a reset ring,
  the bytes that the writes accepted are exactly the bytes that the reads delivered followed by what is
  still buffered, in order, with nothing lost, duplicated or invented.
\<close>

theorem tty_ring_stream:
  "fifo_run ring_write ring_read ops (ring_reset r) = (accepted, delivered, r') \<Longrightarrow>
     accepted = delivered @ ring_content TTY_BUFFER_SIZE r'"
  using tty_ring.run_stream [of "ring_reset r" ops] by simp

theorem tty_ring_stream_witness:
  "fst (fifo_run ring_write ring_read [Put [1, 2, 3], Get 2] (ring_reset ring_zero)) = [1, 2] @ [3]"
proof -
  have "fifo_run ring_write ring_read [Put [1, 2, 3], Get 2] (ring_reset ring_zero) =
    ([1, 2, 3], [1, 2], snd (snd (fifo_run ring_write ring_read [Put [1, 2, 3], Get 2] (ring_reset ring_zero))))"
    by (simp add: ring_zero_def ring_reset_def ring_store_def ring_push_def ring_fetch_def ring_pop_def numeral_2_eq_2)
  from tty_ring_stream [OF this] this show ?thesis by (metis fst_conv append_Cons append_Nil)
qed

subsection \<open>Ownership\<close>



subsection \<open>The line discipline\<close>

text \<open>
  What canonical mode means for the reader: characters collect in a line, erase removes the last one,
  newline and end of file hand the line over.
\<close>

fun canon :: "u8 list \<Rightarrow> u8 list \<Rightarrow> u8 list \<times> u8 list" where
  "canon line [] = ([], line)"
| "canon line (c # cs) =
     (if c = 8 \<or> c = 127 then canon (butlast line) cs
      else if c = 4 then (line @ fst (canon [] cs), snd (canon [] cs))
      else if c = 10 then (line @ 10 # fst (canon [] cs), snd (canon [] cs))
      else canon (line @ [c]) cs)"

lemma pty_flush_line_ok:
  assumes "pty_inv p" and "pty_line_fits p"
  shows "ring_content TTY_BUFFER_SIZE (pty_input (pty_flush_line p)) =
      ring_content TTY_BUFFER_SIZE (pty_input p) @ pty_line p"
    and "pty_line (pty_flush_line p) = []"
    and "ring_used (pty_input (pty_flush_line p)) = ring_used (pty_input p) + length (pty_line p)"
    and "pty_mode (pty_flush_line p) = pty_mode p"
proof -
  have w: "ring_wf TTY_BUFFER_SIZE (pty_input p)" using assms(1) by (simp add: pty_inv_def)
  have n: "fst (ring_write (pty_line p) (pty_input p)) = length (pty_line p)"
    using assms(2) ring_write_ok(2) [OF w] by (simp add: pty_line_fits_def)
  show c: "ring_content TTY_BUFFER_SIZE (pty_input (pty_flush_line p)) =
      ring_content TTY_BUFFER_SIZE (pty_input p) @ pty_line p"
    using ring_write_ok(3) [OF w, of "pty_line p"] n by (simp add: pty_flush_line_def)
  show "ring_used (pty_input (pty_flush_line p)) = ring_used (pty_input p) + length (pty_line p)"
    using arg_cong [OF c, of length] by simp
qed (simp_all add: pty_flush_line_def)

lemma pty_master_char_canon:
  assumes inv: "pty_inv p" and can: "pty_mode p AND PTY_MODE_CANONICAL \<noteq> 0" and c: "c \<noteq> 3" "c \<noteq> 26"
    and step: "pty_master_char c p = Consumed q"
  obtains d where "pty_mode q = pty_mode p"
    "ring_content TTY_BUFFER_SIZE (pty_input q) = ring_content TTY_BUFFER_SIZE (pty_input p) @ d"
    "\<And>rest. canon (pty_line p) (c # rest) = (d @ fst (canon (pty_line q) rest), snd (canon (pty_line q) rest))"
proof -
  consider (erase) "c = 8 \<or> c = 127" | (eof) "c = 4" | (nl) "c = 10"
    | (other) "\<not> (c = 8 \<or> c = 127)" "c \<noteq> 4" "c \<noteq> 10" by blast
  then show thesis
  proof cases
    case erase
    then have "pty_mode q = pty_mode p" "pty_input q = pty_input p" "pty_line q = butlast (pty_line p)"
      using step can c by (auto simp: pty_master_char_def split: if_splits)
    with erase show thesis by (intro that [of "[]"]) auto
  next
    case eof
    show thesis
    proof (cases "pty_line p = []")
      case True
      then have "q = p" using step can eof by (simp add: pty_master_char_def)
      with eof True show thesis by (intro that [of "[]"]) auto
    next
      case False
      then have "pty_line_fits p" "q = pty_flush_line p"
        using step can eof by (auto simp: pty_master_char_def split: if_splits)
      with pty_flush_line_ok [OF inv this(1)] eof show thesis by (intro that [of "pty_line p"]) auto
    qed
  next
    case nl
    define p1 where "p1 = pty_echo [c] (p\<lparr>pty_line := pty_line p @ [c]\<rparr>)"
    have len: "length (pty_line p) < PTY_LINE_SIZE" and fits: "pty_line_fits p1" and q: "q = pty_flush_line p1"
      using step can nl by (auto simp: pty_master_char_def p1_def Let_def split: if_splits)
    have "pty_inv p1" unfolding p1_def using inv len by (intro pty_echo_inv) (simp add: pty_inv_def)
    from pty_flush_line_ok [OF this fits] nl q show thesis
      by (intro that [of "pty_line p @ [10]"]) (auto simp: p1_def)
  next
    case other
    then have "q = pty_echo [c] (p\<lparr>pty_line := pty_line p @ [c]\<rparr>)"
      using step can c by (auto simp: pty_master_char_def Let_def split: if_splits)
    with other show thesis by (intro that [of "[]"]) auto
  qed
qed

lemma pty_master_loop_mono: "k \<le> fst (pty_master_loop cs k p)"
proof (induction cs arbitrary: k p)
  case (Cons c cs)
  have "k \<le> fst (pty_master_loop cs (Suc k) q)" for q using Cons.IH [of "Suc k" q] by simp
  then show ?case by (auto split: pty_step.splits)
qed simp

lemma pty_master_loop_canon:
  assumes "pty_inv p" and "pty_mode p AND PTY_MODE_CANONICAL \<noteq> 0" and "3 \<notin> set cs" and "26 \<notin> set cs"
    and "pty_master_loop cs k0 p = (k0 + k, p', ctl)"
  shows "ctl = None \<and> k \<le> length cs \<and>
    ring_content TTY_BUFFER_SIZE (pty_input p') =
      ring_content TTY_BUFFER_SIZE (pty_input p) @ fst (canon (pty_line p) (take k cs)) \<and>
    (pty_line p' = snd (canon (pty_line p) (take k cs)) \<or>
       k < length cs \<and> cs ! k = 10 \<and> pty_line p' = snd (canon (pty_line p) (take k cs)) @ [10])"
  using assms
proof (induction cs arbitrary: k0 k p)
  case Nil
  then show ?case by simp
next
  case (Cons c cs)
  have ctl: "c \<noteq> 3" "c \<noteq> 26" "3 \<notin> set cs" "26 \<notin> set cs" using Cons.prems by auto
  show ?case
  proof (cases "pty_master_char c p")
    case (Refused q)
    then have "k = 0" "p' = q" "ctl = None" using Cons.prems(5) by simp_all
    moreover have "pty_input q = pty_input p \<and> (pty_line q = pty_line p \<or> c = 10 \<and> pty_line q = pty_line p @ [10])"
      using Refused Cons.prems(2) ctl by (auto simp: pty_master_char_def Let_def split: if_splits)
    ultimately show ?thesis by auto
  next
    case (Control q)
    then show ?thesis using Cons.prems(2) ctl by (simp add: pty_master_char_def Let_def split: if_splits)
  next
    case (Consumed q)
    have inv: "pty_inv q" using pty_master_char_inv [OF Cons.prems(1), of c] Consumed by simp
    obtain k' where k: "k = Suc k'"
      using Cons.prems(5) Consumed pty_master_loop_mono [of "k0 + 1" cs q] by (cases k) auto
    then have run: "pty_master_loop cs (Suc k0) q = (Suc k0 + k', p', ctl)" using Cons.prems(5) Consumed by simp
    obtain d where d: "pty_mode q = pty_mode p"
      "ring_content TTY_BUFFER_SIZE (pty_input q) = ring_content TTY_BUFFER_SIZE (pty_input p) @ d"
      "\<And>rest. canon (pty_line p) (c # rest) = (d @ fst (canon (pty_line q) rest), snd (canon (pty_line q) rest))"
      using pty_master_char_canon [OF Cons.prems(1,2) ctl(1,2) Consumed] by metis
    from Cons.IH [OF inv _ ctl(3,4) run] Cons.prems(2) show ?thesis
      by (auto simp: k d simp del: canon.simps)
  qed
qed


lemma canon_length:
  "length (fst (canon l cs)) + length (snd (canon l cs)) \<le> length l + length cs"
  by (induction l cs rule: canon.induct) (auto simp: le_diff_conv)

lemma pty_master_loop_room:
  assumes "pty_inv p" and "pty_mode p AND PTY_MODE_CANONICAL \<noteq> 0" and "3 \<notin> set cs" and "26 \<notin> set cs"
    and "length (pty_line p) + length cs \<le> PTY_LINE_SIZE"
    and "ring_used (pty_input p) + length (pty_line p) + length cs \<le> TTY_BUFFER_SIZE"
  shows "fst (pty_master_loop cs k p) = k + length cs"
  using assms
proof (induction cs arbitrary: k p)
  case (Cons c cs)
  have c: "c \<noteq> 3" "c \<noteq> 26" "3 \<notin> set cs" "26 \<notin> set cs" using Cons.prems by auto
  define p1 where "p1 = pty_echo [c] (p\<lparr>pty_line := pty_line p @ [c]\<rparr>)"
  have fits: "pty_line_fits p" "pty_line_fits p1" "\<not> PTY_LINE_SIZE \<le> length (pty_line p)"
    using Cons.prems(5,6) by (simp_all add: pty_line_fits_def p1_def)
  have "\<exists>q. pty_master_char c p = Consumed q"
    using Cons.prems(2) c fits unfolding pty_master_char_def p1_def [symmetric] Let_def
    by (cases "c = 8 \<or> c = 127"; cases "c = 4"; cases "c = 10") simp_all
  then obtain q where q: "pty_master_char c p = Consumed q" ..
  have inv: "pty_inv q" using pty_master_char_inv [OF Cons.prems(1), of c] q by simp
  obtain d where d: "pty_mode q = pty_mode p"
    "ring_content TTY_BUFFER_SIZE (pty_input q) = ring_content TTY_BUFFER_SIZE (pty_input p) @ d"
    "\<And>rest. canon (pty_line p) (c # rest) = (d @ fst (canon (pty_line q) rest), snd (canon (pty_line q) rest))"
    using pty_master_char_canon [OF Cons.prems(1,2) c(1,2) q] by metis
  have "length d + length (pty_line q) \<le> length (pty_line p) + 1"
    using canon_length [of "pty_line p" "[c]"] d(3) [of "[]"] by simp
  moreover have "ring_used (pty_input q) = ring_used (pty_input p) + length d"
    using arg_cong [OF d(2), of length] by simp
  ultimately have "length (pty_line q) + length cs \<le> PTY_LINE_SIZE"
    "ring_used (pty_input q) + length (pty_line q) + length cs \<le> TTY_BUFFER_SIZE"
    using Cons.prems(5,6) by simp_all
  from Cons.IH [OF inv _ c(3,4) this] d(1) Cons.prems(2) q show ?case by simp
qed simp

text \<open>
  C10. The line discipline. A master write of characters without interrupt or stop to a canonical pty
  reports a count \<open>k\<close>, and the slave's input has grown by exactly what the \<open>k\<close> consumed characters
  mean under canonical line editing; no signal is raised. The pending line is the edited line, with one
  exception: when the write stopped at a newline that did not fit, that newline is already in the line
  although it was not counted. If line buffer and input ring have room, every character is consumed.
\<close>

theorem pty_write_canonical:
  assumes "ttys_inv s" and "pty_at s h = Some i" and "\<not> pty_is_slave h"
    and "pty_allowed (g_ptys s i) pid False" and "pty_mode (g_ptys s i) AND PTY_MODE_CANONICAL \<noteq> 0"
    and "3 \<notin> set data" and "26 \<notin> set data" and "pty_write pid h data s = (n, s', sig)"
  shows "sig = None \<and> 0 \<le> n \<and> nat n \<le> length data \<and>
    ring_content TTY_BUFFER_SIZE (pty_input (g_ptys s' i)) =
      ring_content TTY_BUFFER_SIZE (pty_input (g_ptys s i)) @ fst (canon (pty_line (g_ptys s i)) (take (nat n) data)) \<and>
    (pty_line (g_ptys s' i) = snd (canon (pty_line (g_ptys s i)) (take (nat n) data)) \<or>
       nat n < length data \<and> data ! nat n = 10 \<and>
       pty_line (g_ptys s' i) = snd (canon (pty_line (g_ptys s i)) (take (nat n) data)) @ [10]) \<and>
    (length (pty_line (g_ptys s i)) + length data \<le> PTY_LINE_SIZE \<and>
     ring_used (pty_input (g_ptys s i)) + length (pty_line (g_ptys s i)) + length data \<le> TTY_BUFFER_SIZE \<longrightarrow>
       nat n = length data)"
proof -
  let ?p = "g_ptys s i"
  obtain k p' ctl where loop: "pty_master_loop data 0 ?p = (0 + k, p', ctl)"
    by (metis add_0 prod.exhaust)
  have inv: "pty_inv ?p" using assms(1) by (rule ttys_inv_pty)
  note canon = pty_master_loop_canon [OF inv assms(5,6,7) loop]
  have "n = int k" "g_ptys s' i = p'" "sig = None"
    using assms(2,3,4,8) loop canon by (auto simp: pty_write_def Let_def)
  with canon pty_master_loop_room [OF inv assms(5,6,7), of 0] loop show ?thesis by simp
qed

definition ttys_example :: ttys where
  "ttys_example = snd (pty_create 7 ttys_zero)"

lemma ttys_example_facts:
  "ttys_inv ttys_example" "pty_at ttys_example 0x100 = Some 0" "\<not> pty_is_slave 0x100"
  "pty_allowed (g_ptys ttys_example 0) 7 False" "pty_mode (g_ptys ttys_example 0) = 3"
  "pty_line (g_ptys ttys_example 0) = []" "ring_used (pty_input (g_ptys ttys_example 0)) = 0"
  unfolding ttys_example_def
  by (simp_all add: pty_create_inv ttys_zero_inv)
     (simp_all add: pty_create_def ttys_zero_def pty_zero_def pty_at_def pty_index_def pty_is_slave_def pty_allowed_def
        ring_reset_def ring_zero_def)

theorem pty_write_canonical_witness:
  "ring_content TTY_BUFFER_SIZE (pty_input (g_ptys (fst (snd (pty_write 7 0x100 [97, 98, 8, 99, 10, 100] ttys_example))) 0)) =
     [97, 99, 10]"
proof -
  obtain n s' sig where w: "pty_write 7 0x100 [97, 98, 8, 99, 10, 100] ttys_example = (n, s', sig)"
    by (metis prod.exhaust)
  have can: "pty_mode (g_ptys ttys_example 0) AND PTY_MODE_CANONICAL \<noteq> 0"
    by (simp add: ttys_example_facts)
  have m: "3 \<notin> set [97, 98, 8, 99, 10, 100 :: u8]" "26 \<notin> set [97, 98, 8, 99, 10, 100 :: u8]" by simp_all
  from pty_write_canonical [OF ttys_example_facts(1-4) can m w]
  show ?thesis by (simp add: w ttys_example_facts ring_content_def)
qed

text \<open>
  C11. The exception of the line discipline loses idempotence: a newline that is refused because the
  slave's input is full (return value 0) stays in the line buffer, so once the slave has read its
  input, retrying the same newline delivers two.
\<close>

theorem pty_write_refused_newline_duplicated:
  assumes "ttys_inv s" and "pty_at s h = Some i" and "\<not> pty_is_slave h"
    and "pty_allowed (g_ptys s i) pid False" and "pty_mode (g_ptys s i) AND PTY_MODE_CANONICAL \<noteq> 0"
    and "pty_line (g_ptys s i) = []" and "ring_used (pty_input (g_ptys s i)) = TTY_BUFFER_SIZE"
  shows "let (n1, s1, _) = pty_write pid h [10] s;
             s2 = s1\<lparr>g_ptys := (g_ptys s1)(i := (g_ptys s1 i)\<lparr>pty_input := snd (ring_read TTY_BUFFER_SIZE (pty_input (g_ptys s1 i)))\<rparr>)\<rparr>;
             (n3, s3, _) = pty_write pid h [10] s2
         in n1 = 0 \<and> n3 = 1 \<and> ring_content TTY_BUFFER_SIZE (pty_input (g_ptys s3 i)) = [10, 10]"
proof -
  define p where "p = g_ptys s i"
  define p1 where "p1 = pty_echo [10] (p\<lparr>pty_line := [10]\<rparr>)"
  define p2 where "p2 = p1\<lparr>pty_input := snd (ring_read TTY_BUFFER_SIZE (pty_input p1))\<rparr>"
  define s1 where "s1 = s\<lparr>g_ptys := (g_ptys s)(i := p1)\<rparr>"
  define s2 where "s2 = s1\<lparr>g_ptys := (g_ptys s1)(i := p2)\<rparr>"
  have inv: "pty_inv p" using assms(1) by (simp add: p_def ttys_inv_pty)
  then have inv1: "pty_inv p1" unfolding p1_def by (intro pty_echo_inv) (simp add: pty_inv_def)
  have al: "pty_allocated p1 = pty_allocated p" "master_open p1 = master_open p" "master_pid p1 = master_pid p"
    by (simp_all add: p1_def pty_echo_def)
  have c1: "pty_master_char 10 p = Refused p1"
    using assms(5-7) by (simp add: pty_master_char_def p_def [symmetric] p1_def Let_def pty_line_fits_def)
  have w1: "pty_write pid h [10] s = (0, s1, None)"
    using assms(2-4) c1 by (simp add: pty_write_def p_def [symmetric] s1_def)
  have rd: "ring_content TTY_BUFFER_SIZE (pty_input p2) = []"
    using inv1 by (simp add: p2_def ring_read_ok pty_inv_def) (simp add: ring_wf_def)
  then have u: "ring_used (pty_input p2) = 0" by (metis length_ring_content list.size(3))
  have inv2: "pty_inv p2" using inv1 by (simp add: p2_def pty_inv_def ring_read_ok)
  define p3 where "p3 = pty_echo [10] (p2\<lparr>pty_line := [10, 10]\<rparr>)"
  have l2: "pty_line p2 = [10]" "pty_mode p2 = pty_mode p" by (simp_all add: p2_def p1_def)
  have inv3: "pty_inv p3" unfolding p3_def using inv2 by (intro pty_echo_inv) (simp add: pty_inv_def)
  have fits: "pty_line_fits p3" using u by (simp add: p3_def pty_line_fits_def)
  have c2: "pty_master_char 10 p2 = Consumed (pty_flush_line p3)"
    using assms(5) l2 fits by (simp add: pty_master_char_def p_def [symmetric] p3_def Let_def)
  have "pty_at s2 h = Some i"
    using assms(2) al unfolding pty_at_def Let_def s2_def s1_def p2_def
    by (auto simp: p_def split: if_splits)
  moreover have "pty_allowed (g_ptys s2 i) pid False"
    using assms(4) al by (simp add: pty_allowed_def s2_def s1_def p2_def p_def)
  ultimately have "pty_write pid h [10] s2 = (1, s2\<lparr>g_ptys := (g_ptys s2)(i := pty_flush_line p3)\<rparr>, None)"
    using assms(3) c2 by (simp add: pty_write_def s2_def)
  moreover have "ring_content TTY_BUFFER_SIZE (pty_input (pty_flush_line p3)) = [10, 10]"
    using pty_flush_line_ok(1) [OF inv3 fits] rd by (simp add: p3_def)
  moreover have "s2 = s1\<lparr>g_ptys := (g_ptys s1)(i := (g_ptys s1 i)\<lparr>pty_input := snd (ring_read TTY_BUFFER_SIZE (pty_input (g_ptys s1 i)))\<rparr>)\<rparr>"
    by (simp add: s2_def s1_def p2_def)
  ultimately show ?thesis using w1 by simp
qed

definition ttys_full :: ttys where
  "ttys_full = ttys_example\<lparr>g_ptys := (g_ptys ttys_example)(0 := (g_ptys ttys_example 0)\<lparr>pty_input := ring_zero\<lparr>ring_used := 1024\<rparr>\<rparr>)\<rparr>"

theorem pty_write_refused_newline_duplicated_witness:
  "fst (pty_write 7 0x100 [10] ttys_full) = 0"
proof -
  have f: "ttys_inv ttys_full" "pty_at ttys_full 0x100 = Some 0" "pty_allowed (g_ptys ttys_full 0) 7 False"
    "pty_mode (g_ptys ttys_full 0) AND PTY_MODE_CANONICAL \<noteq> 0" "pty_line (g_ptys ttys_full 0) = []"
    "ring_used (pty_input (g_ptys ttys_full 0)) = TTY_BUFFER_SIZE"
    using ttys_example_facts
    by (auto simp: ttys_full_def ttys_inv_def pty_inv_def ring_wf_def ring_zero_def pty_at_def pty_allowed_def Let_def split: if_splits)
  from pty_write_refused_newline_duplicated [OF f(1,2) ttys_example_facts(3) f(3-6)]
  show ?thesis by (simp add: case_prod_beta Let_def)
qed

end
