(* ===== verification/Proc.thy ===== *)
theory Proc
  imports Prelude
begin

text \<open>
  The process table of \<open>kernel/process.c\<close>: processes, threads, credentials, groups and permissions, and the
  part of the scheduler that chooses the next thread. Operations that also change other components
  (spawning, termination, mappings) are in the theories above this one.
  The states of processes and threads, small integer macros in the code, are data types. A process
  name is the list of its bytes up to the terminator. The model register \<open>msr_fs_base\<close> stands for the
  model specific register 0xC0000100, and the value of \<open>timer_millis()\<close> is an argument \<open>now\<close>.
\<close>

abbreviation (input) MAX_PROCESSES :: nat where "MAX_PROCESSES \<equiv> 16"
abbreviation (input) MAX_THREADS_PER_PROCESS :: nat where "MAX_THREADS_PER_PROCESS \<equiv> 32"
abbreviation (input) MAX_VM_REGIONS_PER_PROCESS :: nat where "MAX_VM_REGIONS_PER_PROCESS \<equiv> 2048"
abbreviation (input) KESH_UID_ROOT :: u32 where "KESH_UID_ROOT \<equiv> 0"
abbreviation (input) KESH_UID_USER :: u32 where "KESH_UID_USER \<equiv> 1000"
abbreviation (input) PROCESS_VM_BASE :: u64 where "PROCESS_VM_BASE \<equiv> 0x0000000100000000"
abbreviation (input) PROCESS_VM_MAX_SIZE :: u64 where "PROCESS_VM_MAX_SIZE \<equiv> 0x20000000"
abbreviation (input) PROCESS_HEAP_BASE :: u64 where "PROCESS_HEAP_BASE \<equiv> 0x0000000030000000"

datatype process_state = PROCESS_STATE_UNUSED | PROCESS_STATE_READY | PROCESS_STATE_RUNNING
  | PROCESS_STATE_EXITED | PROCESS_STATE_STOPPED

datatype thread_state = THREAD_STATE_UNUSED | THREAD_STATE_READY | THREAD_STATE_RUNNING | THREAD_STATE_EXITED

record credentials =
  uid :: u32
  gid :: u32
  groups :: u32

record user_context =
  rip :: u64
  rsp :: u64
  rflags :: u64
  rbp :: u64
  rbx :: u64
  r12 :: u64
  r13 :: u64
  r14 :: u64
  r15 :: u64
  cr3 :: u64
  is_started :: u64
  return_rax :: u64
  rdi :: u64
  rsi :: u64
  rdx :: u64
  r8 :: u64
  r9 :: u64
  r10 :: u64

record thread =
  tid :: nat
  owner_pid :: int
  thread_state :: thread_state
  stack_base :: u64
  stack_pages :: u32
  wake_at_ms :: u64
  thread_fs_base :: u64
  clear_child_tid :: u64
  thread_ctx :: user_context

text \<open>The backing object of a mapping is its number in the table of shared memory objects.\<close>

record process_vm_region =
  region_base :: u64
  region_size :: u64
  region_protection :: u32
  owns_physical :: bool
  backing_kind :: nat
  backing_ptr :: "nat option"
  region_active :: bool

record process =
  process_id :: int
  process_name :: "u8 list"
  pml4_phys :: u64
  entry_point :: u64
  user_stack_top :: u64
  permissions :: u32
  process_credentials :: credentials
  process_state :: process_state
  process_ctx :: user_context
  threads :: "nat \<Rightarrow> thread"
  active_thread_idx :: nat
  vm_regions :: "nat \<Rightarrow> process_vm_region"
  vm_next_base :: u64
  heap_base :: u64
  heap_break :: u64
  heap_mapped_end :: u64
  controlling_pty :: int
  process_group :: int
  is_linux_abi :: bool
  process_fs_base :: u64

record procs =
  g_processes :: "nat \<Rightarrow> process"
  g_active_proc_idx :: int
  g_active_thread_idx :: int
  msr_fs_base :: u64

definition upd_proc :: "nat \<Rightarrow> (process \<Rightarrow> process) \<Rightarrow> procs \<Rightarrow> procs" where
  "upd_proc i f s = s\<lparr>g_processes := (g_processes s)(i := f (g_processes s i))\<rparr>"

definition upd_thread :: "nat \<Rightarrow> (thread \<Rightarrow> thread) \<Rightarrow> process \<Rightarrow> process" where
  "upd_thread t f p = p\<lparr>threads := (threads p)(t := f (threads p t))\<rparr>"

subsection \<open>Initialisation\<close>

text \<open>A slot of the table after \<open>process_init\<close>: the fields that the code does not set keep their value.\<close>

definition thread_init :: "int \<Rightarrow> nat \<Rightarrow> thread \<Rightarrow> thread" where
  "thread_init i t th = th\<lparr>tid := t, owner_pid := i, thread_state := THREAD_STATE_UNUSED, stack_base := 0,
     stack_pages := 0, wake_at_ms := 0, thread_fs_base := 0, clear_child_tid := 0\<rparr>"

definition process_slot_init :: "nat \<Rightarrow> process \<Rightarrow> process" where
  "process_slot_init i p =
     p\<lparr>process_id := int i, process_state := PROCESS_STATE_UNUSED, controlling_pty := - 1, process_group := int i,
       process_name := [],
       process_credentials := \<lparr>uid = KESH_UID_USER, gid = KESH_UID_USER, groups = 0\<rparr>,
       active_thread_idx := 0, vm_next_base := PROCESS_VM_BASE, heap_base := PROCESS_HEAP_BASE,
       heap_break := PROCESS_HEAP_BASE, heap_mapped_end := PROCESS_HEAP_BASE,
       vm_regions := (\<lambda>r. if r < MAX_VM_REGIONS_PER_PROCESS then (vm_regions p r)\<lparr>region_active := False\<rparr> else vm_regions p r),
       threads := (\<lambda>t. if t < MAX_THREADS_PER_PROCESS then thread_init (int i) t (threads p t) else threads p t)\<rparr>"

definition process_init :: "procs \<Rightarrow> procs" where
  "process_init s =
     s\<lparr>g_processes := (\<lambda>i. if i < MAX_PROCESSES then process_slot_init i (g_processes s i) else g_processes s i),
       g_active_proc_idx := - 1, g_active_thread_idx := 0\<rparr>"

subsection \<open>Queries\<close>

definition process_exists :: "procs \<Rightarrow> int \<Rightarrow> bool" where
  "process_exists s pid \<longleftrightarrow> pid \<ge> 0 \<and> pid < int MAX_PROCESSES \<and>
     process_state (g_processes s (nat pid)) \<noteq> PROCESS_STATE_UNUSED \<and>
     process_state (g_processes s (nat pid)) \<noteq> PROCESS_STATE_EXITED"

text \<open>The slot named by \<open>g_active_proc_idx\<close>, and the same when its process is alive.\<close>

definition active_slot :: "procs \<Rightarrow> nat option" where
  "active_slot s = (if g_active_proc_idx s < 0 \<or> g_active_proc_idx s \<ge> int MAX_PROCESSES then None
     else Some (nat (g_active_proc_idx s)))"

definition active_live :: "procs \<Rightarrow> nat option" where
  "active_live s = (case active_slot s of None \<Rightarrow> None
     | Some i \<Rightarrow> if process_state (g_processes s i) = PROCESS_STATE_UNUSED \<or>
                   process_state (g_processes s i) = PROCESS_STATE_EXITED then None else Some i)"

definition active_thread :: "procs \<Rightarrow> nat option" where
  "active_thread s = (if g_active_thread_idx s \<ge> 0 \<and> g_active_thread_idx s < int MAX_THREADS_PER_PROCESS
     then Some (nat (g_active_thread_idx s)) else None)"

definition process_current_is_linux :: "procs \<Rightarrow> bool" where
  "process_current_is_linux s = (case active_slot s of None \<Rightarrow> False | Some i \<Rightarrow> is_linux_abi (g_processes s i))"

definition process_set_current_linux :: "bool \<Rightarrow> procs \<Rightarrow> procs" where
  "process_set_current_linux b s =
     (case active_slot s of None \<Rightarrow> s | Some i \<Rightarrow> upd_proc i (\<lambda>p. p\<lparr>is_linux_abi := b\<rparr>) s)"

definition process_set_current_fs_base :: "u64 \<Rightarrow> procs \<Rightarrow> procs" where
  "process_set_current_fs_base fsb s =
     (case active_slot s of
        None \<Rightarrow> s
      | Some i \<Rightarrow>
          let s1 = upd_proc i (\<lambda>p. p\<lparr>process_fs_base := fsb\<rparr>) s in
          case active_thread s of
            None \<Rightarrow> s1
          | Some t \<Rightarrow> upd_proc i (upd_thread t (\<lambda>th. th\<lparr>thread_fs_base := fsb\<rparr>)) s1)"

definition process_get_current_fs_base :: "procs \<Rightarrow> u64" where
  "process_get_current_fs_base s =
     (case active_slot s of
        None \<Rightarrow> 0
      | Some i \<Rightarrow>
          case active_thread s of
            None \<Rightarrow> process_fs_base (g_processes s i)
          | Some t \<Rightarrow>
              let t_fs = thread_fs_base (threads (g_processes s i) t)
              in if t_fs \<noteq> 0 then t_fs else process_fs_base (g_processes s i))"

definition process_current_id :: "procs \<Rightarrow> int" where
  "process_current_id s = (case active_live s of None \<Rightarrow> - 1 | Some i \<Rightarrow> process_id (g_processes s i))"

definition process_sleep_current :: "u64 \<Rightarrow> u32 \<Rightarrow> procs \<Rightarrow> procs" where
  "process_sleep_current now ms s =
     (case active_slot s of
        None \<Rightarrow> s
      | Some i \<Rightarrow>
          case active_thread s of
            None \<Rightarrow> s
          | Some t \<Rightarrow>
              if process_state (g_processes s i) = PROCESS_STATE_RUNNING \<or>
                 process_state (g_processes s i) = PROCESS_STATE_READY
              then upd_proc i (upd_thread t (\<lambda>th. th\<lparr>wake_at_ms := now + ucast ms\<rparr>)) s else s)"

definition process_has_active :: "procs \<Rightarrow> bool" where
  "process_has_active s = (\<exists>i<MAX_PROCESSES. process_state (g_processes s i) = PROCESS_STATE_READY \<or>
     process_state (g_processes s i) = PROCESS_STATE_RUNNING)"

definition process_set_controlling_pty :: "int \<Rightarrow> int \<Rightarrow> procs \<Rightarrow> int \<times> procs" where
  "process_set_controlling_pty pid handle s =
     (if \<not> process_exists s pid then (- 1, s)
      else (0, upd_proc (nat pid) (\<lambda>p. p\<lparr>controlling_pty := handle\<rparr>) s))"

definition process_current_pty :: "procs \<Rightarrow> int" where
  "process_current_pty s = (case active_slot s of None \<Rightarrow> - 1 | Some i \<Rightarrow> controlling_pty (g_processes s i))"

definition process_get_group :: "procs \<Rightarrow> int \<Rightarrow> int" where
  "process_get_group s pid = (if process_exists s pid then process_group (g_processes s (nat pid)) else - 1)"

definition process_get_credentials :: "procs \<Rightarrow> int \<Rightarrow> credentials option" where
  "process_get_credentials s pid =
     (if \<not> process_exists s pid then None else Some (process_credentials (g_processes s (nat pid))))"

definition process_set_group :: "int \<Rightarrow> int \<Rightarrow> int \<Rightarrow> procs \<Rightarrow> int \<times> procs" where
  "process_set_group caller pid grp s =
     (if \<not> process_exists s caller \<or> \<not> process_exists s pid \<or> grp < 0 then (- 1, s)
      else if caller \<noteq> pid \<and> uid (process_credentials (g_processes s (nat caller))) \<noteq> KESH_UID_ROOT then (- 1, s)
      else (0, upd_proc (nat pid) (\<lambda>p. p\<lparr>process_group := if grp \<noteq> 0 then grp else pid\<rparr>) s))"

definition process_current_thread_id :: "procs \<Rightarrow> int" where
  "process_current_thread_id s = (case active_slot s of None \<Rightarrow> - 1 | Some _ \<Rightarrow> g_active_thread_idx s)"

definition process_current_name :: "procs \<Rightarrow> u8 list option" where
  "process_current_name s = (case active_live s of None \<Rightarrow> None | Some i \<Rightarrow> Some (process_name (g_processes s i)))"

definition process_current_permissions :: "procs \<Rightarrow> u32" where
  "process_current_permissions s = (case active_live s of None \<Rightarrow> 0 | Some i \<Rightarrow> permissions (g_processes s i))"

definition process_has_permission :: "procs \<Rightarrow> u32 \<Rightarrow> bool" where
  "process_has_permission s permission \<longleftrightarrow> process_current_permissions s AND permission = permission"

definition process_revoke_permissions :: "int \<Rightarrow> int \<Rightarrow> u32 \<Rightarrow> procs \<Rightarrow> int \<times> procs" where
  "process_revoke_permissions caller target revoked s =
     (if \<not> process_exists s caller \<or> \<not> process_exists s target \<or> revoked = 0 then (- 1, s)
      else if uid (process_credentials (g_processes s (nat caller))) \<noteq> KESH_UID_ROOT then (- 1, s)
      else
        let before = permissions (g_processes s (nat target));
            s1 = upd_proc (nat target) (\<lambda>p. p\<lparr>permissions := permissions p AND NOT revoked\<rparr>) s
        in (if before \<noteq> permissions (g_processes s1 (nat target)) then 0 else - 1, s1))"

definition process_current_credentials :: "procs \<Rightarrow> credentials option" where
  "process_current_credentials s =
     (case active_live s of None \<Rightarrow> None | Some i \<Rightarrow> Some (process_credentials (g_processes s i)))"

definition process_current_is_root :: "procs \<Rightarrow> bool" where
  "process_current_is_root s =
     (case process_current_credentials s of None \<Rightarrow> False | Some c \<Rightarrow> uid c = KESH_UID_ROOT)"

text \<open>\<open>process_get_table\<close>: one row per used slot, at most \<open>max_entries\<close>.\<close>

record kesh_proc_info =
  info_pid :: int
  info_name :: "u8 list"
  info_state :: process_state
  memory_bytes :: u64

definition process_info :: "process \<Rightarrow> kesh_proc_info" where
  "process_info p = \<lparr>info_pid = process_id p,
     info_name = take 31 (if process_name p \<noteq> [] then process_name p else [112, 114, 111, 99]),
     info_state = process_state p, memory_bytes = 64 * 1024\<rparr>"

definition process_get_table :: "procs \<Rightarrow> int \<Rightarrow> kesh_proc_info list" where
  "process_get_table s max_entries =
     take (nat max_entries)
       (map (\<lambda>i. process_info (g_processes s i))
          (filter (\<lambda>i. process_state (g_processes s i) \<noteq> PROCESS_STATE_UNUSED) [0..<MAX_PROCESSES]))"

subsection \<open>Threads\<close>

definition free_thread_slot :: "process \<Rightarrow> nat option" where
  "free_thread_slot p =
     first_from (\<lambda>i. thread_state (threads p i) = THREAD_STATE_UNUSED \<or> thread_state (threads p i) = THREAD_STATE_EXITED)
       1 (MAX_THREADS_PER_PROCESS - 1)"

definition process_create_linux_thread :: "u64 \<Rightarrow> u64 \<Rightarrow> u64 \<Rightarrow> u64 \<Rightarrow> procs \<Rightarrow> int \<times> procs" where
  "process_create_linux_thread new_rip new_rsp fsb fn s =
     (case active_slot s of
        None \<Rightarrow> (- 1, s)
      | Some i \<Rightarrow>
          let p = g_processes s i in
          if process_state p = PROCESS_STATE_UNUSED then (- 1, s)
          else case free_thread_slot p of
                 None \<Rightarrow> (- 1, s)
               | Some t \<Rightarrow>
                   (int t, upd_proc i (upd_thread t (\<lambda>th. th\<lparr>tid := t, owner_pid := process_id p,
                      thread_state := THREAD_STATE_READY, stack_base := 0, stack_pages := 0, wake_at_ms := 0,
                      thread_fs_base := fsb, clear_child_tid := 0,
                      thread_ctx := (thread_ctx (threads p 0))\<lparr>cr3 := pml4_phys p, rip := new_rip, rsp := new_rsp,
                        rflags := 0x202, is_started := 1, return_rax := 0, r9 := fn, r10 := 0, r8 := 0, rdx := 0,
                        rsi := 0, rdi := 0, rbp := 0, rbx := 0, r12 := 0, r13 := 0, r14 := 0, r15 := 0\<rparr>\<rparr>)) s))"

definition process_set_thread_clear_child_tid :: "int \<Rightarrow> u64 \<Rightarrow> procs \<Rightarrow> procs" where
  "process_set_thread_clear_child_tid tidx ctid s =
     (case active_slot s of
        None \<Rightarrow> s
      | Some i \<Rightarrow> if tidx \<ge> 0 \<and> tidx < int MAX_THREADS_PER_PROCESS
                 then upd_proc i (upd_thread (nat tidx) (\<lambda>th. th\<lparr>clear_child_tid := ctid\<rparr>)) s else s)"

definition process_set_current_clear_child_tid :: "u64 \<Rightarrow> procs \<Rightarrow> procs" where
  "process_set_current_clear_child_tid ctid s =
     (case active_slot s of
        None \<Rightarrow> s
      | Some i \<Rightarrow> (case active_thread s of
                    None \<Rightarrow> s
                  | Some t \<Rightarrow> upd_proc i (upd_thread t (\<lambda>th. th\<lparr>clear_child_tid := ctid\<rparr>)) s))"

definition process_get_current_clear_child_tid :: "procs \<Rightarrow> u64" where
  "process_get_current_clear_child_tid s =
     (case active_slot s of
        None \<Rightarrow> 0
      | Some i \<Rightarrow> (case active_thread s of None \<Rightarrow> 0 | Some t \<Rightarrow> clear_child_tid (threads (g_processes s i) t)))"

definition thread_live :: "thread \<Rightarrow> bool" where
  "thread_live th \<longleftrightarrow> thread_state th = THREAD_STATE_READY \<or> thread_state th = THREAD_STATE_RUNNING"

definition process_has_other_live_threads :: "procs \<Rightarrow> bool" where
  "process_has_other_live_threads s =
     (case active_slot s of
        None \<Rightarrow> False
      | Some i \<Rightarrow> (\<exists>t<MAX_THREADS_PER_PROCESS. int t \<noteq> g_active_thread_idx s \<and> thread_live (threads (g_processes s i) t)))"

subsection \<open>Choosing the next thread\<close>

text \<open>The guards of the thread loop of \<open>process_step_active\<close>.\<close>

definition thread_runnable :: "u64 \<Rightarrow> process \<Rightarrow> nat \<Rightarrow> bool" where
  "thread_runnable now p t \<longleftrightarrow>
     thread_state (threads p t) = THREAD_STATE_READY \<and> cr3 (thread_ctx (threads p t)) \<noteq> 0 \<and>
     cr3 (thread_ctx (threads p 0)) = cr3 (thread_ctx (threads p t)) \<and>
     \<not> (t \<noteq> 0 \<and> thread_state (threads p 0) = THREAD_STATE_UNUSED) \<and>
     \<not> (wake_at_ms (threads p t) \<noteq> 0 \<and> now < wake_at_ms (threads p t))"

definition pick_thread :: "u64 \<Rightarrow> process \<Rightarrow> nat option" where
  "pick_thread now p =
     map_option (\<lambda>tstep. (active_thread_idx p + tstep) mod MAX_THREADS_PER_PROCESS)
       (first_from (\<lambda>tstep. thread_runnable now p ((active_thread_idx p + tstep) mod MAX_THREADS_PER_PROCESS))
          0 MAX_THREADS_PER_PROCESS)"

definition process_dispatch :: "nat \<Rightarrow> nat \<Rightarrow> procs \<Rightarrow> procs" where
  "process_dispatch i t s =
     (let s1 = (upd_proc i (\<lambda>p. (upd_thread t (\<lambda>th. th\<lparr>wake_at_ms := 0, thread_state := THREAD_STATE_RUNNING\<rparr>) p)
                  \<lparr>active_thread_idx := t, process_state := PROCESS_STATE_RUNNING\<rparr>) s)\<lparr>g_active_thread_idx := int t\<rparr>;
          p = g_processes s1 i;
          target_fs = (if thread_fs_base (threads p t) \<noteq> 0 then thread_fs_base (threads p t) else process_fs_base p)
      in if is_linux_abi p \<and> target_fs \<noteq> 0 then s1\<lparr>msr_fs_base := target_fs\<rparr> else s1)"

text \<open>The process loop, up to the switch to user mode.\<close>

fun process_pick :: "u64 \<Rightarrow> nat \<Rightarrow> procs \<Rightarrow> (nat \<times> nat) option \<times> procs" where
  "process_pick now 0 s = (None, s)"
| "process_pick now (Suc k) s =
     (let s1 = s\<lparr>g_active_proc_idx := (g_active_proc_idx s + 1) mod int MAX_PROCESSES\<rparr>;
          i = nat (g_active_proc_idx s1); p = g_processes s1 i
      in if process_state p \<noteq> PROCESS_STATE_READY then process_pick now k s1
         else case pick_thread now p of
                None \<Rightarrow> process_pick now k s1
              | Some t \<Rightarrow> (Some (i, t), process_dispatch i t s1))"

text \<open>
  After the thread came back with a result other than 2 (thread exit), and the index of the next thread.
\<close>

definition process_save_context :: "nat \<Rightarrow> nat \<Rightarrow> procs \<Rightarrow> procs" where
  "process_save_context i t s =
     upd_proc i (\<lambda>p.
       let p1 = p\<lparr>process_ctx := thread_ctx (threads p t)\<rparr> in
       if is_linux_abi p1
       then let p2 = upd_thread t (\<lambda>th. th\<lparr>thread_fs_base := msr_fs_base s\<rparr>) p1
            in if t = 0 then p2\<lparr>process_fs_base := msr_fs_base s\<rparr> else p2
       else p1) s"

definition process_yielded :: "nat \<Rightarrow> nat \<Rightarrow> procs \<Rightarrow> procs" where
  "process_yielded i t s =
     (if thread_state (threads (g_processes s i) t) = THREAD_STATE_RUNNING
      then upd_proc i (\<lambda>p. (upd_thread t (\<lambda>th. th\<lparr>thread_state := THREAD_STATE_READY\<rparr>) p)
             \<lparr>process_state := PROCESS_STATE_READY\<rparr>) s
      else s)"

definition process_next_thread :: "nat \<Rightarrow> nat \<Rightarrow> procs \<Rightarrow> procs" where
  "process_next_thread i t s = upd_proc i (\<lambda>p. p\<lparr>active_thread_idx := (t + 1) mod MAX_THREADS_PER_PROCESS\<rparr>) s"

subsection \<open>The scheduler\<close>

definition dispatchable :: "u64 \<Rightarrow> procs \<Rightarrow> nat \<Rightarrow> bool" where
  "dispatchable now s i \<longleftrightarrow> process_state (g_processes s i) = PROCESS_STATE_READY \<and>
     pick_thread now (g_processes s i) \<noteq> None"

text \<open>How many slots the rotating search visits before slot \<open>j\<close>.\<close>

definition slots_before :: "procs \<Rightarrow> nat \<Rightarrow> nat" where
  "slots_before s j = nat ((int j - g_active_proc_idx s - 1) mod int MAX_PROCESSES)"

lemma process_dispatch_simps [simp]:
  "g_active_proc_idx (process_dispatch i t s) = g_active_proc_idx s"
  "g_active_thread_idx (process_dispatch i t s) = int t"
  "i \<noteq> j \<Longrightarrow> g_processes (process_dispatch i t s) j = g_processes s j"
  by (simp_all add: process_dispatch_def Let_def upd_proc_def)

text \<open>One iteration of the process loop.\<close>

definition sched_next :: "procs \<Rightarrow> procs" where
  "sched_next s = s\<lparr>g_active_proc_idx := (g_active_proc_idx s + 1) mod int MAX_PROCESSES\<rparr>"

lemma sched_next_simps [simp]:
  "g_active_proc_idx (sched_next s) = (g_active_proc_idx s + 1) mod int MAX_PROCESSES"
  "g_processes (sched_next s) = g_processes s" "dispatchable now (sched_next s) = dispatchable now s"
  "sched_next s\<lparr>g_active_proc_idx := x\<rparr> = s\<lparr>g_active_proc_idx := x\<rparr>"
  by (simp_all add: sched_next_def dispatchable_def fun_eq_iff)

lemma process_pick_Suc:
  "process_pick now (Suc k) s =
     (let i = nat ((g_active_proc_idx s + 1) mod int MAX_PROCESSES) in
      if dispatchable now s i
      then (Some (i, the (pick_thread now (g_processes s i))),
            process_dispatch i (the (pick_thread now (g_processes s i))) (sched_next s))
      else process_pick now k (sched_next s))"
  by (auto simp: dispatchable_def Let_def sched_next_def split: option.splits)

declare process_pick.simps(2) [simp del]

lemma mod16_advance:
  fixes a j :: int
  assumes "nat ((j - a - 1) mod 16) = Suc d"
  shows "nat ((j - (a + 1) mod 16 - 1) mod 16) = d"
proof -
  have "(j - (a + 1) mod 16 - 1) mod 16 = (j - (a + 1) - 1) mod 16"
    by (intro mod_diff_cong mod_mod_trivial refl)
  also have "\<dots> = ((j - a - 1) mod 16 - 1) mod 16"
    by (simp add: mod_diff_left_eq algebra_simps)
  finally have "(j - (a + 1) mod 16 - 1) mod 16 = ((j - a - 1) mod 16 - 1) mod 16" .
  moreover have "0 \<le> (j - a - 1) mod 16 - 1" "(j - a - 1) mod 16 - 1 < 16"
    using assms pos_mod_bound [of 16 "j - a - 1"] by linarith+
  ultimately have "(j - (a + 1) mod 16 - 1) mod 16 = (j - a - 1) mod 16 - 1"
    by (simp add: mod_pos_pos_trivial)
  with assms show ?thesis by simp
qed

lemma mod16_zero:
  fixes a j :: int
  assumes "0 \<le> j" and "j < 16" and "nat ((j - a - 1) mod 16) = 0"
  shows "(a + 1) mod 16 = j"
proof -
  have "(j - a - 1) mod 16 = 0" using assms(3) pos_mod_sign [of 16 "j - a - 1"] by linarith
  then have "(j - (a + 1)) mod 16 = 0" by (simp add: algebra_simps)
  then have "j mod 16 = (a + 1) mod 16" using mod_eq_dvd_iff [of j 16 "a + 1"] by presburger
  with assms show ?thesis by simp
qed

lemma slots_before_next: "slots_before s j = Suc d \<Longrightarrow> slots_before (sched_next s) j = d"
  using mod16_advance by (simp add: slots_before_def)

lemma slots_before_zero:
  "j < MAX_PROCESSES \<Longrightarrow> slots_before s j = 0 \<Longrightarrow> nat ((g_active_proc_idx s + 1) mod int MAX_PROCESSES) = j"
  using mod16_zero [of "int j" "g_active_proc_idx s"] by (simp add: slots_before_def)

lemma slots_before_bound: "slots_before s j < MAX_PROCESSES"
  unfolding slots_before_def by simp

lemma process_pick_reaches:
  assumes "dispatchable now s j" and "j < MAX_PROCESSES" and "slots_before s j < k"
  obtains i t s' where "process_pick now k s = (Some (i, t), s')" and "i = j \<or> slots_before s' j < slots_before s j"
  using assms
proof (induction k arbitrary: s thesis)
  case 0
  then show ?case by simp
next
  case (Suc k)
  define i where "i = nat ((g_active_proc_idx s + 1) mod int MAX_PROCESSES)"
  show ?case
  proof (cases "slots_before s j")
    case 0
    then have "i = j" using slots_before_zero [OF Suc.prems(3)] by (simp add: i_def)
    with Suc.prems(2) have "process_pick now (Suc k) s = (Some (i, the (pick_thread now (g_processes s i))),
            process_dispatch i (the (pick_thread now (g_processes s i))) (sched_next s))"
      unfolding process_pick_Suc i_def [symmetric] by (simp add: Let_def)
    from Suc.prems(1) [OF this] \<open>i = j\<close> show ?thesis by blast
  next
    case pos: (Suc d)
    have d: "slots_before (sched_next s) j = d" by (rule slots_before_next [OF pos])
    show ?thesis
    proof (cases "dispatchable now s i")
      case True
      then have "process_pick now (Suc k) s = (Some (i, the (pick_thread now (g_processes s i))),
            process_dispatch i (the (pick_thread now (g_processes s i))) (sched_next s))"
        unfolding process_pick_Suc i_def [symmetric] by (simp add: Let_def)
      moreover have "slots_before (process_dispatch i (the (pick_thread now (g_processes s i))) (sched_next s)) j = d"
        using d by (simp add: slots_before_def)
      ultimately show ?thesis using pos Suc.prems(1) by simp
    next
      case False
      then have step: "process_pick now (Suc k) s = process_pick now k (sched_next s)"
        unfolding process_pick_Suc i_def [symmetric] by (simp add: Let_def)
      obtain l t s' where "process_pick now k (sched_next s) = (Some (l, t), s')"
        "l = j \<or> slots_before s' j < slots_before (sched_next s) j"
        using Suc.IH [of "sched_next s"] Suc.prems d pos by auto
      then show ?thesis using pos d step by (intro Suc.prems(1)) auto
    qed
  qed
qed

text \<open>A thread of the process is ready, consistent with its address space and not asleep.\<close>

definition eligible :: "procs \<Rightarrow> nat \<Rightarrow> bool" where
  "eligible s j \<longleftrightarrow> process_state (g_processes s j) = PROCESS_STATE_READY \<and>
     (\<exists>t<MAX_THREADS_PER_PROCESS. thread_runnable 0 (g_processes s j) t \<and> wake_at_ms (threads (g_processes s j) t) = 0)"

lemma pick_thread_total:
  assumes "t < MAX_THREADS_PER_PROCESS" and "thread_runnable now p t"
  shows "pick_thread now p \<noteq> None"
proof -
  define a where "a = active_thread_idx p mod MAX_THREADS_PER_PROCESS"
  let ?u = "(t + (MAX_THREADS_PER_PROCESS - a)) mod MAX_THREADS_PER_PROCESS"
  have "a \<le> MAX_THREADS_PER_PROCESS" by (simp add: a_def)
  then have "(a + ?u) mod MAX_THREADS_PER_PROCESS = t"
    using assms(1) by (simp add: mod_add_right_eq)
  then have "(active_thread_idx p + ?u) mod MAX_THREADS_PER_PROCESS = t"
    by (metis a_def mod_add_left_eq)
  with assms show ?thesis
    unfolding pick_thread_def by (auto simp: first_from_None_iff simp del: first_from_numeral intro!: exI [of _ ?u])
qed

lemma eligible_dispatchable: "eligible s j \<Longrightarrow> dispatchable now s j"
  using pick_thread_total [of _ now "g_processes s j"] by (auto simp: eligible_def dispatchable_def thread_runnable_def)

lemma slots_before_first: "slots_before s (nat ((g_active_proc_idx s + 1) mod int MAX_PROCESSES)) = 0"
proof -
  have "((a + 1) mod 16 - a - 1) mod 16 = (0 :: int)" for a :: int
    by (metis add_diff_cancel_left' diff_diff_eq mod_0 mod_diff_left_eq right_minus_eq)
  then show ?thesis by (simp add: slots_before_def)
qed

lemma pick_thread_runnable: "pick_thread now p = Some t \<Longrightarrow> t < MAX_THREADS_PER_PROCESS \<and> thread_runnable now p t"
  unfolding pick_thread_def by (auto dest: first_from_SomeD simp del: first_from_numeral)

lemma process_pick_spec:
  assumes "process_pick now k s = (r, s')"
  shows "case r of
      None \<Rightarrow> (\<forall>j<MAX_PROCESSES. slots_before s j < k \<longrightarrow> \<not> dispatchable now s j) \<and> g_processes s' = g_processes s
    | Some (i, t) \<Rightarrow> i < MAX_PROCESSES \<and> dispatchable now s i \<and> pick_thread now (g_processes s i) = Some t \<and>
        (\<forall>j<MAX_PROCESSES. slots_before s j < slots_before s i \<longrightarrow> \<not> dispatchable now s j) \<and>
        s' = process_dispatch i t (s\<lparr>g_active_proc_idx := int i\<rparr>)"
  using assms
proof (induction k arbitrary: s)
  case 0
  then show ?case by auto
next
  case (Suc k)
  define i where "i = nat ((g_active_proc_idx s + 1) mod int MAX_PROCESSES)"
  have i: "i < MAX_PROCESSES" "int i = (g_active_proc_idx s + 1) mod int MAX_PROCESSES" "slots_before s i = 0"
    using slots_before_first [of s] by (simp_all add: i_def nat_less_iff)
  have pred: "slots_before s j = Suc (slots_before (sched_next s) j)" if "j < MAX_PROCESSES" "j \<noteq> i" for j
    using that slots_before_zero [of j s] slots_before_next [of s j]
    by (cases "slots_before s j") (simp_all add: i_def)
  show ?case
  proof (cases "dispatchable now s i")
    case True
    then show ?thesis using Suc.prems i
      unfolding process_pick_Suc i_def [symmetric]
      by (auto simp: Let_def dispatchable_def sched_next_def)
  next
    case False
    then have "process_pick now k (sched_next s) = (r, s')"
      using Suc.prems unfolding process_pick_Suc i_def [symmetric] by (simp add: Let_def)
    note IH = Suc.IH [OF this]
    show ?thesis
    proof (cases r)
      case None
      then show ?thesis using IH False pred i by (auto, metis Suc_less_eq)
    next
      case (Some it)
      obtain l t where it: "it = (l, t)" by (cases it)
      have l: "l \<noteq> i" "l < MAX_PROCESSES" using IH False by (auto simp: Some it)
      have "\<not> dispatchable now s j" if "j < MAX_PROCESSES" "slots_before s j < slots_before s l" for j
        using that IH False pred [of j] pred [of l] l by (cases "j = i") (auto simp: Some it)
      with IH show ?thesis by (auto simp: Some it)
    qed
  qed
qed

text \<open>
  C12. The scheduler is fair. In a sequence of scheduling rounds in which anything may happen between
  two rounds except that the rotation index moves only by the scheduler's own search, a process
  that stays eligible (ready, with a ready thread that is not asleep) is dispatched within the next
  16 rounds, whatever the other processes do.
\<close>

theorem scheduler_fair:
  assumes "j < MAX_PROCESSES" and "\<And>n. eligible (\<sigma> n) j"
    and "\<And>n. g_active_proc_idx (\<sigma> (Suc n)) = g_active_proc_idx (snd (process_pick (now n) MAX_PROCESSES (\<sigma> n)))"
  shows "\<exists>n<MAX_PROCESSES. \<exists>t. fst (process_pick (now n) MAX_PROCESSES (\<sigma> n)) = Some (j, t)"
proof -
  have "\<exists>n\<le>m + slots_before (\<sigma> m) j. \<exists>t. fst (process_pick (now n) MAX_PROCESSES (\<sigma> n)) = Some (j, t)" for m
  proof (induction "slots_before (\<sigma> m) j" arbitrary: m rule: less_induct)
    case less
    obtain i t s' where pick: "process_pick (now m) MAX_PROCESSES (\<sigma> m) = (Some (i, t), s')"
      and i: "i = j \<or> slots_before s' j < slots_before (\<sigma> m) j"
      using process_pick_reaches [OF eligible_dispatchable [OF assms(2)] assms(1) slots_before_bound] by blast
    have next_idx: "slots_before (\<sigma> (Suc m)) j = slots_before s' j"
      using assms(3) [of m] unfolding pick by (simp add: slots_before_def)
    show ?case
    proof (cases "i = j")
      case True
      then show ?thesis using pick by (intro exI [of _ m]) simp
    next
      case False
      with i next_idx have lt: "slots_before (\<sigma> (Suc m)) j < slots_before (\<sigma> m) j" by simp
      from less.hyps [OF this] obtain n t' where "n \<le> Suc m + slots_before (\<sigma> (Suc m)) j"
        "fst (process_pick (now n) MAX_PROCESSES (\<sigma> n)) = Some (j, t')" by blast
      then show ?thesis using lt by (intro exI [of _ n]) (auto simp del: process_pick.simps)
    qed
  qed
  from this [of 0] slots_before_bound [of "\<sigma> 0" j] show ?thesis
    by (metis add_0 le_less_trans)
qed

text \<open>
  C13. What the scheduler dispatches. A round picks the first slot in rotation order that has a
  runnable thread, and only such a slot: the process was ready, its chosen thread was ready, in the
  address space of the main thread and not asleep; afterwards both are running and the current
  indices name them, and every other process is unchanged. If nothing is picked, no slot was
  dispatchable and no process changed.
\<close>

theorem scheduler_pick_correct:
  "case process_pick now MAX_PROCESSES s of
     (None, s') \<Rightarrow> (\<forall>j<MAX_PROCESSES. \<not> dispatchable now s j) \<and> g_processes s' = g_processes s
   | (Some (i, t), s') \<Rightarrow>
       i < MAX_PROCESSES \<and> t < MAX_THREADS_PER_PROCESS \<and>
       process_state (g_processes s i) = PROCESS_STATE_READY \<and> thread_runnable now (g_processes s i) t \<and>
       (\<forall>j<MAX_PROCESSES. dispatchable now s j \<longrightarrow> slots_before s i \<le> slots_before s j) \<and>
       process_state (g_processes s' i) = PROCESS_STATE_RUNNING \<and>
       thread_state (threads (g_processes s' i) t) = THREAD_STATE_RUNNING \<and>
       g_active_proc_idx s' = int i \<and> g_active_thread_idx s' = int t \<and>
       (\<forall>j. j \<noteq> i \<longrightarrow> g_processes s' j = g_processes s j)"
proof -
  obtain r s' where pick: "process_pick now MAX_PROCESSES s = (r, s')" by (cases "process_pick now MAX_PROCESSES s")
  note spec = process_pick_spec [OF pick]
  show ?thesis
  proof (cases r)
    case None
    then show ?thesis using spec slots_before_bound pick by simp
  next
    case (Some it)
    obtain i t where it: "it = (i, t)" by (cases it)
    have d: "dispatchable now s i" "i < MAX_PROCESSES" "pick_thread now (g_processes s i) = Some t"
      "s' = process_dispatch i t (s\<lparr>g_active_proc_idx := int i\<rparr>)"
      "\<forall>j<MAX_PROCESSES. dispatchable now s j \<longrightarrow> slots_before s i \<le> slots_before s j"
      using spec by (auto simp: Some it not_less [symmetric])
    have "process_state (g_processes s' i) = PROCESS_STATE_RUNNING"
      "thread_state (threads (g_processes s' i) t) = THREAD_STATE_RUNNING"
      unfolding d(4) by (simp_all add: process_dispatch_def Let_def upd_proc_def upd_thread_def)
    moreover have "process_state (g_processes s i) = PROCESS_STATE_READY" using d(1) by (simp add: dispatchable_def)
    ultimately show ?thesis
      using d(2-5) pick_thread_runnable [OF d(3)] by (simp add: pick Some it)
  qed
qed

subsection \<open>An example state\<close>

definition ctx_zero :: user_context where
  "ctx_zero = \<lparr>rip = 0, rsp = 0, rflags = 0, rbp = 0, rbx = 0, r12 = 0, r13 = 0, r14 = 0, r15 = 0, cr3 = 0,
     is_started = 0, return_rax = 0, rdi = 0, rsi = 0, rdx = 0, r8 = 0, r9 = 0, r10 = 0\<rparr>"

definition thread_zero :: thread where
  "thread_zero = \<lparr>tid = 0, owner_pid = 0, thread_state = THREAD_STATE_UNUSED, stack_base = 0, stack_pages = 0,
     wake_at_ms = 0, thread_fs_base = 0, clear_child_tid = 0, thread_ctx = ctx_zero\<rparr>"

definition region_zero :: process_vm_region where
  "region_zero = \<lparr>region_base = 0, region_size = 0, region_protection = 0, owns_physical = False, backing_kind = 0,
     backing_ptr = None, region_active = False\<rparr>"

definition process_zero :: process where
  "process_zero = \<lparr>process_id = 0, process_name = [], pml4_phys = 0, entry_point = 0, user_stack_top = 0, permissions = 0,
     process_credentials = \<lparr>uid = 0, gid = 0, groups = 0\<rparr>, process_state = PROCESS_STATE_UNUSED, process_ctx = ctx_zero,
     threads = (\<lambda>_. thread_zero), active_thread_idx = 0, vm_regions = (\<lambda>_. region_zero), vm_next_base = 0,
     heap_base = 0, heap_break = 0, heap_mapped_end = 0, controlling_pty = 0, process_group = 0,
     is_linux_abi = False, process_fs_base = 0\<rparr>"

text \<open>Zeroed static storage.\<close>

definition procs_zero :: procs where
  "procs_zero = \<lparr>g_processes = (\<lambda>_. process_zero), g_active_proc_idx = - 1, g_active_thread_idx = 0, msr_fs_base = 0\<rparr>"

lemmas zero_defs = ctx_zero_def thread_zero_def region_zero_def process_zero_def procs_zero_def

text \<open>The table after initialisation with one ready process in the given slots, and its main thread ready.\<close>

definition ready_process :: "nat \<Rightarrow> process" where
  "ready_process i = (upd_thread 0 (\<lambda>th. th\<lparr>thread_state := THREAD_STATE_READY, thread_ctx := ctx_zero\<lparr>cr3 := 0x5000\<rparr>\<rparr>)
     (process_slot_init i process_zero))\<lparr>process_state := PROCESS_STATE_READY, pml4_phys := 0x5000\<rparr>"

definition procs_example :: "nat set \<Rightarrow> procs" where
  "procs_example live = procs_zero\<lparr>g_processes := (\<lambda>i. if i \<in> live then ready_process i else process_slot_init i process_zero)\<rparr>"

lemma procs_example_eligible: "j \<in> live \<Longrightarrow> eligible (procs_example live\<lparr>g_active_proc_idx := x\<rparr>) j"
  by (auto simp: eligible_def procs_example_def ready_process_def upd_thread_def process_slot_init_def thread_init_def
      thread_runnable_def zero_defs intro!: exI [of _ 0])

primrec sched_example :: "nat \<Rightarrow> procs" where
  "sched_example 0 = procs_example {3, 5}\<lparr>g_active_proc_idx := 4\<rparr>"
| "sched_example (Suc n) = procs_example {3, 5}\<lparr>g_active_proc_idx :=
     g_active_proc_idx (snd (process_pick 0 MAX_PROCESSES (sched_example n)))\<rparr>"

theorem scheduler_fair_witness:
  "\<exists>n<MAX_PROCESSES. \<exists>t. fst (process_pick 0 MAX_PROCESSES (sched_example n)) = Some (3, t)"
proof (rule scheduler_fair [where now = "\<lambda>_. 0"])
  show "eligible (sched_example n) 3" for n by (cases n) (simp_all add: procs_example_eligible)
qed simp_all

theorem scheduler_pick_correct_witness:
  "\<exists>i t. fst (process_pick 0 MAX_PROCESSES (procs_example {3, 5})) = Some (i, t) \<and>
     slots_before (procs_example {3, 5}) i \<le> slots_before (procs_example {3, 5}) 3"
proof -
  have "dispatchable 0 (procs_example {3, 5}) 3"
    using eligible_dispatchable [OF procs_example_eligible [of 3 "{3, 5}" "- 1"]]
    by (simp add: procs_example_def procs_zero_def)
  with scheduler_pick_correct [where now = 0 and s = "procs_example {3, 5}"] show ?thesis
    by (fastforce split: prod.splits option.splits)
qed

end
