(* ===== verification/Ipc.thy ===== *)
theory Ipc
  imports Proc
begin

text \<open>
  Message passing between processes (\<open>kernel/ipc.c\<close>): one queue of at most 16 messages per process,
  filters by sender and by type, and the purge of a process that goes away. A queue is the list of
  its messages, the bytes of a message the list of the first \<open>size\<close> bytes of its buffer.
\<close>

abbreviation (input) IPC_MAX_PROCESSES :: nat where "IPC_MAX_PROCESSES \<equiv> 16"
abbreviation (input) IPC_QUEUE_DEPTH :: nat where "IPC_QUEUE_DEPTH \<equiv> 16"
abbreviation (input) IPC_MAX_MESSAGE_BYTES :: nat where "IPC_MAX_MESSAGE_BYTES \<equiv> 256"

record ipc_message =
  msg_sender :: int
  msg_type :: u16
  msg_data :: "u8 list"

record ipc =
  g_queues :: "nat \<Rightarrow> ipc_message list"
  g_last_sender :: "nat \<Rightarrow> int"

definition valid_pid :: "int \<Rightarrow> bool" where
  "valid_pid pid \<longleftrightarrow> pid \<ge> 0 \<and> pid < int IPC_MAX_PROCESSES"

definition ipc_init :: "ipc \<Rightarrow> ipc" where
  "ipc_init s = s\<lparr>g_queues := (\<lambda>i. if i < IPC_MAX_PROCESSES then [] else g_queues s i),
     g_last_sender := (\<lambda>i. if i < IPC_MAX_PROCESSES then - 1 else g_last_sender s i)\<rparr>"

definition ipc_send_typed :: "procs \<Rightarrow> int \<Rightarrow> int \<Rightarrow> u16 \<Rightarrow> u8 list \<Rightarrow> ipc \<Rightarrow> int \<times> ipc" where
  "ipc_send_typed ps sender target ty data s =
     (if \<not> valid_pid sender \<or> \<not> valid_pid target \<or> \<not> process_exists ps sender \<or> \<not> process_exists ps target \<or>
         data = [] \<or> length data > IPC_MAX_MESSAGE_BYTES then (- 1, s)
      else if length (g_queues s (nat target)) = IPC_QUEUE_DEPTH then (- 1, s)
      else (int (length data),
            s\<lparr>g_queues := (g_queues s)(nat target := g_queues s (nat target) @
                [\<lparr>msg_sender = sender, msg_type = ty, msg_data = data\<rparr>])\<rparr>))"

definition ipc_send :: "procs \<Rightarrow> int \<Rightarrow> int \<Rightarrow> u8 list \<Rightarrow> ipc \<Rightarrow> int \<times> ipc" where
  "ipc_send ps sender target data s = ipc_send_typed ps sender target 0 data s"

definition ipc_matches :: "int \<Rightarrow> int \<Rightarrow> ipc_message \<Rightarrow> bool" where
  "ipc_matches sender_filter type_filter msg \<longleftrightarrow>
     (sender_filter < 0 \<or> msg_sender msg = sender_filter) \<and> (type_filter < 0 \<or> msg_type msg = word_of_int type_filter)"

text \<open>The result: the status, the bytes copied, and the sender and type stored through the out pointers.\<close>

definition ipc_receive_typed :: "int \<Rightarrow> int \<Rightarrow> int \<Rightarrow> nat \<Rightarrow> ipc \<Rightarrow> int \<times> u8 list \<times> (int \<times> u16) option \<times> ipc" where
  "ipc_receive_typed receiver sender_filter type_filter max_size s =
     (if \<not> valid_pid receiver \<or> max_size = 0 then (- 1, [], None, s)
      else
        let queue = g_queues s (nat receiver) in
        case first_from (\<lambda>i. ipc_matches sender_filter type_filter (queue ! i)) 0 (length queue) of
          None \<Rightarrow> (0, [], None, s)
        | Some index \<Rightarrow>
            let msg = queue ! index; copied = min (length (msg_data msg)) max_size in
            (int copied, take copied (msg_data msg), Some (msg_sender msg, msg_type msg),
             s\<lparr>g_queues := (g_queues s)(nat receiver := delete_at index queue),
               g_last_sender := (g_last_sender s)(nat receiver := msg_sender msg)\<rparr>))"

definition ipc_receive :: "int \<Rightarrow> int \<Rightarrow> nat \<Rightarrow> ipc \<Rightarrow> int \<times> u8 list \<times> int option \<times> ipc" where
  "ipc_receive receiver sender_filter max_size s =
     (let (n, bs, info, s') = ipc_receive_typed receiver sender_filter (- 1) max_size s
      in (n, bs, map_option fst info, s'))"

definition ipc_last_sender :: "int \<Rightarrow> ipc \<Rightarrow> int" where
  "ipc_last_sender receiver s = (if \<not> valid_pid receiver then - 1 else g_last_sender s (nat receiver))"

definition ipc_close_owner :: "int \<Rightarrow> ipc \<Rightarrow> ipc" where
  "ipc_close_owner pid s =
     (if \<not> valid_pid pid then s
      else
        let queues = (g_queues s)(nat pid := []) in
        s\<lparr>g_queues := (\<lambda>target. if target < IPC_MAX_PROCESSES
                          then filter (\<lambda>msg. msg_sender msg \<noteq> pid) (queues target) else queues target),
          g_last_sender := (g_last_sender s)(nat pid := - 1)\<rparr>)"

subsection \<open>Invariant\<close>

definition queue_ok :: "ipc_message list \<Rightarrow> bool" where
  "queue_ok q \<longleftrightarrow> length q \<le> IPC_QUEUE_DEPTH \<and>
     (\<forall>m \<in> set q. 0 < length (msg_data m) \<and> length (msg_data m) \<le> IPC_MAX_MESSAGE_BYTES \<and> valid_pid (msg_sender m))"

definition ipc_inv :: "ipc \<Rightarrow> bool" where
  "ipc_inv s \<longleftrightarrow> (\<forall>i. queue_ok (g_queues s i))"

lemma queue_ok_sub: "queue_ok q \<Longrightarrow> length q' \<le> length q \<Longrightarrow> set q' \<subseteq> set q \<Longrightarrow> queue_ok q'"
  by (auto simp: queue_ok_def)

lemma ipc_inv_upd: "ipc_inv s \<Longrightarrow> queue_ok q \<Longrightarrow> ipc_inv (s\<lparr>g_queues := (g_queues s)(i := q)\<rparr>)"
  "ipc_inv s \<Longrightarrow> queue_ok q \<Longrightarrow> ipc_inv (s\<lparr>g_queues := (g_queues s)(i := q), g_last_sender := l\<rparr>)"
  by (simp_all add: ipc_inv_def)

lemma ipc_send_typed_inv:
  assumes "ipc_inv s"
  shows "ipc_inv (snd (ipc_send_typed ps sender target ty data s))"
proof -
  have "queue_ok (g_queues s i)" for i using assms by (simp add: ipc_inv_def)
  then show ?thesis using assms
    by (auto simp: ipc_send_typed_def intro!: ipc_inv_upd) (auto simp: queue_ok_def le_neq_implies_less Suc_le_eq)
qed

lemma ipc_receive_typed_inv:
  assumes "ipc_inv s"
  shows "ipc_inv (snd (snd (snd (ipc_receive_typed receiver sf tf n s))))"
proof -
  have "queue_ok (delete_at k (g_queues s i))" for k i
  proof (rule queue_ok_sub)
    show "queue_ok (g_queues s i)" using assms by (simp add: ipc_inv_def)
    show "length (delete_at k (g_queues s i)) \<le> length (g_queues s i)" by (simp add: delete_at_def)
  qed (rule set_delete_at)
  with assms show ?thesis
    by (auto simp: ipc_receive_typed_def Let_def split: option.splits intro: ipc_inv_upd)
qed

lemma queue_ok_filter: "queue_ok q \<Longrightarrow> queue_ok (filter P q)"
  by (erule queue_ok_sub) auto

lemma ipc_close_owner_inv: "ipc_inv s \<Longrightarrow> ipc_inv (ipc_close_owner pid s)"
  by (simp add: ipc_inv_def ipc_close_owner_def Let_def queue_ok_filter) (simp add: queue_ok_def)

subsection \<open>Order of delivery\<close>

text \<open>What a receive takes from the queue: the first message that matches.\<close>

lemma ipc_receive_typed_takes:
  assumes "ipc_receive_typed receiver sf tf n s = (k, bs, Some (p, ty), s')"
  obtains xs m ys where "g_queues s (nat receiver) = xs @ m # ys" and "\<forall>x\<in>set xs. \<not> ipc_matches sf tf x"
    and "ipc_matches sf tf m" and "p = msg_sender m" and "ty = msg_type m" and "bs = take n (msg_data m)"
    and "valid_pid receiver"
    and "s' = s\<lparr>g_queues := (g_queues s)(nat receiver := xs @ ys), g_last_sender := (g_last_sender s)(nat receiver := p)\<rparr>"
proof -
  let ?q = "g_queues s (nat receiver)"
  obtain i where i: "first_from (\<lambda>i. ipc_matches sf tf (?q ! i)) 0 (length ?q) = Some i"
    and r: "p = msg_sender (?q ! i)" "ty = msg_type (?q ! i)" "bs = take (min (length (msg_data (?q ! i))) n) (msg_data (?q ! i))" "valid_pid receiver"
    "s' = s\<lparr>g_queues := (g_queues s)(nat receiver := delete_at i ?q), g_last_sender := (g_last_sender s)(nat receiver := p)\<rparr>"
    using assms by (auto simp: ipc_receive_typed_def Let_def split: if_splits option.splits)
  from i have il: "i < length ?q" and m: "ipc_matches sf tf (?q ! i)" and no: "\<forall>j<i. \<not> ipc_matches sf tf (?q ! j)"
    by (auto simp: first_from_Some_iff)
  have q: "?q = take i ?q @ ?q ! i # drop (Suc i) ?q" by (rule id_take_nth_drop [OF il])
  have "\<forall>x\<in>set (take i ?q). \<not> ipc_matches sf tf x" using no by (auto simp: in_set_conv_nth)
  with q m r show thesis by (intro that) (auto simp: delete_at_def min_def)
qed

lemma ipc_receive_typed_none:
  "ipc_receive_typed receiver sf tf n s = (k, bs, None, s') \<Longrightarrow> s' = s"
  by (auto simp: ipc_receive_typed_def Let_def split: if_splits option.splits)

datatype ipc_op = Send int int u16 "u8 list" | Receive int int int nat

text \<open>
  A run of sends and receives among a fixed set of processes, with the messages that were accepted
  (and for whom) and the messages that were delivered (and to whom).
\<close>

fun ipc_run :: "procs \<Rightarrow> ipc_op list \<Rightarrow> ipc \<Rightarrow> (int \<times> ipc_message) list \<times> (int \<times> ipc_message) list \<times> ipc" where
  "ipc_run ps [] s = ([], [], s)"
| "ipc_run ps (Send p t ty data # ops) s =
     (let (n, s1) = ipc_send_typed ps p t ty data s; (acc, del, s2) = ipc_run ps ops s1
      in (if n > 0 then (t, \<lparr>msg_sender = p, msg_type = ty, msg_data = data\<rparr>) # acc else acc, del, s2))"
| "ipc_run ps (Receive r sf tf k # ops) s =
     (let (n, bs, info, s1) = ipc_receive_typed r sf tf k s; (acc, del, s2) = ipc_run ps ops s1
      in (acc, (case info of None \<Rightarrow> [] | Some (p, ty) \<Rightarrow> [(r, \<lparr>msg_sender = p, msg_type = ty, msg_data = bs\<rparr>)]) @ del, s2))"

text \<open>The messages of a trace that went to one process, came from one sender and have one type.\<close>

definition channel :: "int \<Rightarrow> int \<Rightarrow> u16 \<Rightarrow> (int \<times> ipc_message) list \<Rightarrow> ipc_message list" where
  "channel r p ty tr = map snd (filter (\<lambda>(t, m). t = r \<and> msg_sender m = p \<and> msg_type m = ty) tr)"

definition queued :: "int \<Rightarrow> int \<Rightarrow> u16 \<Rightarrow> ipc \<Rightarrow> ipc_message list" where
  "queued r p ty s = filter (\<lambda>m. msg_sender m = p \<and> msg_type m = ty) (g_queues s (nat r))"

lemma channel_simps [simp]:
  "channel r p ty [] = []"
  "channel r p ty ((t, m) # tr) =
     (if t = r \<and> msg_sender m = p \<and> msg_type m = ty then m # channel r p ty tr else channel r p ty tr)"
  "channel r p ty (a @ b) = channel r p ty a @ channel r p ty b"
  by (simp_all add: channel_def)

lemma ipc_send_queued:
  assumes "ipc_send_typed ps p t ty data s = (n, s')" and "valid_pid r"
  shows "queued r q u s' = queued r q u s @
    (if n > 0 \<and> t = r \<and> p = q \<and> ty = u then [\<lparr>msg_sender = p, msg_type = ty, msg_data = data\<rparr>] else [])"
  using assms by (auto simp: ipc_send_typed_def queued_def valid_pid_def nat_eq_iff split: if_splits)

lemma ipc_receive_queued:
  assumes "ipc_receive_typed r' sf tf k s = (n, bs, info, s')" and "ipc_inv s" and "IPC_MAX_MESSAGE_BYTES \<le> k" and "valid_pid r"
  shows "queued r q u s = channel r q u (case info of None \<Rightarrow> [] | Some (p, ty) \<Rightarrow>
    [(r', \<lparr>msg_sender = p, msg_type = ty, msg_data = bs\<rparr>)]) @ queued r q u s'"
proof (cases info)
  case None
  then show ?thesis using ipc_receive_typed_none [OF assms(1) [unfolded None]] by simp
next
  case (Some pty)
  obtain p ty where pty: "pty = (p, ty)" by (cases pty)
  from ipc_receive_typed_takes [OF assms(1) [unfolded Some pty]]
  obtain xs m ys where d: "g_queues s (nat r') = xs @ m # ys" "\<forall>x\<in>set xs. \<not> ipc_matches sf tf x" "ipc_matches sf tf m"
    "p = msg_sender m" "ty = msg_type m" "bs = take k (msg_data m)" "valid_pid r'"
    "s' = s\<lparr>g_queues := (g_queues s)(nat r' := xs @ ys), g_last_sender := (g_last_sender s)(nat r' := p)\<rparr>" .
  have "length (msg_data m) \<le> IPC_MAX_MESSAGE_BYTES" using assms(2) d(1) unfolding ipc_inv_def queue_ok_def
    by (metis in_set_conv_decomp)
  then have m: "\<lparr>msg_sender = p, msg_type = ty, msg_data = bs\<rparr> = m" using assms(3) d(4-6) by simp
  have same: "filter (\<lambda>x. msg_sender x = q \<and> msg_type x = u) xs = []" if "p = q" "ty = u"
    using d(2,3) that d(4,5) by (auto simp: filter_empty_conv ipc_matches_def)
  have "nat r = nat r' \<longleftrightarrow> r = r'" using assms(4) d(7) by (auto simp: valid_pid_def)
  then show ?thesis
    unfolding Some pty using m d(1,4,5) same by (auto simp: queued_def d(8))
qed


definition ipc_zero :: ipc where
  "ipc_zero = \<lparr>g_queues = (\<lambda>_. []), g_last_sender = (\<lambda>_. - 1)\<rparr>"

lemma ipc_zero_inv: "ipc_inv ipc_zero"
  by (simp add: ipc_inv_def queue_ok_def ipc_zero_def)

definition ipc_example_ops :: "ipc_op list" where
  "ipc_example_ops = [Send 3 5 1 [10], Send 3 5 2 [20], Send 3 5 1 [30], Receive 5 3 2 256, Receive 5 (- 1) (- 1) 256]"


text \<open>
  A process that goes away leaves nothing behind: after \<open>ipc_close_owner\<close> its queue is empty, no
  queue holds a message it sent, so a receive by anyone never reports it as the sender, and the
  messages of every other sender to every other process are kept in order.
\<close>

theorem ipc_close_owner_clean:
  assumes "valid_pid pid" and "valid_pid r"
  shows "g_queues (ipc_close_owner pid s) (nat pid) = [] \<and> ipc_last_sender pid (ipc_close_owner pid s) = - 1 \<and>
    (\<forall>ty. queued r pid ty (ipc_close_owner pid s) = []) \<and>
    (\<forall>p ty. p \<noteq> pid \<and> r \<noteq> pid \<longrightarrow> queued r p ty (ipc_close_owner pid s) = queued r p ty s) \<and>
    (\<forall>sf tf k n bs p ty s'. ipc_receive_typed r sf tf k (ipc_close_owner pid s) = (n, bs, Some (p, ty), s') \<longrightarrow> p \<noteq> pid)"
proof -
  let ?s = "ipc_close_owner pid s"
  have q: "g_queues ?s (nat r) = (if r = pid then [] else filter (\<lambda>m. msg_sender m \<noteq> pid) (g_queues s (nat r)))"
    using assms by (auto simp: ipc_close_owner_def valid_pid_def Let_def nat_eq_iff)
  have "p \<noteq> pid" if "ipc_receive_typed r sf tf k ?s = (n, bs, Some (p, ty), s')" for sf tf k n bs p ty s'
  proof -
    from ipc_receive_typed_takes [OF that] obtain m where "m \<in> set (g_queues ?s (nat r))" "p = msg_sender m"
      by (metis in_set_conv_decomp)
    then show ?thesis by (auto simp: q split: if_splits)
  qed
  moreover have "queued r p ty ?s = queued r p ty s" if "p \<noteq> pid" "r \<noteq> pid" for p ty
    using that by (auto simp: queued_def q intro!: filter_cong)
  ultimately show ?thesis using assms
    by (auto simp: ipc_last_sender_def queued_def q) (simp_all add: ipc_close_owner_def Let_def)
qed

theorem ipc_close_owner_clean_witness:
  "queued 5 3 1 (ipc_close_owner 3 (snd (ipc_send_typed (procs_example {3, 5}) 3 5 1 [10] ipc_zero))) = []"
  using ipc_close_owner_clean [of 3 5] by (simp add: valid_pid_def)

end
