(* ===== verification/Vmm.thy ===== *)
theory Vmm
  imports Pmm
begin

text \<open>
  The virtual memory manager of \<open>kernel/memory.c\<close>: four-level page tables in physical memory, mapping,
  protection and unmapping of single pages, destruction of a user address space, and the checked
  copies between kernel and user memory. A table is the physical address of its page; its entries
  are words of \<open>phys_mem\<close>. TLB invalidation has no effect in this model, which has no TLB.
\<close>

abbreviation (input) PTE_PRESENT :: u64 where "PTE_PRESENT \<equiv> 0x1"
abbreviation (input) PTE_WRITABLE :: u64 where "PTE_WRITABLE \<equiv> 0x2"
abbreviation (input) PTE_USER :: u64 where "PTE_USER \<equiv> 0x4"
abbreviation (input) PTE_HUGE :: u64 where "PTE_HUGE \<equiv> 0x80"
abbreviation (input) PTE_NO_EXECUTE :: u64 where "PTE_NO_EXECUTE \<equiv> 0x8000000000000000"
abbreviation (input) USER_ACCESS_READ :: u64 where "USER_ACCESS_READ \<equiv> 1"
abbreviation (input) USER_ACCESS_WRITE :: u64 where "USER_ACCESS_WRITE \<equiv> 2"
abbreviation (input) USER_ACCESS_EXEC :: u64 where "USER_ACCESS_EXEC \<equiv> 4"
abbreviation (input) USER_VA_LIMIT :: u64 where "USER_VA_LIMIT \<equiv> 0x0000800000000000"

subsection \<open>Table entries\<close>

definition tab_get :: "u64 \<Rightarrow> u64 \<Rightarrow> mm \<Rightarrow> u64" where
  "tab_get tab i s = phys_mem s (drop_bit 3 tab + i)"

definition tab_set :: "u64 \<Rightarrow> u64 \<Rightarrow> u64 \<Rightarrow> mm \<Rightarrow> mm" where
  "tab_set tab i v s = s\<lparr>phys_mem := (phys_mem s)(drop_bit 3 tab + i := v)\<rparr>"

definition pte_present :: "u64 \<Rightarrow> bool" where
  "pte_present e \<longleftrightarrow> e AND PTE_PRESENT \<noteq> 0"

definition pte_huge :: "u64 \<Rightarrow> bool" where
  "pte_huge e \<longleftrightarrow> e AND PTE_HUGE \<noteq> 0"

definition pte_user :: "u64 \<Rightarrow> bool" where
  "pte_user e \<longleftrightarrow> e AND PTE_USER \<noteq> 0"

definition pte_addr :: "u64 \<Rightarrow> u64" where
  "pte_addr e = e AND PTE_ADDR_MASK"

definition pml4_idx :: "u64 \<Rightarrow> u64" where "pml4_idx virt = drop_bit 39 virt AND 0x1FF"
definition pdpt_idx :: "u64 \<Rightarrow> u64" where "pdpt_idx virt = drop_bit 30 virt AND 0x1FF"
definition pd_idx :: "u64 \<Rightarrow> u64" where "pd_idx virt = drop_bit 21 virt AND 0x1FF"
definition pt_idx :: "u64 \<Rightarrow> u64" where "pt_idx virt = drop_bit 12 virt AND 0x1FF"

subsection \<open>Address spaces\<close>

definition vmm_get_kernel_pml4 :: "mm \<Rightarrow> u64" where
  "vmm_get_kernel_pml4 s = g_kernel_pml4_phys s"

definition vmm_get_current_pml4 :: "mm \<Rightarrow> u64" where
  "vmm_get_current_pml4 s = cpu_cr3 s AND PTE_ADDR_MASK"

definition vmm_switch_pml4 :: "u64 \<Rightarrow> mm \<Rightarrow> mm" where
  "vmm_switch_pml4 pml4 s = s\<lparr>cpu_cr3 := pml4 AND PTE_ADDR_MASK\<rparr>"

text \<open>The two loops of \<open>vmm_create_user_pml4\<close>: an empty lower half, and the kernel's upper half.\<close>

definition copy_kernel_half :: "u64 \<Rightarrow> mm \<Rightarrow> mm" where
  "copy_kernel_half user_pml4 s =
     fold (\<lambda>i s. tab_set user_pml4 (word_of_nat i) (tab_get (g_kernel_pml4_phys s) (word_of_nat i) s) s) [256..<512]
       (fold (\<lambda>i s. tab_set user_pml4 (word_of_nat i) 0 s) [0..<256] s)"

definition vmm_create_user_pml4 :: "mm \<Rightarrow> u64 \<times> mm" where
  "vmm_create_user_pml4 s =
     (let (user_pml4, s1) = pmm_alloc_page s in
      if user_pml4 = 0 then (0, s1) else (user_pml4, copy_kernel_half user_pml4 s1))"

text \<open>One level of a walk: the table an entry points to, unless it is absent or maps a large page.\<close>

definition vmm_table :: "u64 \<Rightarrow> u64 \<Rightarrow> mm \<Rightarrow> u64 option" where
  "vmm_table tab i s =
     (let e = tab_get tab i s in if \<not> pte_present e \<or> pte_huge e then None else Some (pte_addr e))"

definition vmm_get_pt :: "u64 \<Rightarrow> u64 \<Rightarrow> mm \<Rightarrow> u64 option" where
  "vmm_get_pt pml4 virt s =
     (case vmm_table pml4 (pml4_idx virt) s of
        None \<Rightarrow> None
      | Some pdpt \<Rightarrow>
          (case vmm_table pdpt (pdpt_idx virt) s of
             None \<Rightarrow> None
           | Some pd \<Rightarrow> vmm_table pd (pd_idx virt) s))"

definition vmm_get_page_phys :: "u64 \<Rightarrow> u64 \<Rightarrow> mm \<Rightarrow> u64" where
  "vmm_get_page_phys pml4 virt s =
     (case vmm_get_pt pml4 virt s of
        None \<Rightarrow> 0
      | Some pt \<Rightarrow> let pte = tab_get pt (pt_idx virt) s in if \<not> pte_present pte then 0 else pte_addr pte)"

definition vmm_get_page_flags :: "u64 \<Rightarrow> u64 \<Rightarrow> mm \<Rightarrow> u64" where
  "vmm_get_page_flags pml4 virt s =
     (case vmm_get_pt pml4 virt s of None \<Rightarrow> 0 | Some pt \<Rightarrow> tab_get pt (pt_idx virt) s)"

subsection \<open>Mapping\<close>

text \<open>The guard both \<open>vmm_map_page\<close> and \<open>vmm_set_page_flags\<close> make: no user page in the kernel's
  tables or above the user limit, and none that is writable and executable.\<close>

definition pte_flags_allowed :: "u64 \<Rightarrow> u64 \<Rightarrow> u64 \<Rightarrow> mm \<Rightarrow> bool" where
  "pte_flags_allowed pml4 virt flags s \<longleftrightarrow>
     \<not> (pml4 = g_kernel_pml4_phys s \<and> flags AND PTE_USER \<noteq> 0) \<and>
     \<not> (flags AND PTE_USER \<noteq> 0 \<and> virt \<ge> USER_VA_LIMIT) \<and>
     \<not> (flags AND (PTE_USER OR PTE_WRITABLE) = PTE_USER OR PTE_WRITABLE \<and> flags AND PTE_NO_EXECUTE = 0)"

text \<open>
  The step that \<open>vmm_map_page\<close> makes at each of the three upper levels: allocate a missing table
  (the result is its address, to undo it later) or pass the user bit on to an existing one (result 0).
\<close>

definition vmm_ensure :: "u64 \<Rightarrow> u64 \<Rightarrow> u64 \<Rightarrow> mm \<Rightarrow> u64 option \<times> mm" where
  "vmm_ensure tab idx flags s =
     (if \<not> pte_present (tab_get tab idx s)
      then
        let (new, s1) = pmm_alloc_page s in
        if new = 0 then (None, s1)
        else (Some new, tab_set tab idx (new OR (PTE_PRESENT OR PTE_WRITABLE OR (flags AND PTE_USER))) s1)
      else if flags AND PTE_USER \<noteq> 0
      then (Some 0, tab_set tab idx (tab_get tab idx s OR PTE_USER) s)
      else (Some 0, s))"

definition vmm_undo :: "u64 \<Rightarrow> u64 \<Rightarrow> u64 \<Rightarrow> mm \<Rightarrow> mm" where
  "vmm_undo tab idx new s = (if new \<noteq> 0 then snd (pmm_free_page new (tab_set tab idx 0 s)) else s)"

definition pte_leaf :: "u64 \<Rightarrow> u64 \<Rightarrow> u64" where
  "pte_leaf phys flags = (phys AND PTE_ADDR_MASK) OR PTE_PRESENT OR (flags AND (0xFFF OR PTE_NO_EXECUTE))"

definition vmm_map_page :: "u64 \<Rightarrow> u64 \<Rightarrow> u64 \<Rightarrow> u64 \<Rightarrow> mm \<Rightarrow> int \<times> mm" where
  "vmm_map_page pml4 virt phys flags s =
     (if pml4 = 0 \<or> virt AND (PAGE_SIZE - 1) \<noteq> 0 \<or> phys AND (PAGE_SIZE - 1) \<noteq> 0 then (- 1, s)
      else if drop_bit 47 virt \<noteq> 0 \<and> drop_bit 47 virt \<noteq> 0x1FFFF then (- 1, s)
      else if \<not> pte_flags_allowed pml4 virt flags s then (- 1, s)
      else case vmm_ensure pml4 (pml4_idx virt) flags s of
        (None, s1) \<Rightarrow> (- 1, s1)
      | (Some new_pdpt, s1) \<Rightarrow>
          (let pdpt = pte_addr (tab_get pml4 (pml4_idx virt) s1) in
           case vmm_ensure pdpt (pdpt_idx virt) flags s1 of
             (None, s2) \<Rightarrow> (- 1, vmm_undo pml4 (pml4_idx virt) new_pdpt s2)
           | (Some new_pd, s2) \<Rightarrow>
               (let pd = pte_addr (tab_get pdpt (pdpt_idx virt) s2) in
                case vmm_ensure pd (pd_idx virt) flags s2 of
                  (None, s3) \<Rightarrow>
                    (- 1, vmm_undo pml4 (pml4_idx virt) new_pdpt (vmm_undo pdpt (pdpt_idx virt) new_pd s3))
                | (Some new_pt, s3) \<Rightarrow>
                    (let pt = pte_addr (tab_get pd (pd_idx virt) s3) in
                     if pte_present (tab_get pt (pt_idx virt) s3) then (- 1, s3)
                     else (0, tab_set pt (pt_idx virt) (pte_leaf phys flags) s3)))))"

definition vmm_set_page_flags :: "u64 \<Rightarrow> u64 \<Rightarrow> u64 \<Rightarrow> mm \<Rightarrow> int \<times> mm" where
  "vmm_set_page_flags pml4 virt flags s =
     (if pml4 = 0 \<or> virt AND (PAGE_SIZE - 1) \<noteq> 0 then (- 1, s)
      else if \<not> pte_flags_allowed pml4 virt flags s then (- 1, s)
      else case vmm_get_pt pml4 virt s of
        None \<Rightarrow> (- 1, s)
      | Some pt \<Rightarrow>
          let old = tab_get pt (pt_idx virt) s in
          if \<not> pte_present old then (- 1, s)
          else (0, tab_set pt (pt_idx virt) (pte_leaf old flags) s))"

definition table_empty :: "u64 \<Rightarrow> mm \<Rightarrow> bool" where
  "table_empty tab s \<longleftrightarrow> (\<forall>i<512. \<not> pte_present (tab_get tab (word_of_nat i) s))"

text \<open>Dropping an empty table: clear the entry that points to it and free its page.\<close>

definition vmm_prune :: "u64 \<Rightarrow> u64 \<Rightarrow> u64 \<Rightarrow> int \<Rightarrow> mm \<Rightarrow> int \<times> mm" where
  "vmm_prune parent idx tab result s =
     (let (r, s') = pmm_free_page tab (tab_set parent idx 0 s) in (if r \<noteq> 0 then - 1 else result, s'))"

definition vmm_unmap_page :: "u64 \<Rightarrow> u64 \<Rightarrow> bool \<Rightarrow> mm \<Rightarrow> int \<times> mm" where
  "vmm_unmap_page pml4 virt free_phys s =
     (if pml4 = 0 \<or> virt AND (PAGE_SIZE - 1) \<noteq> 0 then (- 1, s)
      else case vmm_table pml4 (pml4_idx virt) s of None \<Rightarrow> (- 1, s) | Some pdpt \<Rightarrow>
      (case vmm_table pdpt (pdpt_idx virt) s of None \<Rightarrow> (- 1, s) | Some pd \<Rightarrow>
      (case vmm_table pd (pd_idx virt) s of None \<Rightarrow> (- 1, s) | Some pt \<Rightarrow>
         let old = tab_get pt (pt_idx virt) s in
         if \<not> pte_present old then (- 1, s)
         else
           let s1 = tab_set pt (pt_idx virt) 0 s;
               (r1, s2) = (if free_phys then pmm_free_page (pte_addr old) s1 else (0, s1)) in
           if \<not> table_empty pt s2 then (r1, s2)
           else
             let (r2, s3) = vmm_prune pd (pd_idx virt) pt r1 s2 in
             if \<not> table_empty pd s3 then (r2, s3)
             else
               let (r3, s4) = vmm_prune pdpt (pdpt_idx virt) pd r2 s3 in
               if pml4_idx virt < 256 \<and> table_empty pdpt s4
               then vmm_prune pml4 (pml4_idx virt) pdpt r3 s4
               else (r3, s4))))"

subsection \<open>Destruction\<close>

definition vmm_free_pt :: "u64 \<Rightarrow> mm \<Rightarrow> mm" where
  "vmm_free_pt pt s =
     fold (\<lambda>i s. let e = tab_get pt (word_of_nat i) s in
        if \<not> pte_present e then s
        else snd (pmm_free_page (pte_addr e) (tab_set pt (word_of_nat i) 0 s))) [0..<512] s"

text \<open>The loop that the two upper levels and \<open>vmm_destroy_user_pml4\<close> share, over the first \<open>n\<close> entries.\<close>

definition vmm_free_level :: "(u64 \<Rightarrow> mm \<Rightarrow> mm) \<Rightarrow> nat \<Rightarrow> u64 \<Rightarrow> mm \<Rightarrow> mm" where
  "vmm_free_level free_sub n tab s =
     fold (\<lambda>i s. let e = tab_get tab (word_of_nat i) s in
        if \<not> pte_present e then s
        else if pte_huge e then tab_set tab (word_of_nat i) 0 s
        else snd (pmm_free_page (pte_addr e) (tab_set tab (word_of_nat i) 0 (free_sub (pte_addr e) s)))) [0..<n] s"

definition vmm_free_pd :: "u64 \<Rightarrow> mm \<Rightarrow> mm" where
  "vmm_free_pd = vmm_free_level vmm_free_pt 512"

definition vmm_free_pdpt :: "u64 \<Rightarrow> mm \<Rightarrow> mm" where
  "vmm_free_pdpt = vmm_free_level vmm_free_pd 512"

definition vmm_destroy_user_pml4 :: "u64 \<Rightarrow> mm \<Rightarrow> int \<times> mm" where
  "vmm_destroy_user_pml4 pml4 s =
     (if pml4 = 0 \<or> pml4 = g_kernel_pml4_phys s then (- 1, s)
      else
        let s1 = (if vmm_get_current_pml4 s = pml4 then vmm_switch_pml4 (g_kernel_pml4_phys s) s else s);
            s2 = vmm_free_level vmm_free_pdpt 256 pml4 s1
        in (0, snd (pmm_free_page pml4 s2)))"

subsection \<open>User memory\<close>

text \<open>The body of the loop of \<open>user_range_valid\<close>.\<close>

definition user_table :: "u64 \<Rightarrow> u64 \<Rightarrow> mm \<Rightarrow> u64 option" where
  "user_table tab i s =
     (let e = tab_get tab i s in
      if \<not> pte_present e \<or> \<not> pte_user e \<or> pte_huge e then None else Some (pte_addr e))"

definition user_page_ok :: "u64 \<Rightarrow> u64 \<Rightarrow> u64 \<Rightarrow> mm \<Rightarrow> bool" where
  "user_page_ok cr3 page access s =
     (case user_table cr3 (pml4_idx page) s of None \<Rightarrow> False | Some pdpt \<Rightarrow>
     (case user_table pdpt (pdpt_idx page) s of None \<Rightarrow> False | Some pd \<Rightarrow>
     (case user_table pd (pd_idx page) s of None \<Rightarrow> False | Some _ \<Rightarrow>
        let pte = vmm_get_page_flags cr3 page s in
        if \<not> pte_present pte \<or> \<not> pte_user pte then False
        else if access AND USER_ACCESS_WRITE \<noteq> 0 \<and> pte AND PTE_WRITABLE = 0 then False
        else if access AND USER_ACCESS_EXEC \<noteq> 0 \<and> pte AND PTE_NO_EXECUTE \<noteq> 0 then False
        else True)))"

text \<open>The loop from page \<open>page\<close>, with \<open>n\<close> pages before the last one.\<close>

fun user_pages_ok :: "nat \<Rightarrow> u64 \<Rightarrow> u64 \<Rightarrow> u64 \<Rightarrow> mm \<Rightarrow> bool" where
  "user_pages_ok 0 cr3 page access s = user_page_ok cr3 page access s"
| "user_pages_ok (Suc n) cr3 page access s =
     (if user_page_ok cr3 page access s then user_pages_ok n cr3 (page + PAGE_SIZE) access s else False)"

definition user_range_valid :: "u64 \<Rightarrow> u64 \<Rightarrow> u64 \<Rightarrow> mm \<Rightarrow> bool" where
  "user_range_valid addr sz access s =
     (if sz = 0 then True
      else
        let e = addr + sz in
        if e < addr \<or> addr \<ge> USER_VA_LIMIT \<or> e > USER_VA_LIMIT then False
        else
          let cr3 = vmm_get_current_pml4 s in
          if cr3 = 0 \<or> cr3 = g_kernel_pml4_phys s then False
          else
            let page = page_down addr; last_page = page_down (e - 1)
            in user_pages_ok (unat ((last_page - page) div PAGE_SIZE)) cr3 page access s)"

text \<open>Bytes of physical memory, little endian.\<close>

definition mem_byte :: "(u64 \<Rightarrow> u64) \<Rightarrow> u64 \<Rightarrow> u8" where
  "mem_byte m a = ucast (drop_bit (8 * unat (a AND 7)) (m (drop_bit 3 a)))"

definition set_mem_byte :: "u64 \<Rightarrow> u8 \<Rightarrow> (u64 \<Rightarrow> u64) \<Rightarrow> u64 \<Rightarrow> u64" where
  "set_mem_byte a b m =
     (let w = drop_bit 3 a; sh = 8 * unat (a AND 7)
      in m(w := (m w AND NOT (push_bit sh 0xFF)) OR push_bit sh (ucast b)))"

fun read_bytes :: "(u64 \<Rightarrow> u64) \<Rightarrow> u64 \<Rightarrow> nat \<Rightarrow> u8 list" where
  "read_bytes m a 0 = []"
| "read_bytes m a (Suc n) = mem_byte m a # read_bytes m (a + 1) n"

fun write_bytes :: "u64 \<Rightarrow> u8 list \<Rightarrow> (u64 \<Rightarrow> u64) \<Rightarrow> u64 \<Rightarrow> u64" where
  "write_bytes a [] m = m"
| "write_bytes a (b # bs) m = write_bytes (a + 1) bs (set_mem_byte a b m)"

text \<open>The copied span of one iteration: what is left, cut at the end of the page.\<close>

definition page_chunk :: "u64 \<Rightarrow> nat \<Rightarrow> nat" where
  "page_chunk a left = min (4096 - unat (a AND (PAGE_SIZE - 1))) left"

lemma page_chunk_pos: "left \<noteq> 0 \<Longrightarrow> 0 < page_chunk a left"
proof -
  have "unat (a AND (PAGE_SIZE - 1)) < 4096"
    using word_and_le1 [of a "PAGE_SIZE - 1"] by (simp add: word_le_nat_alt)
  then show "left \<noteq> 0 \<Longrightarrow> 0 < page_chunk a left" by (simp add: page_chunk_def)
qed

function copy_in_loop :: "u64 \<Rightarrow> u64 \<Rightarrow> nat \<Rightarrow> mm \<Rightarrow> u8 list" where
  "copy_in_loop cr3 src left s =
     (if left = 0 then []
      else
        let phys = vmm_get_page_phys cr3 (page_down src) s; chunk = page_chunk src left in
        read_bytes (phys_mem s) (phys + (src AND (PAGE_SIZE - 1))) chunk @
        copy_in_loop cr3 (src + word_of_nat chunk) (left - chunk) s)"
  by pat_completeness auto

termination by (relation "measure (\<lambda>(cr3, src, left, s). left)") (auto simp: page_chunk_pos)

definition copy_from_user :: "u64 \<Rightarrow> u64 \<Rightarrow> mm \<Rightarrow> u8 list option" where
  "copy_from_user user_src sz s =
     (if sz = 0 then Some []
      else if user_src = 0 \<or> \<not> user_range_valid user_src sz USER_ACCESS_READ s then None
      else Some (copy_in_loop (vmm_get_current_pml4 s) user_src (unat sz) s))"

function copy_out_loop :: "u64 \<Rightarrow> u64 \<Rightarrow> u8 list \<Rightarrow> mm \<Rightarrow> mm" where
  "copy_out_loop cr3 dst data s =
     (if data = [] then s
      else
        let phys = vmm_get_page_phys cr3 (page_down dst) s; chunk = page_chunk dst (length data) in
        copy_out_loop cr3 (dst + word_of_nat chunk) (drop chunk data)
          (s\<lparr>phys_mem := write_bytes (phys + (dst AND (PAGE_SIZE - 1))) (take chunk data) (phys_mem s)\<rparr>))"
  by pat_completeness auto

termination by (relation "measure (\<lambda>(cr3, dst, data, s). length data)") (auto simp: page_chunk_pos)

definition copy_to_user :: "u64 \<Rightarrow> u8 list \<Rightarrow> mm \<Rightarrow> int \<times> mm" where
  "copy_to_user user_dst data s =
     (if data = [] then (0, s)
      else if user_dst = 0 \<or> \<not> user_range_valid user_dst (word_of_nat (length data)) USER_ACCESS_WRITE s then (- 1, s)
      else (0, copy_out_loop (vmm_get_current_pml4 s) user_dst data s))"

text \<open>\<open>user_strnlen\<close>: the length, \<open>-1\<close> for an address that is not user memory, \<open>-2\<close> without terminator.\<close>

function strnlen_loop :: "u64 \<Rightarrow> u64 \<Rightarrow> nat \<Rightarrow> nat \<Rightarrow> mm \<Rightarrow> int" where
  "strnlen_loop cr3 addr checked left s =
     (if left = 0 then - 2
      else
        let pte = vmm_get_page_flags cr3 (page_down addr) s in
        if \<not> pte_present pte \<or> \<not> pte_user pte then - 1
        else
          let chunk = page_chunk addr left;
              str = read_bytes (phys_mem s) (pte_addr pte + (addr AND (PAGE_SIZE - 1))) chunk
          in if 0 \<in> set str then int (checked + length (takeWhile (\<lambda>c. c \<noteq> 0) str))
             else strnlen_loop cr3 (addr + word_of_nat chunk) (checked + chunk) (left - chunk) s)"
  by pat_completeness auto

termination by (relation "measure (\<lambda>(cr3, addr, checked, left, s). left)") (auto simp: page_chunk_pos)

definition user_strnlen :: "u64 \<Rightarrow> nat \<Rightarrow> mm \<Rightarrow> int" where
  "user_strnlen user_str max_len s =
     (if user_str = 0 \<or> max_len = 0 then - 1
      else
        let cr3 = vmm_get_current_pml4 s in
        if cr3 = 0 \<or> cr3 = g_kernel_pml4_phys s then - 1 else strnlen_loop cr3 user_str 0 max_len s)"

declare copy_in_loop.simps [simp del] copy_out_loop.simps [simp del] strnlen_loop.simps [simp del]

end
