(* ===== verification/Page_Tables.thy ===== *)
theory Page_Tables
  imports Vmm "HOL-Library.Sublist"
begin

text \<open>
  Page tables as a tree: the bits of an entry, pages from the allocator, walks along index paths, the
  consistency invariant of a user address space, and what adding, dropping and changing one entry does
  to walks and to the last-level entries.
\<close>

subsection \<open>Entries and frames\<close>

lemma pte_bits:
  "pte_present e \<longleftrightarrow> bit e 0" "pte_huge e \<longleftrightarrow> bit e 7" "pte_user e \<longleftrightarrow> bit e 2"
  using and_exp_eq_0_iff_not_bit [of e 0] and_exp_eq_0_iff_not_bit [of e 7] and_exp_eq_0_iff_not_bit [of e 2]
  by (simp_all add: pte_present_def pte_huge_def pte_user_def)

lemma addr_mask_eq: "(PTE_ADDR_MASK :: u64) = push_bit 12 (mask 40)"
  by (simp add: push_bit_eq_mult mask_eq_exp_minus_1)

lemma bit_addr_mask: "bit (PTE_ADDR_MASK :: u64) n \<longleftrightarrow> 12 \<le> n \<and> n < 52"
  unfolding addr_mask_eq by (auto simp: bit_simps)

lemma bit_pte_addr: "bit (pte_addr e) n \<longleftrightarrow> bit e n \<and> 12 \<le> n \<and> n < 52"
  unfolding pte_addr_def by (simp only: bit_and_iff bit_addr_mask)

lemma pte_addr_aligned: "page_aligned (pte_addr e)"
  by (auto simp: page_aligned_take_bit bit_eq_iff bit_take_bit_iff bit_pte_addr)

definition phys_ok :: "u64 \<Rightarrow> bool" where
  "phys_ok p \<longleftrightarrow> page_aligned p \<and> p < 2 ^ 52"

lemma bit_phys_ok:
  assumes "phys_ok p" and "bit p n"
  shows "12 \<le> n \<and> n < 52"
proof -
  have "take_bit 12 p = 0" using assms(1) by (simp add: phys_ok_def page_aligned_take_bit)
  then have lo: "\<not> n < 12" using assms(2) bit_take_bit_iff [of 12 p n] by auto
  have "unat p < 2 ^ 52" using assms(1) by (simp add: phys_ok_def word_less_nat_alt)
  then have "unat (take_bit 52 p) = unat p" by (simp add: unsigned_take_bit_eq take_bit_nat_eq_self)
  then have "take_bit 52 p = p" by (simp add: word_unat_eq_iff)
  then have "n < 52" using assms(2) bit_take_bit_iff [of 52 p n] by auto
  with lo show ?thesis by simp
qed

lemma pte_addr_or:
  assumes "phys_ok p" and "pte_addr f = 0"
  shows "pte_addr (p OR f) = p"
proof (rule bit_eqI)
  fix n assume "possible_bit TYPE(64 word) n"
  have "\<not> (bit f n \<and> 12 \<le> n \<and> n < 52)" using assms(2) bit_pte_addr [of f n] by simp
  with bit_phys_ok [OF assms(1)] show "bit (pte_addr (p OR f)) n = bit p n"
    by (auto simp: bit_pte_addr bit_or_iff)
qed

lemma phys_ok_low_bits: "phys_ok p \<Longrightarrow> n < 12 \<Longrightarrow> \<not> bit p n"
  using bit_phys_ok [of p n] by auto

lemma bit_flag_words:
  "bit (e OR (PTE_USER :: u64)) n \<longleftrightarrow> bit e n \<or> n = 2"
  "bit (PTE_PRESENT OR PTE_WRITABLE OR (flags AND (PTE_USER :: u64))) n \<longleftrightarrow> n = 0 \<or> n = 1 \<or> n = 2 \<and> bit flags 2"
proof -
  have "bit (1 :: u64) n \<longleftrightarrow> n = 0" "bit (2 :: u64) n \<longleftrightarrow> n = 1" "bit (4 :: u64) n \<longleftrightarrow> n = 2"
    using bit_exp_iff [of 0 n, where ?'a = "64 word"] bit_exp_iff [of 1 n, where ?'a = "64 word"]
      bit_exp_iff [of 2 n, where ?'a = "64 word"] by auto
  then show "bit (e OR (PTE_USER :: u64)) n \<longleftrightarrow> bit e n \<or> n = 2"
    "bit (PTE_PRESENT OR PTE_WRITABLE OR (flags AND (PTE_USER :: u64))) n \<longleftrightarrow> n = 0 \<or> n = 1 \<or> n = 2 \<and> bit flags 2"
    unfolding bit_or_iff bit_and_iff by blast+
qed

text \<open>The entry that installs a new table.\<close>

lemma table_entry:
  assumes "phys_ok p" and "e = p OR (PTE_PRESENT OR PTE_WRITABLE OR (flags AND PTE_USER))"
  shows "pte_present e" and "\<not> pte_huge e" and "pte_addr e = p"
proof -
  have "pte_addr (PTE_PRESENT OR PTE_WRITABLE OR (flags AND PTE_USER)) = 0"
    by (rule bit_eqI) (simp only: bit_pte_addr bit_flag_words bit_0_eq bot_apply, auto)
  then show "pte_addr e = p" unfolding assms(2) by (rule pte_addr_or [OF assms(1)])
  show "pte_present e" "\<not> pte_huge e"
    using phys_ok_low_bits [OF assms(1), of 7]
    unfolding assms(2) pte_bits bit_or_iff [of p] bit_flag_words by simp_all
qed

lemma user_bit_added:
  "pte_present (e OR PTE_USER) = pte_present e" "pte_huge (e OR PTE_USER) = pte_huge e"
  "pte_addr (e OR PTE_USER) = pte_addr e"
  by (simp_all only: pte_bits bit_flag_words) (simp_all, rule bit_eqI, simp only: bit_pte_addr bit_flag_words, auto)

text \<open>Different table slots are different words of memory.\<close>

lemma unat_tab_index:
  assumes "page_aligned t" and "i < 512"
  shows "unat (drop_bit 3 t + i) = unat t div 8 + unat i"
proof -
  have "unat i < 512" using assms(2) by (simp add: word_less_nat_alt)
  moreover have "unat t < 2 ^ 64" using unsigned_less [of t] by simp
  ultimately have "unat t div 8 + unat i < 2 ^ 64" by simp
  then show ?thesis by (simp add: unat_word_ariths unsigned_drop_bit_eq drop_bit_eq_div take_bit_nat_eq_self)
qed

lemma tab_index_eq:
  assumes "page_aligned t" "page_aligned t'" "i < 512" "i' < 512"
  shows "drop_bit 3 t + i = drop_bit 3 t' + i' \<longleftrightarrow> t = t' \<and> i = i'"
proof
  assume "drop_bit 3 t + i = drop_bit 3 t' + i'"
  then have eq: "unat t div 8 + unat i = unat t' div 8 + unat i'" using assms unat_tab_index by metis
  obtain k k' where k: "unat t = 4096 * k" "unat t' = 4096 * k'"
    using assms(1,2) unfolding page_aligned_iff by (metis dvdE)
  have i: "unat i < 512" "unat i' < 512" using assms(3,4) by (simp_all add: word_less_nat_alt)
  have e: "512 * k + unat i = 512 * k' + unat i'" using eq k by simp
  have "k = (512 * k + unat i) div 512" "k' = (512 * k' + unat i') div 512" using i by simp_all
  with e have "k = k' \<and> unat i = unat i'" by simp
  then show "t = t' \<and> i = i'" using k by (simp add: word_unat_eq_iff)
qed simp

lemma tab_get_set:
  assumes "page_aligned t" "page_aligned t'" "i < 512" "i' < 512"
  shows "tab_get t i (tab_set t' i' v s) = (if t = t' \<and> i = i' then v else tab_get t i s)"
  using tab_index_eq [OF assms] by (simp add: tab_get_def tab_set_def)

lemma tab_set_simps [simp]:
  "pmm_inv (tab_set t i v s) = pmm_inv s" "pmm_free (tab_set t i v s) = pmm_free s"
  "g_regions (tab_set t i v s) = g_regions s" "g_kernel_pml4_phys (tab_set t i v s) = g_kernel_pml4_phys s"
  "cpu_cr3 (tab_set t i v s) = cpu_cr3 s"
  by (simp_all add: tab_set_def pmm_inv_def pmm_free_def region_set_def)

subsection \<open>Pages from the allocator\<close>

text \<open>The architecture has 52 physical address bits; \<open>memmap_ok\<close> says so of the memory map.\<close>

definition phys_limit :: "mm \<Rightarrow> bool" where
  "phys_limit s \<longleftrightarrow> (\<forall>r \<in> set (g_regions s). r_end r \<le> 2 ^ 52)"

lemma free_in_limit:
  assumes "pmm_inv s" "phys_limit s" "a \<in> pmm_free s"
  shows "a < 2 ^ 52"
proof -
  have "a \<in> region_set s" using assms(1,3) by (auto simp: pmm_inv_def)
  then obtain r where "r \<in> set (g_regions s)" "a < r_end r"
    by (auto simp: region_set_def free_set_def range_set_def)
  with assms(2) show ?thesis by (auto simp: phys_limit_def)
qed

lemma zero_words_page:
  assumes "page_aligned p" "page_aligned t" "i < 512"
  shows "zero_words (drop_bit 3 p) (1 * PAGE_SIZE div 8) m (drop_bit 3 t + i) =
    (if t = p then 0 else m (drop_bit 3 t + i))"
proof -
  have "drop_bit 3 t + i - drop_bit 3 p < 512 \<longleftrightarrow> t = p"
  proof
    assume lt: "drop_bit 3 t + i - drop_bit 3 p < 512"
    have "drop_bit 3 t + i = drop_bit 3 p + (drop_bit 3 t + i - drop_bit 3 p)" by simp
    with tab_index_eq [OF assms(2,1,3) lt] show "t = p" by blast
  qed (use assms(3) in simp)
  then show ?thesis by (simp add: zero_words_def)
qed

lemma pmm_alloc_page_props:
  assumes inv: "pmm_inv s" and lim: "phys_limit s" and al: "pmm_alloc_page s = (p, s')"
  shows "pmm_inv s'" "phys_limit s'" "pmm_free s' \<subseteq> pmm_free s"
    "g_kernel_pml4_phys s' = g_kernel_pml4_phys s" "cpu_cr3 s' = cpu_cr3 s"
    "p \<noteq> 0 \<Longrightarrow> phys_ok p \<and> p \<in> pmm_free s \<and> p \<notin> pmm_free s'"
    "page_aligned t \<Longrightarrow> i < 512 \<Longrightarrow> tab_get t i s' = (if p \<noteq> 0 \<and> t = p then 0 else tab_get t i s)"
proof -
  have al': "pmm_alloc_pages 1 s = (p, s')" using al by (simp add: pmm_alloc_page_def)
  note ok = pmm_alloc_pages_ok [OF inv al']
  show "pmm_inv s'" "pmm_free s' \<subseteq> pmm_free s" using ok by simp_all
  have same: "g_regions s' = g_regions s \<and> g_kernel_pml4_phys s' = g_kernel_pml4_phys s \<and> cpu_cr3 s' = cpu_cr3 s \<and>
    phys_mem s' = (if p = 0 then phys_mem s else zero_words (drop_bit 3 p) (1 * PAGE_SIZE div 8) (phys_mem s))"
    using al' by (cases rule: pmm_alloc_pages_cases) simp_all
  then show "phys_limit s'" "g_kernel_pml4_phys s' = g_kernel_pml4_phys s" "cpu_cr3 s' = cpu_cr3 s"
    using lim by (simp_all add: phys_limit_def)
  show "phys_ok p \<and> p \<in> pmm_free s \<and> p \<notin> pmm_free s'" if "p \<noteq> 0"
    using ok(4-7) that free_in_limit [OF inv lim, of p] by (auto simp: phys_ok_def)
  show "tab_get t i s' = (if p \<noteq> 0 \<and> t = p then 0 else tab_get t i s)" if "page_aligned t" "i < 512"
    using same zero_words_page [OF ok(7) that, of "phys_mem s"] by (auto simp: tab_get_def)
qed

lemma frame_alone:
  assumes "page_aligned t" "page_aligned x" "t \<noteq> x"
  shows "t \<notin> {x..<x + PAGE_SIZE}"
proof
  assume t: "t \<in> {x..<x + PAGE_SIZE}"
  then have le: "unat x \<le> unat t" and lt: "unat t < unat (x + PAGE_SIZE)"
    by (auto simp: word_le_nat_alt word_less_nat_alt)
  have "unat (x + PAGE_SIZE) \<le> unat x + 4096" by (simp add: unat_word_ariths)
  with lt have "unat t < unat x + 4096" by simp
  moreover obtain k l where "unat t = 4096 * k" "unat x = 4096 * l"
    using assms(1,2) unfolding page_aligned_iff by (metis dvdE)
  ultimately have "unat t = unat x" using le by simp
  with assms(3) show False by (simp add: word_unat_eq_iff)
qed

lemma pmm_free_page_props:
  assumes inv: "pmm_inv s" and f: "pmm_free_page x s = (r, s')"
  shows "pmm_inv s'" "phys_mem s' = phys_mem s" "g_regions s' = g_regions s"
    "g_kernel_pml4_phys s' = g_kernel_pml4_phys s" "cpu_cr3 s' = cpu_cr3 s"
    "page_aligned t \<Longrightarrow> t \<noteq> x \<Longrightarrow> t \<in> pmm_free s' \<longleftrightarrow> t \<in> pmm_free s" "r = 0 \<or> r = - 1"
proof -
  have f': "pmm_free_pages x 1 s = (r, s')" using f by (simp add: pmm_free_page_def)
  have "pmm_inv s' \<and> phys_mem s' = phys_mem s \<and> g_regions s' = g_regions s \<and>
    g_kernel_pml4_phys s' = g_kernel_pml4_phys s \<and> cpu_cr3 s' = cpu_cr3 s \<and> (r = 0 \<or> r = - 1) \<and>
    (s' = s \<or> page_aligned x \<and> pmm_free s' = pmm_free s \<union> {x..<x + PAGE_SIZE})"
  proof (cases "pmm_can_free x 1 s")
    case True
    have "page_aligned x" using True by (simp add: pmm_can_free_def)
    with pmm_free_pages_ok [OF inv True] f' show ?thesis by (metis fst_conv snd_conv mult_1)
  next
    case False
    then show ?thesis using pmm_free_pages_cases(1) [OF inv False] f' inv by simp
  qed
  then show "pmm_inv s'" "phys_mem s' = phys_mem s" "g_regions s' = g_regions s"
    "g_kernel_pml4_phys s' = g_kernel_pml4_phys s" "cpu_cr3 s' = cpu_cr3 s" "r = 0 \<or> r = - 1"
    "page_aligned t \<Longrightarrow> t \<noteq> x \<Longrightarrow> t \<in> pmm_free s' \<longleftrightarrow> t \<in> pmm_free s"
    using frame_alone [of t x] by auto
qed

subsection \<open>Table trees\<close>

text \<open>Following a list of entry indices from a table.\<close>

fun vm_walk :: "mm \<Rightarrow> u64 \<Rightarrow> u64 list \<Rightarrow> u64 option" where
  "vm_walk s t [] = Some t"
| "vm_walk s t (i # p) = (case vmm_table t i s of None \<Rightarrow> None | Some t' \<Rightarrow> vm_walk s t' p)"

lemma vm_walk_snoc:
  "vm_walk s t (p @ [i]) = (case vm_walk s t p of None \<Rightarrow> None | Some t' \<Rightarrow> vmm_table t' i s)"
  by (induction p arbitrary: t) (auto split: option.splits)

declare vm_walk.simps(2) [simp del]

lemma vm_walk_prefix: "prefix p q \<Longrightarrow> vm_walk s t p = None \<Longrightarrow> vm_walk s t q = None"
proof (induction q rule: rev_induct)
  case (snoc i q)
  then show ?case by (cases "p = q @ [i]") (auto simp: vm_walk_snoc)
qed simp

lemma vm_walk_cong:
  assumes "\<And>p j t. prefix (p @ [j]) q \<Longrightarrow> vm_walk s root p = Some t \<Longrightarrow> vmm_table t j s' = vmm_table t j s"
  shows "vm_walk s' root q = vm_walk s root q"
  using assms
proof (induction q rule: rev_induct)
  case (snoc i q)
  have "vm_walk s' root q = vm_walk s root q"
    by (rule snoc.IH) (use snoc.prems in \<open>auto intro: prefix_order.trans\<close>)
  then show ?case using snoc.prems [of q i] by (auto simp: vm_walk_snoc split: option.splits)
qed simp

text \<open>Paths to the tables of the user half.\<close>

definition upath :: "u64 list \<Rightarrow> bool" where
  "upath p \<longleftrightarrow> length p \<le> 3 \<and> (\<forall>i \<in> set p. i < 512) \<and> (p \<noteq> [] \<longrightarrow> hd p < 256)"

lemma upath_prefix: "upath q \<Longrightarrow> prefix p q \<Longrightarrow> upath p"
  by (auto simp: upath_def prefix_def)

lemma upath_snocD: "upath (p @ [i]) \<Longrightarrow> upath p \<and> i < 512 \<and> length p < 3"
  by (auto simp: upath_def)

text \<open>
  A user address space is consistent when its tables form a tree of pages that the allocator does
  not hold: every table is aligned and not free, no table is reached by two paths, and no entry of
  an upper level maps a large page.
\<close>

definition vm_inv :: "mm \<Rightarrow> u64 \<Rightarrow> bool" where
  "vm_inv s root \<longleftrightarrow> pmm_inv s \<and> phys_limit s \<and>
     (\<forall>p t. upath p \<longrightarrow> vm_walk s root p = Some t \<longrightarrow> page_aligned t \<and> t \<notin> pmm_free s) \<and>
     (\<forall>p q t. upath p \<longrightarrow> upath q \<longrightarrow> vm_walk s root p = Some t \<longrightarrow> vm_walk s root q = Some t \<longrightarrow> p = q) \<and>
     (\<forall>p i t. upath (p @ [i]) \<longrightarrow> vm_walk s root p = Some t \<longrightarrow> pte_present (tab_get t i s) \<longrightarrow> \<not> pte_huge (tab_get t i s))"

lemma vm_invD:
  assumes "vm_inv s root"
  shows "pmm_inv s" "phys_limit s"
    "upath p \<Longrightarrow> vm_walk s root p = Some t \<Longrightarrow> page_aligned t"
    "upath p \<Longrightarrow> vm_walk s root p = Some t \<Longrightarrow> t \<notin> pmm_free s"
    "upath p \<Longrightarrow> upath q \<Longrightarrow> vm_walk s root p = Some t \<Longrightarrow> vm_walk s root q = Some t \<Longrightarrow> p = q"
    "upath (p @ [i]) \<Longrightarrow> vm_walk s root p = Some t \<Longrightarrow> pte_present (tab_get t i s) \<Longrightarrow> \<not> pte_huge (tab_get t i s)"
  using assms unfolding vm_inv_def by blast+

text \<open>The entry of a last-level table, zero where there is no such table.\<close>

definition vm_leaf :: "mm \<Rightarrow> u64 \<Rightarrow> u64 list \<Rightarrow> u64 \<Rightarrow> u64" where
  "vm_leaf s root q j = (case vm_walk s root q of None \<Rightarrow> 0 | Some t \<Rightarrow> tab_get t j s)"

text \<open>
  Changing one entry of one table, seen from the tree: \<open>v\<close> goes into slot \<open>i\<close> of the table at \<open>p\<close>, the other
  slots of reachable tables stay.
\<close>

definition entry_changed :: "mm \<Rightarrow> mm \<Rightarrow> u64 \<Rightarrow> u64 list \<Rightarrow> u64 \<Rightarrow> u64 \<Rightarrow> bool" where
  "entry_changed s s' root p i v \<longleftrightarrow> (\<forall>q t j. upath q \<longrightarrow> vm_walk s root q = Some t \<longrightarrow> j < 512 \<longrightarrow>
     tab_get t j s' = (if q = p \<and> j = i then v else tab_get t j s))"

lemma entry_changedD:
  "entry_changed s s' root p i v \<Longrightarrow> upath q \<Longrightarrow> vm_walk s root q = Some t \<Longrightarrow> j < 512 \<Longrightarrow>
     tab_get t j s' = (if q = p \<and> j = i then v else tab_get t j s)"
  unfolding entry_changed_def by blast

lemma entry_changed_walk:
  assumes "entry_changed s s' root p i v" and "upath q" and "\<not> prefix (p @ [i]) q"
  shows "vm_walk s' root q = vm_walk s root q"
proof (rule vm_walk_cong)
  fix p' j t assume p': "prefix (p' @ [j]) q" and t: "vm_walk s root p' = Some t"
  have u: "upath (p' @ [j])" using upath_prefix [OF assms(2) p'] .
  have "\<not> (p' = p \<and> j = i)" using p' assms(3) by auto
  then have "tab_get t j s' = tab_get t j s"
    using entry_changedD [OF assms(1) _ t] upath_snocD [OF u] by auto
  then show "vmm_table t j s' = vmm_table t j s" by (simp add: vmm_table_def)
qed

lemma entry_changed_set:
  assumes inv: "vm_inv s root" and p: "upath p" "vm_walk s root p = Some t" "i < 512"
    and same: "\<And>q t' (j :: u64). upath q \<Longrightarrow> vm_walk s root q = Some t' \<Longrightarrow> j < 512 \<Longrightarrow> tab_get t' j s1 = tab_get t' j s"
  shows "entry_changed s (tab_set t i v s1) root p i v"
  unfolding entry_changed_def
proof (intro allI impI)
  fix q t' and j :: u64 assume q: "upath q" "vm_walk s root q = Some t'" "j < 512"
  have "t' = t \<longleftrightarrow> q = p" using vm_invD(5) [OF inv] q p by auto
  then show "tab_get t' j (tab_set t i v s1) = (if q = p \<and> j = i then v else tab_get t' j s)"
    using tab_get_set [OF vm_invD(3) [OF inv q(1,2)] vm_invD(3) [OF inv p(1,2)] q(3) p(3)] same [OF q] by simp
qed

lemma vm_leaf_unchanged:
  assumes "entry_changed s s' root p i v" "upath q" "length q = 3" "j < 512" "\<not> prefix (p @ [i]) q" "\<not> (q = p \<and> j = i)"
  shows "vm_leaf s' root q j = vm_leaf s root q j"
  using assms entry_changed_walk [OF assms(1,2,5)]
  by (auto simp: vm_leaf_def entry_changed_def split: option.splits)

subsection \<open>Dropping a table\<close>

lemma vm_drop_table:
  assumes inv: "vm_inv s root" and p: "upath (p @ [i])" "vm_walk s root p = Some t" "vm_walk s root (p @ [i]) = Some sub"
    and free: "pmm_free_page sub (tab_set t i 0 s) = (r, s')"
  shows "vm_inv s' root" and "r = 0 \<or> r = - 1"
    and "\<And>q. upath q \<Longrightarrow> vm_walk s' root q = (if prefix (p @ [i]) q then None else vm_walk s root q)"
    and "\<And>q j. upath q \<Longrightarrow> length q = 3 \<Longrightarrow> j < 512 \<Longrightarrow>
      vm_leaf s' root q j = (if prefix (p @ [i]) q then 0 else vm_leaf s root q j)"
    and "entry_changed s s' root p i 0"
proof -
  have up: "upath p" "i < 512" "length p < 3" using upath_snocD [OF p(1)] by auto
  have "pmm_inv (tab_set t i 0 s)" using vm_invD(1) [OF inv] by simp
  note f = pmm_free_page_props [OF this free]
  show ec: "entry_changed s s' root p i 0"
    using entry_changed_set [OF inv up(1) p(2) up(2), of s 0] f(2)
    by (simp add: entry_changed_def tab_get_def)
  show "r = 0 \<or> r = - 1" by (rule f(7))
  have "vmm_table t i s' = None"
    using ec up p(2) by (simp add: entry_changed_def vmm_table_def pte_present_def)
  moreover have "vm_walk s' root p = Some t"
    using entry_changed_walk [OF ec up(1)] p(2) by (metis append_Nil2 not_Cons_self2 prefix_order.antisym prefixI same_prefix_nil)
  ultimately have none: "vm_walk s' root (p @ [i]) = None" by (simp add: vm_walk_snoc)
  show walk: "vm_walk s' root q = (if prefix (p @ [i]) q then None else vm_walk s root q)" if "upath q" for q
    using entry_changed_walk [OF ec that] vm_walk_prefix [OF _ none] by simp
  show "vm_leaf s' root q j = (if prefix (p @ [i]) q then 0 else vm_leaf s root q j)"
    if q: "upath q" "length q = 3" "j < 512" for q j
  proof (cases "prefix (p @ [i]) q")
    case True
    then show ?thesis using walk [OF q(1)] by (simp add: vm_leaf_def)
  next
    case False
    moreover have "q \<noteq> p" using q(2) up(3) by auto
    ultimately show ?thesis using vm_leaf_unchanged [OF ec q(1-3)] by simp
  qed
  have lim: "phys_limit s'" using f(3) vm_invD(2) [OF inv] by (simp add: phys_limit_def)
  have ok: "page_aligned t' \<and> t' \<notin> pmm_free s'" if "upath q" "vm_walk s' root q = Some t'" for q t'
  proof -
    have q: "\<not> prefix (p @ [i]) q" "vm_walk s root q = Some t'" using walk [OF that(1)] that(2) by (auto split: if_splits)
    then have "t' \<noteq> sub" using vm_invD(5) [OF inv that(1) p(1) q(2)] p(3) by auto
    then show ?thesis using f(6) vm_invD(3,4) [OF inv that(1) q(2)] by simp
  qed
  have inj: "q = q'" if "upath q" "upath q'" "vm_walk s' root q = Some t'" "vm_walk s' root q' = Some t'" for q q' t'
    using that walk [OF that(1)] walk [OF that(2)] vm_invD(5) [OF inv that(1,2)] by (auto split: if_splits)
  have huge: "\<not> pte_huge (tab_get t' j s')"
    if "upath (q @ [j])" "vm_walk s' root q = Some t'" "pte_present (tab_get t' j s')" for q j t'
  proof -
    have u: "upath q" "j < 512" using upath_snocD [OF that(1)] by auto
    have q: "vm_walk s root q = Some t'" using walk [OF u(1)] that(2) by (auto split: if_splits)
    then show ?thesis
      using ec that(3) vm_invD(6) [OF inv that(1) q] u
      by (auto simp: entry_changed_def pte_present_def split: if_splits)
  qed
  show "vm_inv s' root" unfolding vm_inv_def using f(1) lim ok inj huge by blast
qed

subsection \<open>Adding a table\<close>

text \<open>A change that leaves the shape of the tree alone.\<close>

lemma vm_same_tree:
  assumes inv: "vm_inv s root" and "pmm_inv s'" "phys_limit s'" "pmm_free s' \<subseteq> pmm_free s"
    and same: "\<And>q t (j :: u64). upath (q @ [j]) \<Longrightarrow> vm_walk s root q = Some t \<Longrightarrow>
      pte_present (tab_get t j s') = pte_present (tab_get t j s) \<and> pte_huge (tab_get t j s') = pte_huge (tab_get t j s) \<and>
      pte_addr (tab_get t j s') = pte_addr (tab_get t j s)"
  shows "vm_inv s' root" and "\<And>q. upath q \<Longrightarrow> vm_walk s' root q = vm_walk s root q"
proof -
  show walk: "vm_walk s' root q = vm_walk s root q" if "upath q" for q
  proof (rule vm_walk_cong)
    fix p j t assume "prefix (p @ [j]) q" "vm_walk s root p = Some t"
    with same [OF upath_prefix [OF that]] show "vmm_table t j s' = vmm_table t j s" by (simp add: vmm_table_def Let_def)
  qed
  have "page_aligned t \<and> t \<notin> pmm_free s'" if "upath q" "vm_walk s' root q = Some t" for q t
    using that walk vm_invD(3,4) [OF inv, of q t] assms(4) by auto
  moreover have "q = q'" if "upath q" "upath q'" "vm_walk s' root q = Some t" "vm_walk s' root q' = Some t" for q q' t
    using that walk vm_invD(5) [OF inv that(1,2)] by simp
  moreover have "\<not> pte_huge (tab_get t j s')"
    if "upath (q @ [j])" "vm_walk s' root q = Some t" "pte_present (tab_get t j s')" for q j t
    using that walk [of q] upath_snocD [OF that(1)] same [OF that(1)] vm_invD(6) [OF inv that(1)] by auto
  ultimately show "vm_inv s' root" unfolding vm_inv_def using assms(2,3) by blast
qed

lemma vm_add_table:
  assumes inv: "vm_inv s root" and p: "upath (p @ [i])" "vm_walk s root p = Some t" "\<not> pte_present (tab_get t i s)"
    and al: "pmm_alloc_page s = (new, s1)" "new \<noteq> 0"
    and s': "s' = tab_set t i (new OR (PTE_PRESENT OR PTE_WRITABLE OR (flags AND PTE_USER))) s1"
  shows "vm_inv s' root" and "pte_addr (tab_get t i s') = new"
    and "\<And>q. upath q \<Longrightarrow> vm_walk s' root q =
      (if prefix (p @ [i]) q then if q = p @ [i] then Some new else None else vm_walk s root q)"
    and "\<And>q j. upath q \<Longrightarrow> length q = 3 \<Longrightarrow> j < 512 \<Longrightarrow> vm_leaf s' root q j = vm_leaf s root q j"
proof -
  let ?v = "new OR (PTE_PRESENT OR PTE_WRITABLE OR (flags AND PTE_USER))"
  have up: "upath p" "i < 512" "length p < 3" using upath_snocD [OF p(1)] by auto
  note a = pmm_alloc_page_props [OF vm_invD(1,2) [OF inv] al(1)]
  have new: "phys_ok new" "new \<in> pmm_free s" "new \<notin> pmm_free s1" "page_aligned new"
    using a(6) [OF al(2)] by (auto simp: phys_ok_def)
  have ne: "t' \<noteq> new" if "upath q" "vm_walk s root q = Some t'" for q t'
    using vm_invD(4) [OF inv that] new(2) by auto
  have ec: "entry_changed s s' root p i ?v"
    unfolding s'
  proof (rule entry_changed_set [OF inv up(1) p(2) up(2)])
    fix q t' and j :: u64 assume q: "upath q" "vm_walk s root q = Some t'" "j < 512"
    then show "tab_get t' j s1 = tab_get t' j s" using a(7) [OF vm_invD(3) [OF inv q(1,2)] q(3)] ne [OF q(1,2)] by simp
  qed
  note entry = table_entry [OF new(1) refl, of flags]
  have e: "tab_get t i s' = ?v" using entry_changedD [OF ec up(1) p(2) up(2)] by simp
  show "pte_addr (tab_get t i s') = new" unfolding e by (rule entry(3))
  have zero: "tab_get new j s' = 0" if "j < 512" for j
    unfolding s' using tab_get_set [OF new(4) vm_invD(3) [OF inv up(1) p(2)] that up(2)] ne [OF up(1) p(2)]
      a(7) [OF new(4) that] al(2) by simp
  have "vm_walk s' root p = Some t"
    using entry_changed_walk [OF ec up(1)] p(2) by (metis append_Nil2 not_Cons_self2 prefix_order.antisym prefixI same_prefix_nil)
  then have at: "vm_walk s' root (p @ [i]) = Some new"
    using e entry by (simp add: vm_walk_snoc vmm_table_def Let_def)
  have none: "vm_walk s' root q = None" if pre: "prefix (p @ [i]) q" "q \<noteq> p @ [i]" "upath q" for q
  proof -
    obtain j q' where q: "q = (p @ [i]) @ j # q'" using pre(1,2) by (metis neq_Nil_conv prefixE append_Nil2)
    then have "j < 512" using pre(3) by (simp add: upath_def)
    then have "vm_walk s' root ((p @ [i]) @ [j]) = None"
      unfolding vm_walk_snoc [of s' root "p @ [i]" j] at using zero by (simp add: vmm_table_def pte_present_def)
    moreover have "prefix ((p @ [i]) @ [j]) q" by (simp add: q)
    ultimately show ?thesis using vm_walk_prefix by blast
  qed
  show walk: "vm_walk s' root q =
      (if prefix (p @ [i]) q then if q = p @ [i] then Some new else None else vm_walk s root q)" if "upath q" for q
    using entry_changed_walk [OF ec that] at none [OF _ _ that] by simp
  have old_none: "vm_walk s root q = None" if "prefix (p @ [i]) q" for q
    by (rule vm_walk_prefix [OF that]) (use p in \<open>simp add: vm_walk_snoc vmm_table_def\<close>)
  show "vm_leaf s' root q j = vm_leaf s root q j" if q: "upath q" "length q = 3" "j < 512" for q j
  proof (cases "prefix (p @ [i]) q")
    case True
    then show ?thesis using walk [OF q(1)] old_none [OF True] zero [OF q(3)] by (simp add: vm_leaf_def)
  next
    case False
    moreover have "q \<noteq> p" using q(2) up(3) by auto
    ultimately show ?thesis using vm_leaf_unchanged [OF ec q] by simp
  qed
  have ok: "page_aligned t' \<and> t' \<notin> pmm_free s'" if "upath q" "vm_walk s' root q = Some t'" for q t'
    using walk [OF that(1)] that new a(3) vm_invD(3,4) [OF inv that(1), of t'] by (auto simp: s' split: if_splits)
  have inj: "q = q'" if q: "upath q" "upath q'" "vm_walk s' root q = Some t'" "vm_walk s' root q' = Some t'" for q q' t'
    using q(3,4) unfolding walk [OF q(1)] walk [OF q(2)]
    using vm_invD(5) [OF inv q(1,2)] ne [OF q(1)] ne [OF q(2)] by (auto split: if_splits)
  have huge: "\<not> pte_huge (tab_get t' j s')"
    if "upath (q @ [j])" "vm_walk s' root q = Some t'" "pte_present (tab_get t' j s')" for q j t'
  proof (cases "t' = new")
    case True
    then show ?thesis using that(3) zero upath_snocD [OF that(1)] by (simp add: pte_present_def)
  next
    case False
    have u: "upath q" "j < 512" using upath_snocD [OF that(1)] by auto
    have q: "vm_walk s root q = Some t'" using walk [OF u(1)] that(2) False by (auto split: if_splits)
    show ?thesis
      using entry_changedD [OF ec u(1) q u(2)] that(3) vm_invD(6) [OF inv that(1) q] entry(2) by (auto split: if_splits)
  qed
  have "phys_limit s'" "pmm_inv s'" using a(1,2) by (simp_all add: s' phys_limit_def)
  then show "vm_inv s' root" unfolding vm_inv_def using ok inj huge by blast
qed

lemma not_prefix_self [simp]: "\<not> prefix (p @ [i]) p"
  by (metis append_Nil2 not_Cons_self2 prefix_order.antisym prefixI same_prefix_nil)

text \<open>One level of \<open>vmm_map_page\<close>.\<close>

lemma vmm_ensure_ok:
  assumes inv: "vm_inv s root" and p: "upath (p @ [i])" "vm_walk s root p = Some t"
    and en: "vmm_ensure t i flags s = (r, s')"
  shows "vm_inv s' root"
    and "\<And>q j. upath q \<Longrightarrow> length q = 3 \<Longrightarrow> j < 512 \<Longrightarrow> vm_leaf s' root q j = vm_leaf s root q j"
    and "\<And>q. upath q \<Longrightarrow> \<not> prefix (p @ [i]) q \<Longrightarrow> vm_walk s' root q = vm_walk s root q"
    and "r = Some new \<Longrightarrow> vm_walk s' root (p @ [i]) = Some (pte_addr (tab_get t i s'))"
    and "r = Some new \<Longrightarrow> new \<noteq> 0 \<Longrightarrow> pte_addr (tab_get t i s') = new \<and> vm_walk s root (p @ [i]) = None"
    and "r = None \<Longrightarrow> upath q \<Longrightarrow> vm_walk s' root q = vm_walk s root q"
proof -
  have up: "upath p" "i < 512" "length p < 3" using upath_snocD [OF p(1)] by auto
  have goal: "vm_inv s' root \<and>
    (\<forall>q j. upath q \<longrightarrow> length q = 3 \<longrightarrow> j < 512 \<longrightarrow> vm_leaf s' root q j = vm_leaf s root q j) \<and>
    (\<forall>q. upath q \<longrightarrow> \<not> prefix (p @ [i]) q \<longrightarrow> vm_walk s' root q = vm_walk s root q) \<and>
    (\<forall>new. r = Some new \<longrightarrow> vm_walk s' root (p @ [i]) = Some (pte_addr (tab_get t i s'))) \<and>
    (\<forall>new. r = Some new \<longrightarrow> new \<noteq> 0 \<longrightarrow> pte_addr (tab_get t i s') = new \<and> vm_walk s root (p @ [i]) = None) \<and>
    (\<forall>q. r = None \<longrightarrow> upath q \<longrightarrow> vm_walk s' root q = vm_walk s root q)"
  proof (cases "pte_present (tab_get t i s)")
    case False
    obtain new s1 where al: "pmm_alloc_page s = (new, s1)" by (cases "pmm_alloc_page s")
    have old: "vm_walk s root (p @ [i]) = None" using p False by (simp add: vm_walk_snoc vmm_table_def)
    show ?thesis
    proof (cases "new = 0")
      case True
      then have s': "r = None" "s' = s1" using en False al by (simp_all add: vmm_ensure_def)
      note a = pmm_alloc_page_props [OF vm_invD(1,2) [OF inv] al]
      have same: "tab_get t' j s1 = tab_get t' j s" if "upath q" "vm_walk s root q = Some t'" "j < 512" for q t' j
        using a(7) [OF vm_invD(3) [OF inv that(1,2)] that(3)] True by simp
      have tree: "vm_inv s1 root" "upath q \<Longrightarrow> vm_walk s1 root q = vm_walk s root q" for q
        using vm_same_tree [OF inv a(1,2,3)] same upath_snocD by metis+
      have "vm_leaf s1 root q j = vm_leaf s root q j" if "upath q" "j < 512" for q j
        using tree(2) [OF that(1)] same [OF that(1) _ that(2)] by (auto simp: vm_leaf_def split: option.splits)
      with tree s' show ?thesis by auto
    next
      case new: False
      then have r: "r = Some new"
        and s': "s' = tab_set t i (new OR (PTE_PRESENT OR PTE_WRITABLE OR (flags AND PTE_USER))) s1"
        using en False al by (simp_all add: vmm_ensure_def)
      note add = vm_add_table [OF inv p False al new s']
      show ?thesis using add old r p(1) by simp
    qed
  next
    case True
    define e where "e = tab_get t i s"
    have r: "r = Some 0" and s': "s' = tab_set t i (e OR PTE_USER) s \<or> s' = s"
      using en True by (auto simp: vmm_ensure_def e_def split: if_splits)
    have ec: "tab_get t' j s' = (if q = p \<and> j = i \<and> s' \<noteq> s then e OR PTE_USER else tab_get t' j s)"
      if "upath q" "vm_walk s root q = Some t'" "j < 512" for q t' j
      using s' entry_changedD [OF entry_changed_set [OF inv up(1) p(2) up(2), of s "e OR PTE_USER"] that] by auto
    have keep: "pte_present (tab_get t' j s') = pte_present (tab_get t' j s) \<and>
        pte_huge (tab_get t' j s') = pte_huge (tab_get t' j s) \<and> pte_addr (tab_get t' j s') = pte_addr (tab_get t' j s)"
      if "upath (q @ [j])" "vm_walk s root q = Some t'" for q t' j
      using ec [OF _ that(2)] upath_snocD [OF that(1)] p(2) that(2) by (auto simp: user_bit_added e_def)
    have pm: "pmm_inv s'" "phys_limit s'" "pmm_free s' \<subseteq> pmm_free s"
      using s' vm_invD(1,2) [OF inv] by (auto simp: phys_limit_def)
    have tree: "vm_inv s' root" "upath q \<Longrightarrow> vm_walk s' root q = vm_walk s root q" for q
      using vm_same_tree [OF inv pm] keep by blast+
    have "vm_leaf s' root q j = vm_leaf s root q j" if "upath q" "length q = 3" "j < 512" for q j
    proof -
      have "q \<noteq> p" using that(2) up(3) by auto
      then show ?thesis using tree(2) [OF that(1)] ec [OF that(1) _ that(3)] by (auto simp: vm_leaf_def split: option.splits)
    qed
    moreover have "vm_walk s root (p @ [i]) = Some (pte_addr (tab_get t i s'))"
      using vm_invD(6) [OF inv p True] True keep [OF p] p(2) by (simp add: vm_walk_snoc vmm_table_def Let_def)
    ultimately show ?thesis using tree r p(1) by simp
  qed
  show "vm_inv s' root"
    "\<And>q j. upath q \<Longrightarrow> length q = 3 \<Longrightarrow> j < 512 \<Longrightarrow> vm_leaf s' root q j = vm_leaf s root q j"
    "\<And>q. upath q \<Longrightarrow> \<not> prefix (p @ [i]) q \<Longrightarrow> vm_walk s' root q = vm_walk s root q"
    "r = Some new \<Longrightarrow> vm_walk s' root (p @ [i]) = Some (pte_addr (tab_get t i s'))"
    "r = Some new \<Longrightarrow> new \<noteq> 0 \<Longrightarrow> pte_addr (tab_get t i s') = new \<and> vm_walk s root (p @ [i]) = None"
    "r = None \<Longrightarrow> upath q \<Longrightarrow> vm_walk s' root q = vm_walk s root q"
    using goal by auto
qed

end
