(* ===== verification/Address_Space.thy ===== *)
theory Address_Space
  imports Page_Tables
begin

text \<open>
  Correctness of the operations on a user address space: mapping one page with its rollback, unmapping
  with the release of empty tables, and the creation of a new address space.
\<close>

subsection \<open>Indices of a virtual address\<close>

definition upper :: "u64 \<Rightarrow> u64 list" where
  "upper v = [pml4_idx v, pdpt_idx v, pd_idx v]"

lemmas idx_defs = pml4_idx_def pdpt_idx_def pd_idx_def pt_idx_def

lemma and_1FF: "x AND 0x1FF < (512 :: u64)"
  using word_and_le1 [of x "0x1FF"] by (simp add: word_le_nat_alt word_less_nat_alt)

lemma idx_bounds [simp]: "pml4_idx v < 512" "pdpt_idx v < 512" "pd_idx v < 512" "pt_idx v < 512"
  by (simp_all only: idx_defs and_1FF)

lemma mask_1FF: "(0x1FF :: u64) = mask 9"
  by (simp add: mask_eq_exp_minus_1)

lemma bit_idx: "bit (drop_bit k v AND (0x1FF :: u64)) n \<longleftrightarrow> bit v (k + n) \<and> n < 9"
  unfolding mask_1FF by (auto simp: bit_simps)

lemma bit_user_va:
  assumes "v < USER_VA_LIMIT" and "bit v n"
  shows "n < 47"
proof -
  have "unat v < 2 ^ 47" using assms(1) by (simp add: word_less_nat_alt)
  then have "unat (take_bit 47 v) = unat v" by (simp add: unsigned_take_bit_eq take_bit_nat_eq_self)
  then have "take_bit 47 v = v" by (simp add: word_unat_eq_iff)
  then show ?thesis using assms(2) bit_take_bit_iff [of 47 v n] by auto
qed

lemma pml4_idx_user:
  assumes "v < USER_VA_LIMIT"
  shows "pml4_idx v < 256"
proof -
  have "take_bit 8 (pml4_idx v) = pml4_idx v"
    by (rule bit_eqI) (use bit_user_va [OF assms, of "39 + _"] in \<open>simp only: bit_take_bit_iff pml4_idx_def bit_idx, fastforce\<close>)
  then have "unat (pml4_idx v) = take_bit 8 (unat (pml4_idx v))" by (metis unsigned_take_bit_eq)
  also have "\<dots> < 2 ^ 8" by (rule take_bit_nat_less_exp)
  finally show ?thesis by (simp add: word_less_nat_alt)
qed

lemma upath_upper: "v < USER_VA_LIMIT \<Longrightarrow> prefix p (upper v) \<Longrightarrow> upath p"
  by (rule upath_prefix [of "upper v"]) (simp_all add: upath_def upper_def pml4_idx_user)

lemma same_idx_same_page:
  assumes "v < USER_VA_LIMIT" "w < USER_VA_LIMIT" "upper v = upper w" "pt_idx v = pt_idx w"
  shows "page_down v = page_down w"
proof (rule bit_eqI)
  fix n
  have ix: "bit v (k + m) = bit w (k + m)" if "k \<in> {12, 21, 30, 39}" "m < 9" for k m
  proof -
    have "drop_bit k v AND 0x1FF = drop_bit k w AND 0x1FF"
      using assms(3,4) that(1) by (auto simp: upper_def idx_defs)
    then show ?thesis using that(2) bit_idx [of k v m] bit_idx [of k w m] by simp
  qed
  have "bit v n = bit w n" if n: "12 \<le> n"
  proof (cases "n < 48")
    case True
    then consider "12 \<le> n" "n < 21" | "21 \<le> n" "n < 30" | "30 \<le> n" "n < 39" | "39 \<le> n" "n < 48"
      using n by linarith
    then show ?thesis
      using ix [of 12 "n - 12"] ix [of 21 "n - 21"] ix [of 30 "n - 30"] ix [of 39 "n - 39"] by cases auto
  next
    case False
    then show ?thesis using bit_user_va [OF assms(1)] bit_user_va [OF assms(2)] by fastforce
  qed
  moreover have "bit (page_down x) n \<longleftrightarrow> 12 \<le> n \<and> bit x n \<and> n < 64" for x
  proof -
    have "page_down x = x AND NOT (mask 12)" by (simp add: page_down_def mask_eq_exp_minus_1)
    then show ?thesis by (auto simp: bit_simps dest: bit_imp_le_length)
  qed
  ultimately show "bit (page_down v) n = bit (page_down w) n" by auto
qed

lemma flags_leaf: "vmm_get_page_flags root v s = vm_leaf s root (upper v) (pt_idx v)"
  by (auto simp: vmm_get_page_flags_def vmm_get_pt_def vm_leaf_def upper_def vm_walk.simps split: option.splits)

lemma phys_leaf: "vmm_get_page_phys root v s =
    (if pte_present (vmm_get_page_flags root v s) then pte_addr (vmm_get_page_flags root v s) else 0)"
  by (auto simp: vmm_get_page_flags_def vmm_get_page_phys_def Let_def pte_present_def split: option.splits)

lemma leaf_flags_bits: "bit (flags AND (0xFFF OR (PTE_NO_EXECUTE :: u64))) n \<longleftrightarrow> bit flags n \<and> (n < 12 \<or> n = 63)"
proof -
  have "bit (0xFFF :: u64) n \<longleftrightarrow> n < 12" "bit (PTE_NO_EXECUTE :: u64) n \<longleftrightarrow> n = 63"
    using bit_mask_iff [of 12 n, where ?'a = "64 word"] bit_exp_iff [of 63 n, where ?'a = "64 word"]
    by (auto simp: mask_eq_exp_minus_1)
  then show ?thesis by (simp only: bit_and_iff bit_or_iff)
qed

lemma pte_leaf_bits: "bit (pte_leaf phys flags) n \<longleftrightarrow>
    bit phys n \<and> 12 \<le> n \<and> n < 52 \<or> n = 0 \<or> bit flags n \<and> (n < 12 \<or> n = 63)"
  unfolding pte_leaf_def bit_or_iff leaf_flags_bits bit_and_iff [of phys] bit_addr_mask
  by (auto simp: bit_1_iff)

lemma pte_leaf_simps:
  "pte_present (pte_leaf phys flags)" "pte_addr (pte_leaf phys flags) = phys AND PTE_ADDR_MASK"
  "phys_ok phys \<Longrightarrow> phys AND PTE_ADDR_MASK = phys"
proof -
  show "pte_present (pte_leaf phys flags)" by (simp only: pte_bits pte_leaf_bits) simp
  show "pte_addr (pte_leaf phys flags) = phys AND PTE_ADDR_MASK"
    by (rule bit_eqI) (simp only: bit_pte_addr pte_leaf_bits bit_and_iff bit_addr_mask, auto)
  show "phys AND PTE_ADDR_MASK = phys" if "phys_ok phys"
    by (rule bit_eqI) (use bit_phys_ok [OF that] in \<open>simp only: bit_and_iff bit_addr_mask, auto\<close>)
qed

lemma flag_tests:
  "e AND PTE_USER \<noteq> 0 \<longleftrightarrow> bit e 2" "e AND PTE_WRITABLE \<noteq> 0 \<longleftrightarrow> bit e 1" "e AND PTE_NO_EXECUTE \<noteq> 0 \<longleftrightarrow> bit e 63"
  "e AND (PTE_USER OR PTE_WRITABLE) = PTE_USER OR PTE_WRITABLE \<longleftrightarrow> bit e 2 \<and> bit e 1"
proof -
  show *: "e AND PTE_USER \<noteq> 0 \<longleftrightarrow> bit e 2" "e AND PTE_WRITABLE \<noteq> 0 \<longleftrightarrow> bit e 1" "e AND PTE_NO_EXECUTE \<noteq> 0 \<longleftrightarrow> bit e 63"
    using and_exp_eq_0_iff_not_bit [of e 2] and_exp_eq_0_iff_not_bit [of e 1] and_exp_eq_0_iff_not_bit [of e 63]
    by simp_all
  have b: "bit (PTE_USER OR PTE_WRITABLE :: u64) n \<longleftrightarrow> n = 2 \<or> n = 1" for n
  proof -
    have "bit (PTE_USER :: u64) n \<longleftrightarrow> n = 2" "bit (PTE_WRITABLE :: u64) n \<longleftrightarrow> n = 1"
      using bit_exp_iff [of 2 n, where ?'a = "64 word"] bit_exp_iff [of 1 n, where ?'a = "64 word"] by auto
    then show ?thesis by (simp only: bit_or_iff)
  qed
  show "e AND (PTE_USER OR PTE_WRITABLE) = PTE_USER OR PTE_WRITABLE \<longleftrightarrow> bit e 2 \<and> bit e 1"
  proof
    assume eq: "e AND (PTE_USER OR PTE_WRITABLE) = PTE_USER OR PTE_WRITABLE"
    have "bit (e AND (PTE_USER OR PTE_WRITABLE)) n" if "n = 2 \<or> n = 1" for n unfolding eq b using that .
    then show "bit e 2 \<and> bit e 1" unfolding bit_and_iff by blast
  next
    assume "bit e 2 \<and> bit e 1"
    then show "e AND (PTE_USER OR PTE_WRITABLE) = PTE_USER OR PTE_WRITABLE"
      by (intro bit_eqI) (simp only: bit_and_iff b, blast)
  qed
qed

subsection \<open>Mapping a page\<close>

lemma vmm_undo_ok:
  assumes inv: "vm_inv s root" and p: "upath (p @ [i])" "vm_walk s root p = Some t"
    and new: "new \<noteq> 0 \<Longrightarrow> vm_walk s root (p @ [i]) = Some new"
    and empty: "\<And>q j. new \<noteq> 0 \<Longrightarrow> upath q \<Longrightarrow> length q = 3 \<Longrightarrow> prefix (p @ [i]) q \<Longrightarrow> j < 512 \<Longrightarrow> vm_leaf s root q j = 0"
  shows "vm_inv (vmm_undo t i new s) root"
    and "\<And>q j. upath q \<Longrightarrow> length q = 3 \<Longrightarrow> j < 512 \<Longrightarrow> vm_leaf (vmm_undo t i new s) root q j = vm_leaf s root q j"
    and "\<And>q. upath q \<Longrightarrow> \<not> prefix (p @ [i]) q \<Longrightarrow> vm_walk (vmm_undo t i new s) root q = vm_walk s root q"
proof -
  have "vm_inv (vmm_undo t i new s) root \<and>
    (\<forall>q j. upath q \<longrightarrow> length q = 3 \<longrightarrow> j < 512 \<longrightarrow> vm_leaf (vmm_undo t i new s) root q j = vm_leaf s root q j) \<and>
    (\<forall>q. upath q \<longrightarrow> \<not> prefix (p @ [i]) q \<longrightarrow> vm_walk (vmm_undo t i new s) root q = vm_walk s root q)"
  proof (cases "new = 0")
    case True
    then show ?thesis using inv by (simp add: vmm_undo_def)
  next
    case False
    obtain r s' where f: "pmm_free_page new (tab_set t i 0 s) = (r, s')" by (cases "pmm_free_page new (tab_set t i 0 s)")
    then have "vmm_undo t i new s = s'" using False by (simp add: vmm_undo_def)
    with vm_drop_table [OF inv p new [OF False] f] empty [OF False] show ?thesis by simp
  qed
  then show "vm_inv (vmm_undo t i new s) root"
    "\<And>q j. upath q \<Longrightarrow> length q = 3 \<Longrightarrow> j < 512 \<Longrightarrow> vm_leaf (vmm_undo t i new s) root q j = vm_leaf s root q j"
    "\<And>q. upath q \<Longrightarrow> \<not> prefix (p @ [i]) q \<Longrightarrow> vm_walk (vmm_undo t i new s) root q = vm_walk s root q"
    by auto
qed

text \<open>Writing an entry of a last-level table.\<close>

lemma vm_set_leaf:
  assumes inv: "vm_inv s root" and q: "upath q" "length q = 3" "vm_walk s root q = Some pt" "j < 512"
  shows "vm_inv (tab_set pt j v s) root"
    and "\<And>q' j'. upath q' \<Longrightarrow> length q' = 3 \<Longrightarrow> j' < 512 \<Longrightarrow>
      vm_leaf (tab_set pt j v s) root q' j' = (if q' = q \<and> j' = j then v else vm_leaf s root q' j')"
    and "\<And>q'. upath q' \<Longrightarrow> vm_walk (tab_set pt j v s) root q' = vm_walk s root q'"
proof -
  let ?s = "tab_set pt j v s"
  have ec: "entry_changed s ?s root q j v" by (rule entry_changed_set [OF inv q(1,3,4)]) simp
  have pm: "pmm_inv ?s" "phys_limit ?s" "pmm_free ?s \<subseteq> pmm_free s"
    using vm_invD(1,2) [OF inv] by (simp_all add: phys_limit_def)
  have keep: "tab_get t j' ?s = tab_get t j' s" if "upath (q' @ [j'])" "vm_walk s root q' = Some t" for q' t j'
    using entry_changedD [OF ec _ that(2)] upath_snocD [OF that(1)] q(2) by auto
  have tree: "vm_inv ?s root" "upath q' \<Longrightarrow> vm_walk ?s root q' = vm_walk s root q'" for q'
    using vm_same_tree [OF inv pm] keep by auto
  then show "vm_inv ?s root" "\<And>q'. upath q' \<Longrightarrow> vm_walk ?s root q' = vm_walk s root q'" by simp_all
  show "vm_leaf ?s root q' j' = (if q' = q \<and> j' = j then v else vm_leaf s root q' j')"
    if "upath q'" "length q' = 3" "j' < 512" for q' j'
    using tree(2) [OF that(1)] entry_changedD [OF ec that(1) _ that(3)] q(3)
    by (auto simp: vm_leaf_def split: option.splits)
qed

text \<open>All last-level entries agree.\<close>

definition same_leaves :: "mm \<Rightarrow> mm \<Rightarrow> u64 \<Rightarrow> bool" where
  "same_leaves s s' root \<longleftrightarrow>
     (\<forall>q j. upath q \<longrightarrow> length q = 3 \<longrightarrow> j < 512 \<longrightarrow> vm_leaf s' root q j = vm_leaf s root q j)"

lemma same_leavesI:
  "(\<And>q j. upath q \<Longrightarrow> length q = 3 \<Longrightarrow> j < 512 \<Longrightarrow> vm_leaf s' root q j = vm_leaf s root q j) \<Longrightarrow> same_leaves s s' root"
  by (simp add: same_leaves_def)

lemma same_leaves_trans: "same_leaves s s' root \<Longrightarrow> same_leaves s' s'' root \<Longrightarrow> same_leaves s s'' root"
  by (simp add: same_leaves_def)

lemma same_leaves_flags: "same_leaves s s' root \<Longrightarrow> v < USER_VA_LIMIT \<Longrightarrow> vmm_get_page_flags root v s' = vmm_get_page_flags root v s"
  using upath_upper [of v "upper v"] by (simp add: same_leaves_def flags_leaf) (simp add: upper_def)

lemma no_table_no_leaf:
  "vm_walk s root p = None \<Longrightarrow> prefix p q \<Longrightarrow> vm_leaf s root q j = 0"
  by (simp add: vm_leaf_def vm_walk_prefix)

text \<open>What a call of \<open>vmm_map_page\<close> can do to the tree.\<close>

lemma vmm_map_page_cases:
  assumes inv: "vm_inv s root" and v: "virt < USER_VA_LIMIT" and map: "vmm_map_page root virt phys flags s = (r, s')"
  obtains (failed) "r = - 1" "vm_inv s' root" "same_leaves s s' root"
  | (mapped) pt s3 where "r = 0" "vm_inv s3 root" "same_leaves s s3 root" "vm_walk s3 root (upper virt) = Some pt"
      "\<not> pte_present (tab_get pt (pt_idx virt) s3)" "s' = tab_set pt (pt_idx virt) (pte_leaf phys flags) s3"
      "pte_flags_allowed root virt flags s" "page_aligned virt" "page_aligned phys"
proof -
  let ?i4 = "pml4_idx virt" and ?i3 = "pdpt_idx virt" and ?i2 = "pd_idx virt"
  have u: "upath [?i4]" "upath [?i4, ?i3]" "upath [?i4, ?i3, ?i2]" "upath []"
    by (rule upath_upper [OF v], simp add: upper_def)+
  have refl: "same_leaves s s root" by (simp add: same_leaves_def)
  show thesis
  proof (cases "root = 0 \<or> virt AND (PAGE_SIZE - 1) \<noteq> 0 \<or> phys AND (PAGE_SIZE - 1) \<noteq> 0 \<or>
      drop_bit 47 virt \<noteq> 0 \<and> drop_bit 47 virt \<noteq> 0x1FFFF \<or> \<not> pte_flags_allowed root virt flags s")
    case True
    then have "r = - 1" "s' = s" using map by (auto simp: vmm_map_page_def split: if_splits)
    with inv refl show thesis by (intro failed) simp_all
  next
    case False
    then have guards: "page_aligned virt" "page_aligned phys" "pte_flags_allowed root virt flags s"
      by (simp_all add: page_aligned_def)
    have g: "\<not> (root = 0 \<or> virt AND (PAGE_SIZE - 1) \<noteq> 0 \<or> phys AND (PAGE_SIZE - 1) \<noteq> 0)"
      "\<not> (drop_bit 47 virt \<noteq> 0 \<and> drop_bit 47 virt \<noteq> 0x1FFFF)" "\<not> \<not> pte_flags_allowed root virt flags s"
      using False by blast+
    note map' = map [unfolded vmm_map_page_def if_not_P [OF g(1)] if_not_P [OF g(2)] if_not_P [OF g(3)]]
    obtain r1 s1 where e1: "vmm_ensure root ?i4 flags s = (r1, s1)" by (cases "vmm_ensure root ?i4 flags s")
    note en1 = vmm_ensure_ok [where p = "[]", simplified append.simps, OF inv u(1) vm_walk.simps(1) e1]
    have l1: "same_leaves s s1 root" by (rule same_leavesI) (rule en1(2))
    show thesis
    proof (cases r1)
      case None
      then have "r = - 1" "s' = s1" using map' e1 by (simp_all add: Let_def)
      with en1(1) l1 show thesis by (intro failed) simp_all
    next
      case r1: (Some new1)
      let ?pdpt = "pte_addr (tab_get root ?i4 s1)"
      have w1: "vm_walk s1 root [?i4] = Some ?pdpt" using en1(4) [OF r1] by simp
      obtain r2 s2 where e2: "vmm_ensure ?pdpt ?i3 flags s1 = (r2, s2)" by (cases "vmm_ensure ?pdpt ?i3 flags s1")
      note en2 = vmm_ensure_ok [where p = "[?i4]", simplified append.simps, OF en1(1) u(2) w1 e2]
      have l2: "same_leaves s1 s2 root" by (rule same_leavesI) (rule en2(2))
      have l12: "same_leaves s s2 root" using l1 l2 by (rule same_leaves_trans)
      have w2: "vm_walk s2 root [?i4] = Some ?pdpt" using en2(3) [OF u(1)] w1 by simp
      have fresh1: "new1 \<noteq> 0 \<Longrightarrow> ?pdpt = new1 \<and> vm_walk s root [?i4] = None" using en1(5) [OF r1] by simp
      have clean1: "vm_leaf t root q j = 0" if "new1 \<noteq> 0" "upath q" "length q = 3" "prefix [?i4] q" "j < 512" "same_leaves s t root" for t q j
        using that fresh1 no_table_no_leaf [of s root "[?i4]" q j] by (simp add: same_leaves_def)
      show thesis
      proof (cases r2)
        case None
        then have s': "r = - 1" "s' = vmm_undo root ?i4 new1 s2"
          using map' e1 r1 e2 by (simp_all add: Let_def)
        note un = vmm_undo_ok [where p = "[]" and new = new1, simplified append.simps, OF en2(1) u(1) vm_walk.simps(1)]
        have "vm_inv s' root" unfolding s' by (rule un) (simp_all add: w2 fresh1 clean1 l12)
        moreover have "same_leaves s2 s' root"
          unfolding s' by (rule same_leavesI, rule un) (simp_all add: w2 fresh1 clean1 l12)
        ultimately show thesis using s' l12 by (intro failed) (auto intro: same_leaves_trans)
      next
        case r2: (Some new2)
        let ?pd = "pte_addr (tab_get ?pdpt ?i3 s2)"
        have w3: "vm_walk s2 root [?i4, ?i3] = Some ?pd" using en2(4) [OF r2] by simp
        obtain r3 s3 where e3: "vmm_ensure ?pd ?i2 flags s2 = (r3, s3)" by (cases "vmm_ensure ?pd ?i2 flags s2")
        note en3 = vmm_ensure_ok [where p = "[?i4, ?i3]", simplified append.simps, OF en2(1) u(3) w3 e3]
        have l23: "same_leaves s2 s3 root" by (rule same_leavesI) (rule en3(2))
        have l13: "same_leaves s s3 root" using l12 l23 by (rule same_leaves_trans)
        have w4: "vm_walk s3 root [?i4] = Some ?pdpt" "vm_walk s3 root [?i4, ?i3] = Some ?pd"
          using en3(3) [OF u(1)] en3(3) [OF u(2)] w2 w3 by simp_all
        have fresh2: "new2 \<noteq> 0 \<Longrightarrow> ?pd = new2 \<and> vm_walk s1 root [?i4, ?i3] = None" using en2(5) [OF r2] by simp
        have clean2: "vm_leaf t root q j = 0" if "new2 \<noteq> 0" "upath q" "length q = 3" "prefix [?i4, ?i3] q" "j < 512" "same_leaves s1 t root" for t q j
          using that fresh2 no_table_no_leaf [of s1 root "[?i4, ?i3]" q j] by (simp add: same_leaves_def)
        have l3: "same_leaves s1 s3 root" using l2 l23 by (rule same_leaves_trans)
        show thesis
        proof (cases r3)
          case None
          define s4 where "s4 = vmm_undo ?pdpt ?i3 new2 s3"
          have s': "r = - 1" "s' = vmm_undo root ?i4 new1 s4"
            using map' e1 r1 e2 r2 e3 None by (simp_all add: Let_def s4_def)
          note un2 = vmm_undo_ok [where p = "[?i4]" and new = new2, simplified append.simps, OF en3(1) u(2) w4(1)]
          have c: "vm_inv s4 root" unfolding s4_def by (rule un2) (simp_all add: w4 fresh2 clean2 l3)
          have "same_leaves s3 s4 root"
            unfolding s4_def by (rule same_leavesI, rule un2) (simp_all add: w4 fresh2 clean2 l3)
          with l13 have l14: "same_leaves s s4 root" by (rule same_leaves_trans)
          have w5: "vm_walk s4 root [?i4] = Some ?pdpt"
            unfolding s4_def using un2(3) [OF _ _ u(1)] w4 fresh2 clean2 l3 by simp
          note un1 = vmm_undo_ok [where p = "[]" and new = new1, simplified append.simps, OF c u(1) vm_walk.simps(1)]
          have "vm_inv s' root" unfolding s' by (rule un1) (simp_all add: w5 fresh1 clean1 l14)
          moreover have "same_leaves s4 s' root"
            unfolding s' by (rule same_leavesI, rule un1) (simp_all add: w5 fresh1 clean1 l14)
          ultimately show thesis using s' l14 by (intro failed) (auto intro: same_leaves_trans)
        next
          case r3: (Some new3)
          let ?pt = "pte_addr (tab_get ?pd ?i2 s3)"
          have w6: "vm_walk s3 root (upper virt) = Some ?pt" using en3(4) [OF r3] by (simp add: upper_def)
          show thesis
          proof (cases "pte_present (tab_get ?pt (pt_idx virt) s3)")
            case True
            then have "r = - 1" "s' = s3"
              using map' e1 r1 e2 r2 e3 r3 by (simp_all add: Let_def)
            with en3(1) l13 show thesis by (intro failed) simp_all
          next
            case absent: False
            then have "r = 0" "s' = tab_set ?pt (pt_idx virt) (pte_leaf phys flags) s3"
              using map' e1 r1 e2 r2 e3 r3 by (simp_all add: Let_def)
            with en3(1) l13 w6 absent guards show thesis by (intro mapped) simp_all
          qed
        qed
      qed
    qed
  qed
qed

text \<open>The page table entry that maps an address, if any.\<close>

definition vm_mapping :: "mm \<Rightarrow> u64 \<Rightarrow> u64 \<Rightarrow> u64 option" where
  "vm_mapping s root v =
     (let e = vmm_get_page_flags root v s in if pte_present e then Some e else None)"

definition same_mappings :: "mm \<Rightarrow> mm \<Rightarrow> u64 \<Rightarrow> bool" where
  "same_mappings s s' root \<longleftrightarrow> (\<forall>v<USER_VA_LIMIT. vm_mapping s' root v = vm_mapping s root v)"

lemma same_leaves_mappings: "same_leaves s s' root \<Longrightarrow> same_mappings s s' root"
  by (simp add: same_mappings_def vm_mapping_def same_leaves_flags)

lemma leaf_mapping:
  assumes "\<And>q j. upath q \<Longrightarrow> length q = 3 \<Longrightarrow> j < 512 \<Longrightarrow>
    pte_present (vm_leaf s root q j) \<or> pte_present (vm_leaf s' root q j) \<Longrightarrow> vm_leaf s' root q j = vm_leaf s root q j"
  shows "same_mappings s s' root"
  unfolding same_mappings_def vm_mapping_def flags_leaf Let_def
proof (intro allI impI)
  fix v assume "v < USER_VA_LIMIT"
  then have "upath (upper v)" "length (upper v) = 3" "pt_idx v < 512"
    using upath_upper [of v "upper v"] by simp_all (simp add: upper_def)
  from assms [OF this] show "(if pte_present (vm_leaf s' root (upper v) (pt_idx v))
       then Some (vm_leaf s' root (upper v) (pt_idx v)) else None) =
      (if pte_present (vm_leaf s root (upper v) (pt_idx v)) then Some (vm_leaf s root (upper v) (pt_idx v)) else None)"
    by auto
qed

lemma set_leaf_mapping:
  assumes "vm_inv s root" "v < USER_VA_LIMIT" "w < USER_VA_LIMIT" "vm_walk s root (upper v) = Some pt"
  shows "vmm_get_page_flags root w (tab_set pt (pt_idx v) e s) =
    (if page_down w = page_down v then e else vmm_get_page_flags root w s)"
proof -
  have u: "upath (upper v)" "upath (upper w)" using upath_upper assms(2,3) by auto
  have len: "length (upper x) = 3" for x by (simp add: upper_def)
  have "upper w = upper v \<and> pt_idx w = pt_idx v \<longleftrightarrow> page_down w = page_down v"
  proof
    assume "page_down w = page_down v"
    moreover have "pml4_idx x = pml4_idx (page_down x)" "pdpt_idx x = pdpt_idx (page_down x)"
      "pd_idx x = pd_idx (page_down x)" "pt_idx x = pt_idx (page_down x)" for x
    proof -
      have "drop_bit k (page_down x) = drop_bit k x" if "12 \<le> k" for k
      proof -
        have "page_down x = x AND NOT (mask 12)" by (simp add: page_down_def mask_eq_exp_minus_1)
        then show ?thesis using that by (intro bit_eqI) (auto simp: bit_simps dest: bit_imp_le_length)
      qed
      then show "pml4_idx x = pml4_idx (page_down x)" "pdpt_idx x = pdpt_idx (page_down x)"
        "pd_idx x = pd_idx (page_down x)" "pt_idx x = pt_idx (page_down x)" by (simp_all add: idx_defs)
    qed
    ultimately show "upper w = upper v \<and> pt_idx w = pt_idx v" unfolding upper_def by metis
  qed (use same_idx_same_page [OF assms(3,2)] in simp)
  then show ?thesis
    unfolding flags_leaf using vm_set_leaf(2) [OF assms(1) u(1) len assms(4) idx_bounds(4) u(2) len idx_bounds(4)] by simp
qed

lemma vmm_map_page_ok:
  assumes inv: "vm_inv s root" and v: "virt < USER_VA_LIMIT" and map: "vmm_map_page root virt phys flags s = (r, s')"
  shows "vm_inv s' root \<and>
    (\<forall>w<USER_VA_LIMIT. page_down w \<noteq> page_down virt \<longrightarrow> vmm_get_page_flags root w s' = vmm_get_page_flags root w s) \<and>
    (r = 0 \<or> r = - 1 \<and> same_mappings s s' root) \<and>
    (r = 0 \<longrightarrow> vm_mapping s root virt = None \<and> vmm_get_page_flags root virt s' = pte_leaf phys flags \<and>
       (phys < 2 ^ 52 \<longrightarrow> vmm_get_page_phys root virt s' = phys) \<and>
       \<not> (pte_user (pte_leaf phys flags) \<and> pte_leaf phys flags AND PTE_WRITABLE \<noteq> 0 \<and>
          pte_leaf phys flags AND PTE_NO_EXECUTE = 0))"
  using inv v map
proof (cases rule: vmm_map_page_cases)
  case failed
  then show ?thesis using same_leaves_flags same_leaves_mappings by auto
next
  case (mapped pt s3)
  have u: "upath (upper virt)" "length (upper virt) = 3" using upath_upper [OF v] by (auto simp: upper_def)
  have "vm_inv s' root" unfolding mapped(6) by (rule vm_set_leaf(1) [OF mapped(2) u mapped(4)]) simp
  moreover have flags: "vmm_get_page_flags root w s' =
      (if page_down w = page_down virt then pte_leaf phys flags else vmm_get_page_flags root w s)" if "w < USER_VA_LIMIT" for w
    unfolding mapped(6) set_leaf_mapping [OF mapped(2) v that mapped(4)]
    using same_leaves_flags [OF mapped(3) that] by simp
  moreover have "vm_mapping s root virt = None"
    using mapped(4,5) same_leaves_flags [OF mapped(3) v] by (simp add: vm_mapping_def flags_leaf vm_leaf_def)
  moreover have "vmm_get_page_phys root virt s' = phys" if "phys < 2 ^ 52"
    using flags [OF v] that mapped(9) by (simp add: phys_leaf pte_leaf_simps phys_ok_def)
  moreover have "\<not> (pte_user (pte_leaf phys flags) \<and> pte_leaf phys flags AND PTE_WRITABLE \<noteq> 0 \<and>
      pte_leaf phys flags AND PTE_NO_EXECUTE = 0)"
    using mapped(7) flag_tests [of flags] flag_tests(2,3) [of "pte_leaf phys flags"]
    by (auto simp: pte_flags_allowed_def pte_bits pte_leaf_bits)
  ultimately show ?thesis using mapped(1) v by simp
qed

text \<open>
  C16. Mapping a page does what it says. In a consistent address space, \<open>vmm_map_page\<close> on a user address
  keeps the address space consistent and changes the translation of no other page. It returns 0 only
  if the page was unmapped; then the page translates to the given frame with the given flags, and it
  is not at once user-accessible, writable and executable. Otherwise it returns \<open>-1\<close> and, tables
  allocated on the way having been undone, no translation has changed at all.
\<close>

theorem vmm_map_page_correct:
  assumes inv: "vm_inv s root" and v: "virt < USER_VA_LIMIT" and map: "vmm_map_page root virt phys flags s = (r, s')"
  shows "vm_inv s' root \<and>
    (\<forall>w<USER_VA_LIMIT. page_down w \<noteq> page_down virt \<longrightarrow> vmm_get_page_flags root w s' = vmm_get_page_flags root w s) \<and>
    (r = 0 \<or> r = - 1 \<and> same_mappings s s' root) \<and>
    (r = 0 \<longrightarrow> vm_mapping s root virt = None \<and> vmm_get_page_flags root virt s' = pte_leaf phys flags \<and>
       (phys < 2 ^ 52 \<longrightarrow> vmm_get_page_phys root virt s' = phys) \<and>
       \<not> (pte_user (pte_leaf phys flags) \<and> pte_leaf phys flags AND PTE_WRITABLE \<noteq> 0 \<and>
          pte_leaf phys flags AND PTE_NO_EXECUTE = 0))"
  using assms by (rule vmm_map_page_ok)

subsection \<open>Unmapping a page\<close>

lemma table_empty_iff: "table_empty t s \<longleftrightarrow> (\<forall>i<512. \<not> pte_present (tab_get t i s))"
proof -
  have "\<exists>k<512. i = word_of_nat k" if "i < 512" for i :: u64
    using that by (intro exI [of _ "unat i"]) (simp add: word_less_nat_alt)
  moreover have "(word_of_nat k :: u64) < 512" if "k < 512" for k
    using that by (simp add: word_less_nat_alt unsigned_of_nat take_bit_nat_eq_self)
  ultimately show ?thesis unfolding table_empty_def by metis
qed

lemma vm_free_frame:
  assumes inv: "vm_inv s root" and f: "pmm_free_page x s = (r, s')"
    and x: "\<And>q t. upath q \<Longrightarrow> vm_walk s root q = Some t \<Longrightarrow> t \<noteq> x"
  shows "vm_inv s' root" and "\<And>q. vm_walk s' root q = vm_walk s root q" and "tab_get t j s' = tab_get t j s"
    and "r = 0 \<or> r = - 1"
proof -
  note p = pmm_free_page_props [OF vm_invD(1) [OF inv] f]
  show g: "tab_get t j s' = tab_get t j s" for t j using p(2) by (simp add: tab_get_def)
  show walk: "vm_walk s' root q = vm_walk s root q" for q by (rule vm_walk_cong) (simp add: vmm_table_def g)
  show "r = 0 \<or> r = - 1" by (rule p(7))
  have "page_aligned t \<and> t \<notin> pmm_free s'" if "upath q" "vm_walk s' root q = Some t" for q t
    using that walk x [OF that(1)] p(6) vm_invD(3,4) [OF inv that(1), of t] by simp
  moreover have "phys_limit s'" using p(3) vm_invD(2) [OF inv] by (simp add: phys_limit_def)
  ultimately show "vm_inv s' root" unfolding vm_inv_def walk g using p(1) vm_invD(5,6) [OF inv] by blast
qed

lemma vmm_prune_ok:
  assumes inv: "vm_inv s root" and p: "upath (p @ [i])" "vm_walk s root p = Some t" "vm_walk s root (p @ [i]) = Some sub"
    and empty: "table_empty sub s" and pr: "vmm_prune t i sub r s = (r', s')" and r: "r = 0 \<or> r = - 1"
  shows "vm_inv s' root" and "same_mappings s s' root" and "r' = 0 \<or> r' = - 1"
    and "upath q \<Longrightarrow> \<not> prefix (p @ [i]) q \<Longrightarrow> vm_walk s' root q = vm_walk s root q"
proof -
  obtain f where f: "pmm_free_page sub (tab_set t i 0 s) = (f, s')" and r': "r' = (if f \<noteq> 0 then - 1 else r)"
    using pr by (auto simp: vmm_prune_def case_prod_beta Let_def prod_eq_iff)
  note d = vm_drop_table [OF inv p f]
  show "vm_inv s' root" by (rule d(1))
  show "r' = 0 \<or> r' = - 1" using r r' by auto
  show "upath q \<Longrightarrow> \<not> prefix (p @ [i]) q \<Longrightarrow> vm_walk s' root q = vm_walk s root q" using d(3) by simp
  have none: "\<not> pte_present (vm_leaf s root q j)" if q: "upath q" "length q = 3" "j < 512" "prefix (p @ [i]) q" for q j
  proof (cases "q = p @ [i]")
    case True
    then show ?thesis using p(3) empty q(3) by (simp add: vm_leaf_def table_empty_iff)
  next
    case False
    then obtain k q' where k: "q = (p @ [i]) @ k # q'" using q(4) by (metis neq_Nil_conv prefixE append_Nil2)
    then have "k < 512" using q(1) by (simp add: upath_def)
    then have "vm_walk s root ((p @ [i]) @ [k]) = None"
      unfolding vm_walk_snoc [of s root "p @ [i]" k] p(3) using empty by (simp add: table_empty_iff vmm_table_def)
    then have "vm_leaf s root q j = 0" by (rule no_table_no_leaf) (simp add: k)
    then show ?thesis by (simp add: pte_present_def)
  qed
  show "same_mappings s s' root"
    by (rule leaf_mapping) (use d(4) none in \<open>auto simp: pte_present_def split: if_splits\<close>)
qed

lemma same_mappings_trans: "same_mappings s s' root \<Longrightarrow> same_mappings s' s'' root \<Longrightarrow> same_mappings s s'' root"
  by (simp add: same_mappings_def)

lemma walk_upper:
  "vm_walk s root [pml4_idx v] = vmm_table root (pml4_idx v) s"
  "vm_walk s root [pml4_idx v] = Some pdpt \<Longrightarrow> vm_walk s root [pml4_idx v, pdpt_idx v] = vmm_table pdpt (pdpt_idx v) s"
  "vm_walk s root [pml4_idx v, pdpt_idx v] = Some pd \<Longrightarrow> vm_walk s root (upper v) = vmm_table pd (pd_idx v) s"
  using vm_walk_snoc [of s root "[]"] vm_walk_snoc [of s root "[pml4_idx v]"] vm_walk_snoc [of s root "[pml4_idx v, pdpt_idx v]"]
  by (simp_all add: upper_def)

text \<open>The pruning cascade after the last-level entry was cleared.\<close>

lemma vmm_unmap_prune:
  assumes inv: "vm_inv s root" and v: "virt < USER_VA_LIMIT" and r1: "r1 = 0 \<or> r1 = - 1"
    and w: "vm_walk s root [pml4_idx virt] = Some pdpt" "vm_walk s root [pml4_idx virt, pdpt_idx virt] = Some pd"
      "vm_walk s root (upper virt) = Some pt"
    and res: "(r, s') = (if \<not> table_empty pt s then (r1, s)
           else
             let (r2, s3) = vmm_prune pd (pd_idx virt) pt r1 s in
             if \<not> table_empty pd s3 then (r2, s3)
             else
               let (r3, s4) = vmm_prune pdpt (pdpt_idx virt) pd r2 s3 in
               if pml4_idx virt < 256 \<and> table_empty pdpt s4
               then vmm_prune root (pml4_idx virt) pdpt r3 s4
               else (r3, s4))"
  shows "vm_inv s' root" and "same_mappings s s' root" and "r = 0 \<or> r = - 1"
proof -
  let ?i4 = "pml4_idx virt" and ?i3 = "pdpt_idx virt" and ?i2 = "pd_idx virt"
  have u: "upath [?i4]" "upath [?i4, ?i3]" "upath [?i4, ?i3, ?i2]" "upath []"
    by (rule upath_upper [OF v], simp add: upper_def)+
  have "vm_inv s' root \<and> same_mappings s s' root \<and> (r = 0 \<or> r = - 1)"
  proof (cases "table_empty pt s")
    case False
    then show ?thesis using res inv r1 by (simp add: same_mappings_def)
  next
    case True
    obtain r2 s3 where p1: "vmm_prune pd ?i2 pt r1 s = (r2, s3)" by (cases "vmm_prune pd ?i2 pt r1 s")
    note k1 = vmm_prune_ok [where p = "[?i4, ?i3]" and i = ?i2, simplified append.simps, OF inv u(3) w(2) w(3) [unfolded upper_def] True p1 r1]
    show ?thesis
    proof (cases "table_empty pd s3")
      case False
      then show ?thesis using res True p1 k1 by simp
    next
      case True2: True
      have w3: "vm_walk s3 root [?i4] = Some pdpt" "vm_walk s3 root [?i4, ?i3] = Some pd"
        using k1(4) [OF u(1)] k1(4) [OF u(2)] w by simp_all
      obtain r3 s4 where p2: "vmm_prune pdpt ?i3 pd r2 s3 = (r3, s4)" by (cases "vmm_prune pdpt ?i3 pd r2 s3")
      note k2 = vmm_prune_ok [where p = "[?i4]" and i = ?i3, simplified append.simps, OF k1(1) u(2) w3 True2 p2 k1(3)]
      have m2: "same_mappings s s4 root" using k1(2) k2(2) by (rule same_mappings_trans)
      show ?thesis
      proof (cases "table_empty pdpt s4")
        case False
        then show ?thesis using res True p1 True2 p2 k2 m2 by simp
      next
        case True3: True
        have w4: "vm_walk s4 root [?i4] = Some pdpt" using k2(4) [OF u(1)] w3 by simp
        have p3: "vmm_prune root ?i4 pdpt r3 s4 = (r, s')"
          using res True p1 True2 p2 True3 pml4_idx_user [OF v] by simp
        note k3 = vmm_prune_ok [where p = "[]" and i = ?i4, simplified append.simps, OF k2(1) u(1) vm_walk.simps(1) w4 True3 p3 k2(3)]
        show ?thesis using k3 m2 same_mappings_trans by blast
      qed
    qed
  qed
  then show "vm_inv s' root" "same_mappings s s' root" "r = 0 \<or> r = - 1" by blast+
qed

lemma vmm_unmap_page_ok:
  assumes inv: "vm_inv s root" and v: "virt < USER_VA_LIMIT"
    and frame: "\<And>q t. upath q \<Longrightarrow> vm_walk s root q = Some t \<Longrightarrow> free_phys \<Longrightarrow> t \<noteq> vmm_get_page_phys root virt s"
    and unmap: "vmm_unmap_page root virt free_phys s = (r, s')"
  shows "vm_inv s' root \<and> (r = 0 \<or> r = - 1) \<and>
    (if root = 0 \<or> \<not> page_aligned virt \<or> vm_mapping s root virt = None then r = - 1 \<and> s' = s
     else \<forall>w<USER_VA_LIMIT. vm_mapping s' root w = (if page_down w = page_down virt then None else vm_mapping s root w))"
proof (cases "root = 0 \<or> \<not> page_aligned virt \<or> vm_mapping s root virt = None")
  case True
  then have "r = - 1 \<and> s' = s" using unmap walk_upper [of s root virt]
    by (auto simp: vmm_unmap_page_def page_aligned_def vm_mapping_def flags_leaf vm_leaf_def Let_def
        split: if_splits option.splits)
  with True inv show ?thesis by auto
next
  case False
  let ?i4 = "pml4_idx virt" and ?i3 = "pdpt_idx virt" and ?i2 = "pd_idx virt" and ?i1 = "pt_idx virt"
  have u: "upath [?i4]" "upath [?i4, ?i3]" "upath (upper virt)" "length (upper virt) = 3"
    by (rule upath_upper [OF v], simp add: upper_def)+ (simp add: upper_def)
  obtain pt where pt: "vm_walk s root (upper virt) = Some pt" "pte_present (tab_get pt ?i1 s)"
    using False by (auto simp: vm_mapping_def flags_leaf vm_leaf_def Let_def pte_present_def split: if_splits option.splits)
  obtain pdpt where w1: "vm_walk s root [?i4] = Some pdpt"
    using vm_walk_prefix [of "[?i4]" "upper virt" s root] pt by (cases "vm_walk s root [?i4]") (auto simp: upper_def)
  obtain pd where w2: "vm_walk s root [?i4, ?i3] = Some pd"
    using vm_walk_prefix [of "[?i4, ?i3]" "upper virt" s root] pt by (cases "vm_walk s root [?i4, ?i3]") (auto simp: upper_def)
  have t: "vmm_table root ?i4 s = Some pdpt" "vmm_table pdpt ?i3 s = Some pd" "vmm_table pd ?i2 s = Some pt"
    using walk_upper(1) [of s root virt] walk_upper(2) [OF w1] walk_upper(3) [OF w2] w1 w2 pt(1) by simp_all
  define s1 where "s1 = tab_set pt ?i1 0 s"
  obtain r1 s2 where f: "(if free_phys then pmm_free_page (pte_addr (tab_get pt ?i1 s)) s1 else (0, s1)) = (r1, s2)"
    by (metis prod.exhaust)
  note leaf = vm_set_leaf [OF inv u(3,4) pt(1) idx_bounds(4) [of virt], where v = 0, folded s1_def]
  have phys: "vmm_get_page_phys root virt s = pte_addr (tab_get pt ?i1 s)"
    using pt by (simp add: phys_leaf flags_leaf vm_leaf_def)
  have two: "vm_inv s2 root \<and> (r1 = 0 \<or> r1 = - 1) \<and> (\<forall>q. vm_walk s2 root q = vm_walk s1 root q) \<and>
      (\<forall>t j. tab_get t j s2 = tab_get t j s1)"
  proof (cases free_phys)
    case True
    then have "pmm_free_page (pte_addr (tab_get pt ?i1 s)) s1 = (r1, s2)" using f by simp
    from vm_free_frame [OF leaf(1) this] frame [OF _ _ True] phys leaf(3) show ?thesis by auto
  next
    case False
    then show ?thesis using f leaf(1) by auto
  qed
  have m1: "vm_mapping s2 root w = (if page_down w = page_down virt then None else vm_mapping s root w)"
    if "w < USER_VA_LIMIT" for w
  proof -
    have "vmm_get_page_flags root w s2 = vmm_get_page_flags root w s1" 
      using two by (auto simp: flags_leaf vm_leaf_def split: option.splits)
    then show ?thesis
      unfolding vm_mapping_def s1_def using set_leaf_mapping [OF inv v that pt(1), of 0] by (simp add: pte_present_def)
  qed
  have w': "vm_walk s2 root [?i4] = Some pdpt" "vm_walk s2 root [?i4, ?i3] = Some pd" "vm_walk s2 root (upper virt) = Some pt"
    using two leaf(3) u w1 w2 pt(1) by simp_all
  have guard: "\<not> (root = 0 \<or> virt AND (PAGE_SIZE - 1) \<noteq> 0)" using False by (simp add: page_aligned_def)
  have "(r, s') = (if \<not> table_empty pt s2 then (r1, s2)
           else
             let (r2, s3) = vmm_prune pd (pd_idx virt) pt r1 s2 in
             if \<not> table_empty pd s3 then (r2, s3)
             else
               let (r3, s4) = vmm_prune pdpt (pdpt_idx virt) pd r2 s3 in
               if pml4_idx virt < 256 \<and> table_empty pdpt s4
               then vmm_prune root (pml4_idx virt) pdpt r3 s4
               else (r3, s4))"
    using unmap unfolding vmm_unmap_page_def if_not_P [OF guard]
    by (simp only: t option.case Let_def pt(2) not_True_eq_False if_False f [unfolded s1_def] prod.case)
  from vmm_unmap_prune [OF _ v _ w' this] two have "vm_inv s' root" "same_mappings s2 s' root" "r = 0 \<or> r = - 1" by blast+
  with False m1 show ?thesis by (auto simp: same_mappings_def)
qed


subsection \<open>Creating an address space\<close>

lemma vm_inv_fresh:
  assumes "pmm_inv s" "phys_limit s" "page_aligned root" "root \<notin> pmm_free s"
    and zero: "\<And>i. i < 256 \<Longrightarrow> tab_get root i s = 0"
  shows "vm_inv s root" and "v < USER_VA_LIMIT \<Longrightarrow> vm_mapping s root v = None"
proof -
  have none: "vm_walk s root p = None" if "upath p" "p \<noteq> []" for p
    using that zero [of "hd p"] by (cases p) (auto simp: upath_def vm_walk.simps vmm_table_def pte_present_def)
  have only: "p = [] \<and> t = root" if "upath p" "vm_walk s root p = Some t" for p t
    using that none by (cases "p = []") auto
  have huge: "\<not> pte_present (tab_get t i s)" if "upath (p @ [i])" "vm_walk s root p = Some t" for p i t
  proof -
    have "p = []" "t = root" using only [OF _ that(2)] upath_snocD [OF that(1)] by auto
    then show ?thesis using that(1) zero [of i] by (simp add: upath_def pte_present_def)
  qed
  show "vm_inv s root" unfolding vm_inv_def using assms only huge by blast
  show "vm_mapping s root v = None" if "v < USER_VA_LIMIT"
    using none [OF upath_upper [OF that]] by (simp add: vm_mapping_def flags_leaf vm_leaf_def pte_present_def upper_def)
qed

lemma word_of_nat_512:
  assumes "k < 512"
  shows "(word_of_nat k :: u64) < 512" and "j < 512 \<Longrightarrow> word_of_nat k = (j :: u64) \<longleftrightarrow> k = unat j"
proof -
  have k: "unat (word_of_nat k :: u64) = k" using assms by (simp add: unsigned_of_nat take_bit_nat_eq_self)
  show "(word_of_nat k :: u64) < 512" using assms k by (simp add: word_less_nat_alt)
  show "word_of_nat k = j \<longleftrightarrow> k = unat j" if "j < 512" using k by (auto simp: word_unat_eq_iff)
qed

lemma fold_tab_zero:
  assumes "page_aligned t" "page_aligned u" "j < 512" "\<forall>i \<in> set is. i < 512"
  shows "tab_get u j (fold (\<lambda>i. tab_set t (word_of_nat i) 0) is s) = (if u = t \<and> unat j \<in> set is then 0 else tab_get u j s)"
  using assms(4)
proof (induction "is" arbitrary: s)
  case (Cons i "is")
  have i: "i < 512" using Cons.prems by simp
  show ?case
    using Cons tab_get_set [OF assms(2,1,3) word_of_nat_512(1) [OF i], of 0 s] word_of_nat_512(2) [OF i assms(3)] by auto
qed simp

lemma fold_tab_copy:
  assumes "page_aligned t" "page_aligned u" "page_aligned k" "k \<noteq> t" "j < 512" "\<forall>i \<in> set is. i < 512"
    and "g_kernel_pml4_phys s = k"
  shows "tab_get u j (fold (\<lambda>i s. tab_set t (word_of_nat i) (tab_get (g_kernel_pml4_phys s) (word_of_nat i) s) s) is s) =
    (if u = t \<and> unat j \<in> set is then tab_get k j s else tab_get u j s)"
  using assms(6,7)
proof (induction "is" arbitrary: s)
  case (Cons i "is")
  have i: "i < 512" using Cons.prems by simp
  let ?s = "tab_set t (word_of_nat i) (tab_get k (word_of_nat i) s) s"
  have g: "tab_get x j ?s = (if x = t \<and> unat j = i then tab_get k j s else tab_get x j s)" if "page_aligned x" for x
    using tab_get_set [OF that assms(1,5) word_of_nat_512(1) [OF i], of _ s] word_of_nat_512(2) [OF i assms(5)] by auto
  have "g_kernel_pml4_phys ?s = k" using Cons.prems by simp
  from Cons.IH [OF _ this] Cons.prems show ?case
    using g [OF assms(2)] g [OF assms(3)] assms(4) by auto
qed simp

lemma fold_mem_only:
  assumes "\<And>s i. g_regions (f i s) = g_regions s \<and> pmm_inv (f i s) = pmm_inv s \<and> pmm_free (f i s) = pmm_free s \<and>
    g_kernel_pml4_phys (f i s) = g_kernel_pml4_phys s"
  shows "g_regions (fold f is s) = g_regions s" "pmm_inv (fold f is s) = pmm_inv s" "pmm_free (fold f is s) = pmm_free s"
    "g_kernel_pml4_phys (fold f is s) = g_kernel_pml4_phys s"
  by (induction "is" arbitrary: s) (simp_all add: assms)

lemma copy_kernel_half_ok:
  assumes "page_aligned root" "page_aligned (g_kernel_pml4_phys s)" "g_kernel_pml4_phys s \<noteq> root"
  shows "page_aligned u \<Longrightarrow> j < 512 \<Longrightarrow> tab_get u j (copy_kernel_half root s) =
      (if u = root then if j < 256 then 0 else tab_get (g_kernel_pml4_phys s) j s else tab_get u j s)"
    and "g_regions (copy_kernel_half root s) = g_regions s" "pmm_inv (copy_kernel_half root s) = pmm_inv s"
    "pmm_free (copy_kernel_half root s) = pmm_free s"
proof -
  define s1 where "s1 = fold (\<lambda>i. tab_set root (word_of_nat i) 0) [0..<256] s"
  have k: "g_kernel_pml4_phys s1 = g_kernel_pml4_phys s" unfolding s1_def by (rule fold_mem_only) simp
  show "g_regions (copy_kernel_half root s) = g_regions s" "pmm_inv (copy_kernel_half root s) = pmm_inv s"
    "pmm_free (copy_kernel_half root s) = pmm_free s"
    unfolding copy_kernel_half_def by (simp_all add: fold_mem_only del: upt_rec_numeral)
  show "tab_get u j (copy_kernel_half root s) =
      (if u = root then if j < 256 then 0 else tab_get (g_kernel_pml4_phys s) j s else tab_get u j s)"
    if u: "page_aligned u" "j < 512"
  proof -
    have "unat j < 512" "unat j < 256 \<longleftrightarrow> j < 256" using u(2) by (simp_all add: word_less_nat_alt)
    moreover have "tab_get x j s1 = (if x = root \<and> unat j < 256 then 0 else tab_get x j s)" if "page_aligned x" for x
      unfolding s1_def using fold_tab_zero [OF assms(1) that u(2), of "[0..<256]"] by (simp del: upt_rec_numeral)
    moreover have "tab_get u j (copy_kernel_half root s) =
        (if u = root \<and> unat j \<in> set [256..<512] then tab_get (g_kernel_pml4_phys s) j s1 else tab_get u j s1)"
      unfolding copy_kernel_half_def s1_def [symmetric]
      by (rule fold_tab_copy [OF assms(1) u(1) assms(2,3) u(2) _ k]) (simp del: upt_rec_numeral)
    ultimately show ?thesis using u(1) assms(1-3) by (auto simp del: upt_rec_numeral)
  qed
qed

text \<open>
  C18. A new address space maps nothing and shares the kernel. If \<open>vmm_create_user_pml4\<close> succeeds, the new root
  is a page that was free and is not free any more, it is a consistent user address space in which no
  user address is mapped, its upper half equals the kernel's entry by entry, and no other page of
  memory was changed; a failure changes no memory.
\<close>

theorem vmm_create_user_pml4_correct:
  assumes inv: "pmm_inv s" and lim: "phys_limit s"
    and kernel: "page_aligned (g_kernel_pml4_phys s)" "g_kernel_pml4_phys s \<notin> pmm_free s"
    and create: "vmm_create_user_pml4 s = (root, s')"
  shows "if root = 0 then phys_mem s' = phys_mem s
    else root \<in> pmm_free s \<and> root \<notin> pmm_free s' \<and> vm_inv s' root \<and>
      (\<forall>v<USER_VA_LIMIT. vm_mapping s' root v = None) \<and>
      (\<forall>i<512. 256 \<le> i \<longrightarrow> tab_get root i s' = tab_get (g_kernel_pml4_phys s) i s) \<and>
      (\<forall>t i. page_aligned t \<and> t \<noteq> root \<and> i < 512 \<longrightarrow> tab_get t i s' = tab_get t i s)"
proof -
  obtain s1 where al: "pmm_alloc_page s = (root, s1)" and s': "s' = (if root = 0 then s1 else copy_kernel_half root s1)"
    using create by (auto simp: vmm_create_user_pml4_def split: prod.splits if_splits)
  note a = pmm_alloc_page_props [OF inv lim al]
  show ?thesis
  proof (cases "root = 0")
    case True
    have "pmm_alloc_pages 1 s = (0, s1)" using al True by (simp add: pmm_alloc_page_def)
    then have "phys_mem s1 = phys_mem s" by (cases rule: pmm_alloc_pages_cases) simp_all
    then show ?thesis using True s' by simp
  next
    case False
    have root: "page_aligned root" "root \<in> pmm_free s" "root \<notin> pmm_free s1" "g_kernel_pml4_phys s \<noteq> root"
      using a(6) [OF False] kernel(2) by (auto simp: phys_ok_def)
    have k: "page_aligned (g_kernel_pml4_phys s1)" "g_kernel_pml4_phys s1 \<noteq> root" using a(4) kernel(1) root(4) by simp_all
    note c = copy_kernel_half_ok [OF root(1) k]
    have s2: "s' = copy_kernel_half root s1" using s' False by simp
    have zero: "tab_get root i s' = 0" if "i < 256" for i
      using c(1) [OF root(1), of i] that by (simp add: s2 word_less_nat_alt)
    have fresh: "vm_inv s' root" "v < USER_VA_LIMIT \<Longrightarrow> vm_mapping s' root v = None" for v
      using vm_inv_fresh [OF _ _ root(1) _ zero] a(1,2) root(3) by (simp_all add: s2 c(2-4) phys_limit_def)
    have upper: "tab_get root i s' = tab_get (g_kernel_pml4_phys s) i s" if "i < 512" "256 \<le> i" for i
      using c(1) [OF root(1) that(1)] that(2) [folded not_less] a(7) [OF kernel(1) that(1)] root(4) a(4) by (simp add: s2)
    have "tab_get t i s' = tab_get t i s" if "page_aligned t" "t \<noteq> root" "i < 512" for t i
      using c(1) [OF that(1,3)] that(2) a(7) [OF that(1,3)] by (simp add: s2)
    then show ?thesis using False fresh upper root(2,3) by (simp add: s2 c(4))
  qed
qed

subsection \<open>An example address space\<close>

text \<open>The example memory with its first page taken as an empty root.\<close>

definition vm_example :: mm where
  "vm_example = snd (pmm_alloc_page mm_example)"

lemma mm_example_limit: "phys_limit mm_example"
  by (simp add: phys_limit_def mm_example_simps)

lemma mm_example_more: "g_kernel_pml4_phys mm_example = 0" "phys_mem mm_example = (\<lambda>_. 0)"
  "g_peak_allocated_bytes mm_example = 0" "g_allocation_count mm_example = 0" "cpu_cr3 mm_example = 0"
  by (simp_all add: mm_example_def pmm_init_def mm_zero_def case_prod_beta Let_def)

lemma vm_example_alloc: "pmm_alloc_page mm_example = (0x100000, vm_example)"
  by (simp add: vm_example_def prod_eq_iff)
     (simp add: pmm_alloc_page_def pmm_alloc_pages_def mm_example_simps PMM_MAX_PAGES_def)

lemma vm_example_fields:
  "g_regions vm_example = [\<lparr>r_base = 0x100000, r_end = 0x200000\<rparr>]"
  "g_free_ranges vm_example = [\<lparr>r_base = 0x101000, r_end = 0x200000\<rparr>]"
  "g_kernel_pml4_phys vm_example = 0" "phys_mem vm_example = (\<lambda>_. 0)"
  "g_allocated_bytes vm_example = 0x1000" "g_peak_allocated_bytes vm_example = 0x1000" "g_allocation_count vm_example = 1"
  "cpu_cr3 vm_example = 0"
  by (simp_all add: Let_def vm_example_def pmm_alloc_page_def pmm_alloc_pages_def mm_example_simps mm_example_more
      PMM_MAX_PAGES_def zero_words_def)

lemma vm_example_inv: "vm_inv vm_example 0x100000"
proof (rule vm_inv_fresh)
  note a = pmm_alloc_page_props [OF mm_example_simps(4) mm_example_limit vm_example_alloc]
  show "pmm_inv vm_example" "phys_limit vm_example" "0x100000 \<notin> pmm_free vm_example" using a(1,2,6) by simp_all
  show "page_aligned 0x100000" by (simp add: page_aligned_def)
  show "tab_get 0x100000 i vm_example = 0" for i by (simp add: tab_get_def vm_example_fields)
qed

lemma vm_example_map: "fst (vmm_map_page 0x100000 0x400000 0x1F0000 0x8000000000000006 vm_example) = 0"
  by (simp add: Let_def vmm_map_page_def vmm_ensure_def pte_flags_allowed_def pmm_alloc_page_def pmm_alloc_pages_def vm_example_fields
      tab_get_def tab_set_def idx_defs pte_present_def PMM_MAX_PAGES_def zero_words_def pte_addr_def)

text \<open>The example after mapping one page.\<close>

definition vm_example_mapped :: mm where
  "vm_example_mapped = snd (vmm_map_page 0x100000 0x400000 0x1F0000 0x8000000000000006 vm_example)"

lemma vm_example_map_eq:
  "vmm_map_page 0x100000 0x400000 0x1F0000 0x8000000000000006 vm_example = (0, vm_example_mapped)"
  by (simp add: vm_example_mapped_def vm_example_map prod_eq_iff)

theorem vmm_map_page_correct_witness:
  "vm_inv vm_example_mapped 0x100000 \<and> vmm_get_page_phys 0x100000 0x400000 vm_example_mapped = 0x1F0000 \<and>
   vmm_get_page_flags 0x100000 0x5000 vm_example_mapped = vmm_get_page_flags 0x100000 0x5000 vm_example"
  using vmm_map_page_correct [OF vm_example_inv _ vm_example_map_eq] by (simp add: page_down_def)

lemma vm_example_mapped_facts:
  "vm_inv vm_example_mapped 0x100000" "vm_mapping vm_example_mapped 0x100000 0x400000 \<noteq> None"
  using vmm_map_page_ok [OF vm_example_inv _ vm_example_map_eq] by (simp_all add: vm_mapping_def pte_leaf_simps)


theorem vmm_create_user_pml4_correct_witness:
  "fst (vmm_create_user_pml4 mm_example) = 0x100000 \<and>
   vm_mapping (snd (vmm_create_user_pml4 mm_example)) 0x100000 0x400000 = None"
proof -
  have c: "vmm_create_user_pml4 mm_example = (0x100000, snd (vmm_create_user_pml4 mm_example))"
    by (simp add: prod_eq_iff) (simp add: vmm_create_user_pml4_def vm_example_alloc)
  have "page_aligned (g_kernel_pml4_phys mm_example)" "g_kernel_pml4_phys mm_example \<notin> pmm_free mm_example"
    by (simp_all add: mm_example_more mm_example_simps page_aligned_def pmm_free_def range_set_def)
  from vmm_create_user_pml4_correct [OF mm_example_simps(4) mm_example_limit this c] c show ?thesis
    by (simp add: prod_eq_iff)
qed

end
