(* ===== verification/User_Memory.thy ===== *)
theory User_Memory
  imports Address_Space
begin

text \<open>
  The checked access of the kernel to user memory: the range check against what the processor would
  allow, and the exactness of the copies in both directions.
\<close>

subsection \<open>Checked ranges\<close>

text \<open>What the processor checks for a user access to one address: present and user at every level, no large
  page, and in the last entry the writable bit for a write and no execute-disable bit for a fetch.\<close>

definition user_can :: "mm \<Rightarrow> u64 \<Rightarrow> u64 \<Rightarrow> u64 \<Rightarrow> bool" where
  "user_can s cr3 access a \<longleftrightarrow>
     (let e1 = tab_get cr3 (pml4_idx a) s;
          e2 = tab_get (pte_addr e1) (pdpt_idx a) s;
          e3 = tab_get (pte_addr e2) (pd_idx a) s;
          e4 = tab_get (pte_addr e3) (pt_idx a) s
      in (\<forall>e \<in> {e1, e2, e3}. bit e 0 \<and> bit e 2 \<and> \<not> bit e 7) \<and> bit e4 0 \<and> bit e4 2 \<and>
         (bit access 1 \<longrightarrow> bit e4 1) \<and> (bit access 2 \<longrightarrow> \<not> bit e4 63))"

lemma user_page_ok_iff: "user_page_ok cr3 page access s \<longleftrightarrow> user_can s cr3 access page"
proof -
  define e1 where "e1 = tab_get cr3 (pml4_idx page) s"
  define e2 where "e2 = tab_get (pte_addr e1) (pdpt_idx page) s"
  define e3 where "e3 = tab_get (pte_addr e2) (pd_idx page) s"
  define e4 where "e4 = tab_get (pte_addr e3) (pt_idx page) s"
  define good where "good = (\<lambda>e :: u64. bit e 0 \<and> bit e 2 \<and> \<not> bit e 7)"
  note es = e1_def [symmetric] e2_def [symmetric] e3_def [symmetric] e4_def [symmetric]
  have ut: "user_table t i s = (if good (tab_get t i s) then Some (pte_addr (tab_get t i s)) else None)" for t i
    by (auto simp: user_table_def Let_def pte_bits good_def)
  have vt: "good (tab_get t i s) \<Longrightarrow> vmm_table t i s = Some (pte_addr (tab_get t i s))" for t i
    by (auto simp: vmm_table_def Let_def pte_bits good_def)
  have fl: "vmm_get_page_flags cr3 page s = e4" if "good e1" "good e2" "good e3"
    using that unfolding vmm_get_page_flags_def vmm_get_pt_def
    by (simp add: vt es)
  have tests: "access AND USER_ACCESS_WRITE = 0 \<longleftrightarrow> \<not> bit access 1" "access AND USER_ACCESS_EXEC = 0 \<longleftrightarrow> \<not> bit access 2"
    "e4 AND PTE_WRITABLE = 0 \<longleftrightarrow> \<not> bit e4 1" "e4 AND PTE_NO_EXECUTE = 0 \<longleftrightarrow> \<not> bit e4 63"
    using flag_tests(1,2) [of access] flag_tests(2,3) [of e4] by blast+
  have can: "user_can s cr3 access page \<longleftrightarrow> good e1 \<and> good e2 \<and> good e3 \<and> bit e4 0 \<and> bit e4 2 \<and>
      (bit access 1 \<longrightarrow> bit e4 1) \<and> (bit access 2 \<longrightarrow> \<not> bit e4 63)"
    unfolding user_can_def Let_def es good_def by blast
  show ?thesis
    unfolding user_page_ok_def ut es can
    by (cases "good e1"; cases "good e2"; cases "good e3") (simp_all add: es fl tests pte_bits Let_def, blast?)
qed

lemma drop_bit_page_down: "12 \<le> k \<Longrightarrow> drop_bit k (page_down x) = drop_bit k x"
proof -
  assume "12 \<le> k"
  moreover have "page_down x = x AND NOT (mask 12)" by (simp add: page_down_def mask_eq_exp_minus_1)
  ultimately show ?thesis by (intro bit_eqI) (auto simp: bit_simps dest: bit_imp_le_length)
qed

lemma idx_page_down [simp]:
  "pml4_idx (page_down x) = pml4_idx x" "pdpt_idx (page_down x) = pdpt_idx x"
  "pd_idx (page_down x) = pd_idx x" "pt_idx (page_down x) = pt_idx x"
  by (simp_all add: idx_defs drop_bit_page_down)

lemma user_can_page_down: "user_can s cr3 access (page_down a) = user_can s cr3 access a"
  by (simp add: user_can_def)

lemma flags_page_down: "vmm_get_page_flags root (page_down a) s = vmm_get_page_flags root a s"
  by (simp add: flags_leaf upper_def)

lemma phys_page_down: "vmm_get_page_phys root (page_down a) s = vmm_get_page_phys root a s"
  by (simp add: phys_leaf flags_page_down)

lemma user_pages_ok_iff:
  "user_pages_ok n cr3 page access s \<longleftrightarrow> (\<forall>k\<le>n. user_can s cr3 access (page + word_of_nat k * PAGE_SIZE))"
proof (induction n arbitrary: page)
  case 0
  then show ?case by (simp add: user_page_ok_iff)
next
  case (Suc n)
  have shift: "page + PAGE_SIZE + word_of_nat k * PAGE_SIZE = page + word_of_nat (Suc k) * PAGE_SIZE" for k
    by (simp add: algebra_simps)
  have "(\<forall>k\<le>Suc n. user_can s cr3 access (page + word_of_nat k * PAGE_SIZE)) \<longleftrightarrow>
      user_can s cr3 access page \<and> (\<forall>k\<le>n. user_can s cr3 access (page + word_of_nat (Suc k) * PAGE_SIZE))"
    by (auto simp del: of_nat_Suc) (metis Suc_le_mono add.right_neutral mult_zero_left not0_implies_Suc of_nat_0)
  then show ?case by (simp add: user_page_ok_iff Suc.IH shift del: of_nat_Suc)
qed

lemma page_down_range:
  assumes "unat addr + unat sz \<le> 2 ^ 47" and "sz \<noteq> 0"
  defines "n \<equiv> unat ((page_down (addr + sz - 1) - page_down addr) div PAGE_SIZE)"
  shows "{page_down a | a. addr \<le> a \<and> unat a < unat addr + unat sz} = {page_down addr + word_of_nat k * PAGE_SIZE | k. k \<le> n}"
proof -
  let ?A = "unat addr" and ?S = "unat sz"
  have S: "0 < ?S" using assms(2) by (simp add: unat_gt_0)
  have "unat (addr + sz) = ?A + ?S" using assms(1) by (simp add: unat_word_ariths)
  then have last: "unat (addr + sz - 1) = ?A + ?S - 1"
    using S by (subst unat_sub) (simp_all add: word_le_nat_alt)
  have pd: "unat (page_down x) = 4096 * (unat x div 4096)" for x
    by (simp add: unat_page_down minus_mod_eq_mult_div)
  have mono: "?A div 4096 \<le> (?A + ?S - 1) div 4096" using S by (intro div_le_mono) simp
  have n: "n = (?A + ?S - 1) div 4096 - ?A div 4096"
  proof -
    have "page_down addr \<le> page_down (addr + sz - 1)"
      using mono by (simp add: word_le_nat_alt pd last)
    then have "unat (page_down (addr + sz - 1) - page_down addr) = 4096 * ((?A + ?S - 1) div 4096) - 4096 * (?A div 4096)"
      by (simp add: unat_sub pd last)
    then show ?thesis unfolding n_def by (simp add: unat_div diff_mult_distrib2 [symmetric])
  qed
  have page: "unat (page_down addr + word_of_nat k * PAGE_SIZE) = 4096 * (?A div 4096 + k)" if "k \<le> n" for k
  proof -
    have "?A div 4096 + k \<le> (?A + ?S - 1) div 4096" using that n mono by linarith
    then have le: "4096 * (?A div 4096 + k) \<le> ?A + ?S - 1"
      by (rule order.trans [OF mult_le_mono2 times_div_less_eq_dividend])
    then have "4096 * k < 2 ^ 64" "4096 * (?A div 4096) + 4096 * k < 2 ^ 64" using assms(1) by simp_all
    then show ?thesis by (simp add: unat_word_ariths pd unsigned_of_nat take_bit_nat_eq_self mult.commute distrib_left)
  qed
  show ?thesis
  proof (intro set_eqI iffI)
    fix x assume "x \<in> {page_down a | a. addr \<le> a \<and> unat a < ?A + ?S}"
    then obtain a where a: "x = page_down a" "addr \<le> a" "unat a < ?A + ?S" by blast
    let ?k = "unat a div 4096 - ?A div 4096"
    have lo: "?A div 4096 \<le> unat a div 4096" using a(2) by (intro div_le_mono) (simp add: word_le_nat_alt)
    have k: "?k \<le> n" unfolding n using a(3) by (intro diff_le_mono div_le_mono) simp
    have "unat x = unat (page_down addr + word_of_nat ?k * PAGE_SIZE)"
      using page [OF k] lo by (simp add: a(1) pd)
    then show "x \<in> {page_down addr + word_of_nat k * PAGE_SIZE | k. k \<le> n}" using k by (auto simp: word_unat_eq_iff)
  next
    fix x assume "x \<in> {page_down addr + word_of_nat k * PAGE_SIZE | k. k \<le> n}"
    then obtain k where k: "x = page_down addr + word_of_nat k * PAGE_SIZE" "k \<le> n" by blast
    show "x \<in> {page_down a | a. addr \<le> a \<and> unat a < ?A + ?S}"
    proof (cases k)
      case 0
      then have "x = page_down addr" using k by simp
      then show ?thesis using S by auto
    next
      case (Suc k')
      have x: "unat x = 4096 * (?A div 4096 + k)" using page [OF k(2)] k(1) by simp
      have "?A < 4096 * (?A div 4096 + k)" using Suc dividend_less_times_div [of 4096 ?A] by simp
      moreover have "?A div 4096 + k \<le> (?A + ?S - 1) div 4096" using k(2) n mono by linarith
      then have "4096 * (?A div 4096 + k) \<le> ?A + ?S - 1"
        by (rule order.trans [OF mult_le_mono2 times_div_less_eq_dividend])
      moreover have "page_down x = x" by (simp add: word_unat_eq_iff pd x)
      ultimately show ?thesis using x S by (intro CollectI exI [of _ x]) (simp add: word_le_nat_alt)
    qed
  qed
qed

lemma user_range_valid_iff:
  "user_range_valid addr sz access s \<longleftrightarrow> sz = 0 \<or>
     unat addr + unat sz \<le> 2 ^ 47 \<and> vmm_get_current_pml4 s \<noteq> 0 \<and> vmm_get_current_pml4 s \<noteq> g_kernel_pml4_phys s \<and>
     (\<forall>a. addr \<le> a \<and> unat a < unat addr + unat sz \<longrightarrow> user_can s (vmm_get_current_pml4 s) access a)"
proof (cases "sz = 0")
  case True
  then show ?thesis by (simp add: user_range_valid_def)
next
  case False
  let ?cr3 = "vmm_get_current_pml4 s"
  have lt: "unat addr < 2 ^ 64" "unat sz < 2 ^ 64" using unsigned_less [of addr] unsigned_less [of sz] by simp_all
  have bounds: "\<not> (addr + sz < addr \<or> addr \<ge> USER_VA_LIMIT \<or> addr + sz > USER_VA_LIMIT) \<longleftrightarrow> unat addr + unat sz \<le> 2 ^ 47"
  proof (cases "unat addr + unat sz < 2 ^ 64")
    case True
    then have "unat (addr + sz) = unat addr + unat sz" by (simp add: unat_word_ariths)
    then show ?thesis using False by (auto simp: word_le_nat_alt word_less_nat_alt not_le not_less unat_gt_0 [symmetric])
  next
    case wrap: False
    then have "unat (addr + sz) = unat addr + unat sz - 2 ^ 64"
      using lt by (simp add: unat_word_ariths mod_if)
    then have "addr + sz < addr" using wrap lt by (simp add: word_less_nat_alt)
    then show ?thesis using wrap by auto
  qed
  show ?thesis
  proof (cases "unat addr + unat sz \<le> 2 ^ 47")
    case True
    define n where "n = unat ((page_down (addr + sz - 1) - page_down addr) div PAGE_SIZE)"
    have "(\<forall>k\<le>n. user_can s ?cr3 access (page_down addr + word_of_nat k * PAGE_SIZE)) \<longleftrightarrow>
        (\<forall>x \<in> {page_down addr + word_of_nat k * PAGE_SIZE | k. k \<le> n}. user_can s ?cr3 access x)" by blast
    also have "\<dots> \<longleftrightarrow> (\<forall>x \<in> {page_down a | a. addr \<le> a \<and> unat a < unat addr + unat sz}. user_can s ?cr3 access x)"
      unfolding n_def page_down_range [OF True False] ..
    also have "\<dots> \<longleftrightarrow> (\<forall>a. addr \<le> a \<and> unat a < unat addr + unat sz \<longrightarrow> user_can s ?cr3 access a)"
      using user_can_page_down by blast
    finally show ?thesis
      using False bounds True unfolding user_range_valid_def Let_def n_def [symmetric] user_pages_ok_iff by auto
  next
    case no: False
    then have "addr + sz < addr \<or> addr \<ge> USER_VA_LIMIT \<or> addr + sz > USER_VA_LIMIT" using bounds by blast
    then show ?thesis using no False unfolding user_range_valid_def Let_def by simp
  qed
qed


subsection \<open>Bytes\<close>

lemma and_7: "(a :: u64) AND 7 = take_bit 3 a"
  by (simp add: take_bit_eq_mask mask_eq_exp_minus_1)

lemma unat_and_7: "unat ((a :: u64) AND 7) = unat a mod 8"
  by (simp only: and_7 unsigned_take_bit_eq) (simp add: take_bit_eq_mod)

lemma unat_drop_3: "unat (drop_bit 3 (a :: u64)) = unat a div 8"
  by (simp add: drop_bit_eq_div unat_div)

lemma byte_addr_eq: "drop_bit 3 a = drop_bit 3 b \<Longrightarrow> (a :: u64) AND 7 = b AND 7 \<Longrightarrow> a = b"
  by (metis word_unat_eq_iff unat_and_7 unat_drop_3 div_mult_mod_eq)

lemma bit_mem_byte: "bit (mem_byte m a) n \<longleftrightarrow> n < 8 \<and> bit (m (drop_bit 3 a)) (8 * unat (a AND 7) + n)"
  by (simp add: mem_byte_def bit_ucast_iff bit_drop_bit_eq possible_bit_word)

lemma byte_windows: "n < 8 \<Longrightarrow> k \<noteq> k' \<Longrightarrow> \<not> (8 * k \<le> 8 * k' + n \<and> 8 * k' + n - 8 * k < (8 :: nat))"
  by linarith

lemma mem_byte_set: "mem_byte (set_mem_byte a b m) a' = (if a = a' then b else mem_byte m a')"
proof -
  have ff: "bit (0xFF :: u64) n \<longleftrightarrow> n < 8" for n
    using bit_mask_iff [of 8 n, where ?'a = "64 word"] by (auto simp: mask_eq_exp_minus_1)
  have k7: "unat (x AND 7) < 8" for x :: u64 by (simp add: unat_and_7)
  show ?thesis
  proof (cases "drop_bit 3 a = drop_bit 3 a'")
    case False
    then show ?thesis by (auto simp: mem_byte_def set_mem_byte_def Let_def)
  next
    case word: True
    let ?k = "unat (a AND 7)" and ?k' = "unat (a' AND 7)"
    have bits: "bit (mem_byte (set_mem_byte a b m) a') n \<longleftrightarrow> n < 8 \<and>
        (bit (m (drop_bit 3 a)) (8 * ?k' + n) \<and> \<not> (8 * ?k \<le> 8 * ?k' + n \<and> 8 * ?k' + n - 8 * ?k < 8) \<or>
         8 * ?k \<le> 8 * ?k' + n \<and> bit b (8 * ?k' + n - 8 * ?k))" for n
      using k7 [of a] k7 [of a']
      unfolding bit_mem_byte set_mem_byte_def Let_def word [symmetric] fun_upd_same
      by (auto simp: bit_or_iff bit_and_iff bit_not_iff bit_push_bit_iff ff bit_ucast_iff possible_bit_word
          simp del: bit_numeral_word_iff dest: bit_imp_le_length)
    show ?thesis
    proof (cases "?k = ?k'")
      case True
      then have "a = a'" using byte_addr_eq [OF word] by (simp add: word_unat_eq_iff)
      moreover have "mem_byte (set_mem_byte a b m) a' = b"
        by (rule bit_eqI) (use True in \<open>auto simp: bits possible_bit_word dest: bit_imp_le_length\<close>)
      ultimately show ?thesis by simp
    next
      case False
      then have "a \<noteq> a'" by auto
      moreover have "mem_byte (set_mem_byte a b m) a' = mem_byte m a'"
      proof (rule bit_eqI)
        fix n
        have "\<not> (8 * ?k \<le> 8 * ?k' + n \<and> 8 * ?k' + n - 8 * ?k < 8)" if "n < 8" using byte_windows [OF that False] .
        moreover have "\<not> bit b l" if "8 \<le> l" for l using that by (auto dest: bit_imp_le_length)
        ultimately show "bit (mem_byte (set_mem_byte a b m) a') n = bit (mem_byte m a') n"
          unfolding bits bit_mem_byte [of m a'] word by (metis not_less)
      qed
      ultimately show ?thesis by simp
    qed
  qed
qed

lemma length_read_bytes [simp]: "length (read_bytes m a n) = n"
  by (induction n arbitrary: a) simp_all

lemma nth_read_bytes: "i < n \<Longrightarrow> read_bytes m a n ! i = mem_byte m (a + word_of_nat i)"
proof (induction n arbitrary: a i)
  case (Suc n)
  then show ?case by (cases i) (simp_all add: algebra_simps)
qed simp

text \<open>The words that a byte store touches.\<close>

lemma set_mem_byte_word: "w \<noteq> drop_bit 3 a \<Longrightarrow> set_mem_byte a b m w = m w"
  by (simp add: set_mem_byte_def Let_def)

lemma write_bytes_word:
  "(\<And>i. i < length bs \<Longrightarrow> w \<noteq> drop_bit 3 (a + word_of_nat i)) \<Longrightarrow> write_bytes a bs m w = m w"
proof (induction bs arbitrary: a m)
  case (Cons b bs)
  have "write_bytes (a + 1) bs (set_mem_byte a b m) w = set_mem_byte a b m w"
    by (rule Cons.IH) (use Cons.prems [of "Suc _"] in \<open>simp add: algebra_simps\<close>)
  then show ?case using Cons.prems [of 0] by (simp add: set_mem_byte_word)
qed simp

lemma mem_byte_write:
  assumes "length bs \<le> 2 ^ 63"
  shows "mem_byte (write_bytes a bs m) x =
    (if unat (x - a) < length bs then bs ! unat (x - a) else mem_byte m x)"
  using assms
proof (induction bs arbitrary: a m)
  case (Cons b bs)
  have IH: "mem_byte (write_bytes a (b # bs) m) x =
      (if unat (x - (a + 1)) < length bs then bs ! unat (x - (a + 1)) else mem_byte (set_mem_byte a b m) x)"
    using Cons by simp
  show ?case
  proof (cases "x = a")
    case True
    have "unat (- 1 :: u64) = 2 ^ 64 - 1" by (simp add: unsigned_minus_1_eq_mask mask_eq_exp_minus_1)
    then have "\<not> unat (x - (a + 1)) < length bs" using Cons.prems True by simp
    then show ?thesis using IH True by (simp add: mem_byte_set)
  next
    case False
    then have pos: "x - a \<noteq> 0" by simp
    have "unat (x - (a + 1)) = unat (x - a) - 1"
      using unat_minus_one [OF pos] by (simp add: diff_diff_eq)
    moreover obtain n where "unat (x - a) = Suc n" using pos by (metis not0_implies_Suc unat_eq_zero)
    ultimately show ?thesis using IH False by (simp add: mem_byte_set)
  qed
qed simp

subsection \<open>Copies between kernel and user memory\<close>

text \<open>The byte that user code sees at an address.\<close>

definition user_pos :: "mm \<Rightarrow> u64 \<Rightarrow> u64 \<Rightarrow> u64" where
  "user_pos s cr3 a = vmm_get_page_phys cr3 a s + (a AND (PAGE_SIZE - 1))"

definition user_byte :: "mm \<Rightarrow> u64 \<Rightarrow> u64 \<Rightarrow> u8" where
  "user_byte s cr3 a = mem_byte (phys_mem s) (user_pos s cr3 a)"

lemma unat_page_offset: "unat (a AND (PAGE_SIZE - 1)) = unat a mod 4096"
proof -
  have "a AND (PAGE_SIZE - 1) = take_bit 12 a" by (simp add: take_bit_eq_mask mask_eq_exp_minus_1)
  then show ?thesis by (simp only: unsigned_take_bit_eq) (simp add: take_bit_eq_mod)
qed

lemma within_page:
  assumes "unat a mod 4096 + i < 4096"
  shows "page_down (a + word_of_nat i) = page_down a"
    and "(a + word_of_nat i) AND (PAGE_SIZE - 1) = (a AND (PAGE_SIZE - 1)) + word_of_nat i"
proof -
  have a: "unat a < 2 ^ 64" using unsigned_less [of a] by simp
  define q r where "q = unat a div 4096" and "r = unat a mod 4096"
  have split: "unat a = 4096 * q + r" by (simp add: q_def r_def)
  have "q < 2 ^ 52" using a by (simp add: q_def less_mult_imp_div_less)
  moreover have "r + i < 4096" using assms by (simp add: r_def)
  ultimately have lt: "unat a + i < 2 ^ 64" by (simp add: split)
  have sum: "unat (a + word_of_nat i) = unat a + i"
    using lt assms by (simp add: unat_word_ariths unsigned_of_nat take_bit_nat_eq_self)
  have ri: "r + i < 4096" using assms by (simp add: r_def)
  have e: "unat a + i = 4096 * q + (r + i)" by (simp add: split)
  have "(unat a + i) mod 4096 = r + i" "(unat a + i) div 4096 = q" unfolding e using ri by simp_all
  then have modd: "(unat a + i) mod 4096 = unat a mod 4096 + i" and dv: "(unat a + i) div 4096 = unat a div 4096"
    by (simp_all only: q_def r_def)
  show "page_down (a + word_of_nat i) = page_down a"
    by (simp add: word_unat_eq_iff unat_page_down sum minus_mod_eq_mult_div dv)
  have "unat ((a AND (PAGE_SIZE - 1)) + word_of_nat i) = unat a mod 4096 + i"
    using assms unat_page_offset [of a] by (simp add: unat_word_ariths unsigned_of_nat take_bit_nat_eq_self)
  then show "(a + word_of_nat i) AND (PAGE_SIZE - 1) = (a AND (PAGE_SIZE - 1)) + word_of_nat i"
    using unat_page_offset [of "a + word_of_nat i"] sum modd by (metis word_unat_eq_iff)
qed

lemma page_chunk_within: "i < page_chunk a left \<Longrightarrow> unat a mod 4096 + i < 4096"
  unfolding page_chunk_def unat_page_offset by (simp add: less_diff_conv add.commute)

lemma user_pos_within:
  assumes "i < page_chunk a left"
  shows "user_pos s cr3 (a + word_of_nat i) = user_pos s cr3 a + word_of_nat i"
proof -
  note w = within_page [OF page_chunk_within [OF assms]]
  have "vmm_get_page_phys cr3 (a + word_of_nat i) s = vmm_get_page_phys cr3 a s"
    by (metis phys_page_down w(1))
  then show ?thesis unfolding user_pos_def w(2) by simp
qed

lemma page_chunk_le: "page_chunk a left \<le> left"
  by (simp add: page_chunk_def)

lemma copy_in_loop_eq: "copy_in_loop cr3 src left s = map (\<lambda>i. user_byte s cr3 (src + word_of_nat i)) [0..<left]"
proof (induction cr3 src left s rule: copy_in_loop.induct)
  case (1 cr3 src left s)
  show ?case
  proof (cases "left = 0")
    case True
    then show ?thesis by (simp add: copy_in_loop.simps)
  next
    case False
    let ?c = "page_chunk src left" and ?f = "\<lambda>i. user_byte s cr3 (src + word_of_nat i)"
    have first: "read_bytes (phys_mem s) (vmm_get_page_phys cr3 (page_down src) s + (src AND (PAGE_SIZE - 1))) ?c = map ?f [0..<?c]"
    proof (rule nth_equalityI)
      fix i assume "i < length (read_bytes (phys_mem s) (vmm_get_page_phys cr3 (page_down src) s + (src AND (PAGE_SIZE - 1))) ?c)"
      then show "read_bytes (phys_mem s) (vmm_get_page_phys cr3 (page_down src) s + (src AND (PAGE_SIZE - 1))) ?c ! i = map ?f [0..<?c] ! i"
        using user_pos_within [of i src left s cr3]
        by (simp add: nth_read_bytes user_byte_def user_pos_def [of s cr3 src] phys_page_down)
    qed simp
    have "map (\<lambda>i. user_byte s cr3 (src + word_of_nat ?c + word_of_nat i)) [0..<left - ?c] = map ?f [?c..<left]"
      using page_chunk_le [of src left]
      by (intro nth_equalityI) (simp_all add: algebra_simps)
    moreover have "[0..<left] = [0..<?c] @ [?c..<left]"
      using page_chunk_le [of src left] by (metis le_add_diff_inverse upt_add_eq_append zero_le)
    ultimately show ?thesis
      using 1 [OF False refl refl] False first by (subst copy_in_loop.simps) (simp add: Let_def)
  qed
qed

text \<open>
  C20. Reading user memory is exact. \<open>copy_from_user\<close> succeeds exactly on a null-free range that passes the
  range check, and then delivers, for every offset, the byte that user code sees there; otherwise it
  delivers nothing.
\<close>

theorem copy_from_user_exact:
  "copy_from_user src sz s =
     (if sz = 0 then Some []
      else if src \<noteq> 0 \<and> user_range_valid src sz USER_ACCESS_READ s
      then Some (map (\<lambda>i. user_byte s (vmm_get_current_pml4 s) (src + word_of_nat i)) [0..<unat sz])
      else None)"
  by (simp add: copy_from_user_def copy_in_loop_eq)

text \<open>Memory whose tables hold the same entries.\<close>

definition same_tables :: "mm \<Rightarrow> mm \<Rightarrow> u64 \<Rightarrow> bool" where
  "same_tables s s' root \<longleftrightarrow> (\<forall>q t j. upath q \<longrightarrow> vm_walk s root q = Some t \<longrightarrow> j < 512 \<longrightarrow> tab_get t j s' = tab_get t j s)"

lemma same_tables_walk:
  assumes "same_tables s s' root" "upath q"
  shows "vm_walk s' root q = vm_walk s root q"
proof (rule vm_walk_cong)
  fix p j t assume "prefix (p @ [j]) q" "vm_walk s root p = Some t"
  then have "tab_get t j s' = tab_get t j s"
    using assms(1) upath_snocD [OF upath_prefix [OF assms(2)]] unfolding same_tables_def by blast
  then show "vmm_table t j s' = vmm_table t j s" by (simp add: vmm_table_def)
qed

lemma same_tables_flags:
  assumes "same_tables s s' root" "v < USER_VA_LIMIT"
  shows "vmm_get_page_flags root v s' = vmm_get_page_flags root v s"
proof -
  have u: "upath (upper v)" using upath_upper [OF assms(2)] by simp
  show ?thesis
    using same_tables_walk [OF assms(1) u] assms(1) u
    by (auto simp: flags_leaf vm_leaf_def same_tables_def split: option.splits)
qed

lemma same_tables_phys:
  "same_tables s s' root \<Longrightarrow> v < USER_VA_LIMIT \<Longrightarrow> vmm_get_page_phys root v s' = vmm_get_page_phys root v s"
  by (simp add: phys_leaf same_tables_flags)

lemma same_tables_user_can:
  assumes st: "same_tables s s' root" and v: "v < USER_VA_LIMIT" and can: "user_can s root access v"
  shows "user_can s' root access v"
proof -
  define e1 where "e1 = tab_get root (pml4_idx v) s"
  define e2 where "e2 = tab_get (pte_addr e1) (pdpt_idx v) s"
  define e3 where "e3 = tab_get (pte_addr e2) (pd_idx v) s"
  note es = e1_def [symmetric] e2_def [symmetric] e3_def [symmetric]
  have u: "upath []" "upath [pml4_idx v]" "upath [pml4_idx v, pdpt_idx v]" "upath (upper v)"
    by (rule upath_upper [OF v], simp add: upper_def)+
  have good: "bit e1 0" "\<not> bit e1 7" "bit e2 0" "\<not> bit e2 7" "bit e3 0" "\<not> bit e3 7"
    using can unfolding user_can_def Let_def es by blast+
  have w: "vm_walk s root [pml4_idx v] = Some (pte_addr e1)" "vm_walk s root [pml4_idx v, pdpt_idx v] = Some (pte_addr e2)"
    "vm_walk s root (upper v) = Some (pte_addr e3)"
    using good by (simp_all add: upper_def vm_walk.simps vmm_table_def Let_def pte_bits es)
  have "tab_get root (pml4_idx v) s' = e1" "tab_get (pte_addr e1) (pdpt_idx v) s' = e2"
    "tab_get (pte_addr e2) (pd_idx v) s' = e3"
    "tab_get (pte_addr e3) (pt_idx v) s' = tab_get (pte_addr e3) (pt_idx v) s"
    using st u w unfolding same_tables_def by (auto simp: es)
  then show ?thesis using can unfolding user_can_def Let_def es by simp
qed

lemma frame_offset_unique:
  assumes "page_aligned f" "page_aligned f'" "f < 2 ^ 52" "f' < 2 ^ 52" "unat x < 4096" "unat x' < 4096"
    and "f + x = f' + (x' :: u64)"
  shows "f = f' \<and> x = x'"
proof -
  obtain k k' where k: "unat f = 4096 * k" "unat f' = 4096 * k'"
    using assms(1,2) unfolding page_aligned_iff by (metis dvdE)
  have lt: "unat f < 2 ^ 52" "unat f' < 2 ^ 52" using assms(3,4) by (simp_all add: word_less_nat_alt)
  have "unat (f + x) = unat f + unat x" "unat (f' + x') = unat f' + unat x'"
    using lt assms(5,6) by (simp_all add: unat_word_ariths)
  then have e: "4096 * k + unat x = 4096 * k' + unat x'" using assms(7) k by simp
  have "k = (4096 * k + unat x) div 4096" "k' = (4096 * k' + unat x') div 4096" using assms(5,6) by simp_all
  then have "k = k'" using e by simp
  then show ?thesis using e k by (simp add: word_unat_eq_iff)
qed

lemma page_phys_ok: "page_aligned (vmm_get_page_phys root v s)" "vmm_get_page_phys root v s < 2 ^ 52"
proof -
  have "pte_addr e < 2 ^ 52" for e
  proof -
    have "pte_addr e \<le> PTE_ADDR_MASK" unfolding pte_addr_def by (rule word_and_le1)
    then show ?thesis by (simp add: word_le_nat_alt word_less_nat_alt)
  qed
  then show "vmm_get_page_phys root v s < 2 ^ 52" by (simp add: phys_leaf)
  show "page_aligned (vmm_get_page_phys root v s)"
    by (simp add: phys_leaf pte_addr_aligned) (simp add: page_aligned_def)
qed

lemma same_page_offset_eq: "page_down a = page_down b \<Longrightarrow> a AND (PAGE_SIZE - 1) = b AND (PAGE_SIZE - 1) \<Longrightarrow> a = b"
  by (metis word_unat_eq_iff unat_page_down unat_page_offset minus_mod_eq_mult_div div_mult_mod_eq mult.commute)

text \<open>
  The user buffer at \<open>dst\<close> of length \<open>n\<close> is backed by frames of its own: different pages by different
  frames, and none of them a page table.
\<close>

definition own_frames :: "mm \<Rightarrow> u64 \<Rightarrow> u64 \<Rightarrow> nat \<Rightarrow> bool" where
  "own_frames s cr3 dst n \<longleftrightarrow>
     (\<forall>i<n. \<forall>q t. upath q \<longrightarrow> vm_walk s cr3 q = Some t \<longrightarrow> t \<noteq> vmm_get_page_phys cr3 (dst + word_of_nat i) s) \<and>
     (\<forall>i<n. \<forall>j<n. vmm_get_page_phys cr3 (dst + word_of_nat i) s = vmm_get_page_phys cr3 (dst + word_of_nat j) s \<longrightarrow>
        page_down (dst + word_of_nat i) = page_down (dst + word_of_nat j))"

lemma user_pos_inj:
  assumes "own_frames s cr3 dst n" "unat dst + n \<le> 2 ^ 47" "i < n" "j < n"
    and "user_pos s cr3 (dst + word_of_nat i) = user_pos s cr3 (dst + word_of_nat j)"
  shows "i = j"
proof -
  let ?a = "dst + word_of_nat i" and ?b = "dst + word_of_nat j"
  have "vmm_get_page_phys cr3 ?a s = vmm_get_page_phys cr3 ?b s \<and> ?a AND (PAGE_SIZE - 1) = ?b AND (PAGE_SIZE - 1)"
    using frame_offset_unique [OF page_phys_ok(1) page_phys_ok(1) page_phys_ok(2) page_phys_ok(2)] assms(5)
    unfolding user_pos_def by (metis mod_less_divisor unat_page_offset zero_less_numeral)
  then have "?a = ?b" using assms(1,3,4) same_page_offset_eq unfolding own_frames_def by blast
  then have "(word_of_nat i :: u64) = word_of_nat j" by simp
  moreover have "unat (word_of_nat k :: u64) = k" if "k < n" for k
    using that assms(2) by (simp add: unsigned_of_nat take_bit_nat_eq_self)
  ultimately show ?thesis using assms(3,4) by metis
qed

lemma chunk_words:
  assumes "page_aligned f" "page_aligned t" "t \<noteq> f" "j < 512" "unat x + i < 4096"
  shows "drop_bit 3 t + j \<noteq> drop_bit 3 (f + x + word_of_nat i)"
proof -
  have f: "4096 dvd unat f" "unat f < 2 ^ 64" using assms(1) unsigned_less [of f] by (simp_all add: page_aligned_iff)
  then obtain k where k: "unat f = 4096 * k" "k < 2 ^ 52" by (auto elim!: dvdE)
  have xi: "unat (x + word_of_nat i) = unat x + i"
    using assms(5) by (simp add: unat_word_ariths unsigned_of_nat take_bit_nat_eq_self)
  then have "unat (f + (x + word_of_nat i)) = 4096 * k + (unat x + i)"
    using k assms(5) by (simp add: unat_word_ariths)
  then have "unat (drop_bit 3 (f + x + word_of_nat i)) = 512 * k + (unat x + i) div 8"
    by (simp add: unat_drop_3 add.assoc)
  moreover define w :: u64 where "w = word_of_nat ((unat x + i) div 8)"
  have w: "unat w = (unat x + i) div 8" "w < 512"
    using assms(5) by (simp_all add: w_def unsigned_of_nat take_bit_nat_eq_self word_less_nat_alt)
  ultimately have "drop_bit 3 (f + x + word_of_nat i) = drop_bit 3 f + w"
    using unat_tab_index [OF assms(1) w(2)] k w(1) by (simp add: word_unat_eq_iff)
  then show ?thesis using tab_index_eq [OF assms(2,1,4) w(2)] assms(3) by simp
qed

lemma copy_out_loop_ok:
  assumes "vm_inv s0 cr3" "same_tables s0 s cr3" "own_frames s0 cr3 dst (length data)" "unat dst + length data \<le> 2 ^ 47"
  shows "same_tables s0 (copy_out_loop cr3 dst data s) cr3 \<and>
    copy_out_loop cr3 dst data s = s\<lparr>phys_mem := phys_mem (copy_out_loop cr3 dst data s)\<rparr> \<and>
    (\<forall>i<length data. mem_byte (phys_mem (copy_out_loop cr3 dst data s)) (user_pos s0 cr3 (dst + word_of_nat i)) = data ! i) \<and>
    (\<forall>x. (\<forall>i<length data. x \<noteq> user_pos s0 cr3 (dst + word_of_nat i)) \<longrightarrow>
       mem_byte (phys_mem (copy_out_loop cr3 dst data s)) x = mem_byte (phys_mem s) x)"
  using assms
proof (induction cr3 dst data s rule: copy_out_loop.induct)
  case (1 cr3 dst data s)
  show ?case
  proof (cases "data = []")
    case True
    then show ?thesis using 1(3) by (simp add: copy_out_loop.simps)
  next
    case False
    let ?n = "length data"
    define c where "c = page_chunk dst ?n"
    define a where "a = user_pos s0 cr3 dst"
    define s1 where "s1 = s\<lparr>phys_mem := write_bytes a (take c data) (phys_mem s)\<rparr>"
    have c: "c \<le> ?n" "0 < c" using page_chunk_le page_chunk_pos False by (simp_all add: c_def)
    have lim: "dst < USER_VA_LIMIT" using 1(5) c by (simp add: word_less_nat_alt)
    have f: "vmm_get_page_phys cr3 (page_down dst) s = vmm_get_page_phys cr3 dst s0"
      using same_tables_phys [OF 1(3) lim] by (simp add: phys_page_down)
    have eq: "vmm_get_page_phys cr3 (page_down dst) s + (dst AND (PAGE_SIZE - 1)) = a"
      by (simp add: f a_def user_pos_def)
    have step: "copy_out_loop cr3 dst data s = copy_out_loop cr3 (dst + word_of_nat c) (drop c data) s1"
      using False by (subst copy_out_loop.simps) (simp add: Let_def f s1_def c_def a_def user_pos_def)
    have pos: "user_pos s0 cr3 (dst + word_of_nat i) = a + word_of_nat i" if "i < c" for i
      using user_pos_within [of i dst ?n s0 cr3] that by (simp add: c_def a_def)
    have st1: "same_tables s0 s1 cr3"
      unfolding same_tables_def
    proof (intro allI impI)
      fix q t and j :: u64 assume q: "upath q" "vm_walk s0 cr3 q = Some t" "j < 512"
      have "t \<noteq> vmm_get_page_phys cr3 (dst + word_of_nat 0) s0"
        using 1(4) q(1,2) False unfolding own_frames_def by (metis length_greater_0_conv)
      then have t: "page_aligned t" "t \<noteq> vmm_get_page_phys cr3 dst s0"
        using vm_invD(3) [OF 1(2) q(1,2)] by simp_all
      have "write_bytes a (take c data) (phys_mem s) (drop_bit 3 t + j) = phys_mem s (drop_bit 3 t + j)"
      proof (rule write_bytes_word)
        fix i assume "i < length (take c data)"
        then have "unat dst mod 4096 + i < 4096" using c page_chunk_within [of i dst ?n] by (simp add: c_def)
        then show "drop_bit 3 t + j \<noteq> drop_bit 3 (a + word_of_nat i)"
          unfolding a_def user_pos_def unat_page_offset [symmetric]
          by (intro chunk_words [OF page_phys_ok(1) t(1,2) q(3)])
      qed
      then show "tab_get t j s1 = tab_get t j s0"
        using 1(3) q unfolding same_tables_def by (simp add: tab_get_def s1_def)
    qed
    have shift: "dst + word_of_nat c + word_of_nat i = dst + word_of_nat (c + i)" for i by (simp add: algebra_simps)
    have "unat (dst + word_of_nat c) = unat dst + c"
      using 1(5) c by (simp add: unat_word_ariths unsigned_of_nat take_bit_nat_eq_self)
    then have dst': "unat (dst + word_of_nat c) + length (drop c data) \<le> 2 ^ 47" using 1(5) c by simp
    have own': "own_frames s0 cr3 (dst + word_of_nat c) (length (drop c data))"
      unfolding own_frames_def shift
    proof (intro conjI allI impI)
      fix i q t assume "i < length (drop c data)" "upath q" "vm_walk s0 cr3 q = Some t"
      moreover from this have "c + i < ?n" by simp
      ultimately show "t \<noteq> vmm_get_page_phys cr3 (dst + word_of_nat (c + i)) s0"
        using 1(4) unfolding own_frames_def by blast
    next
      fix i j assume "i < length (drop c data)" "j < length (drop c data)"
        "vmm_get_page_phys cr3 (dst + word_of_nat (c + i)) s0 = vmm_get_page_phys cr3 (dst + word_of_nat (c + j)) s0"
      moreover from this have "c + i < ?n" "c + j < ?n" by simp_all
      ultimately show "page_down (dst + word_of_nat (c + i)) = page_down (dst + word_of_nat (c + j))"
        using 1(4) unfolding own_frames_def by blast
    qed
    define s' where "s' = copy_out_loop cr3 dst data s"
    have IH: "same_tables s0 s' cr3" "s' = s1\<lparr>phys_mem := phys_mem s'\<rparr>"
      "\<And>i. i < ?n - c \<Longrightarrow> mem_byte (phys_mem s') (user_pos s0 cr3 (dst + word_of_nat (c + i))) = data ! (c + i)"
      "\<And>x. \<forall>i<?n - c. x \<noteq> user_pos s0 cr3 (dst + word_of_nat (c + i)) \<Longrightarrow> mem_byte (phys_mem s') x = mem_byte (phys_mem s1) x"
      using 1(1) [OF False refl refl 1(2), unfolded eq, folded c_def, folded s1_def, OF st1 own' dst', unfolded shift, folded step]
      by (simp_all add: s'_def)
    have w: "mem_byte (phys_mem s1) x = (if unat (x - a) < c then data ! unat (x - a) else mem_byte (phys_mem s) x)" for x
      using mem_byte_write [of "take c data" a "phys_mem s" x] c 1(5) by (simp add: s1_def)
    have low: "mem_byte (phys_mem s') (user_pos s0 cr3 (dst + word_of_nat i)) = data ! i" if "i < c" for i
    proof -
      have "mem_byte (phys_mem s') (user_pos s0 cr3 (dst + word_of_nat i)) = mem_byte (phys_mem s1) (user_pos s0 cr3 (dst + word_of_nat i))"
      proof (intro IH(4) allI impI notI)
        fix k assume "k < ?n - c" "user_pos s0 cr3 (dst + word_of_nat i) = user_pos s0 cr3 (dst + word_of_nat (c + k))"
        moreover from this have "c + k < ?n" by simp
        ultimately have "i = c + k" using user_pos_inj [OF 1(4,5), of i "c + k"] that c by linarith
        with that show False by simp
      qed
      moreover have "unat (word_of_nat i :: u64) = i"
        using that c 1(5) by (simp add: unsigned_of_nat take_bit_nat_eq_self)
      ultimately show ?thesis using w that pos [OF that] by simp
    qed
    have all: "mem_byte (phys_mem s') (user_pos s0 cr3 (dst + word_of_nat i)) = data ! i" if "i < ?n" for i
      using low [of i] IH(3) [of "i - c"] that by (cases "i < c") auto
    have other: "mem_byte (phys_mem s') x = mem_byte (phys_mem s) x"
      if x: "\<forall>i<?n. x \<noteq> user_pos s0 cr3 (dst + word_of_nat i)" for x
    proof -
      have "mem_byte (phys_mem s') x = mem_byte (phys_mem s1) x"
      proof (intro IH(4) allI impI)
        fix k assume "k < ?n - c"
        then have "c + k < ?n" by simp
        with x show "x \<noteq> user_pos s0 cr3 (dst + word_of_nat (c + k))" by blast
      qed
      moreover have "\<not> unat (x - a) < c"
      proof
        assume lt: "unat (x - a) < c"
        then have "x = user_pos s0 cr3 (dst + word_of_nat (unat (x - a)))" using pos [OF lt] by simp
        moreover have "unat (x - a) < ?n" using lt c by simp
        ultimately show False using x by blast
      qed
      ultimately show ?thesis using w by simp
    qed
    have "s' = s\<lparr>phys_mem := phys_mem s'\<rparr>" using IH(2) by (simp add: s1_def)
    then show ?thesis unfolding s'_def [symmetric] using IH(1) all other by blast
  qed
qed

text \<open>
  C21. Writing user memory is exact and isolated. When \<open>copy_to_user\<close> succeeds on a buffer backed by frames of
  its own, user code then sees exactly the written bytes, a read back returns them, no other byte of
  physical memory and no translation changed. When it fails, nothing changed.
\<close>

theorem copy_to_user_correct:
  assumes inv: "vm_inv s (vmm_get_current_pml4 s)" and own: "own_frames s (vmm_get_current_pml4 s) dst (length data)"
    and small: "length data < 2 ^ 64" and copy: "copy_to_user dst data s = (r, s')"
  shows "if r = 0 then
      (\<forall>i<length data. user_byte s' (vmm_get_current_pml4 s') (dst + word_of_nat i) = data ! i) \<and>
      copy_from_user dst (word_of_nat (length data)) s' = Some data \<and>
      (\<forall>x. (\<forall>i<length data. x \<noteq> user_pos s (vmm_get_current_pml4 s) (dst + word_of_nat i)) \<longrightarrow>
         mem_byte (phys_mem s') x = mem_byte (phys_mem s) x) \<and>
      (\<forall>v<USER_VA_LIMIT. vmm_get_page_flags (vmm_get_current_pml4 s) v s' = vmm_get_page_flags (vmm_get_current_pml4 s) v s)
    else r = - 1 \<and> s' = s \<and> data \<noteq> []"
proof (cases "data = []")
  case True
  then show ?thesis using copy by (auto simp: copy_to_user_def copy_from_user_def)
next
  case False
  let ?cr3 = "vmm_get_current_pml4 s" and ?n = "length data"
  have n: "unat (word_of_nat ?n :: u64) = ?n" "(word_of_nat ?n :: u64) \<noteq> 0"
    using small False by (simp_all add: unsigned_of_nat take_bit_nat_eq_self word_unat_eq_iff)
  show ?thesis
  proof (cases "dst = 0 \<or> \<not> user_range_valid dst (word_of_nat ?n) USER_ACCESS_WRITE s")
    case True
    then show ?thesis using copy False by (simp add: copy_to_user_def)
  next
    case ok: False
    then have s': "r = 0" "s' = copy_out_loop ?cr3 dst data s" using copy False by (simp_all add: copy_to_user_def)
    have valid: "unat dst + ?n \<le> 2 ^ 47" "?cr3 \<noteq> 0" "?cr3 \<noteq> g_kernel_pml4_phys s"
      "\<And>a. dst \<le> a \<Longrightarrow> unat a < unat dst + ?n \<Longrightarrow> user_can s ?cr3 USER_ACCESS_WRITE a"
      using ok n user_range_valid_iff [of dst "word_of_nat ?n" USER_ACCESS_WRITE s] by auto
    have "same_tables s s ?cr3" by (simp add: same_tables_def)
    note out = copy_out_loop_ok [OF inv this own valid(1), folded s'(2)]
    have st: "same_tables s s' ?cr3" and fields: "s' = s\<lparr>phys_mem := phys_mem s'\<rparr>" using out by blast+
    have same: "vmm_get_current_pml4 s' = ?cr3" "g_kernel_pml4_phys s' = g_kernel_pml4_phys s"
      by (subst fields, simp add: vmm_get_current_pml4_def)+
    have lim: "dst + word_of_nat i < USER_VA_LIMIT" if "i < ?n" for i
      using that valid(1) by (simp add: word_less_nat_alt unat_word_ariths unsigned_of_nat take_bit_nat_eq_self)
    have pos: "user_pos s' ?cr3 (dst + word_of_nat i) = user_pos s ?cr3 (dst + word_of_nat i)" if "i < ?n" for i
      using same_tables_phys [OF st lim [OF that]] by (simp add: user_pos_def)
    have bytes: "user_byte s' ?cr3 (dst + word_of_nat i) = data ! i" if "i < ?n" for i
      using out that pos [OF that] by (simp add: user_byte_def)
    have "user_can s' ?cr3 USER_ACCESS_READ a" if "dst \<le> a" "unat a < unat dst + ?n" for a
    proof -
      have "a < USER_VA_LIMIT" using that valid(1) by (simp add: word_less_nat_alt)
      from same_tables_user_can [OF st this valid(4) [OF that]] show ?thesis
        by (simp add: user_can_def Let_def)
    qed
    then have "user_range_valid dst (word_of_nat ?n) USER_ACCESS_READ s'"
      using valid(1-3) n same by (simp add: user_range_valid_iff)
    then have "copy_from_user dst (word_of_nat ?n) s' = Some (map (\<lambda>i. user_byte s' ?cr3 (dst + word_of_nat i)) [0..<?n])"
      using ok n same by (simp add: copy_from_user_def copy_in_loop_eq)
    also have "map (\<lambda>i. user_byte s' ?cr3 (dst + word_of_nat i)) [0..<?n] = data"
      by (rule nth_equalityI) (simp_all add: bytes)
    finally show ?thesis using s'(1) bytes same out same_tables_flags [OF st] by simp
  qed
qed

subsection \<open>Witnesses on the example address space\<close>

definition vm_example_user :: mm where
  "vm_example_user = vmm_switch_pml4 0x100000 vm_example_mapped"

lemma vm_example_user_cr3: "vmm_get_current_pml4 vm_example_user = 0x100000"
  by (simp add: vm_example_user_def vmm_switch_pml4_def vmm_get_current_pml4_def)

lemma vm_example_user_inv: "vm_inv vm_example_user 0x100000"
proof -
  have g: "tab_get t j vm_example_user = tab_get t j vm_example_mapped" for t j
    by (simp add: tab_get_def vm_example_user_def vmm_switch_pml4_def)
  have "vm_walk vm_example_user 0x100000 q = vm_walk vm_example_mapped 0x100000 q" for q
    by (rule vm_walk_cong) (simp add: vmm_table_def g)
  moreover have "pmm_inv vm_example_user = pmm_inv vm_example_mapped" "phys_limit vm_example_user = phys_limit vm_example_mapped"
    "pmm_free vm_example_user = pmm_free vm_example_mapped"
    by (simp_all add: vm_example_user_def vmm_switch_pml4_def pmm_inv_def phys_limit_def pmm_free_def region_set_def)
  ultimately show ?thesis using vm_example_mapped_facts(1) by (simp add: vm_inv_def g)
qed

lemma vm_example_user_mem:
  "g_kernel_pml4_phys vm_example_user = 0"
  "phys_mem vm_example_user = (\<lambda>_. 0)(0x20000 := 0x101007, 0x20200 := 0x102007, 0x20402 := 0x103007, 0x20600 := 0x80000000001F0007)"
  by (simp_all add: Let_def vm_example_user_def vmm_switch_pml4_def vm_example_mapped_def vmm_map_page_def vmm_ensure_def
      pte_flags_allowed_def pmm_alloc_page_def pmm_alloc_pages_def vm_example_fields pte_leaf_def
      tab_get_def tab_set_def idx_defs pte_present_def PMM_MAX_PAGES_def zero_words_def pte_addr_def fun_eq_iff)

lemma vm_example_user_free: "0x1F0000 \<in> pmm_free vm_example_user"
  by (simp add: Let_def pmm_free_def free_set_def range_set_def vm_example_user_def vmm_switch_pml4_def vm_example_mapped_def
      vmm_map_page_def vmm_ensure_def pte_flags_allowed_def pmm_alloc_page_def pmm_alloc_pages_def vm_example_fields pte_leaf_def
      tab_get_def tab_set_def idx_defs pte_present_def PMM_MAX_PAGES_def zero_words_def pte_addr_def)

lemma vm_example_user_valid: "user_range_valid 0x400010 2 USER_ACCESS_WRITE vm_example_user"
  by (simp add: user_range_valid_def vm_example_user_cr3 vm_example_user_mem page_down_def user_page_ok_def user_table_def
      Let_def tab_get_def idx_defs pte_present_def pte_user_def pte_huge_def pte_addr_def vmm_get_page_flags_def
      vmm_get_pt_def vmm_table_def)


lemma vm_example_user_phys:
  "page_down a = 0x400000 \<Longrightarrow> vmm_get_page_phys 0x100000 a vm_example_user = 0x1F0000"
proof -
  have "vmm_get_page_phys 0x100000 0x400000 vm_example_user = 0x1F0000"
    by (simp add: vm_example_user_mem vmm_get_page_phys_def Let_def tab_get_def idx_defs pte_present_def pte_huge_def pte_addr_def
      vmm_get_pt_def vmm_table_def)
  then show "page_down a = 0x400000 \<Longrightarrow> vmm_get_page_phys 0x100000 a vm_example_user = 0x1F0000"
    by (metis phys_page_down)
qed

theorem copy_to_user_correct_witness:
  "copy_from_user 0x400010 2 (snd (copy_to_user 0x400010 [7, 9] vm_example_user)) = Some [7, 9]"
proof -
  have pages: "page_down (0x400010 + word_of_nat i) = 0x400000" if "i < 2" for i
    using that less_2_cases [of i] by (auto simp: page_down_def)
  have own: "own_frames vm_example_user (vmm_get_current_pml4 vm_example_user) 0x400010 (length [7, 9 :: u8])"
    unfolding own_frames_def vm_example_user_cr3
    using vm_invD(4) [OF vm_example_user_inv] vm_example_user_free vm_example_user_phys pages by fastforce
  have inv: "vm_inv vm_example_user (vmm_get_current_pml4 vm_example_user)"
    by (simp add: vm_example_user_cr3 vm_example_user_inv)
  have r: "copy_to_user 0x400010 [7, 9] vm_example_user = (0, snd (copy_to_user 0x400010 [7, 9] vm_example_user))"
    using vm_example_user_valid by (simp add: copy_to_user_def)
  have small: "length [7, 9 :: u8] < 2 ^ 64" by simp
  from copy_to_user_correct [OF inv own small r] show ?thesis by simp
qed

end
