(* ===== verification/Elf.thy ===== *)
theory Elf
  imports User_Memory
begin

text \<open>
  The ELF loader (\<open>kernel/elf.c\<close>): validation of the header and of every program header, a fresh
  address space, page by page mapping and copying of the loadable segments, and the user stack.
  The image is the list of its bytes. Every read of the image goes through \<open>fetch\<close>, which has no value
  outside the image; a read there, undefined behaviour in the code, makes the model end in \<open>Elf_fault\<close>.
  Failing paths return the error code of the code together with the memory state after
  \<open>vmm_destroy_user_pml4\<close>. Messages on the serial line are left out.
\<close>

subsection \<open>Reading the image\<close>

definition fetch :: "u8 list \<Rightarrow> u64 \<Rightarrow> nat \<Rightarrow> u8 list option" where
  "fetch img off n = (if unat off + n \<le> length img then Some (take n (drop (unat off) img)) else None)"

record elf64_ehdr =
  e_ident :: "u8 list"
  e_type :: u16
  e_machine :: u16
  e_version :: u32
  e_entry :: u64
  e_phoff :: u64
  e_ehsize :: u16
  e_phentsize :: u16
  e_phnum :: u16

record elf64_phdr =
  p_type :: u32
  p_flags :: u32
  p_offset :: u64
  p_vaddr :: u64
  p_filesz :: u64
  p_memsz :: u64
  p_align :: u64

abbreviation (input) EHDR_SIZE :: nat where "EHDR_SIZE \<equiv> 64"
abbreviation (input) PHDR_SIZE :: nat where "PHDR_SIZE \<equiv> 56"
abbreviation (input) PT_LOAD :: u32 where "PT_LOAD \<equiv> 1"
abbreviation (input) PT_DYNAMIC :: u32 where "PT_DYNAMIC \<equiv> 2"
abbreviation (input) PT_INTERP :: u32 where "PT_INTERP \<equiv> 3"
abbreviation (input) PF_X :: u32 where "PF_X \<equiv> 1"
abbreviation (input) PF_W :: u32 where "PF_W \<equiv> 2"
abbreviation (input) PF_R :: u32 where "PF_R \<equiv> 4"
abbreviation (input) STACK_HIGH :: u64 where "STACK_HIGH \<equiv> 0x70000000"
abbreviation (input) STACK_LOW :: u64 where "STACK_LOW \<equiv> 0x6FFF0000"

definition parse_ehdr :: "u8 list \<Rightarrow> elf64_ehdr" where
  "parse_ehdr bs = \<lparr>e_ident = take 16 bs, e_type = ucast (field bs 16 2), e_machine = ucast (field bs 18 2),
     e_version = ucast (field bs 20 4), e_entry = field bs 24 8, e_phoff = field bs 32 8,
     e_ehsize = ucast (field bs 52 2), e_phentsize = ucast (field bs 54 2), e_phnum = ucast (field bs 56 2)\<rparr>"

definition parse_phdr :: "u8 list \<Rightarrow> elf64_phdr" where
  "parse_phdr bs = \<lparr>p_type = ucast (field bs 0 4), p_flags = ucast (field bs 4 4), p_offset = field bs 8 8,
     p_vaddr = field bs 16 8, p_filesz = field bs 32 8, p_memsz = field bs 40 8, p_align = field bs 48 8\<rparr>"

definition phdr_at :: "u8 list \<Rightarrow> elf64_ehdr \<Rightarrow> nat \<Rightarrow> elf64_phdr option" where
  "phdr_at img eh i = map_option parse_phdr (fetch img (e_phoff eh + word_of_nat i * ucast (e_phentsize eh)) PHDR_SIZE)"

subsection \<open>Results\<close>

datatype elf_result = Elf_ok u64 u64 mm | Elf_error int mm | Elf_fault

text \<open>Result of a part of the loader: the state to go on with, or the end of the load.\<close>

datatype 'a elf_step = Go 'a | Stop int mm | Fault

subsection \<open>Checks\<close>

definition add_overflow_u64 :: "u64 \<Rightarrow> u64 \<Rightarrow> bool \<times> u64" where
  "add_overflow_u64 a b = (a + b < a, a + b)"

definition segment_page_flags :: "u32 \<Rightarrow> u64" where
  "segment_page_flags fl =
     (let flags = PTE_USER;
          flags = (if fl AND PF_W \<noteq> 0 then flags OR PTE_WRITABLE else flags)
      in if fl AND PF_X = 0 then flags OR PTE_NO_EXECUTE else flags)"

definition ehdr_magic_ok :: "elf64_ehdr \<Rightarrow> bool" where
  "ehdr_magic_ok eh \<longleftrightarrow> take 8 (e_ident eh) = [0x7F, 0x45, 0x4C, 0x46, 2, 1, 1, 0] \<and> e_machine eh = 62 \<and> e_version eh = 1"

text \<open>The header checks before the address space is created; 0 when they all pass.\<close>

definition ehdr_check :: "u8 list \<Rightarrow> elf64_ehdr \<Rightarrow> int" where
  "ehdr_check img eh =
     (if \<not> ehdr_magic_ok eh then - 2
      else if e_type eh \<noteq> 2 then - 3
      else if e_ehsize eh \<noteq> 64 \<or> e_phentsize eh \<noteq> 56 \<or> e_phnum eh = 0 \<or> e_phnum eh > 128 then - 4
      else if e_phoff eh > word_of_nat (length img) \<or>
              ucast (e_phnum eh) > (word_of_nat (length img) - e_phoff eh) div ucast (e_phentsize eh) then - 5
      else 0)"

text \<open>The checks of one loadable segment; 0 when they all pass.\<close>

definition segment_check :: "u8 list \<Rightarrow> elf64_phdr \<Rightarrow> int" where
  "segment_check img ph =
     (let (file_ovf, file_end) = add_overflow_u64 (p_offset ph) (p_filesz ph);
          (mem_ovf, mem_end) = add_overflow_u64 (p_vaddr ph) (p_memsz ph) in
      if p_filesz ph > p_memsz ph then - 7
      else if p_flags ph AND NOT (PF_R OR PF_W OR PF_X) \<noteq> 0 \<or> p_flags ph AND PF_R = 0 \<or>
              p_flags ph AND PF_W \<noteq> 0 \<and> p_flags ph AND PF_X \<noteq> 0 then - 8
      else if p_align ph \<noteq> 0 \<and> (p_align ph AND (p_align ph - 1) \<noteq> 0 \<or>
              p_offset ph AND (p_align ph - 1) \<noteq> p_vaddr ph AND (p_align ph - 1)) then - 9
      else if file_ovf \<or> file_end > word_of_nat (length img) \<or> mem_ovf \<or>
              p_vaddr ph < PAGE_SIZE \<or> p_vaddr ph \<ge> USER_VA_LIMIT \<or> mem_end > USER_VA_LIMIT \<or>
              p_vaddr ph < STACK_HIGH \<and> mem_end > STACK_LOW then - 9
      else 0)"

text \<open>The comparison of a segment with those before it: \<open>None\<close> when a header cannot be read.\<close>

fun overlaps_previous :: "u8 list \<Rightarrow> elf64_ehdr \<Rightarrow> elf64_phdr \<Rightarrow> nat list \<Rightarrow> bool option" where
  "overlaps_previous img eh ph [] = Some False"
| "overlaps_previous img eh ph (j # js) =
     (case phdr_at img eh j of
        None \<Rightarrow> None
      | Some other \<Rightarrow>
          let (ovf, other_end) = add_overflow_u64 (p_vaddr other) (p_memsz other) in
          if p_type other = PT_LOAD \<and> p_memsz other \<noteq> 0 \<and> \<not> ovf \<and>
             p_vaddr ph < other_end \<and> p_vaddr other < p_vaddr ph + p_memsz ph then Some True
          else overlaps_previous img eh ph js)"

subsection \<open>Loading\<close>

definition elf_fail :: "u64 \<Rightarrow> int \<Rightarrow> mm \<Rightarrow> 'a elf_step" where
  "elf_fail pml4 code s = Stop code (snd (vmm_destroy_user_pml4 pml4 s))"

text \<open>The frame of one page: an existing one with the same permissions, or a new zeroed one.\<close>

definition elf_page_frame :: "u64 \<Rightarrow> u64 \<Rightarrow> u64 \<Rightarrow> mm \<Rightarrow> (u64 \<times> mm) elf_step" where
  "elf_page_frame pml4 page_va final_flags s =
     (let phys = vmm_get_page_phys pml4 page_va s in
      if phys = 0
      then
        let (new, s1) = pmm_alloc_page s in
        if new = 0 then elf_fail pml4 (- 11) s1
        else
          let (r, s2) = vmm_map_page pml4 page_va new final_flags s1 in
          if r \<noteq> 0 then elf_fail pml4 (- 11) (snd (pmm_free_page new s2))
          else Go (new, s2\<lparr>phys_mem := zero_words (drop_bit 3 new) 512 (phys_mem s2)\<rparr>)
      else if vmm_get_page_flags pml4 page_va s AND (PTE_USER OR PTE_WRITABLE OR PTE_NO_EXECUTE) \<noteq>
              final_flags AND (PTE_USER OR PTE_WRITABLE OR PTE_NO_EXECUTE) then elf_fail pml4 (- 12) s
      else Go (phys, s))"

text \<open>Copying the part of the file that falls into the page.\<close>

definition elf_page_copy :: "u8 list \<Rightarrow> elf64_phdr \<Rightarrow> u64 \<Rightarrow> u64 \<Rightarrow> mm \<Rightarrow> mm elf_step" where
  "elf_page_copy img ph page_va phys s =
     (let file_start = p_vaddr ph;
          file_data_end = p_vaddr ph + p_filesz ph;
          copy_start = (if page_va > file_start then page_va else file_start);
          page_next = page_va + PAGE_SIZE;
          copy_end = (if page_next < file_data_end then page_next else file_data_end)
      in if copy_start < copy_end
         then
           case fetch img (p_offset ph + (copy_start - p_vaddr ph)) (unat (copy_end - copy_start)) of
             None \<Rightarrow> Fault
           | Some src \<Rightarrow> Go (s\<lparr>phys_mem := write_bytes (phys + (copy_start - page_va)) src (phys_mem s)\<rparr>)
         else Go s)"

text \<open>The page loop of one segment: \<open>n\<close> pages from \<open>page_va\<close> on.\<close>

fun elf_load_pages :: "nat \<Rightarrow> u8 list \<Rightarrow> elf64_phdr \<Rightarrow> u64 \<Rightarrow> u64 \<Rightarrow> u64 \<Rightarrow> mm \<Rightarrow> mm elf_step" where
  "elf_load_pages 0 img ph pml4 page_va final_flags s = Go s"
| "elf_load_pages (Suc n) img ph pml4 page_va final_flags s =
     (case elf_page_frame pml4 page_va final_flags s of
        Stop c s1 \<Rightarrow> Stop c s1
      | Fault \<Rightarrow> Fault
      | Go (phys, s1) \<Rightarrow>
          (case elf_page_copy img ph page_va phys s1 of
             Stop c s2 \<Rightarrow> Stop c s2
           | Fault \<Rightarrow> Fault
           | Go s2 \<Rightarrow> elf_load_pages n img ph pml4 (page_va + PAGE_SIZE) final_flags s2))"

text \<open>One program header: the number of loadable segments and whether the entry point is covered go along.\<close>

definition elf_load_segment :: "u8 list \<Rightarrow> elf64_ehdr \<Rightarrow> nat \<Rightarrow> u64 \<Rightarrow> nat \<times> bool \<times> mm \<Rightarrow> (nat \<times> bool \<times> mm) elf_step" where
  "elf_load_segment img eh i pml4 = (\<lambda>(load_segments, entry_covered, s).
     case phdr_at img eh i of
       None \<Rightarrow> Fault
     | Some ph \<Rightarrow>
         if p_type ph = PT_INTERP \<or> p_type ph = PT_DYNAMIC then elf_fail pml4 (- 7) s
         else if p_type ph \<noteq> PT_LOAD then Go (load_segments, entry_covered, s)
         else if segment_check img ph \<noteq> 0 then elf_fail pml4 (segment_check img ph) s
         else if p_memsz ph = 0 then Go (load_segments + 1, entry_covered, s)
         else
           case overlaps_previous img eh ph [0..<i] of
             None \<Rightarrow> Fault
           | Some True \<Rightarrow> elf_fail pml4 (- 12) s
           | Some False \<Rightarrow>
               let mem_end = p_vaddr ph + p_memsz ph;
                   covered = (entry_covered \<or>
                     p_flags ph AND PF_X \<noteq> 0 \<and> e_entry eh \<ge> p_vaddr ph \<and> e_entry eh < mem_end);
                   vaddr_start = page_down (p_vaddr ph);
                   vaddr_end = page_down (mem_end + PAGE_SIZE - 1)
               in if vaddr_end < mem_end then elf_fail pml4 (- 10) s
                  else case elf_load_pages (unat ((vaddr_end - vaddr_start) div PAGE_SIZE)) img ph pml4 vaddr_start
                              (segment_page_flags (p_flags ph)) s of
                         Stop c s1 \<Rightarrow> Stop c s1
                       | Fault \<Rightarrow> Fault
                       | Go s1 \<Rightarrow> Go (load_segments + 1, covered, s1))"

fun elf_load_segments :: "u8 list \<Rightarrow> elf64_ehdr \<Rightarrow> nat list \<Rightarrow> u64 \<Rightarrow> nat \<times> bool \<times> mm \<Rightarrow> (nat \<times> bool \<times> mm) elf_step" where
  "elf_load_segments img eh [] pml4 acc = Go acc"
| "elf_load_segments img eh (i # is) pml4 acc =
     (case elf_load_segment img eh i pml4 acc of
        Stop c s \<Rightarrow> Stop c s
      | Fault \<Rightarrow> Fault
      | Go acc1 \<Rightarrow> elf_load_segments img eh is pml4 acc1)"

text \<open>The stack loop: \<open>n\<close> pages from \<open>s_va\<close> on.\<close>

fun elf_map_stack :: "nat \<Rightarrow> u64 \<Rightarrow> u64 \<Rightarrow> mm \<Rightarrow> mm elf_step" where
  "elf_map_stack 0 pml4 s_va s = Go s"
| "elf_map_stack (Suc n) pml4 s_va s =
     (let (s_phys, s1) = pmm_alloc_page s in
      if s_phys = 0 then elf_fail pml4 (- 13) s1
      else
        let (r, s2) = vmm_map_page pml4 s_va s_phys (PTE_USER OR PTE_WRITABLE OR PTE_NO_EXECUTE) s1 in
        if r \<noteq> 0 then elf_fail pml4 (- 13) (snd (pmm_free_page s_phys s2))
        else elf_map_stack n pml4 (s_va + PAGE_SIZE) s2)"

definition elf_entry_ok :: "u64 \<Rightarrow> u64 \<Rightarrow> mm \<Rightarrow> bool" where
  "elf_entry_ok pml4 entry s \<longleftrightarrow>
     (let flags = vmm_get_page_flags pml4 (page_down entry) s
      in \<not> (entry \<ge> USER_VA_LIMIT \<or> \<not> pte_present flags \<or> \<not> pte_user flags \<or> flags AND PTE_NO_EXECUTE \<noteq> 0))"

definition elf_finish :: "elf64_ehdr \<Rightarrow> u64 \<Rightarrow> nat \<times> bool \<times> mm \<Rightarrow> mm elf_step" where
  "elf_finish eh pml4 = (\<lambda>(load_segments, entry_covered, s).
     if load_segments = 0 \<or> \<not> entry_covered then elf_fail pml4 (- 14) s
     else if \<not> elf_entry_ok pml4 (e_entry eh) s then elf_fail pml4 (- 14) s
     else elf_map_stack (unat ((STACK_HIGH - STACK_LOW) div PAGE_SIZE)) pml4 STACK_LOW s)"

definition elf_load :: "u8 list \<Rightarrow> mm \<Rightarrow> elf_result" where
  "elf_load img s =
     (if length img < EHDR_SIZE then Elf_error (- 1) s
      else case fetch img 0 EHDR_SIZE of
        None \<Rightarrow> Elf_fault
      | Some bs \<Rightarrow>
          let eh = parse_ehdr bs in
          if ehdr_check img eh \<noteq> 0 then Elf_error (ehdr_check img eh) s
          else
            let (pml4, s1) = vmm_create_user_pml4 s in
            if pml4 = 0 then Elf_error (- 6) s1
            else case elf_load_segments img eh [0..<unat (e_phnum eh)] pml4 (0, False, s1) of
                   Stop c s2 \<Rightarrow> Elf_error c s2
                 | Fault \<Rightarrow> Elf_fault
                 | Go acc \<Rightarrow>
                     (case elf_finish eh pml4 acc of
                        Stop c s3 \<Rightarrow> Elf_error c s3
                      | Fault \<Rightarrow> Elf_fault
                      | Go s3 \<Rightarrow> Elf_ok pml4 (e_entry eh) s3))"

subsection \<open>Reads stay inside the image\<close>

lemma unat_length: "length img < 2 ^ 64 \<Longrightarrow> unat (word_of_nat (length img) :: u64) = length img"
  by (simp add: unsigned_of_nat take_bit_nat_eq_self)

lemma phdr_at_ok:
  assumes "length img < 2 ^ 64" and "ehdr_check img eh = 0" and "i < unat (e_phnum eh)"
  shows "phdr_at img eh i \<noteq> None"
proof -
  let ?L = "length img" and ?P = "unat (e_phoff eh)" and ?N = "unat (e_phnum eh)"
  have c: "e_phentsize eh = 56" "e_phoff eh \<le> word_of_nat ?L" "e_phnum eh \<le> 128"
    "(ucast (e_phnum eh) :: u64) \<le> (word_of_nat ?L - e_phoff eh) div 56"
    using assms(2) by (auto simp: ehdr_check_def not_less split: if_splits)
  have P: "?P \<le> ?L" using c(2) unat_length [OF assms(1)] by (simp add: word_le_nat_alt)
  have "unat (word_of_nat ?L - e_phoff eh) = ?L - ?P"
    using c(2) unat_length [OF assms(1)] by (simp add: unat_sub)
  moreover have "unat (ucast (e_phnum eh) :: u64) = ?N" by (simp add: unsigned_ucast_eq take_bit_nat_eq_self unsigned_less [of "e_phnum eh", THEN less_trans])
  ultimately have N: "?N \<le> (?L - ?P) div 56" using c(4) by (simp add: word_le_nat_alt unat_div)
  have "Suc i \<le> (?L - ?P) div 56" using N assms(3) by linarith
  then have "56 * Suc i \<le> ?L - ?P" by (metis mult.commute less_eq_div_iff_mult_less_eq zero_less_numeral)
  then have fits: "?P + 56 * i + 56 \<le> ?L" using P by simp
  have off: "unat (e_phoff eh + word_of_nat i * 56) = ?P + 56 * i"
    using fits assms(1) by (simp add: unat_word_ariths unsigned_of_nat take_bit_nat_eq_self mult.commute)
  have "(ucast (e_phentsize eh) :: u64) = 56" using c(1) by simp
  then show ?thesis using off fits by (simp add: phdr_at_def fetch_def)
qed

lemma overlaps_previous_ok:
  assumes "\<And>j. j \<in> set js \<Longrightarrow> phdr_at img eh j \<noteq> None"
  shows "overlaps_previous img eh ph js \<noteq> None"
  using assms by (induction js) (auto simp: add_overflow_u64_def Let_def split: option.splits)

text \<open>The file part of a page lies in the file part of the segment.\<close>

lemma elf_page_copy_ok:
  assumes "length img < 2 ^ 64" and "segment_check img ph = 0"
  shows "elf_page_copy img ph page_va phys s \<noteq> Fault"
proof -
  define cs where "cs = (if page_va > p_vaddr ph then page_va else p_vaddr ph)"
  define ce where "ce = (if page_va + PAGE_SIZE < p_vaddr ph + p_filesz ph then page_va + PAGE_SIZE else p_vaddr ph + p_filesz ph)"
  let ?V = "unat (p_vaddr ph)" and ?F = "unat (p_filesz ph)" and ?O = "unat (p_offset ph)" and ?L = "length img"
  have chk: "p_filesz ph \<le> p_memsz ph" "\<not> p_offset ph + p_filesz ph < p_offset ph" "\<not> p_vaddr ph + p_memsz ph < p_vaddr ph"
    "p_offset ph + p_filesz ph \<le> word_of_nat ?L"
    using assms(2) by (auto simp: segment_check_def add_overflow_u64_def Let_def not_less split: if_splits)
  have no_wrap: "unat (a + b) = unat a + unat b" if "\<not> a + b < a" for a b :: u64
    using that unat_plus_simple [of a b] by (simp add: not_less)
  have VM: "?V + unat (p_memsz ph) < 2 ^ 64" using no_wrap [OF chk(3)] unsigned_less [of "p_vaddr ph + p_memsz ph", where ?'a = nat] by simp
  have VF: "unat (p_vaddr ph + p_filesz ph) = ?V + ?F"
    using VM chk(1) by (simp add: unat_word_ariths word_le_nat_alt)
  have OF: "?O + ?F \<le> ?L" using chk(4) no_wrap [OF chk(2)] unat_length [OF assms(1)] by (simp add: word_le_nat_alt)
  have "fetch img (p_offset ph + (cs - p_vaddr ph)) (unat (ce - cs)) \<noteq> None" if "cs < ce"
  proof -
    have b: "?V \<le> unat cs" "unat cs < unat ce" "unat ce \<le> ?V + ?F"
      using that VF by (auto simp: cs_def ce_def word_less_nat_alt not_less)
    have "unat (cs - p_vaddr ph) = unat cs - ?V" "unat (ce - cs) = unat ce - unat cs"
      using b by (simp_all add: unat_sub word_le_nat_alt)
    moreover have "unat (p_offset ph + (cs - p_vaddr ph)) = ?O + (unat cs - ?V)"
      using b OF assms(1) calculation(1) by (simp add: unat_word_ariths)
    ultimately show ?thesis using b OF by (simp add: fetch_def)
  qed
  then show ?thesis
    unfolding elf_page_copy_def Let_def cs_def [symmetric] ce_def [symmetric] by (auto split: option.splits)
qed

lemma elf_load_pages_ok:
  assumes "length img < 2 ^ 64" and "segment_check img ph = 0"
  shows "elf_load_pages n img ph pml4 page_va flags s \<noteq> Fault"
proof (induction n arbitrary: page_va s)
  case (Suc n)
  have "elf_page_frame pml4 page_va flags s \<noteq> Fault"
    by (auto simp: elf_page_frame_def elf_fail_def Let_def split: prod.splits)
  with Suc elf_page_copy_ok [OF assms] show ?case by (auto split: elf_step.splits prod.splits)
qed simp

lemma elf_load_segment_ok:
  assumes "length img < 2 ^ 64" and "ehdr_check img eh = 0" and "i < unat (e_phnum eh)"
  shows "elf_load_segment img eh i pml4 acc \<noteq> Fault"
proof -
  obtain ph where ph: "phdr_at img eh i = Some ph" using phdr_at_ok [OF assms] by auto
  have "overlaps_previous img eh ph [0..<i] \<noteq> None"
    by (rule overlaps_previous_ok) (use phdr_at_ok [OF assms(1,2)] assms(3) in simp)
  then obtain ov where ov: "overlaps_previous img eh ph [0..<i] = Some ov" by auto
  obtain n c s where acc: "acc = (n, c, s)" by (cases acc)
  show ?thesis
    using elf_load_pages_ok [OF assms(1), of ph] unfolding acc elf_load_segment_def prod.case ph ov option.case
    by (cases ov) (auto simp: elf_fail_def Let_def split: elf_step.splits)
qed

lemma elf_map_stack_ok: "elf_map_stack n pml4 va s \<noteq> Fault"
  by (induction n arbitrary: va s) (auto simp: elf_fail_def Let_def split: prod.splits)

lemma elf_load_segments_ok:
  assumes "length img < 2 ^ 64" and "ehdr_check img eh = 0" and "\<And>i. i \<in> set is \<Longrightarrow> i < unat (e_phnum eh)"
  shows "elf_load_segments img eh is pml4 acc \<noteq> Fault"
  using assms(3)
proof (induction "is" arbitrary: acc)
  case (Cons i "is")
  then show ?case using elf_load_segment_ok [OF assms(1,2), of i pml4 acc] by (auto split: elf_step.splits)
qed simp

text \<open>
  C22. The loader is memory safe on any input: whatever bytes an image consists of, \<open>elf_load\<close> never reads
  outside it, neither for the header, nor for a program header, nor for the file part of a segment.
\<close>

theorem elf_load_reads_in_bounds: "length img < 2 ^ 64 \<Longrightarrow> elf_load img s \<noteq> Elf_fault"
  unfolding elf_load_def Let_def
  using elf_load_segments_ok [of img "parse_ehdr (take EHDR_SIZE img)" "[0..<unat (e_phnum (parse_ehdr (take EHDR_SIZE img)))]"]
    elf_map_stack_ok
  by (auto simp: fetch_def elf_finish_def elf_fail_def split: prod.splits elf_step.splits if_splits)

theorem elf_load_reads_in_bounds_witness:
  "elf_load (replicate 64 (0x7F :: u8)) mm_example \<noteq> Elf_fault"
  by (rule elf_load_reads_in_bounds) simp

end
