(* ===== verification/Block.thy ===== *)
theory Block
  imports Pmm
begin

text \<open>
  The block layer (\<open>kernel/block.c\<close>): registration of ATA, AHCI and NVMe devices, the commands built for an AHCI
  port, and reads, writes and flushes with the range check and the cutting into commands. The ATA, ATAPI and NVMe drivers and the
  execution of a command by an AHCI port are parameters; \<open>drivers_ok\<close> states what is relied on. The data page of an
  AHCI port is the list of bytes handed to it; register writes that only start or stop a port, and the device locks, have no counterpart.
\<close>


subsection \<open>Devices\<close>

abbreviation (input) BLOCK_MAX_DEVICES :: nat where "BLOCK_MAX_DEVICES \<equiv> 8"
abbreviation (input) AHCI_PORTS :: nat where "AHCI_PORTS \<equiv> 32"
abbreviation (input) AHCI_SIG_ATA :: u32 where "AHCI_SIG_ATA \<equiv> 0x101"
abbreviation (input) AHCI_CAP_S64A :: u32 where "AHCI_CAP_S64A \<equiv> 0x80000000"
abbreviation (input) AHCI_FIS_REG_H2D :: u8 where "AHCI_FIS_REG_H2D \<equiv> 0x27"
abbreviation (input) AHCI_ATA_IDENTIFY :: u8 where "AHCI_ATA_IDENTIFY \<equiv> 0xEC"
abbreviation (input) AHCI_ATA_READ_DMA_EXT :: u8 where "AHCI_ATA_READ_DMA_EXT \<equiv> 0x25"
abbreviation (input) AHCI_ATA_WRITE_DMA_EXT :: u8 where "AHCI_ATA_WRITE_DMA_EXT \<equiv> 0x35"
abbreviation (input) AHCI_CMD_WRITE :: u8 where "AHCI_CMD_WRITE \<equiv> 0x40"

datatype block_transport = BLOCK_TRANSPORT_ATA | BLOCK_TRANSPORT_AHCI | BLOCK_TRANSPORT_NVME
datatype ata_device_type = ATA_TYPE_NONE | ATA_TYPE_HDD | ATA_TYPE_CDROM

record block_device =
  bd_id :: int
  block_size :: u32
  block_count :: u64
  bd_writable :: bool
  transport :: block_transport
  bd_name :: string

record block_binding =
  device :: block_device
  ata_index :: int
  ata_type :: ata_device_type
  ahci_port_index :: int
  nvme_index :: int

record dma_buffer =
  dma_phys :: u64
  dma_pages :: u32

record blocks =
  g_devices :: "block_binding list"
  g_ahci_dma :: "nat \<Rightarrow> dma_buffer"

text \<open>
  What one AHCI command puts into memory for the controller: the command header's flags and table
  address, the command FIS, and the single entry of the physical region table.
\<close>

record ahci_cmd =
  hdr_flags :: u8
  hdr_prdtl :: u16
  hdr_ctba :: u64
  cfis :: "u8 list"
  prdt_dba :: u64
  prdt_dbc :: u32

text \<open>
  The drivers below the block layer and the hardware, on a state \<open>'d\<close> of their own. \<open>ahci_execute\<close> is a
  port executing the command in its slot 0 with the given bytes in the data page: \<open>None\<close> stands for a port
  that is not ready, a task file error or a timeout; otherwise the result is the data page afterwards.
\<close>

record 'd drivers =
  nvme_read :: "int \<Rightarrow> u64 \<Rightarrow> u32 \<Rightarrow> 'd \<Rightarrow> int \<times> u8 list \<times> 'd"
  nvme_write :: "int \<Rightarrow> u64 \<Rightarrow> u32 \<Rightarrow> u8 list \<Rightarrow> 'd \<Rightarrow> int \<times> 'd"
  nvme_flush :: "int \<Rightarrow> 'd \<Rightarrow> int \<times> 'd"
  ata_read_sectors_drive :: "int \<Rightarrow> u32 \<Rightarrow> u8 \<Rightarrow> 'd \<Rightarrow> u8 list option \<times> 'd"
  ata_write_sectors_drive :: "int \<Rightarrow> u32 \<Rightarrow> u8 \<Rightarrow> u8 list \<Rightarrow> 'd \<Rightarrow> bool \<times> 'd"
  ata_flush_drive :: "int \<Rightarrow> 'd \<Rightarrow> bool \<times> 'd"
  atapi_read_sectors :: "int \<Rightarrow> u32 \<Rightarrow> u32 \<Rightarrow> 'd \<Rightarrow> u8 list option \<times> 'd"
  ahci_execute :: "nat \<Rightarrow> ahci_cmd \<Rightarrow> u8 list \<Rightarrow> 'd \<Rightarrow> u8 list option \<times> 'd"

subsection \<open>DMA buffers\<close>

definition block_dma_alloc :: "u32 \<Rightarrow> mm \<Rightarrow> dma_buffer option \<times> mm" where
  "block_dma_alloc pages s =
     (if pages = 0 then (None, s)
      else
        let (phys, s1) = pmm_alloc_pages (ucast pages) s in
        if phys = 0 then (None, s1)
        else (Some \<lparr>dma_phys = phys, dma_pages = pages\<rparr>,
              s1\<lparr>phys_mem := zero_words (drop_bit 3 phys) (ucast pages * PAGE_SIZE div 8) (phys_mem s1)\<rparr>))"

definition block_dma_free :: "dma_buffer \<Rightarrow> mm \<Rightarrow> dma_buffer \<times> mm" where
  "block_dma_free buffer s =
     (if dma_phys buffer = 0 then (buffer, s)
      else (\<lparr>dma_phys = 0, dma_pages = 0\<rparr>, snd (pmm_free_pages (dma_phys buffer) (ucast (dma_pages buffer)) s)))"

subsection \<open>AHCI commands\<close>

definition fis_zero :: "u8 list" where
  "fis_zero = replicate 64 0"

definition lo32 :: "u64 \<Rightarrow> u64" where
  "lo32 a = ucast (ucast a :: u32)"

text \<open>The 64-bit address registers are written as two 32-bit halves.\<close>

definition split_addr :: "u64 \<Rightarrow> u64" where
  "split_addr a = lo32 a OR push_bit 32 (lo32 (drop_bit 32 a))"

definition ahci_identify_cmd :: "dma_buffer \<Rightarrow> ahci_cmd" where
  "ahci_identify_cmd dma =
     \<lparr>hdr_flags = 0, hdr_prdtl = 1, hdr_ctba = split_addr (dma_phys dma + PAGE_SIZE),
      cfis = fis_zero[0 := AHCI_FIS_REG_H2D, 1 := 0x80, 2 := AHCI_ATA_IDENTIFY],
      prdt_dba = split_addr (dma_phys dma + 2 * PAGE_SIZE), prdt_dbc = 511\<rparr>"

definition ahci_transfer_cmd :: "dma_buffer \<Rightarrow> u64 \<Rightarrow> u16 \<Rightarrow> bool \<Rightarrow> ahci_cmd" where
  "ahci_transfer_cmd dma lba count write =
     \<lparr>hdr_flags = (if write then AHCI_CMD_WRITE else 0), hdr_prdtl = 1,
      hdr_ctba = split_addr (dma_phys dma + PAGE_SIZE),
      cfis = fis_zero[0 := AHCI_FIS_REG_H2D, 1 := 0x80,
               2 := (if write then AHCI_ATA_WRITE_DMA_EXT else AHCI_ATA_READ_DMA_EXT),
               4 := ucast lba, 5 := ucast (drop_bit 8 lba), 6 := ucast (drop_bit 16 lba),
               7 := 0x40, 8 := ucast (drop_bit 24 lba), 9 := ucast (drop_bit 32 lba), 10 := ucast (drop_bit 40 lba),
               12 := ucast count, 13 := ucast (drop_bit 8 count)],
      prdt_dba = split_addr (dma_phys dma + 2 * PAGE_SIZE), prdt_dbc = ucast count * 512 - 1\<rparr>"

definition ahci_flush_cmd :: "dma_buffer \<Rightarrow> ahci_cmd" where
  "ahci_flush_cmd dma =
     \<lparr>hdr_flags = 0, hdr_prdtl = 0, hdr_ctba = split_addr (dma_phys dma + PAGE_SIZE),
      cfis = fis_zero[0 := AHCI_FIS_REG_H2D, 1 := 0x80, 2 := 0xEA], prdt_dba = 0, prdt_dbc = 0\<rparr>"

definition ahci_prepare_port :: "nat \<Rightarrow> bool \<Rightarrow> blocks \<Rightarrow> mm \<Rightarrow> bool \<times> blocks \<times> mm" where
  "ahci_prepare_port index supports_64bit b s =
     (let (dma, s1) = (if dma_phys (g_ahci_dma b index) = 0 then block_dma_alloc 3 s
                       else (Some (g_ahci_dma b index), s))
      in case dma of
           None \<Rightarrow> (False, b, s1)
         | Some dma \<Rightarrow>
             let b1 = b\<lparr>g_ahci_dma := (g_ahci_dma b)(index := dma)\<rparr> in
             if \<not> supports_64bit \<and> drop_bit 32 (dma_phys dma) \<noteq> 0
             then let (dma', s2) = block_dma_free dma s1
                  in (False, b1\<lparr>g_ahci_dma := (g_ahci_dma b1)(index := dma')\<rparr>, s2)
             else (True, b1, s1\<lparr>phys_mem := zero_words (drop_bit 3 (dma_phys dma)) (PAGE_SIZE * 3 div 8) (phys_mem s1)\<rparr>))"

fun words16 :: "u8 list \<Rightarrow> u16 list" where
  "words16 (lo # hi # rest) = (ucast lo OR push_bit 8 (ucast hi)) # words16 rest"
| "words16 _ = []"

definition ahci_identify :: "'d drivers \<Rightarrow> nat \<Rightarrow> blocks \<Rightarrow> 'd \<Rightarrow> u16 list option \<times> 'd" where
  "ahci_identify drv index b d =
     (let (out, d1) = ahci_execute drv index (ahci_identify_cmd (g_ahci_dma b index)) [] d
      in (map_option (\<lambda>bs. words16 (take 512 bs)) out, d1))"

text \<open>
  \<open>ahci_transfer\<close> for reading and for writing; the copy between the caller's buffer and the data page
  is the \<open>take\<close> of \<open>count * 512\<close> bytes.
\<close>

definition ahci_transfer_ok :: "nat \<Rightarrow> u64 \<Rightarrow> u16 \<Rightarrow> blocks \<Rightarrow> bool" where
  "ahci_transfer_ok index lba count b \<longleftrightarrow>
     \<not> (count = 0 \<or> count > 8 \<or> lba > 0x0000FFFFFFFFFFFF) \<and> dma_phys (g_ahci_dma b index) \<noteq> 0"

definition ahci_transfer_read :: "'d drivers \<Rightarrow> blocks \<Rightarrow> nat \<Rightarrow> u64 \<Rightarrow> u16 \<Rightarrow> 'd \<Rightarrow> u8 list option \<times> 'd" where
  "ahci_transfer_read drv b index lba count d =
     (if \<not> ahci_transfer_ok index lba count b then (None, d)
      else let (out, d1) = ahci_execute drv index (ahci_transfer_cmd (g_ahci_dma b index) lba count False) [] d
           in (map_option (take (unat count * 512)) out, d1))"

definition ahci_transfer_write :: "'d drivers \<Rightarrow> blocks \<Rightarrow> nat \<Rightarrow> u64 \<Rightarrow> u16 \<Rightarrow> u8 list \<Rightarrow> 'd \<Rightarrow> bool \<times> 'd" where
  "ahci_transfer_write drv b index lba count buffer d =
     (if \<not> ahci_transfer_ok index lba count b then (False, d)
      else let (out, d1) = ahci_execute drv index (ahci_transfer_cmd (g_ahci_dma b index) lba count True)
                             (take (unat count * 512) buffer) d
           in (out \<noteq> None, d1))"

definition ahci_flush :: "'d drivers \<Rightarrow> blocks \<Rightarrow> nat \<Rightarrow> 'd \<Rightarrow> int \<times> 'd" where
  "ahci_flush drv b index d =
     (if dma_phys (g_ahci_dma b index) = 0 then (- 1, d)
      else let (out, d1) = ahci_execute drv index (ahci_flush_cmd (g_ahci_dma b index)) [] d
           in (if out = None then - 1 else 0, d1))"

subsection \<open>Discovery\<close>

definition name_copy :: "string \<Rightarrow> string" where
  "name_copy src = take 23 src"

text \<open>The registers of the host bus adapter that the probe reads.\<close>

record ahci_hba =
  hba_cap :: u32
  hba_pi :: u32
  port_ssts :: "nat \<Rightarrow> u32"
  port_sig :: "nat \<Rightarrow> u32"

definition identify_sectors :: "u16 list \<Rightarrow> u64" where
  "identify_sectors w =
     (if bit (w ! 83) 10
      then ucast (w ! 100) OR push_bit 16 (ucast (w ! 101)) OR push_bit 32 (ucast (w ! 102)) OR push_bit 48 (ucast (w ! 103))
      else 0)"

definition push_name_char :: "u8 \<Rightarrow> string \<Rightarrow> string" where
  "push_name_char c name = (if c \<noteq> 0 \<and> c \<noteq> 0x20 \<and> length name < 23 then name @ [char_of (unat c)] else name)"

fun identify_name :: "u16 list \<Rightarrow> string \<Rightarrow> string" where
  "identify_name [] name = name"
| "identify_name (w # ws) name =
     (if length name < 23
      then identify_name ws (push_name_char (ucast w) (push_name_char (ucast (drop_bit 8 w)) name))
      else name)"

definition ahci_port_present :: "ahci_hba \<Rightarrow> nat \<Rightarrow> bool" where
  "ahci_port_present hba i \<longleftrightarrow>
     bit (hba_pi hba) i \<and> port_ssts hba i AND 0x0F = 3 \<and> drop_bit 8 (port_ssts hba i) AND 0x0F = 1 \<and>
     port_sig hba i = AHCI_SIG_ATA"

definition ahci_binding :: "nat \<Rightarrow> nat \<Rightarrow> u16 list \<Rightarrow> block_binding" where
  "ahci_binding n i w =
     (let name = identify_name (map ((!) w) [27..<47]) [] in
      \<lparr>device = \<lparr>bd_id = int n, block_size = 512, block_count = identify_sectors w, bd_writable = True,
                 transport = BLOCK_TRANSPORT_AHCI, bd_name = (if name = [] then name_copy ''AHCI SATA'' else name)\<rparr>,
       ata_index = - 1, ata_type = ATA_TYPE_HDD, ahci_port_index = int i, nvme_index = - 1\<rparr>)"

definition ahci_probe_port :: "'d drivers \<Rightarrow> ahci_hba \<Rightarrow> nat \<Rightarrow> blocks \<times> mm \<times> 'd \<times> nat \<Rightarrow> blocks \<times> mm \<times> 'd \<times> nat" where
  "ahci_probe_port drv hba i = (\<lambda>(b, s, d, found).
     if \<not> ahci_port_present hba i then (b, s, d, found)
     else case ahci_prepare_port i (hba_cap hba AND AHCI_CAP_S64A \<noteq> 0) b s of
            (False, b1, s1) \<Rightarrow> (b1, s1, d, found)
          | (True, b1, s1) \<Rightarrow>
              (let (out, d1) = ahci_identify drv i b1 d;
                   sectors = (case out of None \<Rightarrow> 0 | Some w \<Rightarrow> identify_sectors w)
               in if out = None \<or> sectors = 0 \<or> length (g_devices b1) \<ge> BLOCK_MAX_DEVICES
                  then let (dma', s2) = block_dma_free (g_ahci_dma b1 i) s1
                       in (b1\<lparr>g_ahci_dma := (g_ahci_dma b1)(i := dma')\<rparr>, s2, d1, found)
                  else (b1\<lparr>g_devices := g_devices b1 @ [ahci_binding (length (g_devices b1)) i (the out)]\<rparr>, s1, d1, found + 1)))"

text \<open>The mapping of the register file is present (\<open>g_hhdm_offset\<close> is not 0 after boot).\<close>

definition ahci_probe :: "'d drivers \<Rightarrow> u64 \<Rightarrow> ahci_hba \<Rightarrow> blocks \<times> mm \<times> 'd \<Rightarrow> int \<times> blocks \<times> mm \<times> 'd" where
  "ahci_probe drv abar hba = (\<lambda>(b, s, d).
     if abar = 0 then (- 1, b, s, d)
     else let (b', s', d', found) = fold (ahci_probe_port drv hba) [0..<AHCI_PORTS] (b, s, d, 0)
          in (int found, b', s', d'))"

record ata_device =
  present :: bool
  drive_type :: ata_device_type
  drive_model :: string
  total_sectors :: u64
  sector_size :: u32

record nvme_namespace_info =
  ns_block_size :: u32
  ns_block_count :: u64
  ns_model :: string

text \<open>
  What the buses report: the drives of the ATA driver (\<open>None\<close> for a null pointer), the AHCI controller with its
  register address, whether that address is an I/O port, whether the device could be enabled, and its registers,
  and the NVMe controller with the number of namespaces \<open>nvme_init\<close> returns.
\<close>

record platform =
  ata_drives :: "ata_device option list"
  ahci_controller :: "(u64 \<times> bool \<times> bool \<times> ahci_hba) option"
  nvme_controller :: "(bool \<times> bool \<times> int) option"
  nvme_namespace :: "int \<Rightarrow> nvme_namespace_info option"

definition ata_binding :: "nat \<Rightarrow> int \<Rightarrow> ata_device \<Rightarrow> block_binding" where
  "ata_binding n i drive =
     \<lparr>device = \<lparr>bd_id = int n, block_size = sector_size drive, block_count = total_sectors drive,
                bd_writable = (drive_type drive = ATA_TYPE_HDD), transport = BLOCK_TRANSPORT_ATA,
                bd_name = name_copy (drive_model drive)\<rparr>,
      ata_index = i, ata_type = drive_type drive, ahci_port_index = - 1, nvme_index = - 1\<rparr>"

definition nvme_binding :: "nat \<Rightarrow> int \<Rightarrow> nvme_namespace_info \<Rightarrow> block_binding" where
  "nvme_binding n i info =
     \<lparr>device = \<lparr>bd_id = int n, block_size = ns_block_size info, block_count = ns_block_count info,
                bd_writable = True, transport = BLOCK_TRANSPORT_NVME, bd_name = name_copy (ns_model info)\<rparr>,
      ata_index = - 1, ata_type = ATA_TYPE_HDD, ahci_port_index = - 1, nvme_index = i\<rparr>"

fun register_ata :: "int \<Rightarrow> ata_device option list \<Rightarrow> block_binding list \<Rightarrow> block_binding list" where
  "register_ata i [] devs = devs"
| "register_ata i (drive # drives) devs =
     (if length devs < BLOCK_MAX_DEVICES
      then register_ata (i + 1) drives
             (case drive of
                None \<Rightarrow> devs
              | Some dr \<Rightarrow>
                  if \<not> present dr \<or> sector_size dr = 0 \<or> total_sectors dr = 0 then devs
                  else devs @ [ata_binding (length devs) i dr])
      else devs)"

fun register_nvme :: "(int \<Rightarrow> nvme_namespace_info option) \<Rightarrow> int \<Rightarrow> nat \<Rightarrow> block_binding list \<Rightarrow> block_binding list" where
  "register_nvme info i 0 devs = devs"
| "register_nvme info i (Suc n) devs =
     (if length devs < BLOCK_MAX_DEVICES
      then register_nvme info (i + 1) n
             (case info i of None \<Rightarrow> devs | Some ns \<Rightarrow> devs @ [nvme_binding (length devs) i ns])
      else devs)"

definition block_init :: "'d drivers \<Rightarrow> platform \<Rightarrow> blocks \<times> mm \<times> 'd \<Rightarrow> int \<times> blocks \<times> mm \<times> 'd" where
  "block_init drv pf = (\<lambda>(b, s, d).
     let b1 = b\<lparr>g_devices := register_ata 0 (ata_drives pf) []\<rparr>;
         (b2, s2, d2) =
           (case ahci_controller pf of
              None \<Rightarrow> (b1, s, d)
            | Some (abar, is_io, enabled, hba) \<Rightarrow>
                if enabled \<and> \<not> is_io then snd (ahci_probe drv abar hba (b1, s, d)) else (b1, s, d));
         b3 =
           (case nvme_controller pf of
              None \<Rightarrow> b2
            | Some (is_io, enabled, namespaces) \<Rightarrow>
                if enabled \<and> \<not> is_io
                then b2\<lparr>g_devices := register_nvme (nvme_namespace pf) 0 (nat namespaces) (g_devices b2)\<rparr>
                else b2)
     in (int (length (g_devices b3)), b3, s2, d2))"

definition block_device_count :: "blocks \<Rightarrow> int" where
  "block_device_count b = int (length (g_devices b))"

definition block_get_device :: "int \<Rightarrow> blocks \<Rightarrow> block_device option" where
  "block_get_device i b = (if i \<ge> 0 \<and> i < int (length (g_devices b)) then Some (device (g_devices b ! nat i)) else None)"

subsection \<open>Transfers\<close>

definition range_valid :: "block_device \<Rightarrow> u64 \<Rightarrow> u32 \<Rightarrow> bool" where
  "range_valid dev lba count \<longleftrightarrow> count \<noteq> 0 \<and> lba < block_count dev \<and> ucast count \<le> block_count dev - lba"

text \<open>
  The transfer loops of \<open>block_read\<close> and \<open>block_write\<close>: at most \<open>limit\<close> sectors at a time (8 over AHCI, 255 over
  ATA; the test for 0 only makes the recursion well-founded). A read returns the status and the bytes it
  stored into the buffer; \<open>sector_bytes\<close> is the advance of the buffer pointer per sector.
\<close>

function read_chunks :: "(u64 \<Rightarrow> u32 \<Rightarrow> 'd \<Rightarrow> u8 list option \<times> 'd) \<Rightarrow> u32 \<Rightarrow> u64 \<Rightarrow> u32 \<Rightarrow> 'd \<Rightarrow> int \<times> u8 list \<times> 'd" where
  "read_chunks transfer limit lba count d =
     (if count = 0 \<or> limit = 0 then (0, [], d)
      else
        let chunk = (if count > limit then limit else count) in
        case transfer lba chunk d of
          (None, d1) \<Rightarrow> (- 1, [], d1)
        | (Some bs, d1) \<Rightarrow>
            let (r, rest, d2) = read_chunks transfer limit (lba + ucast chunk) (count - chunk) d1
            in (r, bs @ rest, d2))"
  by pat_completeness auto

termination read_chunks
  by (relation "measure (\<lambda>(_, _, _, count, _). unat count)")
    (auto simp: word_less_nat_alt not_less unat_sub word_le_nat_alt unat_gt_0)

function write_chunks :: "(u64 \<Rightarrow> u32 \<Rightarrow> u8 list \<Rightarrow> 'd \<Rightarrow> bool \<times> 'd) \<Rightarrow> u32 \<Rightarrow> nat \<Rightarrow> u64 \<Rightarrow> u32 \<Rightarrow> u8 list \<Rightarrow> 'd \<Rightarrow> int \<times> 'd" where
  "write_chunks transfer limit sector_bytes lba count buffer d =
     (if count = 0 \<or> limit = 0 then (0, d)
      else
        let chunk = (if count > limit then limit else count) in
        case transfer lba chunk buffer d of
          (False, d1) \<Rightarrow> (- 1, d1)
        | (True, d1) \<Rightarrow>
            write_chunks transfer limit sector_bytes (lba + ucast chunk) (count - chunk) (drop (unat chunk * sector_bytes) buffer) d1)"
  by pat_completeness auto

termination write_chunks
  by (relation "measure (\<lambda>(_, _, _, _, count, _). unat count)")
    (auto simp: word_less_nat_alt not_less unat_sub word_le_nat_alt unat_gt_0)

declare read_chunks.simps [simp del] write_chunks.simps [simp del]

text \<open>The drive addresses of the ATA commands have 32 bits.\<close>

definition lba32_ok :: "u64 \<Rightarrow> u32 \<Rightarrow> bool" where
  "lba32_ok lba count \<longleftrightarrow> \<not> (lba > 0xFFFFFFFF \<or> (ucast count :: u64) - 1 > 0xFFFFFFFF - lba)"

definition block_read :: "'d drivers \<Rightarrow> int \<Rightarrow> u64 \<Rightarrow> u32 \<Rightarrow> blocks \<Rightarrow> 'd \<Rightarrow> int \<times> u8 list \<times> 'd" where
  "block_read drv i lba count b d =
     (if i < 0 \<or> i \<ge> int (length (g_devices b)) \<or> \<not> range_valid (device (g_devices b ! nat i)) lba count then (- 1, [], d)
      else
        let binding = g_devices b ! nat i in
        if transport (device binding) = BLOCK_TRANSPORT_NVME then nvme_read drv (nvme_index binding) lba count d
        else if transport (device binding) = BLOCK_TRANSPORT_AHCI
        then read_chunks (\<lambda>l c. ahci_transfer_read drv b (nat (ahci_port_index binding)) l (ucast c)) 8 lba count d
        else if \<not> lba32_ok lba count then (- 1, [], d)
        else if ata_type binding = ATA_TYPE_CDROM
        then case atapi_read_sectors drv (ata_index binding) (ucast lba) count d of
               (None, d1) \<Rightarrow> (- 1, [], d1)
             | (Some bs, d1) \<Rightarrow> (0, bs, d1)
        else read_chunks (\<lambda>l c. ata_read_sectors_drive drv (ata_index binding) (ucast l) (ucast c)) 255 lba count d)"

definition block_write :: "'d drivers \<Rightarrow> int \<Rightarrow> u64 \<Rightarrow> u32 \<Rightarrow> u8 list \<Rightarrow> blocks \<Rightarrow> 'd \<Rightarrow> int \<times> 'd" where
  "block_write drv i lba count buffer b d =
     (if i < 0 \<or> i \<ge> int (length (g_devices b)) \<or> \<not> bd_writable (device (g_devices b ! nat i)) \<or>
         \<not> range_valid (device (g_devices b ! nat i)) lba count then (- 1, d)
      else
        let binding = g_devices b ! nat i in
        if transport (device binding) = BLOCK_TRANSPORT_NVME then nvme_write drv (nvme_index binding) lba count buffer d
        else if transport (device binding) = BLOCK_TRANSPORT_AHCI
        then write_chunks (\<lambda>l c. ahci_transfer_write drv b (nat (ahci_port_index binding)) l (ucast c)) 8 512 lba count buffer d
        else if \<not> lba32_ok lba count then (- 1, d)
        else write_chunks (\<lambda>l c. ata_write_sectors_drive drv (ata_index binding) (ucast l) (ucast c)) 255
               (unat (block_size (device binding))) lba count buffer d)"

definition block_flush :: "'d drivers \<Rightarrow> int \<Rightarrow> blocks \<Rightarrow> 'd \<Rightarrow> int \<times> 'd" where
  "block_flush drv i b d =
     (if i < 0 \<or> i \<ge> int (length (g_devices b)) \<or> \<not> bd_writable (device (g_devices b ! nat i)) then (- 1, d)
      else
        let binding = g_devices b ! nat i in
        case transport (device binding) of
          BLOCK_TRANSPORT_NVME \<Rightarrow> nvme_flush drv (nvme_index binding) d
        | BLOCK_TRANSPORT_AHCI \<Rightarrow> ahci_flush drv b (nat (ahci_port_index binding)) d
        | BLOCK_TRANSPORT_ATA \<Rightarrow>
            (let (ok, d1) = ata_flush_drive drv (ata_index binding) d in (if ok then 0 else - 1, d1)))"

subsection \<open>What the drivers are relied on for\<close>

text \<open>
  A medium is named by its transport and the driver's index for it; \<open>view d m l\<close> are the bytes of sector \<open>l\<close> of
  medium \<open>m\<close> in driver state \<open>d\<close>, \<open>bytes_of m\<close> its sector size.
\<close>

type_synonym medium = "block_transport \<times> int"
type_synonym 'd media = "'d \<Rightarrow> medium \<Rightarrow> nat \<Rightarrow> u8 list"

definition span :: "(nat \<Rightarrow> u8 list) \<Rightarrow> nat \<Rightarrow> nat \<Rightarrow> u8 list" where
  "span v l n = concat (map v [l..<l + n])"

definition overwrite :: "nat \<Rightarrow> nat \<Rightarrow> nat \<Rightarrow> u8 list \<Rightarrow> (nat \<Rightarrow> u8 list) \<Rightarrow> nat \<Rightarrow> u8 list" where
  "overwrite ss l n buf v = (\<lambda>k. if l \<le> k \<and> k < l + n then take ss (drop ((k - l) * ss) buf) else v k)"

text \<open>A failed write may have reached any part of its range, and nothing else.\<close>

definition within :: "nat \<Rightarrow> nat \<Rightarrow> (nat \<Rightarrow> u8 list) \<Rightarrow> (nat \<Rightarrow> u8 list) \<Rightarrow> bool" where
  "within l n v v' \<longleftrightarrow> (\<forall>k. k < l \<or> l + n \<le> k \<longrightarrow> v' k = v k)"

definition reads :: "'d media \<Rightarrow> medium \<Rightarrow> nat \<Rightarrow> nat \<Rightarrow> u8 list option \<times> 'd \<Rightarrow> 'd \<Rightarrow> bool" where
  "reads view m l n res d \<longleftrightarrow> view (snd res) = view d \<and> (\<forall>bs. fst res = Some bs \<longrightarrow> bs = span (view d m) l n)"

definition writes :: "'d media \<Rightarrow> (medium \<Rightarrow> nat) \<Rightarrow> medium \<Rightarrow> nat \<Rightarrow> nat \<Rightarrow> u8 list \<Rightarrow> bool \<times> 'd \<Rightarrow> 'd \<Rightarrow> bool" where
  "writes view bytes_of m l n buf res d \<longleftrightarrow>
     (\<forall>m'. m' \<noteq> m \<longrightarrow> view (snd res) m' = view d m') \<and>
     within l n (view d m) (view (snd res) m) \<and>
     (fst res \<and> n * bytes_of m \<le> length buf \<longrightarrow> view (snd res) m = overwrite (bytes_of m) l n buf (view d m))"

text \<open>The fields of a register FIS as the ATA command set defines them (48-bit address, 16-bit count).\<close>

definition fis_lba :: "u8 list \<Rightarrow> u64" where
  "fis_lba f = ucast (f ! 4) OR push_bit 8 (ucast (f ! 5)) OR push_bit 16 (ucast (f ! 6)) OR
     push_bit 24 (ucast (f ! 8)) OR push_bit 32 (ucast (f ! 9)) OR push_bit 40 (ucast (f ! 10))"

definition fis_count :: "u8 list \<Rightarrow> u16" where
  "fis_count f = ucast (f ! 12) OR push_bit 8 (ucast (f ! 13))"

text \<open>
  The documented behaviour of the drivers and of an AHCI port: a command that reports success has moved
  exactly the sectors it was given; reads change no medium; writes stay in their range. An AHCI port takes the sectors
  from the command FIS and moves \<open>dbc + 1\<close> bytes of the data page, where that is what the sectors hold.
\<close>

definition drivers_ok :: "'d drivers \<Rightarrow> 'd media \<Rightarrow> (medium \<Rightarrow> nat) \<Rightarrow> bool" where
  "drivers_ok drv view bytes_of \<longleftrightarrow>
     (\<forall>d m l. length (view d m l) = bytes_of m) \<and>
     (\<forall>i lba count d r bs d'. nvme_read drv i lba count d = (r, bs, d') \<longrightarrow>
        reads view (BLOCK_TRANSPORT_NVME, i) (unat lba) (unat count) (if r = 0 then Some bs else None, d') d) \<and>
     (\<forall>i lba count buf d r d'. nvme_write drv i lba count buf d = (r, d') \<longrightarrow>
        writes view bytes_of (BLOCK_TRANSPORT_NVME, i) (unat lba) (unat count) buf (r = 0, d') d) \<and>
     (\<forall>i lba count d. reads view (BLOCK_TRANSPORT_ATA, i) (unat lba) (unat count) (ata_read_sectors_drive drv i lba count d) d) \<and>
     (\<forall>i lba count d. reads view (BLOCK_TRANSPORT_ATA, i) (unat lba) (unat count) (atapi_read_sectors drv i lba count d) d) \<and>
     (\<forall>i lba count buf d.
        writes view bytes_of (BLOCK_TRANSPORT_ATA, i) (unat lba) (unat count) buf (ata_write_sectors_drive drv i lba count buf d) d) \<and>
     (\<forall>p cmd data d out d'. ahci_execute drv p cmd data d = (out, d') \<longrightarrow> cfis cmd ! 2 = AHCI_ATA_READ_DMA_EXT \<longrightarrow>
        unat (prdt_dbc cmd) + 1 = unat (fis_count (cfis cmd)) * bytes_of (BLOCK_TRANSPORT_AHCI, int p) \<longrightarrow>
        reads view (BLOCK_TRANSPORT_AHCI, int p) (unat (fis_lba (cfis cmd))) (unat (fis_count (cfis cmd)))
          (map_option (take (unat (prdt_dbc cmd) + 1)) out, d') d) \<and>
     (\<forall>p cmd data d out d'. ahci_execute drv p cmd data d = (out, d') \<longrightarrow> cfis cmd ! 2 = AHCI_ATA_WRITE_DMA_EXT \<longrightarrow>
        unat (prdt_dbc cmd) + 1 = unat (fis_count (cfis cmd)) * bytes_of (BLOCK_TRANSPORT_AHCI, int p) \<longrightarrow>
        writes view bytes_of (BLOCK_TRANSPORT_AHCI, int p) (unat (fis_lba (cfis cmd))) (unat (fis_count (cfis cmd)))
          data (out \<noteq> None, d') d)"

definition binding_medium :: "block_binding \<Rightarrow> medium" where
  "binding_medium bi = (transport (device bi),
     case transport (device bi) of BLOCK_TRANSPORT_NVME \<Rightarrow> nvme_index bi | BLOCK_TRANSPORT_AHCI \<Rightarrow> ahci_port_index bi
       | BLOCK_TRANSPORT_ATA \<Rightarrow> ata_index bi)"

text \<open>The registered geometry is that of the medium.\<close>

definition binding_ok :: "(medium \<Rightarrow> nat) \<Rightarrow> block_binding \<Rightarrow> bool" where
  "binding_ok bytes_of bi \<longleftrightarrow>
     unat (block_size (device bi)) = bytes_of (binding_medium bi) \<and>
     (transport (device bi) = BLOCK_TRANSPORT_AHCI \<longrightarrow> 0 \<le> ahci_port_index bi \<and> block_size (device bi) = 512)"

subsection \<open>Spans\<close>

lemma span_add: "span v l (m + n) = span v l m @ span v (l + m) n"
proof -
  have "[l..<l + (m + n)] = [l..<l + m] @ [l + m..<l + m + n]"
    using upt_add_eq_append [of l "l + m" n] by (simp add: add.assoc)
  then show ?thesis by (simp add: span_def)
qed

lemma length_span: "(\<And>k. length (v k) = ss) \<Longrightarrow> length (span v l n) = n * ss"
  by (induction n) (simp_all add: span_def)

lemma span_overwrite:
  assumes "n * ss \<le> length buf"
  shows "span (overwrite ss l n buf v) l n = take (n * ss) buf"
proof -
  have "span (overwrite ss l n buf v) l k = take (k * ss) buf" if "k \<le> n" for k
    using that
  proof (induction k)
    case (Suc k)
    have "span (overwrite ss l n buf v) l (Suc k) = span (overwrite ss l n buf v) l k @ overwrite ss l n buf v (l + k)"
      using span_add [of "overwrite ss l n buf v" l k 1] by (simp add: span_def)
    also have "\<dots> = take (k * ss) buf @ take ss (drop (k * ss) buf)"
      using Suc by (simp add: overwrite_def)
    also have "\<dots> = take (k * ss + ss) buf" by (simp add: take_add)
    finally show ?case by (simp add: add.commute)
  qed (simp add: span_def)
  then show ?thesis by simp
qed

lemma overwrite_twice:
  assumes "c \<le> n" and "l' = l + c" and "buf' = drop (c * ss) buf"
  shows "overwrite ss l' (n - c) buf' (overwrite ss l c buf v) = overwrite ss l n buf v"
  unfolding overwrite_def assms(2,3)
proof (rule ext)
  fix k
  have "(k - l) * ss = (k - (l + c)) * ss + c * ss" if "l + c \<le> k"
    using that by (simp add: add_mult_distrib [symmetric])
  then show "(if l + c \<le> k \<and> k < l + c + (n - c) then take ss (drop ((k - (l + c)) * ss) (drop (c * ss) buf))
      else if l \<le> k \<and> k < l + c then take ss (drop ((k - l) * ss) buf) else v k) =
      (if l \<le> k \<and> k < l + n then take ss (drop ((k - l) * ss) buf) else v k)"
    using assms(1) by auto
qed

lemma within_overwrite: "within l n v (overwrite ss l n buf v)"
  by (auto simp: within_def overwrite_def)

subsection \<open>The transfer loops\<close>

lemma chunk_bounds:
  fixes count limit :: u32
  assumes "count \<noteq> 0" and "limit \<noteq> 0"
  defines "chunk \<equiv> (if count > limit then limit else count)"
  shows "chunk \<noteq> 0" and "unat chunk \<le> unat limit" and "unat chunk \<le> unat count" and "unat (count - chunk) = unat count - unat chunk"
    and "unat (count - chunk) < unat count"
  using assms by (auto simp: word_less_nat_alt not_less unat_sub word_le_nat_alt unat_gt_0)

lemma unat_lba_add:
  fixes lba :: u64 and chunk :: u32
  assumes "unat lba + unat chunk < 2 ^ 64"
  shows "unat (lba + ucast chunk) = unat lba + unat chunk"
proof -
  have "unat (ucast chunk :: u64) = unat chunk"
    by (simp add: unsigned_ucast_eq take_bit_nat_eq_self unsigned_less [of chunk, THEN less_trans])
  then show ?thesis using assms by (simp add: unat_word_ariths)
qed

lemma read_chunks_ok:
  assumes tr: "\<And>l c d. c \<noteq> 0 \<Longrightarrow> unat c \<le> unat limit \<Longrightarrow> unat l + unat c \<le> bound \<Longrightarrow>
      reads view m (unat l) (unat c) (transfer l c d) d"
    and "limit \<noteq> 0" and "bound < 2 ^ 64" and "unat lba + unat count \<le> bound"
    and "read_chunks transfer limit lba count d = (r, bs, d')"
  shows "view d' = view d \<and> (r = 0 \<or> r = - 1) \<and> (r = 0 \<longrightarrow> bs = span (view d m) (unat lba) (unat count))"
  using assms(4,5)
proof (induction "unat count" arbitrary: lba count d r bs d' rule: less_induct)
  case less
  show ?case
  proof (cases "count = 0")
    case True
    then show ?thesis using less.prems by (simp add: read_chunks.simps span_def)
  next
    case False
    define chunk where "chunk = (if count > limit then limit else count)"
    note cb = chunk_bounds [OF False assms(2), folded chunk_def]
    have t: "reads view m (unat lba) (unat chunk) (transfer lba chunk d) d"
      using tr cb less.prems(1) by simp
    obtain o1 d1 where tl: "transfer lba chunk d = (o1, d1)" by fastforce
    show ?thesis
    proof (cases o1)
      case None
      then show ?thesis using less.prems(2) t tl False assms(2)
        by (simp add: read_chunks.simps [of transfer limit lba count] chunk_def [symmetric] reads_def)
    next
      case (Some b1)
      obtain r2 b2 d2 where rc: "read_chunks transfer limit (lba + ucast chunk) (count - chunk) d1 = (r2, b2, d2)"
        by (cases "read_chunks transfer limit (lba + ucast chunk) (count - chunk) d1") auto
      have eq: "r = r2" "bs = b1 @ b2" "d' = d2"
        using less.prems(2) tl Some False assms(2) rc
        by (simp_all add: read_chunks.simps [of transfer limit lba count] chunk_def [symmetric])
      have l1: "unat (lba + ucast chunk) = unat lba + unat chunk"
        using unat_lba_add less.prems(1) cb(3) assms(3) by (meson add_left_mono le_less_trans order_trans)
      have "unat (lba + ucast chunk) + unat (count - chunk) \<le> bound"
        using l1 cb(3,4) less.prems(1) by simp
      note IH = less.hyps [OF cb(5) this rc]
      have "span (view d m) (unat lba) (unat count) =
          span (view d m) (unat lba) (unat chunk) @ span (view d m) (unat lba + unat chunk) (unat count - unat chunk)"
        using span_add [of "view d m" "unat lba" "unat chunk" "unat count - unat chunk"] cb(3) by simp
      then show ?thesis using IH t tl Some eq l1 cb(4) by (auto simp: reads_def)
    qed
  qed
qed

lemma write_chunks_ok:
  assumes tr: "\<And>l c buf d. c \<noteq> 0 \<Longrightarrow> unat c \<le> unat limit \<Longrightarrow> unat l + unat c \<le> bound \<Longrightarrow>
      writes view bytes_of m (unat l) (unat c) buf (transfer l c buf d) d"
    and "limit \<noteq> 0" and "bound < 2 ^ 64" and "unat lba + unat count \<le> bound"
    and "write_chunks transfer limit (bytes_of m) lba count buf d = (r, d')"
  shows "(r = 0 \<or> r = - 1) \<and> writes view bytes_of m (unat lba) (unat count) buf (r = 0, d') d"
  using assms(4,5)
proof (induction "unat count" arbitrary: lba count buf d r d' rule: less_induct)
  case less
  show ?case
  proof (cases "count = 0")
    case True
    then show ?thesis using less.prems by (auto simp: write_chunks.simps writes_def within_def overwrite_def fun_eq_iff)
  next
    case False
    define chunk where "chunk = (if count > limit then limit else count)"
    note cb = chunk_bounds [OF False assms(2), folded chunk_def]
    have t: "writes view bytes_of m (unat lba) (unat chunk) buf (transfer lba chunk buf d) d"
      using tr cb less.prems(1) by simp
    obtain o1 d1 where tl: "transfer lba chunk buf d = (o1, d1)" by fastforce
    show ?thesis
    proof (cases o1)
      case False
      then have "r = - 1" "d' = d1" using less.prems(2) tl \<open>count \<noteq> 0\<close> assms(2)
        by (simp_all add: write_chunks.simps [of transfer limit _ lba count] chunk_def [symmetric])
      then show ?thesis using t tl cb(3) by (auto simp: writes_def within_def)
    next
      case True
      let ?b = "drop (unat chunk * bytes_of m) buf"
      have rc: "write_chunks transfer limit (bytes_of m) (lba + ucast chunk) (count - chunk) ?b d1 = (r, d')"
        using less.prems(2) tl True \<open>count \<noteq> 0\<close> assms(2)
        by (simp add: write_chunks.simps [of transfer limit _ lba count] chunk_def [symmetric])
      have l1: "unat (lba + ucast chunk) = unat lba + unat chunk"
        using unat_lba_add less.prems(1) cb(3) assms(3) by (meson add_left_mono le_less_trans order_trans)
      have "unat (lba + ucast chunk) + unat (count - chunk) \<le> bound"
        using l1 cb(3,4) less.prems(1) by simp
      note IH = less.hyps [OF cb(5) this rc, unfolded l1 cb(4)]
      have len: "unat chunk * bytes_of m \<le> length buf \<and> (unat count - unat chunk) * bytes_of m \<le> length ?b"
        if "unat count * bytes_of m \<le> length buf"
        using that order.trans [OF mult_le_mono1 [OF cb(3)] that] by (simp add: diff_mult_distrib diff_le_mono)
      show ?thesis
        using IH t tl True cb(3) len overwrite_twice [OF cb(3) refl refl]
        by (auto simp: writes_def within_def)
    qed
  qed
qed

subsection \<open>AHCI commands say what they were asked to\<close>

lemma fis_fields:
  "cfis (ahci_transfer_cmd dma lba count w) ! 2 = (if w then AHCI_ATA_WRITE_DMA_EXT else AHCI_ATA_READ_DMA_EXT)"
  "cfis (ahci_transfer_cmd dma lba count w) ! 4 = ucast lba" "cfis (ahci_transfer_cmd dma lba count w) ! 5 = ucast (drop_bit 8 lba)"
  "cfis (ahci_transfer_cmd dma lba count w) ! 6 = ucast (drop_bit 16 lba)"
  "cfis (ahci_transfer_cmd dma lba count w) ! 8 = ucast (drop_bit 24 lba)"
  "cfis (ahci_transfer_cmd dma lba count w) ! 9 = ucast (drop_bit 32 lba)"
  "cfis (ahci_transfer_cmd dma lba count w) ! 10 = ucast (drop_bit 40 lba)"
  "cfis (ahci_transfer_cmd dma lba count w) ! 12 = ucast count" "cfis (ahci_transfer_cmd dma lba count w) ! 13 = ucast (drop_bit 8 count)"
  by (simp_all add: ahci_transfer_cmd_def fis_zero_def)

lemma ahci_fis_lba:
  assumes "lba \<le> 0x0000FFFFFFFFFFFF"
  shows "fis_lba (cfis (ahci_transfer_cmd dma lba count w)) = lba"
proof (rule bit_eqI)
  fix n assume n: "possible_bit TYPE(64 word) n"
  have "lba = take_bit 48 lba"
  proof -
    have "unat lba < 2 ^ 48" using assms by (simp add: word_le_nat_alt)
    then show ?thesis by (metis take_bit_nat_eq_self_iff unsigned_take_bit_eq word_unat_eq_iff)
  qed
  then have hi: "\<not> bit lba n" if "48 \<le> n" using that by (metis bit_take_bit_iff not_less)
  consider "n < 8" | "8 \<le> n" "n < 16" | "16 \<le> n" "n < 24" | "24 \<le> n" "n < 32" | "32 \<le> n" "n < 40" | "40 \<le> n" "n < 48" | "48 \<le> n"
    by linarith
  then show "bit (fis_lba (cfis (ahci_transfer_cmd dma lba count w))) n = bit lba n"
    unfolding fis_lba_def fis_fields
    using n hi by cases (auto simp: bit_simps possible_bit_def)
qed

lemma ahci_fis_count: "fis_count (cfis (ahci_transfer_cmd dma lba count w)) = count"
proof (rule bit_eqI)
  fix n assume n: "possible_bit TYPE(16 word) n"
  consider "n < 8" | "8 \<le> n" by linarith
  then show "bit (fis_count (cfis (ahci_transfer_cmd dma lba count w))) n = bit count n"
    unfolding fis_count_def fis_fields using n by cases (auto simp: bit_simps possible_bit_def)
qed

lemma ahci_dbc:
  assumes "count \<noteq> 0" and "count \<le> 8"
  shows "unat (prdt_dbc (ahci_transfer_cmd dma lba count w)) + 1 = unat count * 512"
proof -
  have c: "0 < unat count" "unat count \<le> 8" using assms by (simp_all add: word_le_nat_alt unat_gt_0)
  have u: "unat (ucast count :: u32) = unat count"
    by (simp add: unsigned_ucast_eq take_bit_nat_eq_self unsigned_less [of count, THEN less_trans])
  have m: "unat (ucast count * 512 :: u32) = unat count * 512" using u c by (simp add: unat_word_ariths)
  have "unat (ucast count * 512 - 1 :: u32) = unat count * 512 - 1"
    using m c by (subst unat_sub) (auto simp: word_le_nat_alt)
  then show ?thesis using c by (simp add: ahci_transfer_cmd_def)
qed

lemma unat_chunk16: "unat (c :: u32) \<le> 8 \<Longrightarrow> unat (ucast c :: u16) = unat c" and unat_chunk8: "unat c \<le> 255 \<Longrightarrow> unat (ucast c :: u8) = unat c"
  by (simp_all add: unsigned_ucast_eq take_bit_nat_eq_self)

lemma drivers_ok_ahci_read:
  assumes "drivers_ok drv view bytes_of" and "ahci_execute drv p cmd data d = (out, d')" and "cfis cmd ! 2 = AHCI_ATA_READ_DMA_EXT"
    and "unat (prdt_dbc cmd) + 1 = unat (fis_count (cfis cmd)) * bytes_of (BLOCK_TRANSPORT_AHCI, int p)"
  shows "reads view (BLOCK_TRANSPORT_AHCI, int p) (unat (fis_lba (cfis cmd))) (unat (fis_count (cfis cmd)))
    (map_option (take (unat (prdt_dbc cmd) + 1)) out, d') d"
  using assms unfolding drivers_ok_def by blast

lemma drivers_ok_ahci_write:
  assumes "drivers_ok drv view bytes_of" and "ahci_execute drv p cmd data d = (out, d')" and "cfis cmd ! 2 = AHCI_ATA_WRITE_DMA_EXT"
    and "unat (prdt_dbc cmd) + 1 = unat (fis_count (cfis cmd)) * bytes_of (BLOCK_TRANSPORT_AHCI, int p)"
  shows "writes view bytes_of (BLOCK_TRANSPORT_AHCI, int p) (unat (fis_lba (cfis cmd))) (unat (fis_count (cfis cmd)))
    data (out \<noteq> None, d') d"
  using assms unfolding drivers_ok_def by blast

lemma ahci_transfer_read_ok:
  assumes "drivers_ok drv view bytes_of" and "unat c \<le> 8" and "bytes_of (BLOCK_TRANSPORT_AHCI, int p) = 512"
  shows "reads view (BLOCK_TRANSPORT_AHCI, int p) (unat l) (unat (c :: u32)) (ahci_transfer_read drv b p l (ucast c) d) d"
proof (cases "ahci_transfer_ok p l (ucast c) b")
  case True
  let ?cmd = "ahci_transfer_cmd (g_ahci_dma b p) l (ucast c) False"
  obtain out d1 where ex: "ahci_execute drv p ?cmd [] d = (out, d1)" by fastforce
  have l: "l \<le> 0x0000FFFFFFFFFFFF" "(ucast c :: u16) \<noteq> 0" "(ucast c :: u16) \<le> 8"
    using True by (auto simp: ahci_transfer_ok_def)
  have "reads view (BLOCK_TRANSPORT_AHCI, int p) (unat (fis_lba (cfis ?cmd))) (unat (fis_count (cfis ?cmd)))
      (map_option (take (unat (prdt_dbc ?cmd) + 1)) out, d1) d"
    using fis_fields(1) [of "g_ahci_dma b p" l "ucast c" False] ahci_dbc [OF l(2,3), of "g_ahci_dma b p" l False]
    by (intro drivers_ok_ahci_read [OF assms(1) ex]) (simp_all only: if_False assms(3) ahci_fis_count)
  then show ?thesis
    using True ex unat_chunk16 [OF assms(2)]
    unfolding ahci_fis_lba [OF l(1)] ahci_fis_count ahci_dbc [OF l(2,3)] by (simp add: ahci_transfer_read_def)
qed (simp add: ahci_transfer_read_def reads_def)

lemma writes_take:
  "writes view bytes_of m l n (take k buf) res d \<Longrightarrow> n * bytes_of m \<le> k \<Longrightarrow> writes view bytes_of m l n buf res d"
proof -
  assume w: "writes view bytes_of m l n (take k buf) res d" and k: "n * bytes_of m \<le> k"
  have "overwrite (bytes_of m) l n (take k buf) v = overwrite (bytes_of m) l n buf v" for v
  proof
    fix j
    have "take (bytes_of m) (drop ((j - l) * bytes_of m) (take k buf)) = take (bytes_of m) (drop ((j - l) * bytes_of m) buf)"
      if "l \<le> j" "j < l + n"
    proof -
      have "(j - l) * bytes_of m + bytes_of m \<le> n * bytes_of m"
        using that mult_le_mono1 [of "Suc (j - l)" n "bytes_of m"] by (simp add: Suc_le_eq less_diff_conv2 add.commute)
      then show ?thesis using k by (simp add: drop_take min_def)
    qed
    then show "overwrite (bytes_of m) l n (take k buf) v j = overwrite (bytes_of m) l n buf v j"
      by (simp add: overwrite_def)
  qed
  with w k show ?thesis by (auto simp: writes_def)
qed

lemma ahci_transfer_write_ok:
  assumes "drivers_ok drv view bytes_of" and "unat c \<le> 8" and "bytes_of (BLOCK_TRANSPORT_AHCI, int p) = 512"
  shows "writes view bytes_of (BLOCK_TRANSPORT_AHCI, int p) (unat l) (unat (c :: u32)) buf (ahci_transfer_write drv b p l (ucast c) buf d) d"
proof (cases "ahci_transfer_ok p l (ucast c) b")
  case True
  let ?cmd = "ahci_transfer_cmd (g_ahci_dma b p) l (ucast c) True" and ?buf = "take (unat (ucast c :: u16) * 512) buf"
  obtain out d1 where ex: "ahci_execute drv p ?cmd ?buf d = (out, d1)" by fastforce
  have l: "l \<le> 0x0000FFFFFFFFFFFF" "(ucast c :: u16) \<noteq> 0" "(ucast c :: u16) \<le> 8"
    using True by (auto simp: ahci_transfer_ok_def)
  have "writes view bytes_of (BLOCK_TRANSPORT_AHCI, int p) (unat (fis_lba (cfis ?cmd))) (unat (fis_count (cfis ?cmd))) ?buf (out \<noteq> None, d1) d"
    using fis_fields(1) [of "g_ahci_dma b p" l "ucast c" True] ahci_dbc [OF l(2,3), of "g_ahci_dma b p" l True]
    by (intro drivers_ok_ahci_write [OF assms(1) ex]) (simp_all only: if_True assms(3) ahci_fis_count)
  then have "writes view bytes_of (BLOCK_TRANSPORT_AHCI, int p) (unat l) (unat (ucast c :: u16)) buf (out \<noteq> None, d1) d"
    unfolding ahci_fis_lba [OF l(1)] ahci_fis_count by (rule writes_take) (simp add: assms(3))
  then show ?thesis using True ex unat_chunk16 [OF assms(2)] by (simp add: ahci_transfer_write_def)
qed (auto simp: ahci_transfer_write_def writes_def within_def)

subsection \<open>Reading and writing a device\<close>

lemma range_valid_bound: "range_valid dev lba count \<Longrightarrow> unat lba + unat count \<le> unat (block_count dev)"
proof -
  assume a: "range_valid dev lba count"
  have u: "unat (ucast count :: u64) = unat count"
    by (simp add: unsigned_ucast_eq take_bit_nat_eq_self unsigned_less [of count, THEN less_trans])
  have "unat (block_count dev - lba) = unat (block_count dev) - unat lba"
    using a by (simp add: range_valid_def unat_sub less_imp_le)
  then show ?thesis using a u by (auto simp: range_valid_def word_le_nat_alt word_less_nat_alt)
qed

lemma lba32_bound:
  assumes "lba32_ok lba count" and "count \<noteq> 0"
  shows "unat lba + unat count \<le> 2 ^ 32"
proof -
  have u: "unat (ucast count :: u64) = unat count"
    by (simp add: unsigned_ucast_eq take_bit_nat_eq_self unsigned_less [of count, THEN less_trans])
  have l: "lba \<le> 0xFFFFFFFF" and c: "(ucast count :: u64) - 1 \<le> 0xFFFFFFFF - lba" using assms(1) by (auto simp: lba32_ok_def)
  have cp: "0 < unat count" using assms(2) by (simp add: unat_gt_0)
  have "unat ((ucast count :: u64) - 1) = unat count - 1"
    using u cp by (subst unat_sub) (auto simp: word_le_nat_alt)
  moreover have "unat (0xFFFFFFFF - lba) = 0xFFFFFFFF - unat lba" using l by (simp add: unat_sub)
  ultimately have "unat count - 1 \<le> 0xFFFFFFFF - unat lba" using c by (simp add: word_le_nat_alt)
  then show ?thesis using l cp by (simp add: word_le_nat_alt)
qed

lemma ucast_lba32: "unat (l :: u64) < 2 ^ 32 \<Longrightarrow> unat (ucast l :: u32) = unat l"
  by (simp add: unsigned_ucast_eq take_bit_nat_eq_self)

lemma chunk_lba32: "c \<noteq> 0 \<Longrightarrow> unat (l :: u64) + unat (c :: u32) \<le> 2 ^ 32 \<Longrightarrow> unat (ucast l :: u32) = unat l"
  by (rule ucast_lba32) (simp add: unat_gt_0 [symmetric])

lemma u64_bound: "unat (w :: u64) < 2 ^ 64"
  using unsigned_less [of w, where ?'a = nat] by simp

lemma block_read_ok:
  assumes ok: "drivers_ok drv view bytes_of" and wf: "\<forall>bi \<in> set (g_devices b). binding_ok bytes_of bi"
    and rd: "block_read drv i lba count b d = (r, bs, d')"
  shows "view d' = view d"
    and "r = 0 \<Longrightarrow> \<exists>bi. 0 \<le> i \<and> i < int (length (g_devices b)) \<and> bi = g_devices b ! nat i \<and> range_valid (device bi) lba count \<and>
           bs = span (view d (binding_medium bi)) (unat lba) (unat count)"
proof -
  let ?bi = "g_devices b ! nat i"
  let ?bad = "i < 0 \<or> i \<ge> int (length (g_devices b)) \<or> \<not> range_valid (device ?bi) lba count"
  let ?m = "binding_medium ?bi"
  have "view d' = view d \<and> (r = 0 \<longrightarrow> \<not> ?bad \<and> bs = span (view d ?m) (unat lba) (unat count))"
  proof (cases ?bad)
    case True
    then show ?thesis using rd by (auto simp: block_read_def split: if_splits)
  next
    case False
    have mem: "?bi \<in> set (g_devices b)" using False by (intro nth_mem) auto
    have bound: "unat lba + unat count \<le> unat (block_count (device ?bi))" using range_valid_bound False by blast
    have cnt: "count \<noteq> 0" using False by (auto simp: range_valid_def)
    note rd' = rd [unfolded block_read_def if_not_P [OF False] Let_def]
    consider (nvme) "transport (device ?bi) = BLOCK_TRANSPORT_NVME" | (ahci) "transport (device ?bi) = BLOCK_TRANSPORT_AHCI"
      | (ata) "transport (device ?bi) = BLOCK_TRANSPORT_ATA" by (cases "transport (device ?bi)")
    then show ?thesis
    proof cases
      case nvme
      then have "reads view (BLOCK_TRANSPORT_NVME, nvme_index ?bi) (unat lba) (unat count) (if r = 0 then Some bs else None, d') d"
        using rd' ok unfolding drivers_ok_def by simp
      then show ?thesis using False nvme by (auto simp: reads_def binding_medium_def)
    next
      case ahci
      have port: "int (nat (ahci_port_index ?bi)) = ahci_port_index ?bi" using bspec [OF wf mem] ahci by (simp add: binding_ok_def)
      have "read_chunks (\<lambda>l c. ahci_transfer_read drv b (nat (ahci_port_index ?bi)) l (ucast c)) 8 lba count d = (r, bs, d')"
        using rd' ahci by simp
      note rc = this
      have m: "?m = (BLOCK_TRANSPORT_AHCI, int (nat (ahci_port_index ?bi)))" using port ahci by (simp add: binding_medium_def)
      have s512: "bytes_of ?m = 512" using bspec [OF wf mem] ahci by (auto simp: binding_ok_def dest: sym)
      have "reads view ?m (unat l) (unat (c :: u32)) (ahci_transfer_read drv b (nat (ahci_port_index ?bi)) l (ucast c) e) e"
        if "c \<noteq> 0" "unat c \<le> unat (8 :: u32)" "unat l + unat c \<le> unat (block_count (device ?bi))" for l c e
        unfolding m by (rule ahci_transfer_read_ok [OF ok]) (use that s512 m in simp_all)
      from read_chunks_ok [OF this _ u64_bound bound rc] show ?thesis using False by auto
    next
      case ata
      have m: "?m = (BLOCK_TRANSPORT_ATA, ata_index ?bi)" using ata by (simp add: binding_medium_def)
      show ?thesis
      proof (cases "lba32_ok lba count")
        case l32: True
        note b32 = lba32_bound [OF l32 cnt]
        have lu: "unat (ucast lba :: u32) = unat lba" using b32 cnt by (intro ucast_lba32) (simp add: unat_gt_0 [symmetric])
        show ?thesis
        proof (cases "ata_type ?bi = ATA_TYPE_CDROM")
          case True
          have "reads view ?m (unat lba) (unat count) (atapi_read_sectors drv (ata_index ?bi) (ucast lba) count d) d"
            using ok lu m unfolding drivers_ok_def by metis
          then show ?thesis using rd' ata l32 True False
            by (auto simp: reads_def split: prod.splits option.splits)
        next
          case hdd: False
          have rc: "read_chunks (\<lambda>l c. ata_read_sectors_drive drv (ata_index ?bi) (ucast l) (ucast c)) 255 lba count d = (r, bs, d')"
            using rd' ata l32 hdd by simp
          have "reads view ?m (unat l) (unat (c :: u32)) (ata_read_sectors_drive drv (ata_index ?bi) (ucast l) (ucast c) e) e"
            if "c \<noteq> 0" "unat c \<le> unat (255 :: u32)" "unat (l :: u64) + unat c \<le> 2 ^ 32" for l c e
          proof -
            have "unat (ucast l :: u32) = unat l" using that by (intro chunk_lba32)
            moreover have "unat (ucast c :: u8) = unat c" using that by (intro unat_chunk8) simp
            ultimately show ?thesis using ok m unfolding drivers_ok_def by metis
          qed
          from read_chunks_ok [OF this _ _ b32 rc, simplified] show ?thesis using False by auto
        qed
      next
        case l32: False
        then show ?thesis using rd' ata by auto
      qed
    qed
  qed
  then show "view d' = view d" and "r = 0 \<Longrightarrow> \<exists>bi. 0 \<le> i \<and> i < int (length (g_devices b)) \<and> bi = g_devices b ! nat i \<and>
      range_valid (device bi) lba count \<and> bs = span (view d (binding_medium bi)) (unat lba) (unat count)"
    by auto
qed


lemma block_write_ok:
  assumes ok: "drivers_ok drv view bytes_of" and wf: "\<forall>bi \<in> set (g_devices b). binding_ok bytes_of bi"
    and wr: "block_write drv i lba count buf b d = (r, d')"
  defines "bi \<equiv> g_devices b ! nat i"
  shows "if 0 \<le> i \<and> i < int (length (g_devices b)) \<and> bd_writable (device bi) \<and> range_valid (device bi) lba count
         then writes view bytes_of (binding_medium bi) (unat lba) (unat count) buf (r = 0, d') d
         else r = - 1 \<and> d' = d"
proof (cases "i < 0 \<or> i \<ge> int (length (g_devices b)) \<or> \<not> bd_writable (device bi) \<or> \<not> range_valid (device bi) lba count")
  case True
  then show ?thesis using wr by (auto simp: block_write_def bi_def split: if_splits)
next
  case False
  let ?m = "binding_medium bi"
  have mem: "bi \<in> set (g_devices b)" unfolding bi_def using False by (intro nth_mem) auto
  have bound: "unat lba + unat count \<le> unat (block_count (device bi))" using range_valid_bound False by blast
  have cnt: "count \<noteq> 0" using False by (auto simp: range_valid_def)
  have size: "unat (block_size (device bi)) = bytes_of ?m" using bspec [OF wf mem] by (simp add: binding_ok_def)
  note wr' = wr [unfolded block_write_def, folded bi_def, unfolded if_not_P [OF False] Let_def]
  have "writes view bytes_of ?m (unat lba) (unat count) buf (r = 0, d') d"
  proof (cases "transport (device bi)")
    case BLOCK_TRANSPORT_NVME
    then show ?thesis using wr' ok unfolding drivers_ok_def by (simp add: binding_medium_def)
  next
    case ahci: BLOCK_TRANSPORT_AHCI
    have m: "?m = (BLOCK_TRANSPORT_AHCI, int (nat (ahci_port_index bi)))"
      using bspec [OF wf mem] ahci by (simp add: binding_medium_def binding_ok_def)
    have s512: "bytes_of ?m = 512" using bspec [OF wf mem] ahci size by (simp add: binding_ok_def)
    have wc: "write_chunks (\<lambda>l c. ahci_transfer_write drv b (nat (ahci_port_index bi)) l (ucast c)) 8 (bytes_of ?m) lba count buf d = (r, d')"
      using wr' ahci s512 by simp
    have "writes view bytes_of ?m (unat l) (unat (c :: u32)) bf (ahci_transfer_write drv b (nat (ahci_port_index bi)) l (ucast c) bf e) e"
      if "c \<noteq> 0" "unat c \<le> unat (8 :: u32)" "unat l + unat c \<le> unat (block_count (device bi))" for l c bf e
      unfolding m by (rule ahci_transfer_write_ok [OF ok]) (use that s512 m in simp_all)
    from write_chunks_ok [OF this _ u64_bound bound wc] show ?thesis by simp
  next
    case ata: BLOCK_TRANSPORT_ATA
    have m: "?m = (BLOCK_TRANSPORT_ATA, ata_index bi)" using ata by (simp add: binding_medium_def)
    show ?thesis
    proof (cases "lba32_ok lba count")
      case l32: True
      have wc: "write_chunks (\<lambda>l c. ata_write_sectors_drive drv (ata_index bi) (ucast l) (ucast c)) 255 (bytes_of ?m) lba count buf d = (r, d')"
        using wr' ata l32 size by simp
      have "writes view bytes_of ?m (unat l) (unat (c :: u32)) bf (ata_write_sectors_drive drv (ata_index bi) (ucast l) (ucast c) bf e) e"
        if "c \<noteq> 0" "unat c \<le> unat (255 :: u32)" "unat (l :: u64) + unat c \<le> 2 ^ 32" for l c bf e
      proof -
        have "unat (ucast l :: u32) = unat l" using that by (intro chunk_lba32)
        moreover have "unat (ucast c :: u8) = unat c" using that by (intro unat_chunk8) simp
        ultimately show ?thesis using ok m unfolding drivers_ok_def by metis
      qed
      from write_chunks_ok [OF this _ _ lba32_bound [OF l32 cnt] wc] show ?thesis by simp
    next
      case l32: False
      then show ?thesis using wr' ata by (auto simp: writes_def within_def)
    qed
  qed
  then show ?thesis using False by auto
qed

subsection \<open>Witness: drivers over memory\<close>

text \<open>Drivers that keep every medium as a table of sectors of \<open>ss\<close> bytes.\<close>

definition ram_view :: "nat \<Rightarrow> (medium \<Rightarrow> nat \<Rightarrow> u8 list) media" where
  "ram_view ss d m l = take ss (d m l @ replicate ss 0)"

definition ram_put :: "nat \<Rightarrow> medium \<Rightarrow> nat \<Rightarrow> nat \<Rightarrow> u8 list \<Rightarrow> (medium \<Rightarrow> nat \<Rightarrow> u8 list) \<Rightarrow> medium \<Rightarrow> nat \<Rightarrow> u8 list" where
  "ram_put ss m l n buf d = d(m := overwrite ss l n buf (d m))"

definition ram_drivers :: "nat \<Rightarrow> (medium \<Rightarrow> nat \<Rightarrow> u8 list) drivers" where
  "ram_drivers ss =
     \<lparr>nvme_read = (\<lambda>i lba count d. (0, span (ram_view ss d (BLOCK_TRANSPORT_NVME, i)) (unat lba) (unat count), d)),
      nvme_write = (\<lambda>i lba count buf d. (0, ram_put ss (BLOCK_TRANSPORT_NVME, i) (unat lba) (unat count) buf d)),
      nvme_flush = (\<lambda>i d. (0, d)),
      ata_read_sectors_drive = (\<lambda>i lba count d. (Some (span (ram_view ss d (BLOCK_TRANSPORT_ATA, i)) (unat lba) (unat count)), d)),
      ata_write_sectors_drive = (\<lambda>i lba count buf d. (True, ram_put ss (BLOCK_TRANSPORT_ATA, i) (unat lba) (unat count) buf d)),
      ata_flush_drive = (\<lambda>i d. (True, d)),
      atapi_read_sectors = (\<lambda>i lba count d. (Some (span (ram_view ss d (BLOCK_TRANSPORT_ATA, i)) (unat lba) (unat count)), d)),
      ahci_execute = (\<lambda>p cmd data d.
        let m = (BLOCK_TRANSPORT_AHCI, int p); l = unat (fis_lba (cfis cmd)); n = unat (fis_count (cfis cmd)) in
        if cfis cmd ! 2 = AHCI_ATA_READ_DMA_EXT then (Some (span (ram_view ss d m) l n), d)
        else if cfis cmd ! 2 = AHCI_ATA_WRITE_DMA_EXT then (Some [], ram_put ss m l n data d)
        else (Some [], d))\<rparr>"

lemma length_ram_view [simp]: "length (ram_view ss d m l) = ss"
  by (simp add: ram_view_def)

lemma ram_put_writes: "writes (ram_view ss) (\<lambda>_. ss) m l n buf (True, ram_put ss m l n buf d) d"
proof -
  have "take ss (overwrite ss l n buf v k @ replicate ss 0) = overwrite ss l n buf (\<lambda>k. take ss (v k @ replicate ss 0)) k"
    if "n * ss \<le> length buf" for v :: "nat \<Rightarrow> u8 list" and k
  proof (cases "l \<le> k \<and> k < l + n")
    case True
    have "Suc (k - l) * ss \<le> n * ss" using True by (intro mult_le_mono1) auto
    then have "length (take ss (drop ((k - l) * ss) buf)) = ss" using that by simp
    then show ?thesis using True by (simp add: overwrite_def)
  qed (auto simp: overwrite_def)
  then show ?thesis
    by (auto simp: writes_def within_def ram_view_def ram_put_def fun_eq_iff overwrite_def)
qed

lemma ram_drivers_ok: "drivers_ok (ram_drivers ss) (ram_view ss) (\<lambda>_. ss)"
  using ram_put_writes
  by (auto simp: drivers_ok_def ram_drivers_def reads_def Let_def length_span split: if_splits)

text \<open>A SATA disk on AHCI port 0 with 64 sectors, and its DMA pages.\<close>

definition blocks_example :: blocks where
  "blocks_example =
     \<lparr>g_devices = [\<lparr>device = \<lparr>bd_id = 0, block_size = 512, block_count = 64, bd_writable = True,
                             transport = BLOCK_TRANSPORT_AHCI, bd_name = ''AHCI SATA''\<rparr>,
                   ata_index = - 1, ata_type = ATA_TYPE_HDD, ahci_port_index = 0, nvme_index = - 1\<rparr>],
      g_ahci_dma = (\<lambda>i. if i = 0 then \<lparr>dma_phys = 0x200000, dma_pages = 3\<rparr> else \<lparr>dma_phys = 0, dma_pages = 0\<rparr>)\<rparr>"

lemma blocks_example_ok: "bi \<in> set (g_devices blocks_example) \<Longrightarrow> binding_ok (\<lambda>_. 512) bi"
  by (simp add: blocks_example_def binding_ok_def binding_medium_def)

lemma blocks_example_transfer: "ahci_transfer_ok 0 l c blocks_example \<longleftrightarrow> c \<noteq> 0 \<and> c \<le> 8 \<and> l \<le> 0x0000FFFFFFFFFFFF"
  by (auto simp: ahci_transfer_ok_def blocks_example_def not_less)





end
