(* ===== verification/Gpt.thy ===== *)
theory Gpt
  imports Block
begin

text \<open>
  The GUID partition table reader (\<open>kernel/gpt.c\<close>) on top of the block layer: checksums, the validation of the header
  and of the partition array, and the list of partitions. The structs are overlaid on one 512-byte sector buffer; the model keeps that
  buffer, because two header fields are read after the partition array has been streamed through it.
\<close>

subsection \<open>On-disk structures\<close>

abbreviation (input) GPT_MAX_PARTITIONS :: nat where "GPT_MAX_PARTITIONS \<equiv> 32"
abbreviation (input) GPT_ENTRY_BYTES :: nat where "GPT_ENTRY_BYTES \<equiv> 128"

datatype gpt_partition_kind =
  GPT_PARTITION_UNKNOWN | GPT_PARTITION_EFI_SYSTEM | GPT_PARTITION_BASIC_DATA | GPT_PARTITION_LINUX_FILESYSTEM

record gpt_header =
  signature :: "u8 list"
  header_size :: u32
  header_crc32 :: u32
  current_lba :: u64
  first_usable_lba :: u64
  last_usable_lba :: u64
  partition_entries_lba :: u64
  partition_count :: u32
  partition_entry_size :: u32
  entries_crc32 :: u32

record gpt_entry =
  ge_type_guid :: "u8 list"
  ge_unique_guid :: "u8 list"
  ge_first_lba :: u64
  ge_last_lba :: u64
  ge_attributes :: u64
  ge_name :: "u16 list"

record gpt_partition =
  first_lba :: u64
  last_lba :: u64
  attributes :: u64
  type_guid :: "u8 list"
  unique_guid :: "u8 list"
  kind :: gpt_partition_kind
  part_name :: string

text \<open>The structs overlaid on the sector buffer.\<close>

definition gpt_header_of :: "u8 list \<Rightarrow> gpt_header" where
  "gpt_header_of s = \<lparr>signature = take 8 s, header_size = ucast (field s 12 4), header_crc32 = ucast (field s 16 4),
     current_lba = field s 24 8, first_usable_lba = field s 40 8, last_usable_lba = field s 48 8,
     partition_entries_lba = field s 72 8, partition_count = ucast (field s 80 4),
     partition_entry_size = ucast (field s 84 4), entries_crc32 = ucast (field s 88 4)\<rparr>"

definition gpt_entry_of :: "u8 list \<Rightarrow> gpt_entry" where
  "gpt_entry_of s = \<lparr>ge_type_guid = take 16 s, ge_unique_guid = take 16 (drop 16 s), ge_first_lba = field s 32 8,
     ge_last_lba = field s 40 8, ge_attributes = field s 48 8, ge_name = words16 (take 72 (drop 56 s))\<rparr>"

subsection \<open>Checksums and names\<close>

definition crc32_bit :: "u32 \<Rightarrow> u32" where
  "crc32_bit crc = drop_bit 1 crc XOR (0xEDB88320 AND - (crc AND 1))"

definition crc32_byte :: "u8 \<Rightarrow> u32 \<Rightarrow> u32" where
  "crc32_byte b crc = (crc32_bit ^^ 8) (crc XOR ucast b)"

definition crc32_update :: "u32 \<Rightarrow> u8 list \<Rightarrow> u32" where
  "crc32_update crc data = fold crc32_byte data crc"

definition crc32 :: "u8 list \<Rightarrow> u32" where
  "crc32 data = NOT (crc32_update 0xFFFFFFFF data)"

definition all_zero :: "u8 list \<Rightarrow> bool" where
  "all_zero data \<longleftrightarrow> list_all (\<lambda>b. b = 0) data"

definition partition_kind :: "u8 list \<Rightarrow> gpt_partition_kind" where
  "partition_kind guid =
     (if guid = [0x28,0x73,0x2A,0xC1,0x1F,0xF8,0xD2,0x11,0xBA,0x4B,0x00,0xA0,0xC9,0x3E,0xC9,0x3B] then GPT_PARTITION_EFI_SYSTEM
      else if guid = [0xA2,0xA0,0xD0,0xEB,0xE5,0xB9,0x33,0x44,0x87,0xC0,0x68,0xB6,0xB7,0x26,0x99,0xC7] then GPT_PARTITION_BASIC_DATA
      else if guid = [0xAF,0x3D,0xC6,0x0F,0x83,0x84,0x72,0x47,0x8E,0x79,0x3D,0x69,0xD8,0x47,0x7D,0xE4] then GPT_PARTITION_LINUX_FILESYSTEM
      else GPT_PARTITION_UNKNOWN)"

definition name_to_utf8 :: "u16 list \<Rightarrow> string" where
  "name_to_utf8 ws = map (\<lambda>w. if w \<le> 0x7F then char_of (unat w) else CHR ''?'') (takeWhile (\<lambda>w. w \<noteq> 0) (take 36 ws))"

subsection \<open>Scanning\<close>

definition gpt_header_ok :: "block_device \<Rightarrow> gpt_header \<Rightarrow> bool" where
  "gpt_header_ok dev h \<longleftrightarrow>
     \<not> (signature h \<noteq> [0x45, 0x46, 0x49, 0x20, 0x50, 0x41, 0x52, 0x54] \<or>
        header_size h < 92 \<or> header_size h > 512 \<or> current_lba h \<noteq> 1 \<or>
        first_usable_lba h > last_usable_lba h \<or> last_usable_lba h \<ge> block_count dev \<or>
        partition_entry_size h < 128 \<or> partition_entry_size h > 512 \<or>
        partition_count h = 0 \<or> partition_count h > 4096)"

text \<open>The checksum is taken with its own field set to 0.\<close>

definition gpt_header_crc_ok :: "u8 list \<Rightarrow> bool" where
  "gpt_header_crc_ok sector \<longleftrightarrow>
     (let h = gpt_header_of sector
      in crc32 (take (unat (header_size h)) (sector[16 := 0, 17 := 0, 18 := 0, 19 := 0])) = header_crc32 h)"

definition entries_bytes :: "gpt_header \<Rightarrow> u64" where
  "entries_bytes h = ucast (partition_count h) * ucast (partition_entry_size h)"

definition entries_sectors :: "gpt_header \<Rightarrow> u64" where
  "entries_sectors h = (entries_bytes h + 512 - 1) div 512"

definition gpt_geometry_ok :: "block_device \<Rightarrow> gpt_header \<Rightarrow> bool" where
  "gpt_geometry_ok dev h \<longleftrightarrow>
     \<not> (entries_bytes h > 4 * 1024 * 1024 \<or> partition_entries_lba h \<ge> block_count dev \<or>
        entries_sectors h > block_count dev - partition_entries_lba h)"

text \<open>
  The streaming loop over the partition array: \<open>n\<close> sectors from \<open>lba\<close> on into the one sector buffer. The result is the
  checksum and the buffer as the loop leaves it, or \<open>None\<close> after a read error.
\<close>

fun gpt_stream_entries :: "'d drivers \<Rightarrow> int \<Rightarrow> blocks \<Rightarrow> nat \<Rightarrow> u64 \<Rightarrow> u32 \<Rightarrow> u64 \<Rightarrow> u8 list \<Rightarrow> 'd \<Rightarrow> (u32 \<times> u8 list) option \<times> 'd" where
  "gpt_stream_entries drv i b 0 lba crc remaining sector d = (Some (crc, sector), d)"
| "gpt_stream_entries drv i b (Suc n) lba crc remaining sector d =
     (case block_read drv i lba 1 b d of
        (r, bs, d1) \<Rightarrow>
          if r \<noteq> 0 then (None, d1)
          else
            let bytes = (if remaining > 512 then 512 else remaining)
            in gpt_stream_entries drv i b n (lba + 1) (crc32_update crc (take (unat bytes) bs)) (remaining - bytes) bs d1)"

definition gpt_partition_of :: "gpt_entry \<Rightarrow> gpt_partition" where
  "gpt_partition_of e = \<lparr>first_lba = ge_first_lba e, last_lba = ge_last_lba e, attributes = ge_attributes e,
     type_guid = ge_type_guid e, unique_guid = ge_unique_guid e, kind = partition_kind (ge_type_guid e),
     part_name = name_to_utf8 (ge_name e)\<rparr>"

text \<open>The partition loop: entries \<open>k\<close>, \<open>k + 1\<close>, ... up to \<open>n\<close> of them. The partitions found so far stay behind when it fails.\<close>

fun gpt_read_partitions :: "'d drivers \<Rightarrow> int \<Rightarrow> blocks \<Rightarrow> block_device \<Rightarrow> gpt_header \<Rightarrow> nat \<Rightarrow> nat \<Rightarrow> gpt_partition list \<Rightarrow> 'd \<Rightarrow>
    int \<times> gpt_partition list \<times> 'd" where
  "gpt_read_partitions drv i b dev h 0 k parts d = (0, parts, d)"
| "gpt_read_partitions drv i b dev h (Suc n) k parts d =
     (if \<not> length parts < GPT_MAX_PARTITIONS then (0, parts, d)
      else
        let byte_offset = (word_of_nat k :: u64) * ucast (partition_entry_size h);
            lba = partition_entries_lba h + byte_offset div 512;
            off = unat (byte_offset mod 512)
        in if off + GPT_ENTRY_BYTES > 512 \<or> lba \<ge> block_count dev then (- 1, parts, d)
           else case block_read drv i lba 1 b d of
             (r, sector, d1) \<Rightarrow>
               if r \<noteq> 0 then (- 1, parts, d1)
               else
                 let e = gpt_entry_of (drop off sector)
                 in if all_zero (ge_type_guid e) then gpt_read_partitions drv i b dev h n (Suc k) parts d1
                    else if ge_first_lba e > ge_last_lba e \<or> ge_first_lba e < first_usable_lba h \<or> ge_last_lba e > last_usable_lba h
                    then (- 1, parts, d1)
                    else gpt_read_partitions drv i b dev h n (Suc k) (parts @ [gpt_partition_of e]) d1)"

text \<open>
  The scan. \<open>header\<close> points into the sector buffer, so that after the streaming loop \<open>entries_crc32\<close> and \<open>partition_count\<close>
  are read from the last sector of the partition array; the other header fields were saved before.
\<close>

definition gpt_scan :: "'d drivers \<Rightarrow> int \<Rightarrow> blocks \<Rightarrow> 'd \<Rightarrow> int \<times> gpt_partition list \<times> 'd" where
  "gpt_scan drv i b d =
     (case block_get_device i b of
        None \<Rightarrow> (- 1, [], d)
      | Some dev \<Rightarrow>
          if block_size dev \<noteq> 512 then (- 1, [], d)
          else case block_read drv i 1 1 b d of
            (r, sector, d1) \<Rightarrow>
              let h = gpt_header_of sector in
              if r \<noteq> 0 \<or> \<not> gpt_header_ok dev h \<or> \<not> gpt_header_crc_ok sector \<or> \<not> gpt_geometry_ok dev h then (- 1, [], d1)
              else case gpt_stream_entries drv i b (unat (entries_sectors h)) (partition_entries_lba h) 0xFFFFFFFF (entries_bytes h) sector d1 of
                (None, d2) \<Rightarrow> (- 1, [], d2)
              | (Some (crc, sector2), d2) \<Rightarrow>
                  let h2 = gpt_header_of sector2 in
                  if NOT crc \<noteq> entries_crc32 h2 then (- 1, [], d2)
                  else gpt_read_partitions drv i b dev h
                         (unat (if partition_count h2 > 128 then 128 else partition_count h2)) 0 [] d2)"

definition gpt_partition_count :: "gpt_partition list \<Rightarrow> int" where
  "gpt_partition_count parts = int (length parts)"

definition gpt_get_partition :: "int \<Rightarrow> gpt_partition list \<Rightarrow> gpt_partition option" where
  "gpt_get_partition index parts = (if index \<ge> 0 \<and> index < gpt_partition_count parts then Some (parts ! nat index) else None)"

subsection \<open>The checksum\<close>

lemma crc32_update_append [simp]: "crc32_update crc (xs @ ys) = crc32_update (crc32_update crc xs) ys"
  by (simp add: crc32_update_def)

lemma crc32_update_Nil [simp]: "crc32_update crc [] = crc"
  by (simp add: crc32_update_def)

text \<open>One shift of the register loses nothing: bit 31 of the result tells which bit was shifted out.\<close>

lemma bit_crc32_bit: "n < 32 \<Longrightarrow> bit (crc32_bit c) n = (bit c (Suc n) \<noteq> (bit (0xEDB88320 :: u32) n \<and> bit c 0))"
proof -
  assume n: "n < 32"
  have "c AND 1 = of_bool (bit c 0)" by (simp add: and_one_eq mod_2_eq_odd bit_0)
  then show ?thesis using n by (auto simp: crc32_bit_def bit_simps)
qed

lemma crc32_bit_inj: "crc32_bit c = crc32_bit c' \<Longrightarrow> c = c'"
proof (rule bit_word_eqI)
  fix n assume eq: "crc32_bit c = crc32_bit c'" and n: "n < LENGTH(32)"
  have "\<not> bit c 32" "\<not> bit c' 32" by (auto dest: bit_imp_le_length)
  then have b0: "bit c 0 = bit c' 0"
    using bit_crc32_bit [of 31 c] bit_crc32_bit [of 31 c'] eq by (auto simp: bit_numeral_rec)
  show "bit c n = bit c' n"
  proof (cases n)
    case 0
    with b0 show ?thesis by simp
  next
    case (Suc m)
    then show ?thesis using bit_crc32_bit [of m c] bit_crc32_bit [of m c'] eq b0 n by auto
  qed
qed

lemma crc32_bits_inj: "(crc32_bit ^^ k) x = (crc32_bit ^^ k) y \<Longrightarrow> x = y"
  by (induction k) (auto dest: crc32_bit_inj)

lemma xor_cancel: "x XOR a = x XOR b \<longleftrightarrow> a = (b :: 'a::len word)"
proof
  assume "x XOR a = x XOR b"
  then have "x XOR (x XOR a) = x XOR (x XOR b)" by simp
  then show "a = b" by (simp add: xor.assoc [symmetric])
qed simp

lemma crc32_byte_inj: "crc32_byte b c = crc32_byte b c' \<Longrightarrow> c = c'"
  unfolding crc32_byte_def by (drule crc32_bits_inj) (simp add: xor.commute [of _ "ucast b"] xor_cancel)

lemma crc32_byte_inj_data:
  assumes "crc32_byte a c = crc32_byte b c"
  shows "a = b"
proof -
  have "(ucast a :: u32) = ucast b" using crc32_bits_inj [OF assms [unfolded crc32_byte_def]] by (simp add: xor_cancel)
  then show ?thesis by (metis unat_ucast_u8(1) word_unat_eq_iff)
qed

lemma crc32_update_inj: "crc32_update c xs = crc32_update c' xs \<Longrightarrow> c = c'"
  by (induction xs arbitrary: c c') (auto simp: crc32_update_def dest: crc32_byte_inj)

lemma crc32_detects_byte:
  assumes "a \<noteq> b"
  shows "crc32 (xs @ a # ys) \<noteq> crc32 (xs @ b # ys)"
proof
  assume "crc32 (xs @ a # ys) = crc32 (xs @ b # ys)"
  then have "crc32_update (crc32_byte a (crc32_update 0xFFFFFFFF xs)) ys = crc32_update (crc32_byte b (crc32_update 0xFFFFFFFF xs)) ys"
    by (simp add: crc32_def crc32_update_def)
  from crc32_byte_inj_data [OF crc32_update_inj [OF this]] assms show False by simp
qed


subsection \<open>What a scan accepts\<close>

definition partition_in :: "block_device \<Rightarrow> gpt_partition \<Rightarrow> bool" where
  "partition_in dev p \<longleftrightarrow> first_lba p \<le> last_lba p \<and> last_lba p < block_count dev \<and> \<not> all_zero (type_guid p)"

text \<open>The loop body, with the entry it looks at.\<close>

lemma gpt_read_partitions_Suc:
  "gpt_read_partitions drv i b dev h (Suc n) k parts d = (r, parts', d') \<Longrightarrow>
     parts' = parts \<or>
     (\<exists>d1. gpt_read_partitions drv i b dev h n (Suc k) parts d1 = (r, parts', d')) \<or>
     (\<exists>e d1. length parts < GPT_MAX_PARTITIONS \<and> \<not> all_zero (ge_type_guid e) \<and> ge_first_lba e \<le> ge_last_lba e \<and>
        ge_last_lba e \<le> last_usable_lba h \<and>
        gpt_read_partitions drv i b dev h n (Suc k) (parts @ [gpt_partition_of e]) d1 = (r, parts', d'))"
  unfolding gpt_read_partitions.simps Let_def by (fastforce split: if_splits prod.splits simp: not_less)

declare gpt_read_partitions.simps(2) [simp del]

lemma gpt_read_partitions_ok:
  assumes "last_usable_lba h < block_count dev" and "length parts \<le> GPT_MAX_PARTITIONS" and "\<forall>p \<in> set parts. partition_in dev p"
    and "gpt_read_partitions drv i b dev h n k parts d = (r, parts', d')"
  shows "length parts' \<le> GPT_MAX_PARTITIONS \<and> (\<forall>p \<in> set parts'. partition_in dev p)"
  using assms(2-)
proof (induction n arbitrary: k parts d)
  case (Suc n)
  from gpt_read_partitions_Suc [OF Suc.prems(3)] show ?case
  proof (elim disjE exE conjE)
    fix e d1
    assume e: "length parts < GPT_MAX_PARTITIONS" "\<not> all_zero (ge_type_guid e)" "ge_first_lba e \<le> ge_last_lba e"
      "ge_last_lba e \<le> last_usable_lba h"
      "gpt_read_partitions drv i b dev h n (Suc k) (parts @ [gpt_partition_of e]) d1 = (r, parts', d')"
    have "partition_in dev (gpt_partition_of e)"
      using e assms(1) by (auto simp: partition_in_def gpt_partition_of_def)
    then have "\<forall>p \<in> set (parts @ [gpt_partition_of e]). partition_in dev p" using Suc.prems(2) by simp
    with e(1) show ?thesis by (intro Suc.IH [OF _ _ e(5)]) simp_all
  next
    fix d1 assume "gpt_read_partitions drv i b dev h n (Suc k) parts d1 = (r, parts', d')"
    from Suc.IH [OF Suc.prems(1,2) this] show ?thesis .
  qed (use Suc.prems(1,2) in simp)
qed auto

text \<open>
  C25. Whatever a disk holds, after a scan, successful or not, there are at most 32 partitions, and each of them has
  a type, does not end before it starts, and lies inside the device that was scanned; an unknown device
  or one whose sectors are not 512 bytes leaves no partition.
\<close>

theorem gpt_scan_partitions_in_device:
  assumes "gpt_scan drv i b d = (r, parts, d')"
  shows "length parts \<le> GPT_MAX_PARTITIONS \<and>
     (\<forall>p \<in> set parts. \<exists>dev. block_get_device i b = Some dev \<and> block_size dev = 512 \<and>
        first_lba p \<le> last_lba p \<and> last_lba p < block_count dev \<and> \<not> all_zero (type_guid p))"
proof (cases "parts = []")
  case False
  then obtain dev sector d1 crc sector2 d2 n where dev: "block_get_device i b = Some dev" "block_size dev = 512"
    and ok: "gpt_header_ok dev (gpt_header_of sector)"
    and rp: "gpt_read_partitions drv i b dev (gpt_header_of sector) n 0 [] d2 = (r, parts, d')"
    using assms by (auto simp: gpt_scan_def Let_def split: option.splits prod.splits if_splits)
  have "last_usable_lba (gpt_header_of sector) < block_count dev" using ok by (simp add: gpt_header_ok_def not_le)
  from gpt_read_partitions_ok [OF this _ _ rp] dev show ?thesis by (auto simp: partition_in_def)
qed simp

subsection \<open>Corrupted headers\<close>

lemma list_update_split: "k < length xs \<Longrightarrow> xs = take k xs @ xs ! k # drop (Suc k) xs \<and> xs[k := x] = take k xs @ x # drop (Suc k) xs"
  by (simp add: upd_conv_take_nth_drop id_take_nth_drop [symmetric])

lemma crc32_detects_update: "k < length xs \<Longrightarrow> x \<noteq> xs ! k \<Longrightarrow> crc32 (xs[k := x]) \<noteq> crc32 xs"
  using crc32_detects_byte [of x "xs ! k" "take k xs" "drop (Suc k) xs"] list_update_split [of k xs x] by metis

lemma field_update_other: "k < off \<or> off + n \<le> k \<Longrightarrow> field (s[k := x]) off n = field s off n"
  by (elim disjE) (simp_all add: field_def drop_update_cancel drop_update_swap take_update_cancel)

lemma field_update_same:
  assumes "off \<le> k" and "k < off + n" and "off + n \<le> length s" and "n \<le> 4" and "x \<noteq> s ! k"
  shows "(ucast (field (s[k := x]) off n) :: u32) \<noteq> ucast (field s off n)"
proof
  assume "(ucast (field (s[k := x]) off n) :: u32) = ucast (field s off n)"
  then have "field (s[k := x]) off n = field s off n" using field_u32 [OF assms(4)] by metis
  then have "take n (drop off (s[k := x])) = take n (drop off s)"
    unfolding field_def by (rule le_word_inj [rotated 2]) (use assms in auto)
  then have "take n (drop off (s[k := x])) ! (k - off) = take n (drop off s) ! (k - off)" by simp
  with assms show False by simp
qed

lemma header_crc_corrupt:
  assumes ok: "gpt_header_crc_ok s" and "length s = 512" and k: "k < unat (header_size (gpt_header_of s))"
    and hs: "header_size (gpt_header_of s) \<le> 512" and size: "k < 12 \<or> 16 \<le> k" and x: "x \<noteq> s ! k"
  shows "\<not> gpt_header_crc_ok (s[k := x])"
proof -
  let ?n = "unat (header_size (gpt_header_of s))"
  let ?z = "\<lambda>s. s[16 := 0, 17 := 0, 18 := 0, 19 := 0] :: u8 list"
  have n: "?n \<le> 512" using hs by (simp add: word_le_nat_alt)
  have same_size: "header_size (gpt_header_of (s[k := x])) = header_size (gpt_header_of s)"
    using size by (auto simp: gpt_header_of_def field_update_other)
  have crc: "header_crc32 (gpt_header_of t) = ucast (field t 16 4)" for t by (simp add: gpt_header_of_def)
  show ?thesis
  proof (cases "16 \<le> k \<and> k < 20")
    case True
    then have "k = 16 \<or> k = 17 \<or> k = 18 \<or> k = 19" by auto
    then have "?z (s[k := x]) = ?z s" by (auto simp: list_update_swap)
    moreover have "(ucast (field (s[k := x]) 16 4) :: u32) \<noteq> ucast (field s 16 4)"
      using True x assms(2) by (intro field_update_same) auto
    ultimately show ?thesis using ok same_size by (auto simp: gpt_header_crc_ok_def Let_def crc)
  next
    case False
    then have k': "k < 12 \<or> 20 \<le> k" using size by auto
    then have "?z (s[k := x]) = (?z s)[k := x]" by (auto simp: list_update_swap)
    moreover have "take ?n ((?z s)[k := x]) = (take ?n (?z s))[k := x]" by (rule take_update_swap)
    moreover have "crc32 ((take ?n (?z s))[k := x]) \<noteq> crc32 (take ?n (?z s))"
    proof (rule crc32_detects_update)
      show "k < length (take ?n (?z s))" using k assms(2) n by simp
      have "?z s ! k = s ! k" using k' assms(2) by (auto simp: nth_list_update)
      then show "x \<noteq> take ?n (?z s) ! k" using x k by simp
    qed
    moreover have "field (s[k := x]) 16 4 = field s 16 4" using k' by (intro field_update_other) auto
    ultimately show ?thesis using ok same_size by (simp add: gpt_header_crc_ok_def Let_def crc)
  qed
qed


subsection \<open>The header is read from the overwritten buffer\<close>

lemma gpt_stream_entries_ok:
  assumes disk: "\<And>l. unat l < N \<Longrightarrow> block_read drv i l 1 b d = (0, S (unat l), d)" and "N < 2 ^ 64" and S: "\<And>k. length (S k) = 512"
    and "unat lba + n \<le> N"
  shows "gpt_stream_entries drv i b n lba crc remaining sector d =
     (Some (crc32_update crc (take (unat remaining) (span S (unat lba) n)), if n = 0 then sector else S (unat lba + n - 1)), d)"
  using assms(4)
proof (induction n arbitrary: lba crc remaining sector)
  case (Suc n)
  let ?bytes = "if remaining > 512 then 512 else remaining"
  have l1: "unat (lba + 1) = unat lba + 1" if "0 < n"
    using Suc.prems assms(2) that by (simp add: unat_word_ariths)
  have rd: "block_read drv i lba 1 b d = (0, S (unat lba), d)" using disk Suc.prems by simp
  have sp: "span S (unat lba) (Suc n) = S (unat lba) @ span S (unat lba + 1) n"
    using span_add [of S "unat lba" 1 n] by (simp add: span_def)
  have nb: "unat ?bytes = min 512 (unat remaining)" "unat (remaining - ?bytes) = unat remaining - 512"
    by (auto simp: word_less_nat_alt unat_sub word_le_nat_alt)
  have tk: "take (unat remaining) (span S (unat lba) (Suc n)) =
      take (unat ?bytes) (S (unat lba)) @ take (unat (remaining - ?bytes)) (span S (unat lba + 1) n)"
    unfolding nb sp by (auto simp: S min_def)
  show ?case
  proof (cases "n = 0")
    case True
    then show ?thesis using rd tk by (simp add: Let_def span_def)
  next
    case False
    then have "unat (lba + 1) + n \<le> N" using l1 Suc.prems by simp
    from Suc.IH [OF this] False l1 rd tk show ?thesis by (simp add: Let_def)
  qed
qed (simp add: span_def)

text \<open>
  C27. A consequence of overlaying the header on the sector buffer that the partition array is then streamed
  through: on a readable disk whose header and whose partition array both carry the right checksum, the scan still fails
  whenever bytes 88 to 91 of the last sector of the array happen to differ from that checksum; the stored checksum
  itself is never looked at.
\<close>

theorem gpt_scan_rejects_valid_table:
  assumes "block_get_device i b = Some dev" and "block_size dev = 512" and "1 < block_count dev"
    and "\<And>l. l < block_count dev \<Longrightarrow> block_read drv i l 1 b d = (0, S (unat l), d)" and "\<And>k. length (S k) = 512"
    and "h = gpt_header_of (S 1)" and "gpt_header_ok dev h" and "gpt_header_crc_ok (S 1)" and "gpt_geometry_ok dev h"
    and "crc32 (take (unat (entries_bytes h)) (span S (unat (partition_entries_lba h)) (unat (entries_sectors h)))) = entries_crc32 h"
    and "ucast (field (S (unat (partition_entries_lba h) + unat (entries_sectors h) - 1)) 88 4) \<noteq> entries_crc32 h"
  shows "gpt_scan drv i b d = (- 1, [], d)"
proof -
  let ?N = "unat (block_count dev)" and ?E = "unat (partition_entries_lba h)" and ?n = "unat (entries_sectors h)"
  have geo: "entries_sectors h \<le> block_count dev - partition_entries_lba h" "partition_entries_lba h < block_count dev"
    using assms(9) by (auto simp: gpt_geometry_ok_def not_le)
  have fit: "?E + ?n \<le> ?N"
    using geo by (simp add: word_le_nat_alt word_less_nat_alt unat_sub less_imp_le)
  have disk: "block_read drv i l 1 b d = (0, S (unat l), d)" if "unat l < ?N" for l
    using assms(4) that by (simp add: word_less_nat_alt)
  have h1: "block_read drv i 1 1 b d = (0, S 1, d)" using assms(4) [OF assms(3)] by simp
  have n0: "?n \<noteq> 0"
  proof -
    let ?c = "unat (partition_count h)" and ?s = "unat (partition_entry_size h)"
    have b: "128 \<le> ?s" "?s \<le> 512" "0 < ?c" "?c \<le> 4096"
      using assms(7) by (auto simp: gpt_header_ok_def word_less_nat_alt not_less unat_gt_0)
    have m: "?c * ?s \<le> 4096 * 512" by (rule mult_le_mono) (use b in auto)
    have "unat (ucast (w :: u32) :: u64) = unat w" for w
      by (simp add: unsigned_ucast_eq take_bit_nat_eq_self unsigned_less [of w, THEN less_trans])
    then have "unat (entries_bytes h) = ?c * ?s mod 2 ^ 64" by (simp add: entries_bytes_def unat_word_ariths)
    also have "\<dots> = ?c * ?s" using m by (intro mod_less) simp
    finally have eb: "0 < unat (entries_bytes h)" "unat (entries_bytes h) \<le> 4096 * 512" using m b by simp_all
    define e where "e = unat (entries_bytes h)"
    have "entries_bytes h + 512 - 1 = entries_bytes h + 511" by simp
    then have "unat (entries_bytes h + 512 - 1) = (511 + e) mod 2 ^ 64" unfolding e_def by (simp add: unat_word_ariths)
    also have "\<dots> = 511 + e" using eb(2) unfolding e_def [symmetric] by (intro mod_less) simp
    finally have "unat (entries_bytes h + 512 - 1) = 511 + e" .
    then show ?thesis using eb(1) unfolding e_def [symmetric] by (simp add: entries_sectors_def unat_div)
  qed
  have st: "gpt_stream_entries drv i b ?n (partition_entries_lba h) 0xFFFFFFFF (entries_bytes h) (S 1) d =
      (Some (crc32_update 0xFFFFFFFF (take (unat (entries_bytes h)) (span S ?E ?n)), S (?E + ?n - 1)), d)"
    using gpt_stream_entries_ok [of ?N drv i b d S, OF disk _ assms(5) fit] u64_bound [of "block_count dev"] n0 by simp
  have "NOT (crc32_update 0xFFFFFFFF (take (unat (entries_bytes h)) (span S ?E ?n))) \<noteq> entries_crc32 (gpt_header_of (S (?E + ?n - 1)))"
    using assms(10,11) by (simp add: crc32_def gpt_header_of_def)
  then show ?thesis
    using assms(1,2,7-9) h1 st unfolding gpt_scan_def by (simp add: Let_def assms(6) [unfolded One_nat_def, symmetric])
qed

subsection \<open>A disk with an ordinary partition table\<close>

text \<open>
  128 entries of 128 bytes in sectors 2 to 33; one Linux partition from sector 34 to 40 whose unique identifier starts with
  the byte \<open>x\<close>, the other entries empty.
\<close>

definition example_entry :: "u8 \<Rightarrow> u8 list" where
  "example_entry x = [0xAF,0x3D,0xC6,0x0F,0x83,0x84,0x72,0x47,0x8E,0x79,0x3D,0x69,0xD8,0x47,0x7D,0xE4] @ (x # replicate 15 1) @
     le_bytes 8 34 @ le_bytes 8 40 @ replicate 80 0"

definition example_table :: "u8 \<Rightarrow> u8 list" where
  "example_table x = example_entry x @ replicate 16256 0"

definition example_header :: "u32 \<Rightarrow> u32 \<Rightarrow> u8 list" where
  "example_header crc table_crc = [0x45, 0x46, 0x49, 0x20, 0x50, 0x41, 0x52, 0x54] @ le_bytes 4 0x10000 @ le_bytes 4 92 @
     le_bytes 4 (ucast crc) @ le_bytes 4 0 @ le_bytes 8 1 @ le_bytes 8 63 @ le_bytes 8 34 @ le_bytes 8 62 @ replicate 16 2 @
     le_bytes 8 2 @ le_bytes 4 128 @ le_bytes 4 128 @ le_bytes 4 (ucast table_crc)"

definition example_disk :: "u8 \<Rightarrow> nat \<Rightarrow> u8 list" where
  "example_disk x k =
     (if k = 1
      then example_header (crc32 (example_header 0 (crc32 (example_table x)))) (crc32 (example_table x)) @ replicate 420 0
      else if k = 2 then example_entry x @ replicate 384 0
      else replicate 512 0)"

lemma length_example_header [simp]: "length (example_header c e) = 92"
  by (simp add: example_header_def)

lemma length_example_entry [simp]: "length (example_entry x) = 128"
  by (simp add: example_entry_def)

lemma length_example_disk [simp]: "length (example_disk x k) = 512"
  by (simp add: example_disk_def)

lemma le_fields: "field (xs @ le_bytes n w @ ys) off n = take_bit (8 * n) w" if "off = length xs"
  using that by (simp add: field_def le_word_le_bytes)

lemma example_header_fields:
  fixes c e :: u32 and ys :: "u8 list"
  defines "s \<equiv> example_header c e @ ys"
  shows "take 8 s = [0x45, 0x46, 0x49, 0x20, 0x50, 0x41, 0x52, 0x54]" "field s 12 4 = 92" "field s 16 4 = ucast c" "field s 24 8 = 1"
    "field s 40 8 = 34" "field s 48 8 = 62" "field s 72 8 = 2" "field s 80 4 = 128" "field s 84 4 = 128" "field s 88 4 = ucast e"
proof -
  have u: "take_bit 32 (ucast w :: u64) = ucast w" for w :: u32
    by (rule bit_eqI) (auto simp: bit_simps dest: bit_imp_le_length)
  let ?sig = "[0x45, 0x46, 0x49, 0x20, 0x50, 0x41, 0x52, 0x54] :: u8 list"
  show "take 8 s = ?sig" by (simp add: s_def example_header_def)
  show "field s 12 4 = 92" using le_fields [of 12 "?sig @ le_bytes 4 0x10000" 4 92] by (simp add: s_def example_header_def)
  let ?p = "?sig @ le_bytes 4 0x10000 @ le_bytes 4 92"
  show "field s 16 4 = ucast c" using le_fields [of 16 ?p 4 "ucast c"] u by (simp add: s_def example_header_def)
  let ?p = "?p @ le_bytes 4 (ucast c) @ le_bytes 4 0"
  show "field s 24 8 = 1" using le_fields [of 24 ?p 8 1] by (simp add: s_def example_header_def)
  let ?p = "?p @ le_bytes 8 1 @ le_bytes 8 63"
  show "field s 40 8 = 34" using le_fields [of 40 ?p 8 34] by (simp add: s_def example_header_def)
  show "field s 48 8 = 62" using le_fields [of 48 "?p @ le_bytes 8 34" 8 62] by (simp add: s_def example_header_def)
  let ?p = "?p @ le_bytes 8 34 @ le_bytes 8 62 @ replicate 16 2"
  show "field s 72 8 = 2" using le_fields [of 72 ?p 8 2] by (simp add: s_def example_header_def)
  show "field s 80 4 = 128" using le_fields [of 80 "?p @ le_bytes 8 2" 4 128] by (simp add: s_def example_header_def)
  let ?p = "?p @ le_bytes 8 2 @ le_bytes 4 128"
  show "field s 84 4 = 128" using le_fields [of 84 ?p 4 128] by (simp add: s_def example_header_def)
  show "field s 88 4 = ucast e" using le_fields [of 88 "?p @ le_bytes 4 128" 4 "ucast e"] u by (simp add: s_def example_header_def)
qed

lemma ucast_u32_u64 [simp]: "ucast (ucast w :: u64) = (w :: u32)"
  by (rule bit_eqI) (auto simp: bit_simps)

lemma clear_crc_field:
  assumes "length pre = 16"
  shows "(pre @ le_bytes 4 w @ rest)[16 := 0, 17 := 0, 18 := 0, 19 := 0] = pre @ le_bytes 4 0 @ rest"
proof -
  have b: "le_bytes 4 v = [ucast v, ucast (drop_bit 8 v), ucast (drop_bit 8 (drop_bit 8 v)), ucast (drop_bit 8 (drop_bit 8 (drop_bit 8 v)))]" for v
    by (simp add: eval_nat_numeral)
  show ?thesis unfolding b using assms by (simp add: list_update_append)
qed

lemma example_header_crc: "gpt_header_crc_ok (example_disk x 1)"
proof -
  let ?e = "crc32 (example_table x)"
  let ?c = "crc32 (example_header 0 ?e)"
  have z: "(example_header ?c ?e @ replicate 420 0)[16 := 0, 17 := 0, 18 := 0, 19 := 0] = example_header 0 ?e @ replicate 420 0"
    unfolding example_header_def
    using clear_crc_field [of "[0x45, 0x46, 0x49, 0x20, 0x50, 0x41, 0x52, 0x54] @ le_bytes 4 0x10000 @ le_bytes 4 92"] by simp
  have "header_size (gpt_header_of (example_disk x 1)) = 92" "header_crc32 (gpt_header_of (example_disk x 1)) = ?c"
    by (simp_all add: gpt_header_of_def example_disk_def example_header_fields)
  then show ?thesis by (simp add: gpt_header_crc_ok_def Let_def) (simp add: example_disk_def z)
qed


lemma example_header_of:
  "gpt_header_of (example_disk x 1) =
     \<lparr>signature = [0x45, 0x46, 0x49, 0x20, 0x50, 0x41, 0x52, 0x54], header_size = 92,
      header_crc32 = crc32 (example_header 0 (crc32 (example_table x))), current_lba = 1,
      first_usable_lba = 34, last_usable_lba = 62, partition_entries_lba = 2, partition_count = 128, partition_entry_size = 128,
      entries_crc32 = crc32 (example_table x)\<rparr>"
  using example_header_fields(1) [of _ _ "[]"] by (simp add: gpt_header_of_def example_disk_def example_header_fields)

lemmas example_header_simps = example_header_of [unfolded One_nat_def] example_header_crc [unfolded One_nat_def]

lemma span_one: "span v k 1 = v k"
  by (simp add: span_def)

lemma example_span: "span (example_disk x) 2 32 = example_table x"
proof -
  have z: "span (example_disk x) 3 n = replicate (n * 512) 0" for n
  proof (induction n)
    case (Suc n)
    have "span (example_disk x) 3 (Suc n) = span (example_disk x) 3 n @ span (example_disk x) (3 + n) 1"
      using span_add [of "example_disk x" 3 n 1] by simp
    also have "span (example_disk x) (3 + n) 1 = replicate 512 0" unfolding span_one by (simp add: example_disk_def)
    finally show ?case using Suc replicate_add [of "n * 512" 512 "0 :: u8"] by (simp add: add.commute)
  qed (simp add: span_def)
  have "span (example_disk x) 2 (1 + 31) = span (example_disk x) 2 1 @ span (example_disk x) (2 + 1) 31"
    by (rule span_add)
  moreover have "span (example_disk x) 2 1 = example_entry x @ replicate 384 0" unfolding span_one by (simp add: example_disk_def)
  ultimately have "span (example_disk x) 2 32 = example_entry x @ replicate 384 0 @ replicate (31 * 512) 0" using z [of 31] by simp
  also have "replicate 384 0 @ replicate (31 * 512) 0 = (replicate (384 + 31 * 512) 0 :: u8 list)" by (rule replicate_add [symmetric])
  finally show ?thesis by (simp add: example_table_def)
qed

lemma example_tables_differ: "x \<noteq> y \<Longrightarrow> crc32 (example_table x) \<noteq> crc32 (example_table y)"
  using crc32_detects_byte [of x y "[0xAF,0x3D,0xC6,0x0F,0x83,0x84,0x72,0x47,0x8E,0x79,0x3D,0x69,0xD8,0x47,0x7D,0xE4]"
      "replicate 15 1 @ le_bytes 8 34 @ le_bytes 8 40 @ replicate 80 0 @ replicate 16256 0"]
  by (simp add: example_table_def example_entry_def)

lemma blocks_example_read:
  assumes "l < 64"
  shows "block_read (ram_drivers 512) 0 l 1 blocks_example d = (0, ram_view 512 d (BLOCK_TRANSPORT_AHCI, 0) (unat l), d)"
proof -
  have "1 \<le> 64 - l"
  proof -
    have "unat (64 - l) = 64 - unat l" using assms by (simp add: unat_sub less_imp_le)
    then show ?thesis using assms by (simp add: word_le_nat_alt word_less_nat_alt)
  qed
  moreover have "l \<le> 0x0000FFFFFFFFFFFF" using assms by (simp add: word_le_nat_alt word_less_nat_alt)
  moreover have dev: "length (g_devices blocks_example) = 1" "g_devices blocks_example ! 0 =
      \<lparr>device = \<lparr>bd_id = 0, block_size = 512, block_count = 64, bd_writable = True,
                 transport = BLOCK_TRANSPORT_AHCI, bd_name = ''AHCI SATA''\<rparr>,
       ata_index = - 1, ata_type = ATA_TYPE_HDD, ahci_port_index = 0, nvme_index = - 1\<rparr>"
    by (simp_all add: blocks_example_def)
  ultimately show ?thesis using assms
    by (simp add: block_read_def range_valid_def read_chunks.simps ahci_transfer_read_def blocks_example_transfer ram_drivers_def
        fis_fields(1) ahci_fis_lba ahci_fis_count span_def)
qed

definition example_state :: "u8 \<Rightarrow> medium \<Rightarrow> nat \<Rightarrow> u8 list" where
  "example_state x = (\<lambda>m. example_disk x)"

lemma example_state_view [simp]: "ram_view 512 (example_state x) m k = example_disk x k"
  by (simp add: ram_view_def example_state_def)

lemma blocks_example_device:
  "block_get_device 0 blocks_example = Some \<lparr>bd_id = 0, block_size = 512, block_count = 64, bd_writable = True,
     transport = BLOCK_TRANSPORT_AHCI, bd_name = ''AHCI SATA''\<rparr>"
  by (simp add: block_get_device_def blocks_example_def)


theorem gpt_scan_partitions_in_device_witness:
  "\<exists>r parts d'. gpt_scan (ram_drivers 512) 0 blocks_example (example_state 0) = (r, parts, d') \<and> length parts \<le> 32"
proof -
  obtain r parts d' where g: "gpt_scan (ram_drivers 512) 0 blocks_example (example_state 0) = (r, parts, d')"
    by (cases "gpt_scan (ram_drivers 512) 0 blocks_example (example_state 0)") auto
  from gpt_scan_partitions_in_device [OF g] g show ?thesis by blast
qed

text \<open>The example disk with the first byte of its signature overwritten.\<close>

definition corrupt_state :: "medium \<Rightarrow> nat \<Rightarrow> u8 list" where
  "corrupt_state = (\<lambda>m k. if k = 1 then (example_disk 0 1)[0 := 0] else example_disk 0 k)"


theorem gpt_scan_rejects_valid_table_witness:
  "\<exists>x. gpt_scan (ram_drivers 512) 0 blocks_example (example_state x) = (- 1, [], example_state x)"
proof -
  obtain x where x: "crc32 (example_table x) \<noteq> 0" using example_tables_differ [of 0 1] by force
  let ?h = "gpt_header_of (example_disk x 1)"
  note eb = entries_bytes_def entries_sectors_def
  have "length (example_table x) = 16384" by (simp add: example_table_def)
  then have tb: "take 16384 (example_table x) = example_table x" by simp
  have "gpt_scan (ram_drivers 512) 0 blocks_example (example_state x) = (- 1, [], example_state x)"
  proof (rule gpt_scan_rejects_valid_table [OF blocks_example_device, where S = "example_disk x" and h = ?h])
    show "gpt_header_ok \<lparr>bd_id = 0, block_size = 512, block_count = 64, bd_writable = True,
        transport = BLOCK_TRANSPORT_AHCI, bd_name = ''AHCI SATA''\<rparr> ?h"
      by (simp add: gpt_header_ok_def example_header_simps)
    show "gpt_geometry_ok \<lparr>bd_id = 0, block_size = 512, block_count = 64, bd_writable = True,
        transport = BLOCK_TRANSPORT_AHCI, bd_name = ''AHCI SATA''\<rparr> ?h"
      by (simp add: gpt_geometry_ok_def eb example_header_simps)
    show "crc32 (take (unat (entries_bytes ?h)) (span (example_disk x) (unat (partition_entries_lba ?h)) (unat (entries_sectors ?h)))) =
        entries_crc32 ?h"
      by (simp add: eb example_header_simps example_span tb)
    have "field (replicate 512 0) 88 4 = 0" by (simp add: field_def eval_nat_numeral)
    then show "ucast (field (example_disk x (unat (partition_entries_lba ?h) + unat (entries_sectors ?h) - 1)) 88 4) \<noteq> entries_crc32 ?h"
      using x by (simp add: eb example_header_simps) (simp add: example_disk_def)
  qed (simp_all add: blocks_example_read example_header_simps)
  then show ?thesis ..
qed

end
