(* ===== verification/Frames.thy ===== *)
theory Frames
  imports Prelude "HOL-Library.State_Monad"
begin

text \<open>
  Reasoning about computations in the state monad. A computation \<open>keeps\<close> a view of the state when it never changes it; \<open>wp\<close> is the
  weakest condition on a state under which a computation ends with a result and a state of a given kind. The rules for \<open>keeps\<close> follow the
  constructs the drivers are written with and are collected in \<open>keeps\<close>; those of \<open>wp\<close> are rewrite rules.
\<close>

named_theorems keeps \<open>introduction rules for keeps\<close>

definition keeps :: "('s \<Rightarrow> 'v) \<Rightarrow> ('s, 'a) state \<Rightarrow> bool" where
  "keeps f m \<longleftrightarrow> (\<forall>s. f (snd (run_state m s)) = f s)"

lemma keepsD: "keeps f m \<Longrightarrow> run_state m s = (a, s') \<Longrightarrow> f s' = f s"
  unfolding keeps_def by (metis snd_conv)

lemma keeps_snd: "keeps f m \<Longrightarrow> f (snd (run_state m s)) = f s"
  unfolding keeps_def by blast

lemma keeps_return [keeps]: "keeps f (State_Monad.return a)"
  by (simp add: keeps_def)

lemma keeps_get [keeps]: "keeps f State_Monad.get"
  by (simp add: keeps_def)

lemma keeps_bind [keeps]: "keeps f m \<Longrightarrow> (\<And>a. keeps f (g a)) \<Longrightarrow> keeps f (State_Monad.bind m g)"
  by (auto simp: keeps_def split: prod.splits) (metis snd_conv)

lemma keeps_State: "(\<And>s. f (snd (g s)) = f s) \<Longrightarrow> keeps f (State g)"
  by (simp add: keeps_def)

lemma run_state_update [simp]: "run_state (State_Monad.update g) s = ((), g s)"
  by (simp add: State_Monad.update_def)

lemma keeps_update: "(\<And>s. f (g s) = f s) \<Longrightarrow> keeps f (State_Monad.update g)"
  by (simp add: keeps_def)

lemma keeps_if [keeps]: "(b \<Longrightarrow> keeps f m) \<Longrightarrow> (\<not> b \<Longrightarrow> keeps f n) \<Longrightarrow> keeps f (if b then m else n)"
  by simp

lemma keeps_Let [keeps]: "keeps f (g x) \<Longrightarrow> keeps f (Let x g)"
  by simp

lemma keeps_option [keeps]:
  "(x = None \<Longrightarrow> keeps f m) \<Longrightarrow> (\<And>y. x = Some y \<Longrightarrow> keeps f (g y)) \<Longrightarrow> keeps f (case x of None \<Rightarrow> m | Some y \<Rightarrow> g y)"
  by (cases x) auto

lemma keeps_prod [keeps]: "(\<And>a b. x = (a, b) \<Longrightarrow> keeps f (g a b)) \<Longrightarrow> keeps f (case x of (a, b) \<Rightarrow> g a b)"
  by (cases x) auto

lemma keeps_sum [keeps]:
  "(\<And>a. x = Inl a \<Longrightarrow> keeps f (g a)) \<Longrightarrow> (\<And>b. x = Inr b \<Longrightarrow> keeps f (h b)) \<Longrightarrow> keeps f (case x of Inl a \<Rightarrow> g a | Inr b \<Rightarrow> h b)"
  by (cases x) auto

lemma keeps_list [keeps]:
  "(x = [] \<Longrightarrow> keeps f m) \<Longrightarrow> (\<And>y ys. x = y # ys \<Longrightarrow> keeps f (g y ys)) \<Longrightarrow> keeps f (case x of [] \<Rightarrow> m | y # ys \<Rightarrow> g y ys)"
  by (cases x) auto

text \<open>A computation that reads the state and stores a changed copy of it.\<close>

lemma keeps_get_set: "(\<And>s. f (snd (run_state (g s) s)) = f s) \<Longrightarrow> keeps f (State_Monad.bind State_Monad.get g)"
  by (simp add: keeps_def)

lemma keeps_get_if_set:
  "(\<And>s. f (t s) = f s) \<Longrightarrow> keeps f m \<Longrightarrow> (\<And>s. b s \<Longrightarrow> keeps f (k s)) \<Longrightarrow>
   keeps f (State_Monad.bind State_Monad.get (\<lambda>s. if b s then k s else State_Monad.bind (State_Monad.set (t s)) (\<lambda>_. m)))"
  by (simp add: keeps_def)

lemma keeps_comp: "keeps f m \<Longrightarrow> keeps (\<lambda>s. h (f s)) m"
  by (simp add: keeps_def)

subsection \<open>Weakest preconditions\<close>

definition wp :: "('s, 'a) state \<Rightarrow> ('a \<Rightarrow> 's \<Rightarrow> bool) \<Rightarrow> 's \<Rightarrow> bool" where
  "wp m Q s \<longleftrightarrow> (case run_state m s of (a, s') \<Rightarrow> Q a s')"

lemma wp_return [simp]: "wp (State_Monad.return a) Q = Q a"
  by (simp add: wp_def fun_eq_iff)

lemma wp_get [simp]: "wp State_Monad.get Q = (\<lambda>s. Q s s)"
  by (simp add: wp_def fun_eq_iff)

lemma wp_set [simp]: "wp (State_Monad.set t) Q = (\<lambda>s. Q () t)"
  by (simp add: wp_def fun_eq_iff)

lemma wp_update [simp]: "wp (State_Monad.update g) Q = (\<lambda>s. Q () (g s))"
  by (simp add: wp_def fun_eq_iff)

lemma wp_bind [simp]: "wp (State_Monad.bind m g) Q = wp m (\<lambda>a. wp (g a) Q)"
  by (auto simp: wp_def fun_eq_iff split: prod.splits)

lemma wp_mono: "wp m Q s \<Longrightarrow> (\<And>a s'. Q a s' \<Longrightarrow> R a s') \<Longrightarrow> wp m R s"
  by (auto simp: wp_def split: prod.splits)

lemma wp_conj: "wp m Q s \<Longrightarrow> wp m R s \<Longrightarrow> wp m (\<lambda>a s'. Q a s' \<and> R a s') s"
  by (auto simp: wp_def split: prod.splits)

lemma wp_run: "run_state m s = (a, s') \<Longrightarrow> wp m Q s \<longleftrightarrow> Q a s'"
  by (simp add: wp_def)

lemma wp_keeps: "keeps f m \<Longrightarrow> (\<And>a s'. f s' = f s \<Longrightarrow> Q a s') \<Longrightarrow> wp m Q s"
  by (auto simp: wp_def keeps_def split: prod.splits) (metis snd_conv)

end
