(* ===== verification/Fat32.thy ===== *)
theory Fat32
  imports Gpt Frames
begin

text \<open>
  The FAT32 driver (\<open>drivers/system/fat32.c\<close>) over the block layer: mounting, the allocation table in all its copies,
  cluster chains, directories of short names, reading, writing, renaming and deleting files, making directories, and the consistency check.
  The driver's static variables are a record that extends the state of the machine below it, and its functions are computations in
  the state monad over that record; what the C functions return through pointers is their result, \<open>None\<close> or \<open>False\<close> their failure.
\<close>

subsection \<open>State\<close>

text \<open>What the file systems stand on: the block layer, the driver state and physical memory.\<close>

record 'd machine =
  m_blocks :: blocks
  m_dev :: 'd
  m_mm :: mm

text \<open>
  The static variables of the driver. Of its three buffers only \<open>cluster_buf\<close> carries data from one function to another; \<open>sector_buf\<close> and
  \<open>fat_sector_buf\<close> are filled before every use and are local values here.
\<close>

record 'd fat32 = "'d machine" +
  s_partition_lba :: u32
  s_partition_sectors :: u32
  s_fat_start_lba :: u32
  s_data_start_lba :: u32
  s_sectors_per_cluster :: u32
  s_root_cluster :: u32
  s_fat_size_sectors :: u32
  s_max_cluster :: u32
  s_num_fats :: u32
  s_fsinfo_lba :: u32
  s_fsinfo_valid :: bool
  s_ready :: bool
  s_was_dirty :: bool
  s_total_bytes :: u64
  s_free_bytes :: u64
  s_block_device :: int
  cluster_buf :: "u8 list"

record fat32_entry =
  fe_name :: string
  fe_is_dir :: bool
  fe_size :: u32
  fe_first_cluster :: u32

record fat32_repair_report =
  rr_files :: u32
  rr_directories :: u32
  rr_repaired_chains :: u32
  rr_reclaimed_clusters :: u32
  rr_free_clusters :: u32

abbreviation (input) SECTOR_SIZE :: u32 where "SECTOR_SIZE \<equiv> 512"
abbreviation (input) MAX_CLUSTER_SECTORS :: u8 where "MAX_CLUSTER_SECTORS \<equiv> 64"
abbreviation (input) FAT32_EOC :: u32 where "FAT32_EOC \<equiv> 0x0FFFFFF8"
abbreviation (input) FAT32_BAD_CLUSTER :: u32 where "FAT32_BAD_CLUSTER \<equiv> 0x0FFFFFF7"
abbreviation (input) FAT32_MAX_NAME :: nat where "FAT32_MAX_NAME \<equiv> 13"

text \<open>A computation of the driver: it runs on the driver's variables and everything below them.\<close>

type_synonym ('d, 'x, 'a) fio = "(('d, 'x) fat32_scheme, 'a) state"

subsection \<open>Disk access and byte fields\<close>

definition disk_read :: "'d drivers \<Rightarrow> u64 \<Rightarrow> u32 \<Rightarrow> ('d, 'x, u8 list option) fio" where
  "disk_read drv lba count = State (\<lambda>s.
     if s_block_device s \<ge> 0
     then case block_read drv (s_block_device s) lba count (m_blocks s) (m_dev s) of
            (r, bs, d) \<Rightarrow> (if r = 0 then Some bs else None, s\<lparr>m_dev := d\<rparr>)
     else (None, s))"

definition disk_write :: "'d drivers \<Rightarrow> u64 \<Rightarrow> u32 \<Rightarrow> u8 list \<Rightarrow> ('d, 'x, bool) fio" where
  "disk_write drv lba count buffer = State (\<lambda>s.
     if s_block_device s \<ge> 0
     then case block_write drv (s_block_device s) lba count buffer (m_blocks s) (m_dev s) of
            (r, d) \<Rightarrow> (r = 0, s\<lparr>m_dev := d\<rparr>)
     else (False, s))"

definition rd_u16 :: "u8 list \<Rightarrow> nat \<Rightarrow> u16" where
  "rd_u16 p off = ucast (field p off 2)"

definition rd_u32 :: "u8 list \<Rightarrow> nat \<Rightarrow> u32" where
  "rd_u32 p off = ucast (field p off 4)"

definition wr_u32 :: "nat \<Rightarrow> u32 \<Rightarrow> u8 list \<Rightarrow> u8 list" where
  "wr_u32 off v p = p[off := ucast v, off + 1 := ucast (drop_bit 8 v), off + 2 := ucast (drop_bit 16 v), off + 3 := ucast (drop_bit 24 v)]"

definition valid_boot_signature :: "u8 list \<Rightarrow> bool" where
  "valid_boot_signature sector \<longleftrightarrow> sector ! 510 = 0x55 \<and> sector ! 511 = 0xAA"

definition fat32_sync_fsinfo :: "'d drivers \<Rightarrow> ('d, 'x, unit) fio" where
  "fat32_sync_fsinfo drv = do {
     s \<leftarrow> State_Monad.get;
     if \<not> s_ready s \<or> \<not> s_fsinfo_valid s \<or> s_sectors_per_cluster s = 0 then State_Monad.return ()
     else do {
       r \<leftarrow> disk_read drv (ucast (s_fsinfo_lba s)) 1;
       case r of
         None \<Rightarrow> State_Monad.return ()
       | Some buf \<Rightarrow>
           if rd_u32 buf 0 \<noteq> 0x41615252 \<or> rd_u32 buf 0x1E4 \<noteq> 0x61417272 then State_Monad.return ()
           else do {
             let cluster_bytes = ucast (s_sectors_per_cluster s) * 512;
             let free_clusters = (if cluster_bytes \<noteq> 0 then s_free_bytes s div cluster_bytes else 0);
             let free_clusters = (if free_clusters > ucast (s_max_cluster s - 1) then ucast (s_max_cluster s - 1) else free_clusters);
             _ \<leftarrow> disk_write drv (ucast (s_fsinfo_lba s)) 1 (wr_u32 0x1EC 0xFFFFFFFF (wr_u32 0x1E8 (ucast free_clusters) buf));
             State_Monad.return ()
           }
     }
   }"

definition fat32_root_cluster :: "('d, 'x) fat32_scheme \<Rightarrow> u32" where
  "fat32_root_cluster s = s_root_cluster s"

definition fat32_get_stats :: "('d, 'x) fat32_scheme \<Rightarrow> (u64 \<times> u64) option" where
  "fat32_get_stats s = (if s_ready s then Some (s_total_bytes s, s_free_bytes s) else None)"

subsection \<open>The allocation table\<close>

definition valid_cluster :: "('d, 'x) fat32_scheme \<Rightarrow> u32 \<Rightarrow> bool" where
  "valid_cluster s cluster \<longleftrightarrow> cluster \<ge> 2 \<and> cluster \<le> s_max_cluster s"

definition cluster_to_lba :: "('d, 'x) fat32_scheme \<Rightarrow> u32 \<Rightarrow> u32 option" where
  "cluster_to_lba s cluster =
     (if \<not> valid_cluster s cluster then None
      else
        let relative = (cluster - 2) * s_sectors_per_cluster s in
        if relative > s_partition_sectors s then None
        else if s_data_start_lba s > 0x0FFFFFFF - relative then None
        else Some (s_data_start_lba s + relative))"

definition fat_read_entry :: "'d drivers \<Rightarrow> u32 \<Rightarrow> ('d, 'x, u32 option) fio" where
  "fat_read_entry drv cluster = do {
     s \<leftarrow> State_Monad.get;
     if \<not> s_ready s \<or> cluster < 1 \<or> cluster > s_max_cluster s then State_Monad.return None
     else do {
       let fat_offset = cluster * 4;
       let fat_sector_index = fat_offset div SECTOR_SIZE;
       let offset_in_sector = unat (fat_offset mod SECTOR_SIZE);
       if fat_sector_index \<ge> s_fat_size_sectors s then State_Monad.return None
       else do {
         r \<leftarrow> disk_read drv (ucast (s_fat_start_lba s + fat_sector_index)) 1;
         State_Monad.return (map_option (\<lambda>buf. rd_u32 buf offset_in_sector AND 0x0FFFFFFF) r)
       }
     }
   }"

text \<open>The new bytes of an entry; the upper four bits of the old one stay.\<close>

definition put_fat_entry :: "nat \<Rightarrow> u32 \<Rightarrow> u8 list \<Rightarrow> u8 list" where
  "put_fat_entry off v buf =
     buf[off := ucast (v AND 0xFF), off + 1 := ucast (drop_bit 8 v AND 0xFF), off + 2 := ucast (drop_bit 16 v AND 0xFF),
         off + 3 := (buf ! (off + 3) AND 0xF0) OR ucast (drop_bit 24 v AND 0x0F)]"

text \<open>The loop over the copies of the table: \<open>n\<close> copies from number \<open>copy\<close> on.\<close>

primrec fat_set_copies :: "nat \<Rightarrow> 'd drivers \<Rightarrow> u32 \<Rightarrow> u32 \<Rightarrow> nat \<Rightarrow> u32 \<Rightarrow> ('d, 'x, bool) fio" where
  "fat_set_copies 0 drv copy fat_sector_index off v = State_Monad.return True"
| "fat_set_copies (Suc n) drv copy fat_sector_index off v = do {
     s \<leftarrow> State_Monad.get;
     let lba = ucast (s_fat_start_lba s + copy * s_fat_size_sectors s + fat_sector_index);
     r \<leftarrow> disk_read drv lba 1;
     case r of
       None \<Rightarrow> State_Monad.return False
     | Some buf \<Rightarrow> do {
         ok \<leftarrow> disk_write drv lba 1 (put_fat_entry off v buf);
         if \<not> ok then State_Monad.return False
         else fat_set_copies n drv (copy + 1) fat_sector_index off v
       }
   }"

definition fat_set_entry :: "'d drivers \<Rightarrow> u32 \<Rightarrow> u32 \<Rightarrow> ('d, 'x, bool) fio" where
  "fat_set_entry drv cluster v = do {
     s \<leftarrow> State_Monad.get;
     if \<not> s_ready s \<or> cluster < 1 \<or> cluster > s_max_cluster s then State_Monad.return False
     else do {
       let fat_offset = cluster * 4;
       let fat_sector_index = fat_offset div SECTOR_SIZE;
       if fat_sector_index \<ge> s_fat_size_sectors s then State_Monad.return False
       else fat_set_copies (unat (s_num_fats s)) drv 0 fat_sector_index (unat (fat_offset mod SECTOR_SIZE)) v
     }
   }"

definition fat_next_cluster :: "'d drivers \<Rightarrow> u32 \<Rightarrow> ('d, 'x, u32) fio" where
  "fat_next_cluster drv cluster = do {
     s \<leftarrow> State_Monad.get;
     if \<not> s_ready s \<or> \<not> valid_cluster s cluster then State_Monad.return 0
     else do {
       r \<leftarrow> fat_read_entry drv cluster;
       State_Monad.return (case r of
         None \<Rightarrow> 0
       | Some v \<Rightarrow>
           if v \<ge> FAT32_EOC then 0
           else if v = FAT32_BAD_CLUSTER then 0
           else if v < 2 \<or> v > s_max_cluster s then 0
           else v)
     }
   }"

text \<open>Every caller reads into \<open>cluster_buf\<close>.\<close>

definition read_cluster :: "'d drivers \<Rightarrow> u32 \<Rightarrow> ('d, 'x, bool) fio" where
  "read_cluster drv cluster = State (\<lambda>s.
     case cluster_to_lba s cluster of
       None \<Rightarrow> (False, s)
     | Some lba \<Rightarrow>
         if s_block_device s \<ge> 0
         then case block_read drv (s_block_device s) (ucast lba) (s_sectors_per_cluster s) (m_blocks s) (m_dev s) of
                (r, bs, d) \<Rightarrow> (r = 0, s\<lparr>m_dev := d, cluster_buf := bs @ drop (length bs) (cluster_buf s)\<rparr>)
         else (False, s))"

definition set_cluster_buf :: "u8 list \<Rightarrow> ('d, 'x, unit) fio" where
  "set_cluster_buf buf = State (\<lambda>s. ((), s\<lparr>cluster_buf := buf\<rparr>))"

definition write_cluster :: "'d drivers \<Rightarrow> u32 \<Rightarrow> u8 list \<Rightarrow> ('d, 'x, bool) fio" where
  "write_cluster drv cluster data = do {
     s \<leftarrow> State_Monad.get;
     case cluster_to_lba s cluster of
       None \<Rightarrow> State_Monad.return False
     | Some lba \<Rightarrow> disk_write drv (ucast lba) (s_sectors_per_cluster s) data
   }"

definition fat32_set_clean_flag :: "'d drivers \<Rightarrow> bool \<Rightarrow> ('d, 'x, bool) fio" where
  "fat32_set_clean_flag drv clean = do {
     r \<leftarrow> fat_read_entry drv 1;
     case r of
       None \<Rightarrow> State_Monad.return False
     | Some v \<Rightarrow> fat_set_entry drv 1 (if clean then v OR 0x08000000 else v AND NOT 0x08000000)
   }"

text \<open>The first free cluster among the 128 entries of one sector of the table.\<close>

definition free_in_sector :: "('d, 'x) fat32_scheme \<Rightarrow> u32 \<Rightarrow> u8 list \<Rightarrow> u32 option" where
  "free_in_sector s sector_idx buf =
     map_option (\<lambda>e. sector_idx * 128 + word_of_nat e)
       (first_from (\<lambda>e. let cluster = sector_idx * 128 + word_of_nat e in
          \<not> (cluster < 2 \<or> cluster > s_max_cluster s) \<and> rd_u32 buf (e * 4) AND 0x0FFFFFFF = 0) 0 128)"

primrec find_free_loop :: "nat \<Rightarrow> 'd drivers \<Rightarrow> u32 \<Rightarrow> ('d, 'x, u32) fio" where
  "find_free_loop 0 drv sector_idx = State_Monad.return 0"
| "find_free_loop (Suc n) drv sector_idx = do {
     s \<leftarrow> State_Monad.get;
     r \<leftarrow> disk_read drv (ucast (s_fat_start_lba s + sector_idx)) 1;
     case r of
       None \<Rightarrow> State_Monad.return 0
     | Some buf \<Rightarrow>
         (case free_in_sector s sector_idx buf of
            Some cluster \<Rightarrow> State_Monad.return cluster
          | None \<Rightarrow> find_free_loop n drv (sector_idx + 1))
   }"

definition find_free_cluster :: "'d drivers \<Rightarrow> ('d, 'x, u32) fio" where
  "find_free_cluster drv = do {
     s \<leftarrow> State_Monad.get;
     if \<not> s_ready s then State_Monad.return 0 else find_free_loop (unat (s_fat_size_sectors s)) drv 0
   }"

text \<open>
  The loops that follow a chain stop after \<open>s_max_cluster + 1\<close> steps whatever the table says; that bound is their
  recursion argument.
\<close>

definition chain_fuel :: "('d, 'x) fat32_scheme \<Rightarrow> nat" where
  "chain_fuel s = unat (s_max_cluster s) + 1"

primrec free_chain_loop :: "nat \<Rightarrow> 'd drivers \<Rightarrow> u32 \<Rightarrow> u32 \<Rightarrow> ('d, 'x, u32 option) fio" where
  "free_chain_loop 0 drv cluster count = State_Monad.return None"
| "free_chain_loop (Suc n) drv cluster count =
     (if cluster = 0 then State_Monad.return None
      else do {
        nxt \<leftarrow> fat_next_cluster drv cluster;
        ok \<leftarrow> fat_set_entry drv cluster 0;
        if \<not> ok then State_Monad.return None
        else if nxt = 0 then State_Monad.return (Some (count + 1))
        else free_chain_loop n drv nxt (count + 1)
      })"

text \<open>The number of clusters released, or \<open>None\<close> for failure; nothing to do for cluster 0.\<close>

definition fat_free_chain :: "'d drivers \<Rightarrow> u32 \<Rightarrow> ('d, 'x, u32 option) fio" where
  "fat_free_chain drv first_cluster = do {
     s \<leftarrow> State_Monad.get;
     if \<not> valid_cluster s first_cluster then State_Monad.return (if first_cluster = 0 then Some 0 else None)
     else free_chain_loop (chain_fuel s) drv first_cluster 0
   }"

subsection \<open>Short names and directory entries\<close>

definition format_short_name :: "u8 list \<Rightarrow> string" where
  "format_short_name raw =
     (let name = map (\<lambda>b. char_of (unat b)) (takeWhile (\<lambda>b. b \<noteq> 0x20) (take 8 raw));
          ext = map (\<lambda>b. char_of (unat b)) (takeWhile (\<lambda>b. b \<noteq> 0x20) (take 3 (drop 8 raw)));
          out = take (FAT32_MAX_NAME - 1) (takeWhile (\<lambda>c. c \<noteq> CHR 0x00) name)
      in if ext \<noteq> [] \<and> length out < FAT32_MAX_NAME - 1
         then take (FAT32_MAX_NAME - 1) (out @ CHR ''.'' # takeWhile (\<lambda>c. c \<noteq> CHR 0x00) ext)
         else out)"

definition upper :: "char \<Rightarrow> u8" where
  "upper c = (let b = word_of_nat (of_char c) in if b \<ge> 0x61 \<and> b \<le> 0x7A then b - 0x61 + 0x41 else b)"

text \<open>Blank padding on the right to \<open>n\<close> bytes.\<close>

definition pad :: "nat \<Rightarrow> u8 list \<Rightarrow> u8 list" where
  "pad n bs = take n (bs @ replicate n 0x20)"

definition to_short_name :: "string \<Rightarrow> u8 list" where
  "to_short_name input =
     (let name = takeWhile (\<lambda>c. c \<noteq> CHR ''.'') input;
          rest = dropWhile (\<lambda>c. c \<noteq> CHR ''.'') input
      in pad 8 (map upper (take 8 name)) @ pad 3 (map upper (take 3 (tl rest))))"

definition dir_raw :: "u8 list \<Rightarrow> nat \<Rightarrow> u8 list" where
  "dir_raw buf i = take 32 (drop (32 * i) buf)"

definition put_raw :: "nat \<Rightarrow> u8 list \<Rightarrow> u8 list \<Rightarrow> u8 list" where
  "put_raw i raw buf = take (32 * i) buf @ raw @ drop (32 * i + length raw) buf"

definition entries_in_cluster :: "('d, 'x) fat32_scheme \<Rightarrow> nat" where
  "entries_in_cluster s = unat (s_sectors_per_cluster s * SECTOR_SIZE div 32)"

definition cluster_bytes :: "('d, 'x) fat32_scheme \<Rightarrow> u32" where
  "cluster_bytes s = s_sectors_per_cluster s * SECTOR_SIZE"

definition raw_first_cluster :: "u8 list \<Rightarrow> u32" where
  "raw_first_cluster raw = push_bit 16 (ucast (rd_u16 raw 20)) OR ucast (rd_u16 raw 26)"

definition fill_dir_entry :: "u8 list \<Rightarrow> u8 \<Rightarrow> u32 \<Rightarrow> u32 \<Rightarrow> u8 list" where
  "fill_dir_entry short_name attr first_cluster sz =
     take 11 short_name @ [attr] @ replicate 8 0 @
     [ucast (drop_bit 16 first_cluster), ucast (drop_bit 24 first_cluster)] @ replicate 4 0 @
     [ucast first_cluster, ucast (drop_bit 8 first_cluster),
      ucast sz, ucast (drop_bit 8 sz), ucast (drop_bit 16 sz), ucast (drop_bit 24 sz)]"

definition fat32_entry_of :: "u8 list \<Rightarrow> fat32_entry" where
  "fat32_entry_of raw = \<lparr>fe_name = format_short_name raw, fe_is_dir = (raw ! 11 AND 0x10 \<noteq> 0), fe_size = rd_u32 raw 28,
     fe_first_cluster = raw_first_cluster raw\<rparr>"

text \<open>
  One cluster of a directory: the entries found so far, and whether the end mark was met. Deleted, long-name,
  volume and dot entries are passed over, and those whose first cluster is not on the disk.
\<close>

fun list_entries :: "('d, 'x) fat32_scheme \<Rightarrow> int \<Rightarrow> u8 list list \<Rightarrow> fat32_entry list \<Rightarrow> fat32_entry list \<times> bool" where
  "list_entries s max_entries [] acc = (acc, False)"
| "list_entries s max_entries (raw # raws) acc =
     (if \<not> int (length acc) < max_entries then (acc, False)
      else if raw ! 0 = 0 then (acc, True)
      else if raw ! 0 = 0xE5 \<or> raw ! 11 = 0x0F \<or> raw ! 11 AND 0x08 \<noteq> 0 \<or> raw ! 0 = 0x2E then list_entries s max_entries raws acc
      else
        let e = fat32_entry_of raw in
        if fe_is_dir e \<and> \<not> valid_cluster s (fe_first_cluster e) \<or>
           \<not> fe_is_dir e \<and> fe_first_cluster e \<noteq> 0 \<and> \<not> valid_cluster s (fe_first_cluster e)
        then list_entries s max_entries raws acc
        else list_entries s max_entries raws (acc @ [e]))"

definition dir_raws :: "('d, 'x) fat32_scheme \<Rightarrow> u8 list \<Rightarrow> u8 list list" where
  "dir_raws s buf = map (dir_raw buf) [0..<entries_in_cluster s]"

primrec list_dir_loop :: "nat \<Rightarrow> 'd drivers \<Rightarrow> u32 \<Rightarrow> int \<Rightarrow> fat32_entry list \<Rightarrow> ('d, 'x, fat32_entry list) fio" where
  "list_dir_loop 0 drv cluster max_entries acc = State_Monad.return acc"
| "list_dir_loop (Suc n) drv cluster max_entries acc =
     (if cluster = 0 \<or> \<not> int (length acc) < max_entries then State_Monad.return acc
      else do {
        ok \<leftarrow> read_cluster drv cluster;
        s \<leftarrow> State_Monad.get;
        if \<not> ok then State_Monad.return acc
        else do {
          let (acc1, at_end) = list_entries s max_entries (dir_raws s (cluster_buf s)) acc;
          if at_end then State_Monad.return acc1
          else do {
            nxt \<leftarrow> fat_next_cluster drv cluster;
            list_dir_loop n drv nxt max_entries acc1
          }
        }
      })"

definition fat32_list_dir :: "'d drivers \<Rightarrow> u32 \<Rightarrow> int \<Rightarrow> ('d, 'x, fat32_entry list) fio" where
  "fat32_list_dir drv dir_cluster max_entries = do {
     s \<leftarrow> State_Monad.get;
     if \<not> s_ready s \<or> max_entries \<le> 0 \<or> \<not> valid_cluster s dir_cluster then State_Monad.return []
     else list_dir_loop (chain_fuel s) drv dir_cluster max_entries []
   }"

subsection \<open>Reading a file\<close>

primrec read_file_loop :: "nat \<Rightarrow> 'd drivers \<Rightarrow> u32 \<Rightarrow> u32 \<Rightarrow> u32 \<Rightarrow> u8 list \<Rightarrow> ('d, 'x, u8 list) fio" where
  "read_file_loop 0 drv cluster sz max_len out = State_Monad.return out"
| "read_file_loop (Suc n) drv cluster sz max_len out =
     (if cluster = 0 \<or> \<not> length out < unat sz \<or> \<not> length out < unat max_len then State_Monad.return out
      else do {
        ok \<leftarrow> read_cluster drv cluster;
        s \<leftarrow> State_Monad.get;
        if \<not> ok then State_Monad.return out
        else do {
            let to_copy = unat (cluster_bytes s);
            let to_copy = (if to_copy > unat sz - length out then unat sz - length out else to_copy);
            let to_copy = (if to_copy > unat max_len - length out then unat max_len - length out else to_copy);
            let out1 = out @ take to_copy (cluster_buf s);
            if length out1 \<ge> unat sz \<or> length out1 \<ge> unat max_len then State_Monad.return out1
            else do {
              nxt \<leftarrow> fat_next_cluster drv cluster;
              read_file_loop n drv nxt sz max_len out1
            }
          }
      })"

definition fat32_read_file :: "'d drivers \<Rightarrow> u32 \<Rightarrow> u32 \<Rightarrow> u32 \<Rightarrow> ('d, 'x, u8 list) fio" where
  "fat32_read_file drv first_cluster sz max_len = do {
     s \<leftarrow> State_Monad.get;
     if \<not> s_ready s \<or> max_len = 0 \<or> sz = 0 \<or> first_cluster < 2 \<or> \<not> valid_cluster s first_cluster then State_Monad.return []
     else read_file_loop (chain_fuel s) drv first_cluster sz max_len []
   }"

subsection \<open>Finding and adding directory entries\<close>

definition free_slot :: "('d, 'x) fat32_scheme \<Rightarrow> u8 list \<Rightarrow> nat option" where
  "free_slot s buf = first_from (\<lambda>i. buf ! (i * 32) = 0 \<or> buf ! (i * 32) = 0xE5) 0 (entries_in_cluster s)"

text \<open>\<open>Inl\<close> is a slot, \<open>Inr\<close> the last cluster of a directory without a free one; \<open>None\<close> a read error.\<close>

primrec free_slot_loop :: "nat \<Rightarrow> 'd drivers \<Rightarrow> u32 \<Rightarrow> u32 \<Rightarrow> ('d, 'x, ((u32 \<times> nat) + u32) option) fio" where
  "free_slot_loop 0 drv cluster last_cluster = State_Monad.return (Some (Inr last_cluster))"
| "free_slot_loop (Suc n) drv cluster last_cluster =
     (if cluster = 0 then State_Monad.return (Some (Inr last_cluster))
      else do {
        ok \<leftarrow> read_cluster drv cluster;
        s \<leftarrow> State_Monad.get;
        if \<not> ok then State_Monad.return None
        else
            (case free_slot s (cluster_buf s) of
               Some i \<Rightarrow> State_Monad.return (Some (Inl (cluster, i)))
             | None \<Rightarrow> do {
                 nxt \<leftarrow> fat_next_cluster drv cluster;
                 free_slot_loop n drv nxt cluster
               })
      })"

definition find_free_dir_slot :: "'d drivers \<Rightarrow> u32 \<Rightarrow> ('d, 'x, (u32 \<times> nat) option) fio" where
  "find_free_dir_slot drv dir_cluster = do {
     s \<leftarrow> State_Monad.get;
     if \<not> s_ready s \<or> \<not> valid_cluster s dir_cluster then State_Monad.return None
     else do {
       r \<leftarrow> free_slot_loop (chain_fuel s) drv dir_cluster dir_cluster;
       case r of
         None \<Rightarrow> State_Monad.return None
       | Some (Inl slot) \<Rightarrow> State_Monad.return (Some slot)
       | Some (Inr last_cluster) \<Rightarrow> do {
           new_cluster \<leftarrow> find_free_cluster drv;
           if new_cluster = 0 then State_Monad.return None
           else do {
             _ \<leftarrow> set_cluster_buf (replicate (64 * 512) 0);
             ok1 \<leftarrow> write_cluster drv new_cluster (replicate (64 * 512) 0);
             if \<not> ok1 then State_Monad.return None
             else do {
               ok2 \<leftarrow> fat_set_entry drv new_cluster FAT32_EOC;
               if \<not> ok2 then State_Monad.return None
               else do {
                 ok3 \<leftarrow> fat_set_entry drv last_cluster new_cluster;
                 State_Monad.return (if ok3 then Some (new_cluster, 0) else None)
               }
             }
           }
         }
     }
   }"

definition names_equal_83 :: "u8 list \<Rightarrow> u8 list \<Rightarrow> bool" where
  "names_equal_83 raw candidate \<longleftrightarrow> take 11 raw = take 11 candidate"

text \<open>Searching one cluster: \<open>Inl\<close> is the index of the entry, \<open>Inr True\<close> the end of the directory.\<close>

fun locate_in :: "u8 list \<Rightarrow> nat \<Rightarrow> u8 list list \<Rightarrow> nat + bool" where
  "locate_in short_name i [] = Inr False"
| "locate_in short_name i (raw # raws) =
     (if raw ! 0 = 0 then Inr True
      else if raw ! 0 = 0xE5 \<or> raw ! 11 = 0x0F \<or> raw ! 11 AND 0x08 \<noteq> 0 then locate_in short_name (Suc i) raws
      else if names_equal_83 raw short_name then Inl i
      else locate_in short_name (Suc i) raws)"

primrec locate_loop :: "nat \<Rightarrow> 'd drivers \<Rightarrow> u32 \<Rightarrow> u8 list \<Rightarrow> ('d, 'x, (u32 \<times> nat) option) fio" where
  "locate_loop 0 drv cluster short_name = State_Monad.return None"
| "locate_loop (Suc n) drv cluster short_name =
     (if cluster = 0 then State_Monad.return None
      else do {
        ok \<leftarrow> read_cluster drv cluster;
        s \<leftarrow> State_Monad.get;
        if \<not> ok then State_Monad.return None
        else
          (case locate_in short_name 0 (dir_raws s (cluster_buf s)) of
             Inl i \<Rightarrow> State_Monad.return (Some (cluster, i))
           | Inr at_end \<Rightarrow>
               if at_end then State_Monad.return None
               else do {
                 nxt \<leftarrow> fat_next_cluster drv cluster;
                 locate_loop n drv nxt short_name
               })
      })"

definition locate_dir_entry :: "'d drivers \<Rightarrow> u32 \<Rightarrow> u8 list \<Rightarrow> ('d, 'x, (u32 \<times> nat) option) fio" where
  "locate_dir_entry drv dir_cluster short_name = do {
     s \<leftarrow> State_Monad.get;
     if \<not> s_ready s \<or> \<not> valid_cluster s dir_cluster then State_Monad.return None
     else locate_loop (chain_fuel s) drv dir_cluster short_name
   }"

definition dir_is_empty :: "'d drivers \<Rightarrow> u32 \<Rightarrow> ('d, 'x, bool) fio" where
  "dir_is_empty drv dir_cluster = do {
     s \<leftarrow> State_Monad.get;
     if \<not> valid_cluster s dir_cluster then State_Monad.return False
     else do {
       es \<leftarrow> fat32_list_dir drv dir_cluster 2;
       State_Monad.return (es = [])
     }
   }"

subsection \<open>Writing\<close>

text \<open>Undoing the allocation of the clusters taken so far; the status of the writes is not looked at.\<close>

fun release_clusters :: "'d drivers \<Rightarrow> u32 list \<Rightarrow> ('d, 'x, unit) fio" where
  "release_clusters drv [] = State_Monad.return ()"
| "release_clusters drv (c # cs) = do { _ \<leftarrow> fat_set_entry drv c 0; release_clusters drv cs }"

definition chain_failed :: "'d drivers \<Rightarrow> u32 list \<Rightarrow> ('d, 'x, 'a option) fio" where
  "chain_failed drv allocated = do { _ \<leftarrow> release_clusters drv allocated; State_Monad.return None }"

text \<open>
  The allocation loop: \<open>n\<close> clusters still to take, those taken so far in order, and the data not yet written (\<open>None\<close> stands
  for a null pointer).
\<close>

primrec allocate_loop :: "nat \<Rightarrow> 'd drivers \<Rightarrow> u32 list \<Rightarrow> u8 list \<Rightarrow> ('d, 'x, u32 list option) fio" where
  "allocate_loop 0 drv allocated rest = State_Monad.return (Some allocated)"
| "allocate_loop (Suc n) drv allocated rest = do {
     s \<leftarrow> State_Monad.get;
     cluster \<leftarrow> find_free_cluster drv;
     if cluster = 0 \<or> length allocated \<ge> 256 then chain_failed drv allocated
     else do {
       let allocated1 = allocated @ [cluster];
       ok1 \<leftarrow> fat_set_entry drv cluster FAT32_EOC;
       if \<not> ok1 then chain_failed drv allocated1
       else do {
         ok2 \<leftarrow> (if allocated \<noteq> [] then fat_set_entry drv (last allocated) cluster else State_Monad.return True);
         if \<not> ok2 then chain_failed drv allocated1
         else do {
           let to_write = min (length rest) (unat (cluster_bytes s));
           let buf = take to_write rest @ replicate (unat (cluster_bytes s) - to_write) 0 @ drop (unat (cluster_bytes s)) (cluster_buf s);
           _ \<leftarrow> set_cluster_buf buf;
           ok3 \<leftarrow> write_cluster drv cluster buf;
           if \<not> ok3 then chain_failed drv allocated1
           else allocate_loop n drv allocated1 (drop to_write rest)
         }
       }
     }
   }"

definition clusters_needed :: "('d, 'x) fat32_scheme \<Rightarrow> u32 \<Rightarrow> u32" where
  "clusters_needed s sz =
     (let n = (sz + cluster_bytes s - 1) div cluster_bytes s in if n = 0 then 1 else n)"

text \<open>First cluster and length of the new chain.\<close>

definition allocate_file_chain :: "'d drivers \<Rightarrow> u8 list \<Rightarrow> ('d, 'x, (u32 \<times> u32) option) fio" where
  "allocate_file_chain drv data = do {
     s \<leftarrow> State_Monad.get;
     let needed = clusters_needed s (word_of_nat (length data));
     if needed > 256 then State_Monad.return None
     else do {
       r \<leftarrow> allocate_loop (unat needed) drv [] data;
       State_Monad.return (map_option (\<lambda>cs. (hd cs, word_of_nat (length cs))) r)
     }
   }"

definition upd_free :: "(u64 \<Rightarrow> u64 \<Rightarrow> u64) \<Rightarrow> ('d, 'x, unit) fio" where
  "upd_free f = State (\<lambda>s. ((), s\<lparr>s_free_bytes := f (s_free_bytes s) (s_total_bytes s)\<rparr>))"

definition cluster_bytes64 :: "('d, 'x) fat32_scheme \<Rightarrow> u64" where
  "cluster_bytes64 s = ucast (s_sectors_per_cluster s) * 512"

text \<open>
  Deletion. \<open>raw\<close> points into \<open>cluster_buf\<close>; the test for an empty directory lists that directory and so reads
  it into the same buffer, and what is marked and written back afterwards is the buffer as it is then.
\<close>

definition fat32_delete_file :: "'d drivers \<Rightarrow> u32 \<Rightarrow> string \<Rightarrow> ('d, 'x, bool) fio" where
  "fat32_delete_file drv dir_cluster name = do {
     s0 \<leftarrow> State_Monad.get;
     if \<not> s_ready s0 \<or> \<not> valid_cluster s0 dir_cluster then State_Monad.return False
     else do {
       r \<leftarrow> locate_dir_entry drv dir_cluster (to_short_name name);
       case r of
         None \<Rightarrow> State_Monad.return False
       | Some (entry_cluster, i) \<Rightarrow> do {
           ok1 \<leftarrow> read_cluster drv entry_cluster;
           s \<leftarrow> State_Monad.get;
           let raw = dir_raw (cluster_buf s) i;
           let first_cluster = raw_first_cluster raw;
           if \<not> ok1 then State_Monad.return False
           else do {
             empty \<leftarrow> (if raw ! 11 AND 0x10 \<noteq> 0 \<and> first_cluster \<ge> 2 then dir_is_empty drv first_cluster else State_Monad.return True);
             if \<not> empty then State_Monad.return False
             else do {
               s1 \<leftarrow> State_Monad.get;
               let buf = (cluster_buf s1)[32 * i := 0xE5];
               _ \<leftarrow> set_cluster_buf buf;
               ok2 \<leftarrow> write_cluster drv entry_cluster buf;
               if \<not> ok2 then State_Monad.return False
               else do {
                 freed \<leftarrow> (if first_cluster \<ge> 2 then fat_free_chain drv first_cluster else State_Monad.return (Some 0));
                 case freed of
                   None \<Rightarrow> State_Monad.return False
                 | Some n \<Rightarrow> do {
                     _ \<leftarrow> upd_free (\<lambda>free tot. let f = free + ucast n * cluster_bytes64 s in if f > tot then tot else f);
                     _ \<leftarrow> fat32_sync_fsinfo drv;
                     State_Monad.return True
                   }
               }
             }
           }
         }
     }
   }"

definition fat32_rename_file :: "'d drivers \<Rightarrow> u32 \<Rightarrow> string \<Rightarrow> string \<Rightarrow> ('d, 'x, bool) fio" where
  "fat32_rename_file drv dir_cluster old_name new_name = do {
     s0 \<leftarrow> State_Monad.get;
     if \<not> s_ready s0 \<or> \<not> valid_cluster s0 dir_cluster then State_Monad.return False
     else do {
       old \<leftarrow> locate_dir_entry drv dir_cluster (to_short_name old_name);
       case old of
         None \<Rightarrow> State_Monad.return False
       | Some (old_cluster, i) \<Rightarrow> do {
           dup \<leftarrow> locate_dir_entry drv dir_cluster (to_short_name new_name);
           if dup \<noteq> None then State_Monad.return False
           else do {
             ok \<leftarrow> read_cluster drv old_cluster;
             s \<leftarrow> State_Monad.get;
             if \<not> ok then State_Monad.return False
             else do {
               let buf = put_raw i (to_short_name new_name @ drop 11 (dir_raw (cluster_buf s) i)) (cluster_buf s);
               _ \<leftarrow> set_cluster_buf buf;
               write_cluster drv old_cluster buf
             }
           }
         }
     }
   }"

text \<open>The last part of a write: the entry, the release of the old chain, the accounting.\<close>

definition write_file_commit :: "'d drivers \<Rightarrow> u8 list \<Rightarrow> u32 \<Rightarrow> nat \<Rightarrow> u32 \<Rightarrow> u32 \<Rightarrow> u32 \<Rightarrow> u32 \<Rightarrow> u32 \<Rightarrow> ('d, 'x, bool) fio" where
  "write_file_commit drv short_name entry_cluster i sz new_first new_clusters old_first old_clusters = do {
     ok1 \<leftarrow> read_cluster drv entry_cluster;
     s \<leftarrow> State_Monad.get;
     if \<not> ok1 then do { _ \<leftarrow> fat_free_chain drv new_first; State_Monad.return False }
     else do {
       let buf = put_raw i (fill_dir_entry short_name 0x20 new_first sz) (cluster_buf s);
       _ \<leftarrow> set_cluster_buf buf;
       ok2 \<leftarrow> write_cluster drv entry_cluster buf;
       if \<not> ok2 then do { _ \<leftarrow> fat_free_chain drv new_first; State_Monad.return False }
       else do {
         freed \<leftarrow> (if old_first \<ge> 2 then fat_free_chain drv old_first else State_Monad.return (Some 0));
         if freed = None then State_Monad.return False
         else do {
           _ \<leftarrow> upd_free (\<lambda>free tot.
             let f = free + ucast old_clusters * cluster_bytes64 s;
                 f = (if f > ucast new_clusters * cluster_bytes64 s then f - ucast new_clusters * cluster_bytes64 s else 0)
             in if f > tot then tot else f);
           _ \<leftarrow> fat32_sync_fsinfo drv;
           State_Monad.return True
         }
       }
     }
   }"

definition fat32_write_file :: "'d drivers \<Rightarrow> u32 \<Rightarrow> string \<Rightarrow> u8 list \<Rightarrow> ('d, 'x, bool) fio" where
  "fat32_write_file drv dir_cluster name data = do {
     s0 \<leftarrow> State_Monad.get;
     if \<not> s_ready s0 \<or> \<not> valid_cluster s0 dir_cluster then State_Monad.return False
     else do {
       let short_name = to_short_name name;
       let sz = word_of_nat (length data);
       existing \<leftarrow> locate_dir_entry drv dir_cluster short_name;
       case existing of
         Some (entry_cluster, i) \<Rightarrow> do {
           ok \<leftarrow> read_cluster drv entry_cluster;
           s \<leftarrow> State_Monad.get;
           let raw = dir_raw (cluster_buf s) i;
           if \<not> ok \<or> raw ! 11 AND 0x10 \<noteq> 0 then State_Monad.return False
           else do {
             chain \<leftarrow> allocate_file_chain drv data;
             case chain of
               None \<Rightarrow> State_Monad.return False
             | Some (new_first, new_clusters) \<Rightarrow>
                 write_file_commit drv short_name entry_cluster i sz new_first new_clusters (raw_first_cluster raw)
                   (if raw_first_cluster raw \<ge> 2 then clusters_needed s (rd_u32 raw 28) else 0)
           }
         }
       | None \<Rightarrow> do {
           slot \<leftarrow> find_free_dir_slot drv dir_cluster;
           case slot of
             None \<Rightarrow> State_Monad.return False
           | Some (entry_cluster, i) \<Rightarrow> do {
               chain \<leftarrow> allocate_file_chain drv data;
               case chain of
                 None \<Rightarrow> State_Monad.return False
               | Some (new_first, new_clusters) \<Rightarrow>
                   write_file_commit drv short_name entry_cluster i sz new_first new_clusters 0 0
             }
         }
     }
   }"

definition mkdir_undo :: "'d drivers \<Rightarrow> u32 \<Rightarrow> ('d, 'x, bool) fio" where
  "mkdir_undo drv new_cluster = do { _ \<leftarrow> fat_set_entry drv new_cluster 0; State_Monad.return False }"

definition fat32_make_dir :: "'d drivers \<Rightarrow> u32 \<Rightarrow> string \<Rightarrow> ('d, 'x, bool) fio" where
  "fat32_make_dir drv dir_cluster name = do {
     s0 \<leftarrow> State_Monad.get;
     if \<not> s_ready s0 \<or> \<not> valid_cluster s0 dir_cluster then State_Monad.return False
     else do {
       existing \<leftarrow> locate_dir_entry drv dir_cluster (to_short_name name);
       if existing \<noteq> None then State_Monad.return False
       else do {
         new_cluster \<leftarrow> find_free_cluster drv;
         ok1 \<leftarrow> (if new_cluster = 0 then State_Monad.return False else fat_set_entry drv new_cluster FAT32_EOC);
         if \<not> ok1 then State_Monad.return False
         else do {
           s1 \<leftarrow> State_Monad.get;
           let zeroed = replicate (unat (cluster_bytes s1)) 0 @ drop (unat (cluster_bytes s1)) (cluster_buf s1);
           let buf = put_raw 1 (fill_dir_entry (to_short_name ''..'') 0x10 dir_cluster 0)
                       (put_raw 0 (fill_dir_entry (to_short_name ''.'') 0x10 new_cluster 0) zeroed);
           _ \<leftarrow> set_cluster_buf buf;
           ok2 \<leftarrow> write_cluster drv new_cluster buf;
           if \<not> ok2 then mkdir_undo drv new_cluster
           else do {
             slot \<leftarrow> find_free_dir_slot drv dir_cluster;
             case slot of
               None \<Rightarrow> mkdir_undo drv new_cluster
             | Some (slot_cluster, i) \<Rightarrow> do {
                 ok3 \<leftarrow> read_cluster drv slot_cluster;
                 s2 \<leftarrow> State_Monad.get;
                 if \<not> ok3 then mkdir_undo drv new_cluster
                 else do {
                   let buf2 = put_raw i (fill_dir_entry (to_short_name name) 0x10 new_cluster 0) (cluster_buf s2);
                   _ \<leftarrow> set_cluster_buf buf2;
                   ok4 \<leftarrow> write_cluster drv slot_cluster buf2;
                   if \<not> ok4 then mkdir_undo drv new_cluster
                   else do {
                     _ \<leftarrow> upd_free (\<lambda>free tot. if free \<ge> cluster_bytes64 s2 then free - cluster_bytes64 s2 else 0);
                     _ \<leftarrow> fat32_sync_fsinfo drv;
                     State_Monad.return True
                   }
                 }
               }
           }
         }
       }
     }
   }"

subsection \<open>Consistency check and repair\<close>

text \<open>
  The bitmap of clusters in use is a function here. The pages that hold it in the code are taken from and given
  back to the page allocator; their contents in between are not part of the model.
\<close>

type_synonym bitmap = "u32 \<Rightarrow> bool"

definition repair_bit_get :: "bitmap \<Rightarrow> u32 \<Rightarrow> bool" where
  "repair_bit_get bits cluster = bits cluster"

definition repair_bit_set :: "u32 \<Rightarrow> bitmap \<Rightarrow> bitmap" where
  "repair_bit_set cluster bits = bits(cluster := True)"

definition repair_cut :: "'d drivers \<Rightarrow> u32 \<Rightarrow> bitmap \<Rightarrow> fat32_repair_report \<Rightarrow> ('d, 'x, (bitmap \<times> fat32_repair_report) option) fio" where
  "repair_cut drv cluster used report = do {
     ok \<leftarrow> fat_set_entry drv cluster FAT32_EOC;
     State_Monad.return (if ok then Some (used, report\<lparr>rr_repaired_chains := rr_repaired_chains report + 1\<rparr>) else None)
   }"

primrec mark_chain_loop :: "nat \<Rightarrow> 'd drivers \<Rightarrow> u32 \<Rightarrow> bitmap \<Rightarrow> fat32_repair_report \<Rightarrow> ('d, 'x, (bitmap \<times> fat32_repair_report) option) fio" where
  "mark_chain_loop 0 drv cluster used report = State_Monad.return None"
| "mark_chain_loop (Suc n) drv cluster used report = do {
     s \<leftarrow> State_Monad.get;
     if \<not> valid_cluster s cluster then State_Monad.return None
     else if repair_bit_get used cluster then State_Monad.return (Some (used, report))
     else do {
       let used1 = repair_bit_set cluster used;
       r \<leftarrow> fat_read_entry drv cluster;
       case r of
         None \<Rightarrow> State_Monad.return None
       | Some nxt \<Rightarrow>
           if nxt \<ge> FAT32_EOC \<or> nxt = FAT32_BAD_CLUSTER then State_Monad.return (Some (used1, report))
           else if \<not> valid_cluster s nxt then repair_cut drv cluster used1 report
           else if repair_bit_get used1 nxt then repair_cut drv cluster used1 report
           else mark_chain_loop n drv nxt used1 report
     }
   }"

definition repair_mark_chain :: "'d drivers \<Rightarrow> u32 \<Rightarrow> bitmap \<Rightarrow> fat32_repair_report \<Rightarrow> ('d, 'x, (bitmap \<times> fat32_repair_report) option) fio" where
  "repair_mark_chain drv first used report = do {
     s \<leftarrow> State_Monad.get;
     mark_chain_loop (chain_fuel s) drv first used report
   }"

text \<open>
  The state of the directory walk: bitmap, report, directories still to visit, and how many were ever queued
  (the queue of the code has 1024 places and is not reused).
\<close>

type_synonym walk = "bitmap \<times> fat32_repair_report \<times> u32 list \<times> nat"

fun repair_entries :: "'d drivers \<Rightarrow> u8 list list \<Rightarrow> walk \<Rightarrow> ('d, 'x, (walk \<times> bool) option) fio" where
  "repair_entries drv [] w = State_Monad.return (Some (w, False))"
| "repair_entries drv (raw # raws) w =
     (if raw ! 0 = 0 then State_Monad.return (Some (w, True))
      else if raw ! 0 = 0xE5 \<or> raw ! 0 = 0x2E \<or> raw ! 11 = 0x0F \<or> raw ! 11 AND 0x08 \<noteq> 0 then repair_entries drv raws w
      else do {
        s \<leftarrow> State_Monad.get;
        let first = raw_first_cluster raw;
        if \<not> valid_cluster s first then repair_entries drv raws w
        else do {
          let already_used = repair_bit_get (fst w) first;
          r \<leftarrow> repair_mark_chain drv first (fst w) (fst (snd w));
          case r of
            None \<Rightarrow> State_Monad.return None
          | Some (used, report) \<Rightarrow>
              if raw ! 11 AND 0x10 \<noteq> 0
              then if \<not> already_used
                   then if snd (snd (snd w)) \<ge> 1024 then State_Monad.return None
                        else repair_entries drv raws (used, report, fst (snd (snd w)) @ [first], snd (snd (snd w)) + 1)
                   else repair_entries drv raws (used, report, snd (snd w))
              else repair_entries drv raws (used, report\<lparr>rr_files := rr_files report + 1\<rparr>, snd (snd w))
        }
      })"

primrec repair_dir_loop :: "nat \<Rightarrow> 'd drivers \<Rightarrow> u32 \<Rightarrow> walk \<Rightarrow> ('d, 'x, walk option) fio" where
  "repair_dir_loop 0 drv cluster w = State_Monad.return (Some w)"
| "repair_dir_loop (Suc n) drv cluster w = do {
     s \<leftarrow> State_Monad.get;
     if \<not> valid_cluster s cluster then State_Monad.return (Some w)
     else do {
       ok \<leftarrow> read_cluster drv cluster;
       s1 \<leftarrow> State_Monad.get;
       if \<not> ok then State_Monad.return None
       else do {
         r \<leftarrow> repair_entries drv (dir_raws s1 (cluster_buf s1)) w;
         case r of
           None \<Rightarrow> State_Monad.return None
         | Some (w1, at_end) \<Rightarrow>
             if at_end then State_Monad.return (Some w1)
             else do {
               e \<leftarrow> fat_read_entry drv cluster;
               case e of
                 None \<Rightarrow> State_Monad.return (Some w1)
               | Some nxt \<Rightarrow>
                   if nxt \<ge> FAT32_EOC \<or> \<not> valid_cluster s1 nxt then State_Monad.return (Some w1)
                   else repair_dir_loop n drv nxt w1
             }
       }
     }
   }"

text \<open>The queue loop takes one of at most 1024 queued directories per round, so 1024 rounds empty it.\<close>

primrec repair_walk :: "nat \<Rightarrow> 'd drivers \<Rightarrow> walk \<Rightarrow> ('d, 'x, (bitmap \<times> fat32_repair_report) option) fio" where
  "repair_walk 0 drv w = State_Monad.return (Some (fst w, fst (snd w)))"
| "repair_walk (Suc n) drv w =
     (case fst (snd (snd w)) of
        [] \<Rightarrow> State_Monad.return (Some (fst w, fst (snd w)))
      | cluster # queue \<Rightarrow> do {
          s \<leftarrow> State_Monad.get;
          let report = fst (snd w);
          r \<leftarrow> repair_dir_loop (chain_fuel s) drv cluster
                 (fst w, report\<lparr>rr_directories := rr_directories report + 1\<rparr>, queue, snd (snd (snd w)));
          case r of
            None \<Rightarrow> State_Monad.return None
          | Some w1 \<Rightarrow> repair_walk n drv w1
        })"

text \<open>The sweep over all clusters: \<open>n\<close> of them from \<open>cluster\<close> on.\<close>

primrec repair_sweep :: "nat \<Rightarrow> 'd drivers \<Rightarrow> u32 \<Rightarrow> bitmap \<Rightarrow> fat32_repair_report \<Rightarrow> ('d, 'x, fat32_repair_report option) fio" where
  "repair_sweep 0 drv cluster used report = State_Monad.return (Some report)"
| "repair_sweep (Suc n) drv cluster used report = do {
     r \<leftarrow> fat_read_entry drv cluster;
     case r of
       None \<Rightarrow> State_Monad.return None
     | Some v \<Rightarrow>
         if v = 0 then repair_sweep n drv (cluster + 1) used (report\<lparr>rr_free_clusters := rr_free_clusters report + 1\<rparr>)
         else if v \<noteq> FAT32_BAD_CLUSTER \<and> \<not> repair_bit_get used cluster then do {
           ok \<leftarrow> fat_set_entry drv cluster 0;
           if \<not> ok then State_Monad.return None
           else repair_sweep n drv (cluster + 1) used
                  (report\<lparr>rr_reclaimed_clusters := rr_reclaimed_clusters report + 1, rr_free_clusters := rr_free_clusters report + 1\<rparr>)
         }
         else repair_sweep n drv (cluster + 1) used report
   }"

definition repair_report_zero :: fat32_repair_report where
  "repair_report_zero = \<lparr>rr_files = 0, rr_directories = 0, rr_repaired_chains = 0, rr_reclaimed_clusters = 0, rr_free_clusters = 0\<rparr>"

text \<open>The three phases, without the allocation of the bitmap around them.\<close>

definition repair_phases :: "'d drivers \<Rightarrow> ('d, 'x, fat32_repair_report option) fio" where
  "repair_phases drv = do {
     s \<leftarrow> State_Monad.get;
     let used0 = repair_bit_set 1 (repair_bit_set 0 (\<lambda>_. False));
     r \<leftarrow> repair_mark_chain drv (s_root_cluster s) used0 repair_report_zero;
     case r of
       None \<Rightarrow> State_Monad.return None
     | Some (used, report) \<Rightarrow> do {
         r2 \<leftarrow> repair_walk 1024 drv (used, report, [s_root_cluster s], 1);
         case r2 of
           None \<Rightarrow> State_Monad.return None
         | Some (used2, report2) \<Rightarrow> repair_sweep (unat (s_max_cluster s) - 1) drv 2 used2 report2
       }
   }"

definition repair_pages :: "('d, 'x) fat32_scheme \<Rightarrow> u64" where
  "repair_pages s = ((ucast (s_max_cluster s) + 8) div 8 + PAGE_SIZE - 1) div PAGE_SIZE"

definition fat32_check_repair :: "'d drivers \<Rightarrow> ('d, 'x, fat32_repair_report option) fio" where
  "fat32_check_repair drv = do {
     s \<leftarrow> State_Monad.get;
     let pages64 = repair_pages s;
     if \<not> s_ready s \<or> pages64 = 0 \<or> pages64 > 0xFFFFFFFF then State_Monad.return None
     else do {
       let (phys, mm1) = pmm_alloc_pages pages64 (m_mm s);
       _ \<leftarrow> State_Monad.set (s\<lparr>m_mm := mm1\<rparr>);
       if phys = 0 then State_Monad.return None
       else do {
         r \<leftarrow> repair_phases drv;
         _ \<leftarrow> State_Monad.update (\<lambda>s. s\<lparr>m_mm := snd (pmm_free_pages phys pages64 (m_mm s))\<rparr>);
         case r of
           None \<Rightarrow> State_Monad.return None
         | Some report \<Rightarrow> do {
             _ \<leftarrow> upd_free (\<lambda>free tot. let f = ucast (rr_free_clusters report) * cluster_bytes64 s in if f > tot then tot else f);
             _ \<leftarrow> fat32_sync_fsinfo drv;
             State_Monad.return (Some report)
           }
       }
     }
   }"

definition fat32_shutdown_clean :: "'d drivers \<Rightarrow> ('d, 'x, bool) fio" where
  "fat32_shutdown_clean drv = do {
     s \<leftarrow> State_Monad.get;
     if \<not> s_ready s then State_Monad.return True
     else do {
       _ \<leftarrow> fat32_sync_fsinfo drv;
       ok \<leftarrow> fat32_set_clean_flag drv True;
       if \<not> ok then State_Monad.return False
       else State (\<lambda>s. case block_flush drv (s_block_device s) (m_blocks s) (m_dev s) of (r, d) \<Rightarrow> (r = 0, s\<lparr>m_dev := d\<rparr>))
     }
   }"

subsection \<open>Mounting\<close>

definition fat_device :: "blocks \<Rightarrow> int" where
  "fat_device b =
     (case first_from (\<lambda>i. let dev = device (g_devices b ! i) in bd_writable dev \<and> block_size dev = 512) 0 (length (g_devices b)) of
        None \<Rightarrow> - 1 | Some i \<Rightarrow> int i)"

definition fat_partition_type :: "u8 \<Rightarrow> bool" where
  "fat_partition_type t \<longleftrightarrow> t = 0x0B \<or> t = 0x0C \<or> t = 0x1B \<or> t = 0x1C \<or> t = 0x07 \<or> t = 0x0E"

text \<open>The scan of the four primary entries: start, length, and whether a protective entry came before.\<close>

fun mbr_scan :: "u8 list \<Rightarrow> nat list \<Rightarrow> bool \<Rightarrow> u32 \<times> u32 \<times> bool" where
  "mbr_scan sector [] protective = (0, 0, protective)"
| "mbr_scan sector (i # is) protective =
     (let off = 0x1BE + i * 16;
          t = sector ! (off + 4);
          protective1 = (protective \<or> t = 0xEE)
      in if fat_partition_type t then (rd_u32 sector (off + 8), rd_u32 sector (off + 12), protective1)
         else mbr_scan sector is protective1)"

fun gpt_choose :: "gpt_partition list \<Rightarrow> (u32 \<times> u32) option" where
  "gpt_choose [] = None"
| "gpt_choose (p # ps) =
     (let sectors = last_lba p - first_lba p + 1 in
      if kind p \<noteq> GPT_PARTITION_BASIC_DATA \<and> kind p \<noteq> GPT_PARTITION_EFI_SYSTEM then gpt_choose ps
      else if first_lba p \<le> 0xFFFFFFFF \<and> sectors \<le> 0xFFFFFFFF then Some (ucast (first_lba p), ucast sectors)
      else gpt_choose ps)"

text \<open>A volume without a partition table starts at sector 0.\<close>

definition superfloppy :: "u8 list \<Rightarrow> u32 \<Rightarrow> u32" where
  "superfloppy sector part_sectors =
     (if rd_u16 sector 11 = 512 \<and> rd_u32 sector 36 \<noteq> 0
      then if rd_u32 sector 32 = 0 then 0x0FFFFFFF else rd_u32 sector 32
      else part_sectors)"

definition clip_partition :: "u32 \<Rightarrow> u32 \<Rightarrow> u32" where
  "clip_partition part_lba part_sectors =
     (let n = (if part_sectors < 1 then 0x0FFFFFFF else part_sectors)
      in if n > 0x10000000 - part_lba then 0x10000000 - part_lba else n)"

text \<open>The geometry computed from the boot sector of the volume.\<close>

record geometry =
  g_fat_start :: u32
  g_data_start :: u32
  g_spc :: u8
  g_fat_size :: u32
  g_root :: u32
  g_max_cluster :: u32
  g_cluster_count :: u32
  g_fats :: u8

definition bpb_ok :: "u8 list \<Rightarrow> bool" where
  "bpb_ok b \<longleftrightarrow>
     rd_u16 b 11 = 512 \<and> b ! 13 \<noteq> 0 \<and> b ! 13 \<le> MAX_CLUSTER_SECTORS \<and> b ! 13 AND (b ! 13 - 1) = 0 \<and>
     rd_u16 b 14 \<noteq> 0 \<and> b ! 16 \<noteq> 0 \<and> b ! 16 \<le> 2 \<and> rd_u16 b 17 = 0 \<and> rd_u16 b 19 = 0 \<and>
     rd_u32 b 36 \<noteq> 0 \<and> rd_u32 b 44 \<ge> 2"

definition bpb_geometry :: "u32 \<Rightarrow> u32 \<Rightarrow> u8 list \<Rightarrow> geometry option" where
  "bpb_geometry part_lba part_sectors b =
     (if \<not> bpb_ok b then None
      else
        let spc = ucast (b ! 13) :: u32;
            fat_size = rd_u32 b 36;
            reserved = ucast (rd_u16 b 14) :: u32;
            tot = (if rd_u32 b 32 = 0 then part_sectors else rd_u32 b 32);
            tot = (if part_sectors > 0 \<and> tot > part_sectors then part_sectors else tot);
            fat_area = ucast (b ! 16) * fat_size;
            first_data = reserved + fat_area
        in if first_data \<ge> tot then None
           else
             let data_sectors = tot - first_data;
                 cluster_count = data_sectors div spc;
                 max_cluster = cluster_count + 1
             in if cluster_count < 8 then None
                else if max_cluster < 2 \<or> max_cluster > 0x0FFFFFEF then None
                else if (ucast (max_cluster + 1) :: u64) * 4 > ucast fat_size * 512 then None
                else
                  let fat_start = part_lba + reserved;
                      data_start = fat_start + fat_area
                  in if fat_start < part_lba \<or> data_start < fat_start then None
                     else if data_start - part_lba \<ge> part_sectors then None
                     else
                       let room = part_sectors - (data_start - part_lba);
                           cluster_count1 = (if data_sectors > room then room div spc else cluster_count);
                           max_cluster1 = (if data_sectors > room then cluster_count1 + 1 else max_cluster)
                       in if rd_u32 b 44 > max_cluster1 then None
                          else Some \<lparr>g_fat_start = fat_start, g_data_start = data_start, g_spc = b ! 13, g_fat_size = fat_size,
                                 g_root = rd_u32 b 44, g_max_cluster = max_cluster1, g_cluster_count = cluster_count1, g_fats = b ! 16\<rparr>)"

definition install_geometry :: "geometry \<Rightarrow> ('d, 'x) fat32_scheme \<Rightarrow> ('d, 'x) fat32_scheme" where
  "install_geometry g s =
     (let tot = ucast (g_cluster_count g) * ucast (g_spc g) * 512 in
      s\<lparr>s_fat_start_lba := g_fat_start g, s_data_start_lba := g_data_start g, s_sectors_per_cluster := ucast (g_spc g),
        s_fat_size_sectors := g_fat_size g, s_root_cluster := g_root g, s_max_cluster := g_max_cluster g,
        s_num_fats := ucast (g_fats g), s_ready := True, s_total_bytes := tot,
        s_free_bytes := (if tot > 10 * 1024 * 1024 then tot - 10 * 1024 * 1024 else tot)\<rparr>)"

definition load_fsinfo :: "'d drivers \<Rightarrow> u32 \<Rightarrow> u16 \<Rightarrow> u16 \<Rightarrow> geometry \<Rightarrow> ('d, 'x, unit) fio" where
  "load_fsinfo drv part_lba fs_info_sector reserved g =
     (if fs_info_sector > 0 \<and> fs_info_sector < reserved
      then do {
        r \<leftarrow> disk_read drv (ucast (part_lba + ucast fs_info_sector)) 1;
        case r of
          None \<Rightarrow> State_Monad.return ()
        | Some b \<Rightarrow>
            if rd_u32 b 0 = 0x41615252 \<and> rd_u32 b 0x1E4 = 0x61417272
            then State_Monad.update (\<lambda>s. s\<lparr>
              s_free_bytes := (if rd_u32 b 0x1E8 \<noteq> 0xFFFFFFFF \<and> rd_u32 b 0x1E8 \<le> g_cluster_count g
                               then ucast (rd_u32 b 0x1E8) * ucast (g_spc g) * 512 else s_free_bytes s),
              s_fsinfo_lba := part_lba + ucast fs_info_sector, s_fsinfo_valid := True\<rparr>)
            else State_Monad.return ()
      }
      else State_Monad.return ())"

text \<open>From the boot sector of the volume on.\<close>

definition fat32_mount :: "'d drivers \<Rightarrow> u32 \<Rightarrow> u32 \<Rightarrow> ('d, 'x, bool) fio" where
  "fat32_mount drv part_lba part_sectors = do {
     _ \<leftarrow> State_Monad.update (\<lambda>s. s\<lparr>s_partition_lba := part_lba, s_partition_sectors := part_sectors\<rparr>);
     r \<leftarrow> disk_read drv (ucast part_lba) 1;
     case r of
       None \<Rightarrow> State_Monad.return False
     | Some b \<Rightarrow>
         if \<not> valid_boot_signature b then State_Monad.return False
         else (case bpb_geometry part_lba part_sectors b of
           None \<Rightarrow> State_Monad.return False
         | Some g \<Rightarrow> do {
             _ \<leftarrow> State_Monad.update (install_geometry g);
             _ \<leftarrow> load_fsinfo drv part_lba (rd_u16 b 48) (rd_u16 b 14) g;
             e \<leftarrow> fat_read_entry drv 1;
             let dirty = (case e of None \<Rightarrow> False | Some v \<Rightarrow> v AND 0x08000000 = 0);
             _ \<leftarrow> State_Monad.update (\<lambda>s. s\<lparr>s_was_dirty := dirty\<rparr>);
             _ \<leftarrow> (if dirty then do { _ \<leftarrow> fat32_check_repair drv; State_Monad.return () } else State_Monad.return ());
             _ \<leftarrow> fat32_set_clean_flag drv False;
             State_Monad.return True
           })
   }"

definition fat32_init :: "'d drivers \<Rightarrow> ('d, 'x, bool) fio" where
  "fat32_init drv = do {
     s0 \<leftarrow> State_Monad.get;
     if s_ready s0 then State_Monad.return True
     else do {
       _ \<leftarrow> State_Monad.set (s0\<lparr>s_ready := False, s_fsinfo_lba := 0, s_fsinfo_valid := False, s_block_device := fat_device (m_blocks s0)\<rparr>);
       r \<leftarrow> disk_read drv 0 1;
       case r of
         None \<Rightarrow> State_Monad.return False
       | Some sector \<Rightarrow>
           if \<not> valid_boot_signature sector then State_Monad.return False
           else do {
             let (lba0, sectors0, protective) = mbr_scan sector [0, 1, 2, 3] False;
             (lba1, sectors1) \<leftarrow>
               (if lba0 = 0 \<and> protective
                then State (\<lambda>s. case gpt_scan drv (s_block_device s) (m_blocks s) (m_dev s) of
                       (r, parts, d) \<Rightarrow>
                         (if r = 0 then case gpt_choose parts of None \<Rightarrow> (lba0, sectors0) | Some p \<Rightarrow> p else (lba0, sectors0),
                          s\<lparr>m_dev := d\<rparr>))
                else State_Monad.return (lba0, sectors0));
             let sectors2 = (if lba1 = 0 then superfloppy sector sectors1 else sectors1);
             if lba1 > 0x0FFFFFFF then State_Monad.return False
             else fat32_mount drv lba1 (clip_partition lba1 sectors2)
           }
     }
   }"

end
