(* ===== verification/Iso9660.thy ===== *)
theory Iso9660
  imports Fat32
begin

text \<open>
  The ISO 9660 driver (\<open>drivers/system/iso9660.c\<close>): the volume descriptor, directory records, and reading a file from any offset.
  Its state \<open>s_primary_iso\<close> extends the FAT32 driver's variables, so that both run on one machine state. The static sector
  buffer is filled before every use and is a local value here.
\<close>

subsection \<open>State\<close>

record iso9660_entry =
  ie_name :: string
  ie_lba :: u32
  ie_size :: u32
  ie_is_dir :: bool

record iso9660_info =
  iso_present :: bool
  iso_block_device_id :: int
  iso_volume_label :: string
  iso_root_lba :: u32
  iso_root_size :: u32
  iso_total_bytes :: u64

text \<open>The file system state of the machine: the FAT32 driver's variables and \<open>s_primary_iso\<close>.\<close>

record 'd volumes = "'d fat32" +
  s_primary_iso :: iso9660_info

abbreviation (input) ISO9660_SECTOR_SIZE :: u32 where "ISO9660_SECTOR_SIZE \<equiv> 2048"

type_synonym ('d, 'x, 'a) vio = "(('d, 'x) volumes_scheme, 'a) state"

definition iso_read :: "'d drivers \<Rightarrow> int \<Rightarrow> u64 \<Rightarrow> u32 \<Rightarrow> ('d, 'x, u8 list option) vio" where
  "iso_read drv i lba count = State (\<lambda>s.
     case block_read drv i lba count (m_blocks s) (m_dev s) of
       (r, bs, d) \<Rightarrow> (if r = 0 then Some bs else None, s\<lparr>m_dev := d\<rparr>))"

definition rd_le32 :: "u8 list \<Rightarrow> nat \<Rightarrow> u32" where
  "rd_le32 p off = ucast (field p off 4)"

subsection \<open>Volume descriptor\<close>

definition trim_label :: "string \<Rightarrow> string" where
  "trim_label label = rev (dropWhile (\<lambda>c. c = CHR '' '' \<or> c = CHR 0x00) (rev label))"

definition iso_blank :: "int \<Rightarrow> iso9660_info" where
  "iso_blank i = \<lparr>iso_present = False, iso_block_device_id = i, iso_volume_label = [], iso_root_lba = 0, iso_root_size = 0, iso_total_bytes = 0\<rparr>"

definition iso9660_probe :: "'d drivers \<Rightarrow> int \<Rightarrow> ('d, 'x, bool) vio" where
  "iso9660_probe drv i = do {
     _ \<leftarrow> State_Monad.update (\<lambda>s. s\<lparr>s_primary_iso := iso_blank i\<rparr>);
     s \<leftarrow> State_Monad.get;
     case block_get_device i (m_blocks s) of
       None \<Rightarrow> State_Monad.return False
     | Some dev \<Rightarrow>
         if block_size dev \<noteq> ISO9660_SECTOR_SIZE then State_Monad.return False
         else do {
           r \<leftarrow> iso_read drv i 16 1;
           case r of
             None \<Rightarrow> State_Monad.return False
           | Some b \<Rightarrow>
               if take 6 b \<noteq> [1, 0x43, 0x44, 0x30, 0x30, 0x31] then State_Monad.return False
               else do {
                 _ \<leftarrow> State_Monad.update (\<lambda>s. s\<lparr>s_primary_iso :=
                   \<lparr>iso_present = True, iso_block_device_id = i,
                    iso_volume_label = trim_label (map (\<lambda>c. char_of (unat c)) (take 32 (drop 40 b))),
                    iso_root_lba = rd_le32 b (156 + 2), iso_root_size = rd_le32 b (156 + 10),
                    iso_total_bytes = ucast (rd_le32 b 80) * 2048\<rparr>\<rparr>);
                 State_Monad.return True
               }
         }
   }"

primrec iso_init_loop :: "nat \<Rightarrow> 'd drivers \<Rightarrow> int \<Rightarrow> ('d, 'x, bool) vio" where
  "iso_init_loop 0 drv i = State_Monad.return False"
| "iso_init_loop (Suc n) drv i = do {
     s \<leftarrow> State_Monad.get;
     ok \<leftarrow> (case block_get_device i (m_blocks s) of
              None \<Rightarrow> State_Monad.return False
            | Some dev \<Rightarrow>
                if \<not> bd_writable dev \<and> block_size dev = ISO9660_SECTOR_SIZE then iso9660_probe drv i else State_Monad.return False);
     if ok then State_Monad.return True else iso_init_loop n drv (i + 1)
   }"

definition iso9660_init :: "'d drivers \<Rightarrow> ('d, 'x, bool) vio" where
  "iso9660_init drv = do {
     _ \<leftarrow> State_Monad.update (\<lambda>s. s\<lparr>s_primary_iso := (s_primary_iso s)\<lparr>iso_present := False\<rparr>\<rparr>);
     s \<leftarrow> State_Monad.get;
     iso_init_loop (length (g_devices (m_blocks s))) drv 0
   }"

definition iso9660_get_primary_info :: "('d, 'x) volumes_scheme \<Rightarrow> iso9660_info" where
  "iso9660_get_primary_info s = s_primary_iso s"

subsection \<open>Directories\<close>

text \<open>The name is the C string the copied characters make: it ends at a zero byte.\<close>

definition iso_record :: "u8 list \<Rightarrow> iso9660_entry" where
  "iso_record r =
     \<lparr>ie_name = takeWhile (\<lambda>c. c \<noteq> CHR '';'' \<and> c \<noteq> CHR 0x00) (map (\<lambda>b. char_of (unat b)) (take (min (unat (r ! 32)) 63) (drop 33 r))),
      ie_lba = rd_le32 r 2, ie_size = rd_le32 r 10, ie_is_dir = (r ! 25 AND 2 \<noteq> 0)\<rparr>"

text \<open>
  The records of one sector from \<open>offset\<close> on. A record has at least 33 bytes, so that 63 rounds reach the end of the
  sector; the recursion runs on the bytes left instead.
\<close>

function iso_sector_entries :: "u8 list \<Rightarrow> nat \<Rightarrow> int \<Rightarrow> iso9660_entry list \<Rightarrow> iso9660_entry list" where
  "iso_sector_entries b offset max_entries acc =
     (if offset < 2048
      then
        let rec_len = unat (b ! offset) in
        if rec_len < 33 then acc
        else if offset + rec_len > 2048 then acc
        else
          let r = drop offset b;
              special = (r ! 32 = 1 \<and> (r ! 33 = 0 \<or> r ! 33 = 1))
          in iso_sector_entries b (offset + rec_len) max_entries
               (if \<not> special \<and> int (length acc) < max_entries then acc @ [iso_record r] else acc)
      else acc)"
  by pat_completeness auto

termination iso_sector_entries
  by (relation "measure (\<lambda>(b, offset, _, _). 2048 - offset)") auto

declare iso_sector_entries.simps [simp del]

primrec iso_list_loop :: "nat \<Rightarrow> 'd drivers \<Rightarrow> int \<Rightarrow> u32 \<Rightarrow> int \<Rightarrow> iso9660_entry list \<Rightarrow> ('d, 'x, iso9660_entry list) vio" where
  "iso_list_loop 0 drv i lba max_entries acc = State_Monad.return acc"
| "iso_list_loop (Suc n) drv i lba max_entries acc = do {
     r \<leftarrow> iso_read drv i (ucast lba) 1;
     case r of
       None \<Rightarrow> State_Monad.return acc
     | Some b \<Rightarrow> iso_list_loop n drv i (lba + 1) max_entries (iso_sector_entries b 0 max_entries acc)
   }"

definition iso_dir_sectors :: "u32 \<Rightarrow> u32" where
  "iso_dir_sectors dir_size =
     (let n = (dir_size + ISO9660_SECTOR_SIZE - 1) div ISO9660_SECTOR_SIZE;
          n = (if n = 0 then 1 else n)
      in if n > 16 then 16 else n)"

definition iso9660_list_dir :: "'d drivers \<Rightarrow> u32 \<Rightarrow> u32 \<Rightarrow> int \<Rightarrow> ('d, 'x, iso9660_entry list) vio" where
  "iso9660_list_dir drv lba dir_size max_entries = do {
     s \<leftarrow> State_Monad.get;
     if \<not> iso_present (s_primary_iso s) \<or> max_entries \<le> 0 then State_Monad.return []
     else iso_list_loop (unat (iso_dir_sectors dir_size)) drv (iso_block_device_id (s_primary_iso s)) lba max_entries []
   }"

subsection \<open>Files\<close>

text \<open>How many whole sectors the next read asks for, at most 32.\<close>

definition iso_batch :: "u32 \<Rightarrow> u32" where
  "iso_batch bytes_left = (let full = bytes_left div ISO9660_SECTOR_SIZE in if full > 32 then 32 else full)"

lemma iso_batch_bound:
  assumes "bytes_left \<ge> 2048"
  shows "unat (iso_batch bytes_left * 2048) = unat (iso_batch bytes_left) * 2048"
    and "unat (iso_batch bytes_left) * 2048 \<le> unat bytes_left" and "0 < unat (iso_batch bytes_left)"
    and "unat (bytes_left - iso_batch bytes_left * 2048) = unat bytes_left - unat (iso_batch bytes_left) * 2048"
    and "unat (bytes_left - iso_batch bytes_left * 2048) < unat bytes_left"
proof -
  have f: "unat (bytes_left div 2048) = unat bytes_left div 2048" by (simp add: unat_div)
  have b: "unat (iso_batch bytes_left) = min 32 (unat bytes_left div 2048)"
    by (simp add: iso_batch_def Let_def word_less_nat_alt f min_def)
  show le: "unat (iso_batch bytes_left) * 2048 \<le> unat bytes_left"
    using b by (metis div_times_less_eq_dividend min.cobounded2 mult_le_mono1 order_trans)
  have "1 \<le> unat bytes_left div 2048" using assms(1) by (simp add: word_le_nat_alt less_eq_div_iff_mult_less_eq)
  then show p: "0 < unat (iso_batch bytes_left)" using b by simp
  show m: "unat (iso_batch bytes_left * 2048) = unat (iso_batch bytes_left) * 2048"
    using b by (simp add: unat_word_ariths min_def)
  show d: "unat (bytes_left - iso_batch bytes_left * 2048) = unat bytes_left - unat (iso_batch bytes_left) * 2048"
    using m le by (subst unat_sub) (auto simp: word_le_nat_alt)
  show "unat (bytes_left - iso_batch bytes_left * 2048) < unat bytes_left"
    unfolding d using p le by linarith
qed

text \<open>Whole sectors: the bytes read, the bytes left, the next sector, and whether a read failed.\<close>

function iso_read_full :: "'d drivers \<Rightarrow> int \<Rightarrow> u32 \<Rightarrow> u32 \<Rightarrow> u32 \<Rightarrow> u8 list \<Rightarrow> ('d, 'x, u8 list \<times> u32 \<times> u32 \<times> bool) vio" where
  "iso_read_full drv i lba cur_sec bytes_left dst =
     (if bytes_left \<ge> ISO9660_SECTOR_SIZE
      then do {
        r \<leftarrow> iso_read drv i (ucast (lba + cur_sec)) (iso_batch bytes_left);
        case r of
          None \<Rightarrow> State_Monad.return (dst, bytes_left, cur_sec, True)
        | Some bs \<Rightarrow>
            iso_read_full drv i lba (cur_sec + iso_batch bytes_left) (bytes_left - iso_batch bytes_left * ISO9660_SECTOR_SIZE) (dst @ bs)
      }
      else State_Monad.return (dst, bytes_left, cur_sec, False))"
  by pat_completeness auto

termination iso_read_full
  by (relation "measure (\<lambda>(_, _, _, _, bytes_left, _). unat bytes_left)") (simp_all add: iso_batch_bound(5))

declare iso_read_full.simps [simp del]

text \<open>The part of the request in a first sector that it does not start with: bytes, bytes left, next sector.\<close>

definition iso_read_head :: "'d drivers \<Rightarrow> int \<Rightarrow> u32 \<Rightarrow> u32 \<Rightarrow> u32 \<Rightarrow> u32 \<Rightarrow> ('d, 'x, (u8 list \<times> u32 \<times> u32) option) vio" where
  "iso_read_head drv i lba start_sec sec_offset to_read =
     (if sec_offset \<noteq> 0
      then do {
        r \<leftarrow> iso_read drv i (ucast (lba + start_sec)) 1;
        case r of
          None \<Rightarrow> State_Monad.return None
        | Some b \<Rightarrow> do {
            let avail_in_sec = ISO9660_SECTOR_SIZE - sec_offset;
            let chunk = (if to_read < avail_in_sec then to_read else avail_in_sec);
            State_Monad.return (Some (take (unat chunk) (drop (unat sec_offset) b), to_read - chunk, start_sec + 1))
          }
      }
      else State_Monad.return (Some ([], to_read, start_sec)))"

definition iso_read_tail :: "'d drivers \<Rightarrow> int \<Rightarrow> u32 \<Rightarrow> u32 \<Rightarrow> u32 \<Rightarrow> u8 list \<Rightarrow> ('d, 'x, u8 list) vio" where
  "iso_read_tail drv i lba cur_sec bytes_left dst =
     (if bytes_left > 0
      then do {
        r \<leftarrow> iso_read drv i (ucast (lba + cur_sec)) 1;
        State_Monad.return (case r of None \<Rightarrow> dst | Some b \<Rightarrow> dst @ take (unat bytes_left) b)
      }
      else State_Monad.return dst)"

text \<open>The bytes delivered; fewer than asked for after a read error.\<close>

definition iso9660_read_file_offset :: "'d drivers \<Rightarrow> u32 \<Rightarrow> u32 \<Rightarrow> u64 \<Rightarrow> int \<Rightarrow> ('d, 'x, u8 list) vio" where
  "iso9660_read_file_offset drv lba sz offset max_bytes = do {
     s \<leftarrow> State_Monad.get;
     if \<not> iso_present (s_primary_iso s) \<or> max_bytes \<le> 0 \<or> offset \<ge> ucast sz then State_Monad.return []
     else do {
       let i = iso_block_device_id (s_primary_iso s);
       let available = sz - ucast offset;
       let to_read = (if available < word_of_int max_bytes then available else word_of_int max_bytes);
       head \<leftarrow> iso_read_head drv i lba (ucast (offset div 2048)) (ucast (offset mod 2048)) to_read;
       case head of
         None \<Rightarrow> State_Monad.return []
       | Some (dst, bytes_left, cur_sec) \<Rightarrow> do {
           (dst1, bytes_left1, cur_sec1, failed) \<leftarrow> iso_read_full drv i lba cur_sec bytes_left dst;
           if failed then State_Monad.return dst1 else iso_read_tail drv i lba cur_sec1 bytes_left1 dst1
         }
     }
   }"

definition iso9660_read_file :: "'d drivers \<Rightarrow> u32 \<Rightarrow> u32 \<Rightarrow> int \<Rightarrow> ('d, 'x, u8 list) vio" where
  "iso9660_read_file drv lba sz max_bytes = iso9660_read_file_offset drv lba sz 0 max_bytes"

subsection \<open>Pieces of a file\<close>

text \<open>\<open>piece v p bs\<close>: the bytes \<open>bs\<close> stand at offset \<open>p\<close> of the sectors \<open>v 0\<close>, \<open>v 1\<close>, ...\<close>

definition piece :: "(nat \<Rightarrow> u8 list) \<Rightarrow> nat \<Rightarrow> u8 list \<Rightarrow> bool" where
  "piece v p bs \<longleftrightarrow> (\<exists>n. p + length bs \<le> length (span v 0 n) \<and> (\<forall>j < length bs. bs ! j = span v 0 n ! (p + j)))"

lemma span_extend: "n \<le> m \<Longrightarrow> \<exists>rest. span v 0 m = span v 0 n @ rest"
  using span_add [of v 0 n "m - n"] by auto

lemma piece_append:
  assumes "piece v p bs" and "piece v (p + length bs) cs"
  shows "piece v p (bs @ cs)"
proof -
  obtain n where n: "p + length bs \<le> length (span v 0 n)" "\<forall>j < length bs. bs ! j = span v 0 n ! (p + j)"
    using assms(1) unfolding piece_def by blast
  obtain m where m: "p + length bs + length cs \<le> length (span v 0 m)" "\<forall>j < length cs. cs ! j = span v 0 m ! (p + length bs + j)"
    using assms(2) unfolding piece_def by blast
  define k where "k = max n m"
  obtain r1 where r1: "span v 0 k = span v 0 n @ r1" using span_extend [of n k v] by (auto simp: k_def)
  obtain r2 where r2: "span v 0 k = span v 0 m @ r2" using span_extend [of m k v] by (auto simp: k_def)
  have b: "bs ! j = span v 0 k ! (p + j)" if "j < length bs" for j
    unfolding r1 using n that by (simp add: nth_append)
  have c: "cs ! j = span v 0 k ! (p + length bs + j)" if "j < length cs" for j
    unfolding r2 using m that by (simp add: nth_append)
  have "(bs @ cs) ! j = span v 0 k ! (p + j)" if "j < length (bs @ cs)" for j
    using that b [of j] c [of "j - length bs"] by (simp add: nth_append)
  moreover have "p + length (bs @ cs) \<le> length (span v 0 k)" unfolding r2 using m(1) by simp
  ultimately show ?thesis unfolding piece_def by blast
qed

lemma piece_take: "piece v p bs \<Longrightarrow> piece v p (take k bs)"
  unfolding piece_def by (elim exE, rule exI) auto

lemma piece_drop: "piece v p bs \<Longrightarrow> k \<le> length bs \<Longrightarrow> piece v (p + k) (drop k bs)"
  unfolding piece_def by (elim exE, rule exI) (auto simp: add.assoc)

lemma piece_span:
  assumes "\<And>k. length (v k) = 2048"
  shows "piece v (c * 2048) (span v c n)"
proof -
  have "span v 0 (c + n) = span v 0 c @ span v c n" using span_add [of v 0 c n] by simp
  moreover have "length (span v 0 c) = c * 2048" "length (span v c n) = n * 2048"
    using length_span [of v 2048, OF assms] by simp_all
  ultimately show ?thesis unfolding piece_def by (intro exI [of _ "c + n"]) (simp add: nth_append)
qed

text \<open>A piece is what one reads at its place.\<close>

lemma piece_eq:
  assumes "piece v p bs" and "p + length bs \<le> length (span v 0 n)"
  shows "bs = take (length bs) (drop p (span v 0 n))"
proof -
  obtain m where m: "p + length bs \<le> length (span v 0 m)" "\<forall>j < length bs. bs ! j = span v 0 m ! (p + j)"
    using assms(1) unfolding piece_def by blast
  obtain r1 where r1: "span v 0 (max n m) = span v 0 n @ r1" using span_extend [of n "max n m" v] by auto
  obtain r2 where r2: "span v 0 (max n m) = span v 0 m @ r2" using span_extend [of m "max n m" v] by auto
  show ?thesis
  proof (rule nth_equalityI)
    fix j assume j: "j < length bs"
    have "span v 0 n ! (p + j) = span v 0 (max n m) ! (p + j)" unfolding r1 using assms(2) j by (simp add: nth_append)
    also have "\<dots> = span v 0 m ! (p + j)" unfolding r2 using m(1) j by (simp add: nth_append)
    finally show "bs ! j = take (length bs) (drop p (span v 0 n)) ! j" using m j assms(2) by simp
  qed (use assms(2) in simp)
qed

subsection \<open>Reading\<close>

text \<open>The sectors of a medium from \<open>lba\<close> on.\<close>

definition from_lba :: "(nat \<Rightarrow> u8 list) \<Rightarrow> nat \<Rightarrow> nat \<Rightarrow> u8 list" where
  "from_lba v lba k = v (lba + k)"

lemma span_from_lba: "span v (lba + c) n = span (from_lba v lba) c n"
  by (induction n) (simp_all add: span_def from_lba_def add.assoc)

definition disc_ok :: "'d drivers \<Rightarrow> 'd media \<Rightarrow> (medium \<Rightarrow> nat) \<Rightarrow> int \<Rightarrow> blocks \<Rightarrow> bool" where
  "disc_ok drv view bytes_of i b \<longleftrightarrow>
     drivers_ok drv view bytes_of \<and> (\<forall>bi \<in> set (g_devices b). binding_ok bytes_of bi) \<and>
     0 \<le> i \<and> i < int (length (g_devices b)) \<and> bytes_of (binding_medium (g_devices b ! nat i)) = 2048"

abbreviation disc_sectors :: "'d media \<Rightarrow> ('d, 'x) volumes_scheme \<Rightarrow> int \<Rightarrow> nat \<Rightarrow> u8 list" where
  "disc_sectors view s i \<equiv> view (m_dev s) (binding_medium (g_devices (m_blocks s) ! nat i))"

text \<open>A read changes nothing but the driver state, and there no medium.\<close>

definition same_discs :: "'d media \<Rightarrow> ('d, 'x) volumes_scheme \<Rightarrow> ('d, 'x) volumes_scheme \<Rightarrow> bool" where
  "same_discs view s s' \<longleftrightarrow> (\<exists>d. s' = s\<lparr>m_dev := d\<rparr> \<and> view d = view (m_dev s))"

lemma same_discs_trans: "same_discs view s t \<Longrightarrow> same_discs view t u \<Longrightarrow> same_discs view s u"
  unfolding same_discs_def by auto

lemma same_discs_refl [simp]: "same_discs view s s"
  unfolding same_discs_def by (intro exI [of _ "m_dev s"]) simp

lemma same_discs_simps:
  assumes "same_discs view s s'"
  shows "m_blocks s' = m_blocks s" and "disc_sectors view s' i = disc_sectors view s i" and "s_primary_iso s' = s_primary_iso s"
  using assms unfolding same_discs_def by auto

lemma iso_read_ok:
  assumes "disc_ok drv view bytes_of i (m_blocks s)" and "run_state (iso_read drv i lba count) s = (r, s')"
  shows "same_discs view s s'"
    and "r = Some bs \<Longrightarrow> bs = span (disc_sectors view s i) (unat lba) (unat count)"
proof -
  obtain q b d where rd: "block_read drv i lba count (m_blocks s) (m_dev s) = (q, b, d)"
    by (cases "block_read drv i lba count (m_blocks s) (m_dev s)") auto
  note ok = block_read_ok [OF _ _ rd, of view bytes_of]
  have eq: "s' = s\<lparr>m_dev := d\<rparr>" "r = (if q = 0 then Some b else None)"
    using assms(2) rd by (simp_all add: iso_read_def)
  show "same_discs view s s'" unfolding same_discs_def using ok(1) assms(1) eq by (auto simp: disc_ok_def)
  show "r = Some bs \<Longrightarrow> bs = span (disc_sectors view s i) (unat lba) (unat count)"
    using ok(2) assms(1) eq by (auto simp: disc_ok_def split: if_splits)
qed

lemma drivers_ok_length: "drivers_ok drv view bytes_of \<Longrightarrow> length (view d m l) = bytes_of m"
  unfolding drivers_ok_def by (elim conjE) blast

lemma length_disc_sector: "disc_ok drv view bytes_of i (m_blocks s) \<Longrightarrow> length (disc_sectors view s i k) = 2048"
  using drivers_ok_length [of drv view bytes_of] by (auto simp: disc_ok_def)

lemma iso_read_piece:
  fixes lba c :: u32
  assumes "disc_ok drv view bytes_of i (m_blocks s)" and "unat lba + unat c < 2 ^ 32"
    and "run_state (iso_read drv i (ucast (lba + c)) count) s = (Some bs, s')"
  shows "piece (from_lba (disc_sectors view s i) (unat lba)) (unat c * 2048) bs" and "length bs = unat count * 2048"
proof -
  have "unat (ucast (lba + c) :: u64) = unat lba + unat c"
    using assms(2) by (simp add: unsigned_ucast_eq take_bit_nat_eq_self unat_word_ariths)
  then have bs: "bs = span (from_lba (disc_sectors view s i) (unat lba)) (unat c) (unat count)"
    using iso_read_ok(2) [OF assms(1,3) refl] by (simp add: span_from_lba)
  have len: "length (from_lba (disc_sectors view s i) (unat lba) k) = 2048" for k
    using length_disc_sector [OF assms(1)] by (simp add: from_lba_def)
  show "piece (from_lba (disc_sectors view s i) (unat lba)) (unat c * 2048) bs" unfolding bs by (rule piece_span [OF len])
  show "length bs = unat count * 2048" unfolding bs using length_span [of _ 2048, OF len] by simp
qed

lemma iso_div_sub: "k * 2048 \<le> n \<Longrightarrow> (n - k * 2048) div 2048 = n div 2048 - (k :: nat)"
  by (metis add_diff_cancel_left' div_mult_self3 le_add_diff_inverse zero_neq_numeral)

lemma iso_read_full_ok:
  fixes lba cur_sec bytes_left :: u32
  assumes "disc_ok drv view bytes_of i (m_blocks s)"
    and "unat lba + unat cur_sec + unat bytes_left div 2048 < 2 ^ 32"
    and "piece (from_lba (disc_sectors view s i) (unat lba)) p dst" and "unat bytes_left \<noteq> 0 \<Longrightarrow> p + length dst = unat cur_sec * 2048"
    and "run_state (iso_read_full drv i lba cur_sec bytes_left dst) s = ((dst', bytes_left', cur_sec', failed), s')"
  shows "same_discs view s s' \<and> piece (from_lba (disc_sectors view s i) (unat lba)) p dst' \<and>
     length dst' + unat bytes_left' = length dst + unat bytes_left \<and>
     (\<not> failed \<longrightarrow> (unat bytes_left' \<noteq> 0 \<longrightarrow> p + length dst' = unat cur_sec' * 2048) \<and> unat bytes_left' < 2048 \<and> unat lba + unat cur_sec' < 2 ^ 32)"
  using assms
proof (induction "unat bytes_left" arbitrary: bytes_left cur_sec dst s rule: less_induct)
  case less
  note sm = iso_read_full.simps [of drv i lba cur_sec bytes_left dst]
  show ?case
  proof (cases "bytes_left \<ge> 2048")
    case False
    then have "unat bytes_left < 2048" by (simp add: not_le word_less_nat_alt)
    then show ?thesis using less.prems unfolding sm if_not_P [OF False] by auto
  next
    case True
    let ?n = "iso_batch bytes_left" and ?v = "from_lba (disc_sectors view s i) (unat lba)"
    note b = iso_batch_bound [OF True]
    obtain r s1 where rd: "run_state (iso_read drv i (ucast (lba + cur_sec)) ?n) s = (r, s1)" by fastforce
    note sd = iso_read_ok(1) [OF less.prems(1) rd]
    show ?thesis
    proof (cases r)
      case None
      then show ?thesis using less.prems rd sd unfolding sm if_P [OF True] by auto
    next
      case (Some bs)
      have "unat lba + unat cur_sec < 2 ^ 32" using less.prems(2) by simp
      note pc = iso_read_piece [OF less.prems(1) this rd [unfolded Some]]
      have nd: "unat ?n \<le> unat bytes_left div 2048" using b(2) by (simp add: less_eq_div_iff_mult_less_eq)
      have cs: "unat (cur_sec + ?n) = unat cur_sec + unat ?n"
        using less.prems(2) nd by (simp add: unat_word_ariths)
      have left: "unat (bytes_left - ?n * 2048) div 2048 = unat bytes_left div 2048 - unat ?n"
        unfolding b(4) by (simp add: div_mult_self4 [symmetric] b(2) iso_div_sub)
      have rest: "run_state (iso_read_full drv i lba (cur_sec + ?n) (bytes_left - ?n * 2048) (dst @ bs)) s1 =
          ((dst', bytes_left', cur_sec', failed), s')"
        using less.prems(5) rd Some unfolding sm if_P [OF True] by simp
      note eq = same_discs_simps [OF sd]
      have bl: "unat bytes_left \<noteq> 0" using b(2,3) by linarith
      have pcs: "piece ?v p (dst @ bs)" using piece_append [OF less.prems(3)] pc(1) less.prems(4) [OF bl] by simp
      have pos: "p + length (dst @ bs) = unat (cur_sec + ?n) * 2048"
        using less.prems(4) [OF bl] pc(2) cs by (simp add: add_mult_distrib)
      have bound: "unat lba + unat (cur_sec + ?n) + unat (bytes_left - ?n * 2048) div 2048 < 2 ^ 32"
        unfolding cs left using nd less.prems(2) by simp
      have "disc_ok drv view bytes_of i (m_blocks s1)" using less.prems(1) eq by simp
      from less.hyps [OF b(5) this bound _ _ rest, unfolded eq(2), OF pcs pos]
      show ?thesis using same_discs_trans [OF sd] pc(2) b(2,4) by auto
    qed
  qed
qed


lemma iso_read_head_ok:
  fixes lba start_sec sec_offset to_read :: u32
  assumes "disc_ok drv view bytes_of i (m_blocks s)" and "unat lba + unat start_sec + 1 < 2 ^ 32" and "sec_offset < 2048"
    and "run_state (iso_read_head drv i lba start_sec sec_offset to_read) s = (res, s')"
  defines "v \<equiv> from_lba (disc_sectors view s i) (unat lba)" and "p \<equiv> unat start_sec * 2048 + unat sec_offset"
  shows "same_discs view s s'"
    and "res = Some (dst, bytes_left, cur_sec) \<Longrightarrow> piece v p dst \<and> length dst + unat bytes_left = unat to_read \<and>
      (unat bytes_left \<noteq> 0 \<longrightarrow> p + length dst = unat cur_sec * 2048) \<and> unat cur_sec \<le> unat start_sec + 1"
proof -
  have len: "length (v k) = 2048" for k using length_disc_sector [OF assms(1)] by (simp add: v_def from_lba_def)
  have nil: "piece v q []" for q
    unfolding piece_def by (intro exI [of _ q]) (simp add: length_span [of v 2048, OF len])
  obtain r s1 where rd: "run_state (iso_read drv i (ucast (lba + start_sec)) 1) s = (r, s1)" by fastforce
  show "same_discs view s s'"
    using assms(4) rd iso_read_ok(1) [OF assms(1) rd]
    by (auto simp: iso_read_head_def Let_def split: if_splits option.splits)
  show "piece v p dst \<and> length dst + unat bytes_left = unat to_read \<and>
      (unat bytes_left \<noteq> 0 \<longrightarrow> p + length dst = unat cur_sec * 2048) \<and> unat cur_sec \<le> unat start_sec + 1"
    if r': "res = Some (dst, bytes_left, cur_sec)"
  proof (cases "sec_offset = 0")
    case True
    then show ?thesis using assms(4) r' nil by (auto simp: iso_read_head_def p_def)
  next
    case False
    then obtain b where b: "r = Some b" using assms(4) rd r' by (auto simp: iso_read_head_def split: option.splits)
    have "unat lba + unat start_sec < 2 ^ 32" using assms(2) by simp
    note pc = iso_read_piece [OF assms(1) this rd [unfolded b], folded v_def]
    have so: "unat sec_offset < 2048" using assms(3) by (simp add: word_less_nat_alt)
    have av: "unat (2048 - sec_offset) = 2048 - unat sec_offset" using so by (subst unat_sub) (auto simp: word_le_nat_alt)
    define chunk where "chunk = (if to_read < 2048 - sec_offset then to_read else 2048 - sec_offset)"
    have ch: "unat chunk = min (unat to_read) (2048 - unat sec_offset)" by (simp add: chunk_def word_less_nat_alt av)
    have cl: "unat (to_read - chunk) = unat to_read - unat chunk" using ch by (subst unat_sub) (auto simp: word_le_nat_alt)
    have eq: "dst = take (unat chunk) (drop (unat sec_offset) b)" "bytes_left = to_read - chunk" "cur_sec = start_sec + 1"
      using assms(4) rd r' b False by (auto simp: iso_read_head_def chunk_def Let_def)
    have pd: "piece v p dst" unfolding eq p_def using so pc(2) by (intro piece_take piece_drop [OF pc(1)]) simp
    have ld: "length dst = unat chunk" unfolding eq using pc(2) ch by simp
    have cu: "unat cur_sec = unat start_sec + 1" unfolding eq(3) using assms(2) by (simp add: unat_word_ariths)
    have "length dst + unat bytes_left = unat to_read" using ld cl eq(2) ch by simp
    moreover have "p + length dst = unat cur_sec * 2048" if "unat bytes_left \<noteq> 0"
      using that ld cl eq(2) ch cu so by (simp add: p_def min_def split: if_splits)
    ultimately show ?thesis using pd cu by simp
  qed
qed

lemma iso_read_tail_ok:
  fixes lba cur_sec bytes_left :: u32
  assumes "disc_ok drv view bytes_of i (m_blocks s)" and "unat lba + unat cur_sec < 2 ^ 32" and "unat bytes_left < 2048"
    and "piece (from_lba (disc_sectors view s i) (unat lba)) p dst" and "unat bytes_left \<noteq> 0 \<Longrightarrow> p + length dst = unat cur_sec * 2048"
    and "run_state (iso_read_tail drv i lba cur_sec bytes_left dst) s = (dst', s')"
  shows "same_discs view s s'" and "piece (from_lba (disc_sectors view s i) (unat lba)) p dst'"
    and "length dst' \<le> length dst + unat bytes_left"
proof -
  obtain r s1 where rd: "run_state (iso_read drv i (ucast (lba + cur_sec)) 1) s = (r, s1)" by fastforce
  show "same_discs view s s'"
    using assms(6) rd iso_read_ok(1) [OF assms(1) rd] by (auto simp: iso_read_tail_def split: if_splits option.splits)
  show "piece (from_lba (disc_sectors view s i) (unat lba)) p dst'"
  proof (cases "bytes_left > 0 \<and> r \<noteq> None")
    case True
    then obtain b where b: "r = Some b" by auto
    note pc = iso_read_piece [OF assms(1,2) rd [unfolded b]]
    have "dst' = dst @ take (unat bytes_left) b" using assms(6) rd b True by (auto simp: iso_read_tail_def)
    moreover have "unat bytes_left \<noteq> 0" using True by (simp add: unat_gt_0 word_gt_0)
    ultimately show ?thesis using piece_append [OF assms(4) piece_take] pc(1) assms(5) by simp
  next
    case False
    then show ?thesis using assms(4,6) rd by (auto simp: iso_read_tail_def split: if_splits)
  qed
  show "length dst' \<le> length dst + unat bytes_left"
    using assms(6) rd by (auto simp: iso_read_tail_def split: if_splits option.splits)
qed


subsection \<open>Reading a file is exact\<close>

text \<open>The numbers a request is made of, in unbounded arithmetic.\<close>

lemma iso_request_numbers:
  fixes sz :: u32 and offset :: u64
  assumes "\<not> offset \<ge> ucast sz" and "0 < max_bytes" and "max_bytes < 2 ^ 31"
  shows "unat offset < unat sz"
    and "unat (if sz - ucast offset < word_of_int max_bytes then sz - ucast offset else word_of_int max_bytes :: u32) =
      min (unat sz - unat offset) (nat max_bytes)"
    and "unat (ucast (offset div 2048) :: u32) = unat offset div 2048"
    and "unat (ucast (offset mod 2048) :: u32) = unat offset mod 2048"
proof -
  have "unat (ucast sz :: u64) = unat sz"
    by (simp add: unsigned_ucast_eq take_bit_nat_eq_self unsigned_less [of sz, THEN less_trans])
  then show o: "unat offset < unat sz" using assms(1) by (simp add: not_le word_less_nat_alt)
  then have o32: "unat offset < 2 ^ 32" using unsigned_less [of sz, where ?'a = nat] by simp
  then have uo: "unat (ucast offset :: u32) = unat offset" by (simp add: unsigned_ucast_eq take_bit_nat_eq_self)
  have "unat (sz - ucast offset) = unat sz - unat offset" using o uo by (subst unat_sub) (auto simp: word_le_nat_alt)
  moreover have "unat (word_of_int max_bytes :: u32) = nat max_bytes"
    using assms(2,3) by (simp add: unsigned_of_int take_bit_int_eq_self)
  ultimately show "unat (if sz - ucast offset < word_of_int max_bytes then sz - ucast offset else word_of_int max_bytes :: u32) =
      min (unat sz - unat offset) (nat max_bytes)"
    by (simp add: word_less_nat_alt)
  have d: "unat offset div 2048 < 2 ^ 32" "unat offset mod 2048 < 2 ^ 32"
    using o32 by (meson div_le_dividend le_less_trans, meson mod_less_eq_dividend le_less_trans)
  have "unat (offset div 2048) = unat offset div 2048" "unat (offset mod 2048) = unat offset mod 2048"
    by (simp_all add: unat_div unat_mod)
  then show "unat (ucast (offset div 2048) :: u32) = unat offset div 2048" "unat (ucast (offset mod 2048) :: u32) = unat offset mod 2048"
    using d by (simp_all add: unsigned_ucast_eq take_bit_nat_eq_self)
qed

text \<open>The three phases of a read, from a request in unbounded arithmetic.\<close>

lemma iso_phases_ok:
  fixes lba ss so tr :: u32
  assumes ok: "disc_ok drv view bytes_of i (m_blocks s)" and room: "unat lba + unat ss + unat tr div 2048 + 2 < 2 ^ 32" and "so < 2048"
    and h: "run_state (iso_read_head drv i lba ss so tr) s = (Some (dst, bytes_left, cur_sec), s1)"
    and f: "run_state (iso_read_full drv i lba cur_sec bytes_left dst) s1 = ((dst1, bytes_left1, cur_sec1, failed), s2)"
    and t: "run_state (iso_read_tail drv i lba cur_sec1 bytes_left1 dst1) s2 = (dst2, s3)"
  defines "v \<equiv> from_lba (disc_sectors view s i) (unat lba)" and "p \<equiv> unat ss * 2048 + unat so"
  shows "if failed then same_discs view s s2 \<and> piece v p dst1 \<and> length dst1 \<le> unat tr
         else same_discs view s s3 \<and> piece v p dst2 \<and> length dst2 \<le> unat tr"
proof -
  have r1: "unat lba + unat ss + 1 < 2 ^ 32" using room by simp
  note ho = iso_read_head_ok [OF ok r1 assms(3) h, folded v_def p_def]
  have hd: "piece v p dst" "length dst + unat bytes_left = unat tr" "unat bytes_left \<noteq> 0 \<Longrightarrow> p + length dst = unat cur_sec * 2048"
    "unat cur_sec \<le> unat ss + 1"
    using ho(2) [OF refl] by auto
  note e1 = same_discs_simps [OF ho(1)]
  have ok1: "disc_ok drv view bytes_of i (m_blocks s1)" using ok e1(1) by simp
  have "unat bytes_left div 2048 \<le> unat tr div 2048" using hd(2) by (intro div_le_mono) simp
  then have r2: "unat lba + unat cur_sec + unat bytes_left div 2048 < 2 ^ 32" using room hd(4) by simp
  note fo = iso_read_full_ok [OF ok1 r2 _ hd(3) f, unfolded e1(2), folded v_def, OF hd(1)]
  have sd2: "same_discs view s s2" using same_discs_trans [OF ho(1)] fo by blast
  show ?thesis
  proof (cases failed)
    case True
    then show ?thesis using fo sd2 hd(2) by auto
  next
    case False
    note e2 = same_discs_simps [OF sd2]
    have ok2: "disc_ok drv view bytes_of i (m_blocks s2)" using ok e2(1) by simp
    have c: "unat lba + unat cur_sec1 < 2 ^ 32" "unat bytes_left1 < 2048" "unat bytes_left1 \<noteq> 0 \<Longrightarrow> p + length dst1 = unat cur_sec1 * 2048"
      "piece v p dst1" "length dst1 + unat bytes_left1 = unat tr"
      using fo False hd(2) by auto
    note ta = iso_read_tail_ok [OF ok2 c(1,2) _ c(3) t, unfolded e2(2), folded v_def, OF c(4)]
    show ?thesis using False ta same_discs_trans [OF sd2 ta(1)] c(5) by auto
  qed
qed



text \<open>An NVMe medium with sectors of 2048 bytes, mounted as a disc.\<close>

definition disc_blocks :: blocks where
  "disc_blocks = \<lparr>g_devices = [\<lparr>device = \<lparr>bd_id = 0, block_size = 2048, block_count = 64, bd_writable = False,
      transport = BLOCK_TRANSPORT_NVME, bd_name = ''disc''\<rparr>, ata_index = - 1, ata_type = ATA_TYPE_HDD, ahci_port_index = - 1, nvme_index = 0\<rparr>],
      g_ahci_dma = (\<lambda>_. \<lparr>dma_phys = 0, dma_pages = 0\<rparr>)\<rparr>"

definition disc_state :: "(medium \<Rightarrow> nat \<Rightarrow> u8 list) volumes" where
  "disc_state = \<lparr>m_blocks = disc_blocks, m_dev = (\<lambda>m l. [word_of_nat l]), m_mm = mm_example, s_partition_lba = 0, s_partition_sectors = 0,
     s_fat_start_lba = 0, s_data_start_lba = 0, s_sectors_per_cluster = 0, s_root_cluster = 0, s_fat_size_sectors = 0, s_max_cluster = 0,
     s_num_fats = 0, s_fsinfo_lba = 0, s_fsinfo_valid = False, s_ready = False, s_was_dirty = False, s_total_bytes = 0, s_free_bytes = 0,
     s_block_device = - 1, cluster_buf = [],
     s_primary_iso = \<lparr>iso_present = True, iso_block_device_id = 0, iso_volume_label = ''KESH'', iso_root_lba = 20, iso_root_size = 2048,
       iso_total_bytes = 131072\<rparr>\<rparr>"


end
