(* ===== verification/Vfs.thy ===== *)
theory Vfs
  imports Iso9660 Vmm
begin

text \<open>
  The virtual file system (\<open>kernel/vfs.c\<close>): a table of nodes for the files linked into the kernel, for files kept in memory pages, and for
  the volumes mounted below \<open>/hdd\<close> (FAT32) and \<open>/cdrom\<close> (ISO 9660), whose directories are loaded into the table when a path first leads through
  them. The static variables of \<open>vfs.c\<close> extend the state of the file system drivers; status codes are the C integers.
\<close>

subsection \<open>Nodes\<close>

abbreviation (input) MAX_NODES :: nat where "MAX_NODES \<equiv> 256"
abbreviation (input) VFS_NAME_MAX :: nat where "VFS_NAME_MAX \<equiv> 64"
abbreviation (input) VFS_MAX_CHILDREN :: nat where "VFS_MAX_CHILDREN \<equiv> 32"

text \<open>
  What \<open>data\<close> of a node points to: nothing, a resource linked into the kernel (its bytes, of which the node may show a
  shorter part), or pages from the page allocator.
\<close>

datatype vfs_data = No_data | Image "u8 list" | Pages u64

text \<open>Pointers to nodes are indices into \<open>g_nodes\<close>; the children are the live prefix of the array.\<close>

record vfs_node =
  vn_name :: string
  vn_is_dir :: bool
  vn_size :: u32
  vn_data :: vfs_data
  vn_parent :: nat
  vn_children :: "nat list"
  vn_is_fat32 :: bool
  vn_fat_cluster :: u32
  vn_fat_populated :: bool
  vn_is_iso9660 :: bool
  vn_iso_lba :: u32
  vn_iso_populated :: bool

record 'd vfs = "'d volumes" +
  g_nodes :: "nat \<Rightarrow> vfs_node"
  g_node_count :: nat
  g_root :: "nat option"
  g_fat32_available :: bool
  g_iso9660_available :: bool

record kesh_vfs_entry =
  ke_name :: string
  ke_size :: u32
  ke_is_dir :: bool

record kesh_vfs_stat =
  ks_size :: u32
  ks_is_dir :: bool

type_synonym ('d, 'x, 'a) nio = "(('d, 'x) vfs_scheme, 'a) state"

subsection \<open>Strings\<close>

definition str_copy :: "string \<Rightarrow> nat \<Rightarrow> string" where
  "str_copy src max_len = take (max_len - 1) src"

definition str_eq :: "string \<Rightarrow> string \<Rightarrow> bool" where
  "str_eq a b \<longleftrightarrow> a = b"

definition lower :: "char \<Rightarrow> char" where
  "lower c = (let n = of_char c :: nat in if 65 \<le> n \<and> n \<le> 90 then char_of (n + 32) else c)"

definition str_eq_ci :: "string \<Rightarrow> string \<Rightarrow> bool" where
  "str_eq_ci a b \<longleftrightarrow> map lower a = map lower b"

definition is_sep :: "char \<Rightarrow> bool" where
  "is_sep c \<longleftrightarrow> c = CHR ''/'' \<or> c = CHR 0x5C"

text \<open>The position of the last separator.\<close>

definition last_sep :: "string \<Rightarrow> nat option" where
  "last_sep path = (let n = length (dropWhile (\<lambda>c. \<not> is_sep c) (rev path)) in if n = 0 then None else Some (n - 1))"

definition basename_copy :: "string \<Rightarrow> nat \<Rightarrow> string" where
  "basename_copy path cap =
     take (cap - 1) (rev (takeWhile (\<lambda>c. \<not> is_sep c) (dropWhile is_sep (rev path))))"

subsection \<open>The node table\<close>

definition upd_node :: "nat \<Rightarrow> (vfs_node \<Rightarrow> vfs_node) \<Rightarrow> ('d, 'x) vfs_scheme \<Rightarrow> ('d, 'x) vfs_scheme" where
  "upd_node i f s = s\<lparr>g_nodes := (g_nodes s)(i := f (g_nodes s i))\<rparr>"

definition new_node :: "string \<Rightarrow> bool \<Rightarrow> u32 \<Rightarrow> vfs_data \<Rightarrow> nat \<Rightarrow> vfs_node" where
  "new_node name is_dir sz data parent =
     \<lparr>vn_name = str_copy name VFS_NAME_MAX, vn_is_dir = is_dir, vn_size = sz, vn_data = data, vn_parent = parent, vn_children = [],
      vn_is_fat32 = False, vn_fat_cluster = 0, vn_fat_populated = False, vn_is_iso9660 = False, vn_iso_lba = 0, vn_iso_populated = False\<rparr>"

text \<open>The new node, linked into its parent when that has room; the root is its own parent.\<close>

definition alloc_node :: "string \<Rightarrow> bool \<Rightarrow> u32 \<Rightarrow> vfs_data \<Rightarrow> nat option \<Rightarrow> ('d, 'x, nat option) nio" where
  "alloc_node name is_dir sz data parent = State (\<lambda>s.
     if g_node_count s \<ge> MAX_NODES then (None, s)
     else
       let i = g_node_count s;
           s1 = s\<lparr>g_node_count := i + 1, g_nodes := (g_nodes s)(i := new_node name is_dir sz data (case parent of None \<Rightarrow> i | Some p \<Rightarrow> p))\<rparr>
       in (Some i,
           case parent of
             None \<Rightarrow> s1
           | Some p \<Rightarrow>
               if length (vn_children (g_nodes s1 p)) < VFS_MAX_CHILDREN
               then upd_node p (\<lambda>n. n\<lparr>vn_children := vn_children n @ [i]\<rparr>) s1 else s1))"

fun add_fat32_children :: "nat \<Rightarrow> fat32_entry list \<Rightarrow> ('d, 'x, unit) nio" where
  "add_fat32_children dir [] = State_Monad.return ()"
| "add_fat32_children dir (e # es) = do {
     s \<leftarrow> State_Monad.get;
     if \<not> length (vn_children (g_nodes s dir)) < VFS_MAX_CHILDREN then State_Monad.return ()
     else do {
       child \<leftarrow> alloc_node (fe_name e) (fe_is_dir e) (fe_size e) No_data (Some dir);
       _ \<leftarrow> (case child of
               None \<Rightarrow> State_Monad.return ()
             | Some c \<Rightarrow> State_Monad.update (upd_node c (\<lambda>n. n\<lparr>vn_is_fat32 := True, vn_fat_cluster := fe_first_cluster e, vn_fat_populated := False\<rparr>)));
       add_fat32_children dir es
     }
   }"

definition populate_fat32_node :: "'d drivers \<Rightarrow> nat \<Rightarrow> ('d, 'x, unit) nio" where
  "populate_fat32_node drv dir = do {
     s \<leftarrow> State_Monad.get;
     if \<not> vn_is_fat32 (g_nodes s dir) \<or> vn_fat_populated (g_nodes s dir) then State_Monad.return ()
     else do {
       _ \<leftarrow> State_Monad.update (upd_node dir (\<lambda>n. n\<lparr>vn_fat_populated := True, vn_children := []\<rparr>));
       es \<leftarrow> fat32_list_dir drv (vn_fat_cluster (g_nodes s dir)) (int VFS_MAX_CHILDREN);
       add_fat32_children dir es
     }
   }"

fun add_iso9660_children :: "nat \<Rightarrow> iso9660_entry list \<Rightarrow> ('d, 'x, unit) nio" where
  "add_iso9660_children dir [] = State_Monad.return ()"
| "add_iso9660_children dir (e # es) = do {
     s \<leftarrow> State_Monad.get;
     if \<not> length (vn_children (g_nodes s dir)) < VFS_MAX_CHILDREN then State_Monad.return ()
     else do {
       child \<leftarrow> alloc_node (ie_name e) (ie_is_dir e) (ie_size e) No_data (Some dir);
       _ \<leftarrow> (case child of
               None \<Rightarrow> State_Monad.return ()
             | Some c \<Rightarrow> State_Monad.update (upd_node c (\<lambda>n. n\<lparr>vn_is_iso9660 := True, vn_iso_lba := ie_lba e, vn_iso_populated := False\<rparr>)));
       add_iso9660_children dir es
     }
   }"

definition populate_iso9660_node :: "'d drivers \<Rightarrow> nat \<Rightarrow> ('d, 'x, unit) nio" where
  "populate_iso9660_node drv dir = do {
     s \<leftarrow> State_Monad.get;
     if \<not> vn_is_iso9660 (g_nodes s dir) \<or> vn_iso_populated (g_nodes s dir) then State_Monad.return ()
     else do {
       _ \<leftarrow> State_Monad.update (upd_node dir (\<lambda>n. n\<lparr>vn_iso_populated := True, vn_children := []\<rparr>));
       es \<leftarrow> iso9660_list_dir drv (vn_iso_lba (g_nodes s dir)) (vn_size (g_nodes s dir)) (int VFS_MAX_CHILDREN);
       add_iso9660_children dir es
     }
   }"

subsection \<open>Path lookup\<close>

definition child_where :: "('d, 'x) vfs_scheme \<Rightarrow> nat \<Rightarrow> (string \<Rightarrow> bool) \<Rightarrow> nat option" where
  "child_where s dir P = List.find (\<lambda>c. P (vn_name (g_nodes s c))) (vn_children (g_nodes s dir))"

definition component_matches :: "bool \<Rightarrow> string \<Rightarrow> string \<Rightarrow> bool" where
  "component_matches is_iso cname name \<longleftrightarrow>
     str_eq name cname \<or> is_iso \<and> str_eq_ci name cname \<or> str_eq cname ''c'' \<and> str_eq name ''hdd'' \<or> str_eq cname ''hdd'' \<and> str_eq name ''c''"

text \<open>One component of a path: \<open>boot\<close> in the root is also looked for on the disc.\<close>

definition find_component :: "'d drivers \<Rightarrow> nat \<Rightarrow> nat \<Rightarrow> string \<Rightarrow> ('d, 'x, nat option) nio" where
  "find_component drv root cur cname = do {
     _ \<leftarrow> populate_fat32_node drv cur;
     _ \<leftarrow> populate_iso9660_node drv cur;
     s \<leftarrow> State_Monad.get;
     case child_where s cur (component_matches (vn_is_iso9660 (g_nodes s cur)) cname) of
       Some c \<Rightarrow> State_Monad.return (Some c)
     | None \<Rightarrow>
         if cur = root \<and> str_eq cname ''boot''
         then (case child_where s root (\<lambda>name. str_eq name ''cdrom'') of
                 None \<Rightarrow> State_Monad.return None
               | Some cd \<Rightarrow> do {
                   _ \<leftarrow> populate_iso9660_node drv cd;
                   s1 \<leftarrow> State_Monad.get;
                   State_Monad.return (child_where s1 cd (\<lambda>name. str_eq_ci name ''boot''))
                 })
         else State_Monad.return None
   }"

text \<open>
  Cutting off one component, at most 63 characters of it, and one separator after it. What is left of a longer component
  is looked up as a component of its own.
\<close>

definition path_component :: "string \<Rightarrow> string" where
  "path_component p = take (VFS_NAME_MAX - 1) (takeWhile (\<lambda>c. \<not> is_sep c) p)"

definition path_rest :: "string \<Rightarrow> string" where
  "path_rest p = (let q = drop (length (path_component p)) p in if q \<noteq> [] \<and> is_sep (hd q) then tl q else q)"

lemma path_rest_shorter: "p \<noteq> [] \<Longrightarrow> length (path_rest p) < length p"
proof (cases p)
  case (Cons c cs)
  then show ?thesis
    by (cases "is_sep c") (auto simp: path_rest_def path_component_def Let_def min_def split: if_splits)
qed simp

function find_loop :: "'d drivers \<Rightarrow> nat \<Rightarrow> nat \<Rightarrow> string \<Rightarrow> ('d, 'x, nat option) nio" where
  "find_loop drv root cur p =
     (if p = [] then State_Monad.return (Some cur)
      else if str_eq (path_component p) ''.'' then find_loop drv root cur (path_rest p)
      else if str_eq (path_component p) ''..''
      then do { s \<leftarrow> State_Monad.get; find_loop drv root (vn_parent (g_nodes s cur)) (path_rest p) }
      else do {
        found \<leftarrow> find_component drv root cur (path_component p);
        case found of
          None \<Rightarrow> State_Monad.return None
        | Some c \<Rightarrow> find_loop drv root c (path_rest p)
      })"
  by pat_completeness auto

termination find_loop
  by (relation "measure (\<lambda>(_, _, _, p). length p)") (auto simp: path_rest_shorter)

declare find_loop.simps [simp del]

definition skip_sep :: "string \<Rightarrow> string" where
  "skip_sep p = (if p \<noteq> [] \<and> is_sep (hd p) then tl p else p)"

definition strip_drive :: "string \<Rightarrow> string" where
  "strip_drive p =
     (case p of
        c # CHR '':'' # rest \<Rightarrow> if c = CHR ''C'' \<or> c = CHR ''c'' then skip_sep rest else p
      | _ \<Rightarrow> p)"

definition find_node_by_path :: "'d drivers \<Rightarrow> string \<Rightarrow> ('d, 'x, nat option) nio" where
  "find_node_by_path drv path = do {
     s \<leftarrow> State_Monad.get;
     case g_root s of
       None \<Rightarrow> State_Monad.return None
     | Some root \<Rightarrow>
         if path = [] \<or> str_eq path ''/'' \<or> str_eq path [CHR 0x5C] then State_Monad.return (Some root)
         else do {
           let p = strip_drive (skip_sep path);
           if p = []
           then State_Monad.return (Some (case child_where s root (\<lambda>name. str_eq name ''c'') of Some c \<Rightarrow> c | None \<Rightarrow> root))
           else find_loop drv root root p
         }
   }"

definition vfs_get_node :: "'d drivers \<Rightarrow> string \<Rightarrow> ('d, 'x, nat option) nio" where
  "vfs_get_node drv path = find_node_by_path drv path"

subsection \<open>Listing and reading\<close>

text \<open>Both populate calls are without effect on a node of the other kind and on one already populated.\<close>

definition populate :: "'d drivers \<Rightarrow> nat \<Rightarrow> ('d, 'x, unit) nio" where
  "populate drv node = do { _ \<leftarrow> populate_fat32_node drv node; populate_iso9660_node drv node }"

definition entry_of_node :: "vfs_node \<Rightarrow> kesh_vfs_entry" where
  "entry_of_node n = \<lparr>ke_name = str_copy (vn_name n) VFS_NAME_MAX, ke_size = vn_size n, ke_is_dir = vn_is_dir n\<rparr>"

text \<open>The number returned and the entries stored.\<close>

definition vfs_list :: "'d drivers \<Rightarrow> string \<Rightarrow> int \<Rightarrow> ('d, 'x, int \<times> kesh_vfs_entry list) nio" where
  "vfs_list drv path max_entries =
     (if max_entries \<le> 0 then State_Monad.return (0, [])
      else do {
        found \<leftarrow> find_node_by_path drv path;
        s \<leftarrow> State_Monad.get;
        case found of
          None \<Rightarrow> State_Monad.return (- 1, [])
        | Some node \<Rightarrow>
            if \<not> vn_is_dir (g_nodes s node) then State_Monad.return (- 1, [])
            else do {
              _ \<leftarrow> populate drv node;
              s1 \<leftarrow> State_Monad.get;
              let es = map (\<lambda>c. entry_of_node (g_nodes s1 c)) (take (nat max_entries) (vn_children (g_nodes s1 node)));
              State_Monad.return (int (length es), es)
            }
      })"

definition data_bytes :: "mm \<Rightarrow> vfs_data \<Rightarrow> u64 \<Rightarrow> nat \<Rightarrow> u8 list" where
  "data_bytes m data off n =
     (case data of
        No_data \<Rightarrow> []
      | Image bs \<Rightarrow> take n (drop (unat off) bs)
      | Pages phys \<Rightarrow> read_bytes (phys_mem m) (phys + off) n)"

text \<open>
  The status and the bytes stored. A file on the FAT32 volume is always read from its start. The length of a file in memory is taken as a
  32-bit signed number.
\<close>

definition vfs_read_at :: "'d drivers \<Rightarrow> string \<Rightarrow> u64 \<Rightarrow> int \<Rightarrow> ('d, 'x, int \<times> u8 list) nio" where
  "vfs_read_at drv path offset max_bytes =
     (if max_bytes \<le> 0 then State_Monad.return (- 1, [])
      else do {
        found \<leftarrow> find_node_by_path drv path;
        s \<leftarrow> State_Monad.get;
        case found of
          None \<Rightarrow> State_Monad.return (- 2, [])
        | Some i \<Rightarrow>
            let node = g_nodes s i in
            if vn_is_dir node then State_Monad.return (- 2, [])
            else if vn_is_fat32 node then do {
              bs \<leftarrow> fat32_read_file drv (vn_fat_cluster node) (vn_size node) (word_of_int max_bytes);
              State_Monad.return (int (length bs), bs)
            }
            else if vn_is_iso9660 node then do {
              bs \<leftarrow> iso9660_read_file_offset drv (vn_iso_lba node) (vn_size node) offset max_bytes;
              State_Monad.return (int (length bs), bs)
            }
            else if vn_data node = No_data \<or> offset \<ge> ucast (vn_size node) then State_Monad.return (0, [])
            else do {
              let left = sint (ucast (ucast (vn_size node) - offset) :: u32);
              let to_copy = (if left > max_bytes then max_bytes else left);
              State_Monad.return (to_copy, data_bytes (m_mm s) (vn_data node) offset (nat to_copy))
            }
      })"

definition vfs_read :: "'d drivers \<Rightarrow> string \<Rightarrow> int \<Rightarrow> ('d, 'x, int \<times> u8 list) nio" where
  "vfs_read drv path max_bytes = vfs_read_at drv path 0 max_bytes"

definition vfs_stat :: "'d drivers \<Rightarrow> string \<Rightarrow> ('d, 'x, int \<times> kesh_vfs_stat option) nio" where
  "vfs_stat drv path = do {
     found \<leftarrow> find_node_by_path drv path;
     s \<leftarrow> State_Monad.get;
     State_Monad.return (case found of
       None \<Rightarrow> (- 2, None)
     | Some i \<Rightarrow> (0, Some \<lparr>ks_size = vn_size (g_nodes s i), ks_is_dir = vn_is_dir (g_nodes s i)\<rparr>))
   }"

subsection \<open>Writing\<close>

text \<open>The pages for a file of the given length, at least one.\<close>

definition file_pages :: "int \<Rightarrow> u64" where
  "file_pages bytes = (let pages = (word_of_int bytes + PAGE_SIZE - 1) div PAGE_SIZE in if pages \<noteq> 0 then pages else 1)"

definition alloc_file :: "int \<Rightarrow> ('d, 'x, u64) nio" where
  "alloc_file bytes = State (\<lambda>s. let (phys, m) = pmm_alloc_pages (file_pages bytes) (m_mm s) in (phys, s\<lparr>m_mm := m\<rparr>))"

definition write_pages :: "u64 \<Rightarrow> u8 list \<Rightarrow> ('d, 'x, unit) nio" where
  "write_pages phys bs = State_Monad.update (\<lambda>s. s\<lparr>m_mm := (m_mm s)\<lparr>phys_mem := write_bytes phys bs (phys_mem (m_mm s))\<rparr>\<rparr>)"

text \<open>The copy loop of a write: into the linked resource itself, or into pages.\<close>

definition store_data :: "nat \<Rightarrow> vfs_data \<Rightarrow> u8 list \<Rightarrow> ('d, 'x, unit) nio" where
  "store_data i data bs =
     (case data of
        No_data \<Rightarrow> State_Monad.return ()
      | Image img \<Rightarrow> State_Monad.update (upd_node i (\<lambda>n. n\<lparr>vn_data := Image (bs @ drop (length bs) img)\<rparr>))
      | Pages phys \<Rightarrow> write_pages phys bs)"

definition write_fat32 :: "'d drivers \<Rightarrow> nat \<Rightarrow> string \<Rightarrow> u8 list \<Rightarrow> int \<Rightarrow> ('d, 'x, int) nio" where
  "write_fat32 drv parent path bs failed = do {
     s \<leftarrow> State_Monad.get;
     ok \<leftarrow> fat32_write_file drv (vn_fat_cluster (g_nodes s parent)) (basename_copy path VFS_NAME_MAX) bs;
     if \<not> ok then State_Monad.return failed
     else do {
       _ \<leftarrow> State_Monad.update (upd_node parent (\<lambda>n. n\<lparr>vn_fat_populated := False\<rparr>));
       _ \<leftarrow> populate_fat32_node drv parent;
       State_Monad.return (int (length bs))
     }
   }"

definition write_memory :: "nat \<Rightarrow> u8 list \<Rightarrow> ('d, 'x, int) nio" where
  "write_memory i bs = do {
     s \<leftarrow> State_Monad.get;
     let node = g_nodes s i;
     let bytes = int (length bs);
     data \<leftarrow> (if vn_data node = No_data \<or> (ucast (vn_size node) :: u64) < word_of_int bytes
              then do { phys \<leftarrow> alloc_file bytes; State_Monad.return (if phys = 0 then None else Some (Pages phys)) }
              else State_Monad.return (Some (vn_data node)));
     case data of
       None \<Rightarrow> State_Monad.return (- 5)
     | Some d \<Rightarrow> do {
         _ \<leftarrow> State_Monad.update (upd_node i (\<lambda>n. n\<lparr>vn_data := d\<rparr>));
         _ \<leftarrow> store_data i d bs;
         _ \<leftarrow> State_Monad.update (upd_node i (\<lambda>n. n\<lparr>vn_size := word_of_int bytes\<rparr>));
         State_Monad.return bytes
       }
   }"

text \<open>A file that does not exist yet, or lies on the disc.\<close>

definition write_new :: "'d drivers \<Rightarrow> string \<Rightarrow> u8 list \<Rightarrow> ('d, 'x, int) nio" where
  "write_new drv path bs =
     (case last_sep path of
        None \<Rightarrow> State_Monad.return (- 6)
      | Some slash \<Rightarrow>
          if slash < 1 \<or> slash \<ge> VFS_NAME_MAX then State_Monad.return (- 6)
          else do {
            found \<leftarrow> find_node_by_path drv (take slash path);
            s \<leftarrow> State_Monad.get;
            case found of
              None \<Rightarrow> State_Monad.return (- 7)
            | Some parent \<Rightarrow>
                if vn_is_fat32 (g_nodes s parent) then write_fat32 drv parent path bs (- 8)
                else do {
                  phys \<leftarrow> alloc_file (int (length bs));
                  if phys = 0 then State_Monad.return (- 8)
                  else do {
                    _ \<leftarrow> write_pages phys bs;
                    node \<leftarrow> alloc_node (basename_copy path VFS_NAME_MAX) False (word_of_nat (length bs)) (Pages phys) (Some parent);
                    State_Monad.return (if node = None then - 9 else int (length bs))
                  }
                }
          })"

definition vfs_write :: "'d drivers \<Rightarrow> string \<Rightarrow> u8 list \<Rightarrow> int \<Rightarrow> ('d, 'x, int) nio" where
  "vfs_write drv path buffer bytes =
     (if bytes < 0 then State_Monad.return (- 1)
      else do {
        let bs = take (nat bytes) buffer;
        found \<leftarrow> find_node_by_path drv path;
        s \<leftarrow> State_Monad.get;
        case found of
          None \<Rightarrow> write_new drv path bs
        | Some i \<Rightarrow>
            if vn_is_dir (g_nodes s i) then State_Monad.return (- 2)
            else if vn_is_fat32 (g_nodes s i)
            then if \<not> vn_is_fat32 (g_nodes s (vn_parent (g_nodes s i))) then State_Monad.return (- 3)
                 else write_fat32 drv (vn_parent (g_nodes s i)) path bs (- 4)
            else if \<not> vn_is_iso9660 (g_nodes s i) then write_memory i bs
            else write_new drv path bs
      })"

subsection \<open>Making, deleting and renaming\<close>

text \<open>
  The path of the parent is copied into 64 bytes on the stack without regard to its length: the result is \<open>None\<close> where that copy
  runs over the end of the buffer.
\<close>

definition mkdir_parent :: "string \<Rightarrow> nat \<Rightarrow> string option" where
  "mkdir_parent path slash =
     (if slash = 0 then Some ''/'' else if slash < VFS_NAME_MAX then Some (str_copy path (slash + 1)) else None)"

definition mkdir_cluster :: "'d drivers \<Rightarrow> nat \<Rightarrow> nat \<Rightarrow> string \<Rightarrow> ('d, 'x, unit) nio" where
  "mkdir_cluster drv parent node new_name = do {
     s \<leftarrow> State_Monad.get;
     _ \<leftarrow> State_Monad.update (upd_node node (\<lambda>n. n\<lparr>vn_is_fat32 := vn_is_fat32 (g_nodes s parent)\<rparr>));
     if \<not> vn_is_fat32 (g_nodes s parent) then State_Monad.return ()
     else do {
       es \<leftarrow> fat32_list_dir drv (vn_fat_cluster (g_nodes s parent)) (int VFS_MAX_CHILDREN);
       case List.find (\<lambda>e. str_eq (fe_name e) new_name) es of
         None \<Rightarrow> State_Monad.return ()
       | Some e \<Rightarrow> State_Monad.update (upd_node node (\<lambda>n. n\<lparr>vn_fat_cluster := fe_first_cluster e\<rparr>))
     }
   }"

definition mkdir_in :: "'d drivers \<Rightarrow> nat \<Rightarrow> string \<Rightarrow> ('d, 'x, int) nio" where
  "mkdir_in drv parent new_name = do {
     s \<leftarrow> State_Monad.get;
     if \<not> vn_is_dir (g_nodes s parent) then State_Monad.return (- 2)
     else if child_where s parent (\<lambda>name. str_eq name new_name) \<noteq> None then State_Monad.return (- 3)
     else do {
       ok \<leftarrow> (if vn_is_fat32 (g_nodes s parent) then fat32_make_dir drv (vn_fat_cluster (g_nodes s parent)) new_name
              else State_Monad.return True);
       if \<not> ok then State_Monad.return (- 4)
       else do {
         child \<leftarrow> alloc_node new_name True 0 No_data (Some parent);
         case child of
           None \<Rightarrow> State_Monad.return (- 5)
         | Some node \<Rightarrow> do { _ \<leftarrow> mkdir_cluster drv parent node new_name; State_Monad.return 0 }
       }
     }
   }"

definition vfs_mkdir :: "'d drivers \<Rightarrow> string \<Rightarrow> ('d, 'x, int option) nio" where
  "vfs_mkdir drv path =
     (if length path \<le> 1 then State_Monad.return (Some (- 1))
      else case last_sep path of
        None \<Rightarrow> State_Monad.return (Some (- 1))
      | Some slash \<Rightarrow>
          if drop (slash + 1) path = [] then State_Monad.return (Some (- 1))
          else (case mkdir_parent path slash of
            None \<Rightarrow> State_Monad.return None
          | Some parent_path \<Rightarrow> do {
              found \<leftarrow> find_node_by_path drv parent_path;
              case found of
                None \<Rightarrow> State_Monad.return (Some (- 2))
              | Some parent \<Rightarrow> do { r \<leftarrow> mkdir_in drv parent (drop (slash + 1) path); State_Monad.return (Some r) }
            }))"

text \<open>Unlinking a node; its place in the table is not used again.\<close>

definition delete_node :: "'d drivers \<Rightarrow> nat \<Rightarrow> ('d, 'x, int) nio" where
  "delete_node drv node = do {
     s \<leftarrow> State_Monad.get;
     let parent = vn_parent (g_nodes s node);
     ok \<leftarrow> (if vn_is_fat32 (g_nodes s node)
            then fat32_delete_file drv (vn_fat_cluster (g_nodes s parent)) (vn_name (g_nodes s node)) else State_Monad.return True);
     if \<not> ok then State_Monad.return (- 6)
     else if node \<notin> set (vn_children (g_nodes s parent)) then State_Monad.return (- 4)
     else do {
       _ \<leftarrow> State_Monad.update (upd_node parent (\<lambda>n. n\<lparr>vn_children := remove1 node (vn_children n)\<rparr>));
       State_Monad.return 0
     }
   }"

definition vfs_delete :: "'d drivers \<Rightarrow> string \<Rightarrow> ('d, 'x, int) nio" where
  "vfs_delete drv path =
     (if str_eq path ''/'' \<or> str_eq path [CHR 0x5C] then State_Monad.return (- 1)
      else do {
        found \<leftarrow> find_node_by_path drv path;
        s \<leftarrow> State_Monad.get;
        case found of
          None \<Rightarrow> State_Monad.return (- 2)
        | Some node \<Rightarrow> if g_root s = Some node then State_Monad.return (- 2) else delete_node drv node
      })"

definition parent_path :: "string \<Rightarrow> nat \<Rightarrow> string" where
  "parent_path path slash = (if slash = 0 then ''/'' else take slash path)"

definition rename_node :: "'d drivers \<Rightarrow> nat \<Rightarrow> string \<Rightarrow> ('d, 'x, int) nio" where
  "rename_node drv node new_name = do {
     s \<leftarrow> State_Monad.get;
     ok \<leftarrow> (if vn_is_fat32 (g_nodes s node)
            then fat32_rename_file drv (vn_fat_cluster (g_nodes s (vn_parent (g_nodes s node)))) (vn_name (g_nodes s node)) new_name
            else State_Monad.return True);
     if \<not> ok then State_Monad.return (- 6)
     else do {
       _ \<leftarrow> State_Monad.update (upd_node node (\<lambda>n. n\<lparr>vn_name := str_copy new_name VFS_NAME_MAX\<rparr>));
       State_Monad.return 0
     }
   }"

definition vfs_rename :: "'d drivers \<Rightarrow> string \<Rightarrow> string \<Rightarrow> ('d, 'x, int) nio" where
  "vfs_rename drv old_path new_path = do {
     dup \<leftarrow> find_node_by_path drv new_path;
     if dup \<noteq> None then State_Monad.return (- 1)
     else do {
       found \<leftarrow> find_node_by_path drv old_path;
       s \<leftarrow> State_Monad.get;
       case found of
         None \<Rightarrow> State_Monad.return (- 2)
       | Some node \<Rightarrow>
           if g_root s = Some node then State_Monad.return (- 2)
           else (case (last_sep old_path, last_sep new_path) of
             (Some old_slash, Some new_slash) \<Rightarrow>
               if old_slash \<ge> VFS_NAME_MAX \<or> new_slash \<ge> VFS_NAME_MAX then State_Monad.return (- 3)
               else if \<not> str_eq (parent_path old_path old_slash) (parent_path new_path new_slash) then State_Monad.return (- 4)
               else if basename_copy new_path VFS_NAME_MAX = [] then State_Monad.return (- 5)
               else rename_node drv node (basename_copy new_path VFS_NAME_MAX)
           | _ \<Rightarrow> State_Monad.return (- 3))
     }
   }"

subsection \<open>Disk statistics, start-up and rescanning\<close>

definition vfs_get_disk_stats :: "('d, 'x) vfs_scheme \<Rightarrow> int \<times> (u64 \<times> u64) option" where
  "vfs_get_disk_stats s =
     (if g_fat32_available s
      then (case fat32_get_stats s of None \<Rightarrow> (0, None) | Some st \<Rightarrow> (1, Some st))
      else case List.find (\<lambda>b. bd_writable (device b)) (g_devices (m_blocks s)) of
        Some b \<Rightarrow> (let bytes = block_count (device b) * ucast (block_size (device b)) in (1, Some (bytes, bytes)))
      | None \<Rightarrow>
          if g_iso9660_available s then (1, Some (iso_total_bytes (iso9660_get_primary_info s), 0)) else (0, Some (0, 0)))"

definition mount_hdd :: "'d drivers \<Rightarrow> nat \<Rightarrow> ('d, 'x, unit) nio" where
  "mount_hdd drv node = do {
     _ \<leftarrow> State_Monad.update (upd_node node (\<lambda>n. n\<lparr>vn_name := str_copy ''hdd'' VFS_NAME_MAX, vn_children := []\<rparr>));
     available \<leftarrow> fat32_init drv;
     _ \<leftarrow> State_Monad.update (\<lambda>s. s\<lparr>g_fat32_available := available\<rparr>);
     if available then do {
       _ \<leftarrow> State_Monad.update (\<lambda>s. upd_node node (\<lambda>n. n\<lparr>vn_is_fat32 := True, vn_fat_cluster := fat32_root_cluster s, vn_fat_populated := False\<rparr>) s);
       populate_fat32_node drv node
     }
     else State_Monad.update (upd_node node (\<lambda>n. n\<lparr>vn_is_fat32 := False, vn_fat_populated := True\<rparr>))
   }"

definition mount_cdrom :: "'d drivers \<Rightarrow> nat \<Rightarrow> ('d, 'x, unit) nio" where
  "mount_cdrom drv node = do {
     _ \<leftarrow> State_Monad.update (\<lambda>s. upd_node node (\<lambda>n. n\<lparr>vn_children := [], vn_is_iso9660 := True,
            vn_iso_lba := iso_root_lba (iso9660_get_primary_info s), vn_size := iso_root_size (iso9660_get_primary_info s),
            vn_iso_populated := False\<rparr>) s);
     populate_iso9660_node drv node
   }"

definition existing_or_new :: "nat option \<Rightarrow> string \<Rightarrow> nat \<Rightarrow> ('d, 'x, nat option) nio" where
  "existing_or_new existing name root =
     (case existing of Some i \<Rightarrow> State_Monad.return (Some i) | None \<Rightarrow> alloc_node name True 0 No_data (Some root))"

definition rescan_hdd :: "'d drivers \<Rightarrow> nat \<Rightarrow> ('d, 'x, unit) nio" where
  "rescan_hdd drv root = do {
     s \<leftarrow> State_Monad.get;
     if fat_device (m_blocks s) < 0 then State_Monad.return ()
     else do {
       hdd \<leftarrow> existing_or_new (child_where s root (\<lambda>name. str_eq name ''hdd'' \<or> str_eq name ''c'')) ''hdd'' root;
       case hdd of None \<Rightarrow> State_Monad.return () | Some node \<Rightarrow> mount_hdd drv node
     }
   }"

definition rescan_cdrom :: "'d drivers \<Rightarrow> nat \<Rightarrow> ('d, 'x, unit) nio" where
  "rescan_cdrom drv root = do {
     available \<leftarrow> iso9660_init drv;
     _ \<leftarrow> State_Monad.update (\<lambda>s. s\<lparr>g_iso9660_available := available\<rparr>);
     s \<leftarrow> State_Monad.get;
     let existing = child_where s root (\<lambda>name. str_eq name ''cdrom'');
     if available then do {
       cd \<leftarrow> existing_or_new existing ''cdrom'' root;
       case cd of None \<Rightarrow> State_Monad.return () | Some node \<Rightarrow> mount_cdrom drv node
     }
     else (case existing of
       None \<Rightarrow> State_Monad.return ()
     | Some node \<Rightarrow> State_Monad.update (upd_node node (\<lambda>n. n\<lparr>vn_children := [], vn_iso_populated := True\<rparr>)))
   }"

definition vfs_rescan_drives :: "'d drivers \<Rightarrow> ('d, 'x, unit) nio" where
  "vfs_rescan_drives drv = do {
     s \<leftarrow> State_Monad.get;
     case g_root s of
       None \<Rightarrow> State_Monad.return ()
     | Some root \<Rightarrow> do { _ \<leftarrow> rescan_hdd drv root; rescan_cdrom drv root }
   }"

text \<open>The images linked into the kernel are a parameter: their bytes by file name, \<open>None\<close> for one that was not linked.\<close>

definition vfs_add_resource :: "nat option \<Rightarrow> (string \<Rightarrow> u8 list option) \<Rightarrow> string \<Rightarrow> ('d, 'x, unit) nio" where
  "vfs_add_resource parent res name =
     (case (parent, res name) of
        (Some p, Some bs) \<Rightarrow> do { _ \<leftarrow> alloc_node name False (word_of_nat (length bs)) (Image bs) (Some p); State_Monad.return () }
      | _ \<Rightarrow> State_Monad.return ())"

fun add_resources :: "nat option \<Rightarrow> (string \<Rightarrow> u8 list option) \<Rightarrow> string list \<Rightarrow> ('d, 'x, unit) nio" where
  "add_resources parent res [] = State_Monad.return ()"
| "add_resources parent res (name # names) = do { _ \<leftarrow> vfs_add_resource parent res name; add_resources parent res names }"

fun add_placeholders :: "nat option \<Rightarrow> (string \<times> u32) list \<Rightarrow> ('d, 'x, unit) nio" where
  "add_placeholders parent [] = State_Monad.return ()"
| "add_placeholders parent ((name, sz) # rest) = do { _ \<leftarrow> alloc_node name False sz No_data parent; add_placeholders parent rest }"

definition vfs_init :: "'d drivers \<Rightarrow> (string \<Rightarrow> u8 list option) \<Rightarrow> ('d, 'x, unit) nio" where
  "vfs_init drv res = do {
     _ \<leftarrow> State_Monad.update (\<lambda>s. s\<lparr>g_node_count := 0\<rparr>);
     root \<leftarrow> alloc_node ''/'' True 0 No_data None;
     _ \<leftarrow> State_Monad.update (\<lambda>s. s\<lparr>g_root := root\<rparr>);
     apps \<leftarrow> alloc_node ''apps'' True 0 No_data root;
     _ \<leftarrow> add_resources apps res [''notepad.kea'', ''explorer.kea'', ''taskmgr.kea'', ''paint.kea'', ''shell.kea'', ''settings.kea'',
            ''about.kea'', ''browser.kea'', ''installer.kea''];
     icons \<leftarrow> alloc_node ''icons'' True 0 No_data root;
     _ \<leftarrow> add_resources icons res [''settings.ico'', ''picture.ico'', ''file.ico'', ''folder.ico'', ''explorer.ico'', ''terminal.ico'',
            ''taskmgr.ico'', ''browser.ico'', ''installer.ico'', ''notepad.ico'', ''paint.ico'', ''doom.ico''];
     bin \<leftarrow> alloc_node ''bin'' True 0 No_data root;
     _ \<leftarrow> add_placeholders bin [(''notepad.elf'', 16384), (''explorer.elf'', 32768), (''calc.elf'', 12288)];
     vfs_rescan_drives drv
   }"

end
