(* ===== verification/Fat32_Frame.thy ===== *)
theory Fat32_Frame
  imports Fat32
begin

text \<open>
  What the operations of the FAT32 driver leave alone: all but mounting change only the medium, the cluster buffer and the count of free bytes;
  mounting and repair change no state of the layers above.
\<close>

subsection \<open>What the driver never changes\<close>

text \<open>Everything but the medium, the cluster buffer and the count of free bytes.\<close>

definition fat_frame :: "('d, 'x) fat32_scheme \<Rightarrow> ('d, 'x) fat32_scheme" where
  "fat_frame s = s\<lparr>m_dev := undefined, cluster_buf := [], s_free_bytes := 0\<rparr>"

lemma fat_frame_upd [simp]:
  "fat_frame (s\<lparr>m_dev := d\<rparr>) = fat_frame s" "fat_frame (s\<lparr>cluster_buf := b\<rparr>) = fat_frame s" "fat_frame (s\<lparr>s_free_bytes := n\<rparr>) = fat_frame s"
  by (simp_all add: fat_frame_def)

lemma keeps_disk_read [keeps]: "keeps fat_frame (disk_read drv lba count)"
  unfolding disk_read_def by (intro keeps_State) (auto split: prod.splits)

lemma keeps_disk_write [keeps]: "keeps fat_frame (disk_write drv lba count bs)"
  unfolding disk_write_def by (intro keeps_State) (auto split: prod.splits)

lemma keeps_read_cluster [keeps]: "keeps fat_frame (read_cluster drv c)"
  unfolding read_cluster_def by (intro keeps_State) (auto split: prod.splits option.splits)

lemma keeps_set_cluster_buf [keeps]: "keeps fat_frame (set_cluster_buf b)"
  unfolding set_cluster_buf_def by (intro keeps_State) auto

lemma keeps_upd_free [keeps]: "keeps fat_frame (upd_free f)"
  unfolding upd_free_def by (intro keeps_State) auto

lemma keeps_fat32_sync_fsinfo [keeps]: "keeps fat_frame (fat32_sync_fsinfo drv)"
  unfolding fat32_sync_fsinfo_def by (intro keeps)

lemma keeps_fat_read_entry [keeps]: "keeps fat_frame (fat_read_entry drv c)"
  unfolding fat_read_entry_def by (intro keeps)

lemma keeps_fat_set_copies [keeps]: "keeps fat_frame (fat_set_copies n drv k i off v)"
  by (induction n arbitrary: k) (simp_all only: fat_set_copies.simps, (intro keeps | assumption)+)

lemma keeps_fat_set_entry [keeps]: "keeps fat_frame (fat_set_entry drv c v)"
  unfolding fat_set_entry_def by (intro keeps)

lemma keeps_fat_next_cluster [keeps]: "keeps fat_frame (fat_next_cluster drv c)"
  unfolding fat_next_cluster_def by (intro keeps)

lemma keeps_write_cluster [keeps]: "keeps fat_frame (write_cluster drv c bs)"
  unfolding write_cluster_def by (intro keeps)

lemma keeps_set_clean_flag [keeps]: "keeps fat_frame (fat32_set_clean_flag drv b)"
  unfolding fat32_set_clean_flag_def by (intro keeps)

lemma keeps_find_free_loop [keeps]: "keeps fat_frame (find_free_loop n drv i)"
  by (induction n arbitrary: i) (simp_all only: find_free_loop.simps, (intro keeps | assumption)+)

lemma keeps_find_free_cluster [keeps]: "keeps fat_frame (find_free_cluster drv)"
  unfolding find_free_cluster_def by (intro keeps)

lemma keeps_free_chain_loop [keeps]: "keeps fat_frame (free_chain_loop n drv c k)"
  by (induction n arbitrary: c k) (simp_all only: free_chain_loop.simps, (intro keeps | assumption)+)

lemma keeps_fat_free_chain [keeps]: "keeps fat_frame (fat_free_chain drv c)"
  unfolding fat_free_chain_def by (intro keeps)

lemma keeps_list_dir_loop [keeps]: "keeps fat_frame (list_dir_loop n drv c k acc)"
  by (induction n arbitrary: c acc) (simp_all only: list_dir_loop.simps, (intro keeps | assumption)+)

lemma keeps_fat32_list_dir [keeps]: "keeps fat_frame (fat32_list_dir drv c k)"
  unfolding fat32_list_dir_def by (intro keeps)

lemma keeps_read_file_loop [keeps]: "keeps fat_frame (read_file_loop n drv c sz k out)"
  by (induction n arbitrary: c out) (simp_all only: read_file_loop.simps, (intro keeps | assumption)+)

lemma keeps_fat32_read_file [keeps]: "keeps fat_frame (fat32_read_file drv c sz k)"
  unfolding fat32_read_file_def by (intro keeps)

lemma keeps_free_slot_loop [keeps]: "keeps fat_frame (free_slot_loop n drv c l)"
  by (induction n arbitrary: c l) (simp_all only: free_slot_loop.simps, (intro keeps | assumption)+)

lemma keeps_find_free_dir_slot [keeps]: "keeps fat_frame (find_free_dir_slot drv c)"
  unfolding find_free_dir_slot_def by (intro keeps)

lemma keeps_locate_loop [keeps]: "keeps fat_frame (locate_loop n drv c nm)"
  by (induction n arbitrary: c) (simp_all only: locate_loop.simps, (intro keeps | assumption)+)

lemma keeps_locate_dir_entry [keeps]: "keeps fat_frame (locate_dir_entry drv c nm)"
  unfolding locate_dir_entry_def by (intro keeps)

lemma keeps_dir_is_empty [keeps]: "keeps fat_frame (dir_is_empty drv c)"
  unfolding dir_is_empty_def by (intro keeps)

lemma keeps_release_clusters [keeps]: "keeps fat_frame (release_clusters drv cs)"
  by (induction cs) (simp_all only: release_clusters.simps, (intro keeps | assumption)+)

lemma keeps_chain_failed [keeps]: "keeps fat_frame (chain_failed drv cs)"
  unfolding chain_failed_def by (intro keeps)

lemma keeps_allocate_loop [keeps]: "keeps fat_frame (allocate_loop n drv cs bs)"
  by (induction n arbitrary: cs bs) (simp_all only: allocate_loop.simps, (intro keeps | assumption)+)

lemma keeps_allocate_file_chain [keeps]: "keeps fat_frame (allocate_file_chain drv bs)"
  unfolding allocate_file_chain_def by (intro keeps)

lemma keeps_fat32_delete_file [keeps]: "keeps fat_frame (fat32_delete_file drv c nm)"
  unfolding fat32_delete_file_def by (intro keeps)

lemma keeps_fat32_rename_file [keeps]: "keeps fat_frame (fat32_rename_file drv c nm1 nm2)"
  unfolding fat32_rename_file_def by (intro keeps)

lemma keeps_write_file_commit [keeps]: "keeps fat_frame (write_file_commit drv nm c i sz nf nc ofst oc)"
  unfolding write_file_commit_def by (intro keeps)

lemma keeps_fat32_write_file [keeps]: "keeps fat_frame (fat32_write_file drv c nm bs)"
  unfolding fat32_write_file_def by (intro keeps)

lemma keeps_mkdir_undo [keeps]: "keeps fat_frame (mkdir_undo drv c)"
  unfolding mkdir_undo_def by (intro keeps)

lemma keeps_fat32_make_dir [keeps]: "keeps fat_frame (fat32_make_dir drv c nm)"
  unfolding fat32_make_dir_def by (intro keeps)

lemma keeps_repair_cut [keeps]: "keeps fat_frame (repair_cut drv c u r)"
  unfolding repair_cut_def by (intro keeps)

lemma keeps_mark_chain_loop [keeps]: "keeps fat_frame (mark_chain_loop n drv c u r)"
  by (induction n arbitrary: c u r) (simp_all only: mark_chain_loop.simps, (intro keeps | assumption)+)

lemma keeps_repair_mark_chain [keeps]: "keeps fat_frame (repair_mark_chain drv c u r)"
  unfolding repair_mark_chain_def by (intro keeps)

lemma keeps_repair_entries [keeps]: "keeps fat_frame (repair_entries drv raws w)"
  by (induction raws arbitrary: w) (simp_all only: repair_entries.simps, (intro keeps | assumption)+)

lemma keeps_repair_dir_loop [keeps]: "keeps fat_frame (repair_dir_loop n drv c w)"
  by (induction n arbitrary: c w) (simp_all only: repair_dir_loop.simps, (intro keeps | assumption)+)

lemma keeps_repair_walk [keeps]: "keeps fat_frame (repair_walk n drv w)"
  by (induction n arbitrary: w) (simp_all only: repair_walk.simps, (intro keeps | assumption)+)

lemma keeps_repair_sweep [keeps]: "keeps fat_frame (repair_sweep n drv c u r)"
  by (induction n arbitrary: c r) (simp_all only: repair_sweep.simps, (intro keeps | assumption)+)

lemma keeps_repair_phases [keeps]: "keeps fat_frame (repair_phases drv)"
  unfolding repair_phases_def by (intro keeps)

lemma more_fat_frame: "fat32.more (fat_frame s) = fat32.more s"
  by (simp add: fat_frame_def)

lemma keeps_more: "keeps fat_frame m \<Longrightarrow> keeps fat32.more m"
  unfolding keeps_def by (metis more_fat_frame)

lemma keeps_more_check_repair: "keeps fat32.more (fat32_check_repair drv)"
  unfolding keeps_def
  by (auto simp: fat32_check_repair_def Let_def split: prod.splits option.splits
    dest!: keepsD [OF keeps_more [OF keeps_repair_phases]] keepsD [OF keeps_more [OF keeps_upd_free]] keepsD [OF keeps_more [OF keeps_fat32_sync_fsinfo]])

lemma keeps_more_load_fsinfo: "keeps fat32.more (load_fsinfo drv p f r g)"
  unfolding load_fsinfo_def by (intro keeps keeps_more [OF keeps_disk_read] keeps_update) simp_all

lemma keeps_more_fat32_mount: "keeps fat32.more (fat32_mount drv p n)"
  unfolding fat32_mount_def
  by (intro keeps keeps_more [OF keeps_disk_read] keeps_more [OF keeps_fat_read_entry] keeps_more [OF keeps_set_clean_flag]
    keeps_more_check_repair keeps_more_load_fsinfo keeps_update) (simp_all add: install_geometry_def Let_def)

lemma keeps_more_fat32_init: "keeps fat32.more (fat32_init drv)"
proof -
  have a: "keeps fat32.more (State (\<lambda>s. case gpt_scan drv (s_block_device s) (m_blocks s) (m_dev s) of
      (r, parts, d) \<Rightarrow> (if r = 0 then case gpt_choose parts of None \<Rightarrow> x | Some p \<Rightarrow> p else x, s\<lparr>m_dev := d\<rparr>)))" for x :: "u32 \<times> u32"
    by (intro keeps_State) (auto split: prod.splits)
  show ?thesis
    unfolding fat32_init_def
    by (rule keeps_get_if_set) (simp, (intro keeps keeps_more [OF keeps_disk_read] a keeps_more_fat32_mount)+)
qed

end
