(* ===== verification/Vfs_Tree.thy ===== *)
theory Vfs_Tree
  imports Vfs Fat32_Frame
begin

text \<open>
  The node table of the virtual file system is a tree in every state that calls can reach: the operations of the drivers below
  leave the table alone, and every call of \<open>vfs.c\<close>, loading of directories included, keeps its shape.
\<close>

subsection \<open>The drivers below leave the node table alone\<close>

definition tree_frame :: "('d, 'x) vfs_scheme \<Rightarrow> (nat \<Rightarrow> vfs_node) \<times> nat \<times> nat option" where
  "tree_frame s = (g_nodes s, g_node_count s, g_root s)"

lemma keeps_tree_more: "keeps fat32.more m \<Longrightarrow> keeps tree_frame m"
proof (unfold keeps_def, rule allI)
  fix s :: "('a, 'b) vfs_scheme"
  assume "\<forall>s. fat32.more (snd (run_state m s)) = fat32.more s"
  then have "fat32.more (snd (run_state m s)) = fat32.more s" by blast
  then show "tree_frame (snd (run_state m s)) = tree_frame s"
    by (cases s, cases "snd (run_state m s)") (simp add: tree_frame_def)
qed

lemma keeps_tree_fat: "keeps fat_frame m \<Longrightarrow> keeps tree_frame m"
  by (intro keeps_tree_more keeps_more)

lemma tree_frame_upd [simp]:
  "tree_frame (s\<lparr>m_dev := d\<rparr>) = tree_frame s" "tree_frame (s\<lparr>m_mm := m\<rparr>) = tree_frame s" "tree_frame (s\<lparr>s_primary_iso := i\<rparr>) = tree_frame s"
  "tree_frame (s\<lparr>g_fat32_available := b\<rparr>) = tree_frame s" "tree_frame (s\<lparr>g_iso9660_available := b\<rparr>) = tree_frame s"
  by (simp_all add: tree_frame_def)

lemma keeps_iso_read [keeps]: "keeps tree_frame (iso_read drv i lba n)"
  unfolding iso_read_def by (intro keeps_State) (auto split: prod.splits)

lemma keeps_iso9660_probe [keeps]: "keeps tree_frame (iso9660_probe drv i)"
  unfolding iso9660_probe_def by (intro keeps keeps_update) simp_all

lemma keeps_iso_init_loop [keeps]: "keeps tree_frame (iso_init_loop n drv i)"
  by (induction n arbitrary: i) (simp_all only: iso_init_loop.simps, (intro keeps | assumption)+)

lemma keeps_iso9660_init [keeps]: "keeps tree_frame (iso9660_init drv)"
  unfolding iso9660_init_def by (intro keeps keeps_update) simp_all

lemma keeps_iso_list_loop [keeps]: "keeps tree_frame (iso_list_loop n drv i lba k acc)"
  by (induction n arbitrary: lba acc) (simp_all only: iso_list_loop.simps, (intro keeps | assumption)+)

lemma keeps_iso9660_list_dir [keeps]: "keeps tree_frame (iso9660_list_dir drv lba sz k)"
  unfolding iso9660_list_dir_def by (intro keeps)

lemma keeps_iso_read_full [keeps]: "keeps tree_frame (iso_read_full drv i lba c b dst)"
proof (induction drv i lba c b dst rule: iso_read_full.induct)
  case (1 drv i lba c b dst)
  show ?case
    by (subst iso_read_full.simps) (intro keeps 1)
qed

lemma keeps_iso9660_read_file_offset [keeps]: "keeps tree_frame (iso9660_read_file_offset drv lba sz off k)"
  unfolding iso9660_read_file_offset_def iso_read_head_def iso_read_tail_def by (intro keeps)

lemmas keeps_tree_drivers =
  keeps_tree_fat [OF keeps_fat32_list_dir] keeps_tree_fat [OF keeps_fat32_read_file] keeps_tree_fat [OF keeps_fat32_write_file]
  keeps_tree_fat [OF keeps_fat32_make_dir] keeps_tree_fat [OF keeps_fat32_delete_file] keeps_tree_fat [OF keeps_fat32_rename_file]
  keeps_tree_more [OF keeps_more_fat32_init]

declare keeps_tree_drivers [keeps]

subsection \<open>The shape of the node table\<close>

text \<open>
  Every node in use points to a parent in use that was allocated before it, the root alone to itself; the children a node lists are
  nodes in use, listed once, at most 32, and point back to it; names fit their field.
\<close>

definition node_ok :: "nat \<Rightarrow> (nat \<Rightarrow> vfs_node) \<Rightarrow> nat \<Rightarrow> bool" where
  "node_ok n nodes i \<longleftrightarrow>
     (if i = 0 then vn_parent (nodes i) = 0 else vn_parent (nodes i) < i) \<and> length (vn_name (nodes i)) < VFS_NAME_MAX \<and>
     length (vn_children (nodes i)) \<le> VFS_MAX_CHILDREN \<and> distinct (vn_children (nodes i)) \<and>
     (\<forall>c \<in> set (vn_children (nodes i)). c < n \<and> c \<noteq> 0 \<and> vn_parent (nodes c) = i)"

definition vfs_tree :: "('d, 'x) vfs_scheme \<Rightarrow> bool" where
  "vfs_tree s \<longleftrightarrow> g_root s = Some 0 \<and> 0 < g_node_count s \<and> g_node_count s \<le> MAX_NODES \<and>
     (\<forall>i < g_node_count s. node_ok (g_node_count s) (g_nodes s) i)"

text \<open>What a call may do to the tree: it stays well formed, and no node in use is given back.\<close>

definition tree_grows :: "('d, 'x) vfs_scheme \<Rightarrow> ('d, 'x) vfs_scheme \<Rightarrow> bool" where
  "tree_grows s s' \<longleftrightarrow> vfs_tree s' \<and> g_node_count s \<le> g_node_count s'"

lemma tree_grows_refl: "vfs_tree s \<Longrightarrow> tree_grows s s"
  by (simp add: tree_grows_def)

lemma tree_grows_trans: "tree_grows s t \<Longrightarrow> tree_grows t u \<Longrightarrow> tree_grows s u"
  by (simp add: tree_grows_def)

lemma tree_frame_grows: "vfs_tree s \<Longrightarrow> tree_frame s' = tree_frame s \<Longrightarrow> tree_grows s s'"
  by (simp add: tree_grows_def vfs_tree_def tree_frame_def)

lemma wp_tree_frame: "keeps tree_frame m \<Longrightarrow> vfs_tree s \<Longrightarrow> (\<And>a s'. tree_frame s' = tree_frame s \<Longrightarrow> tree_grows s s' \<Longrightarrow> Q a s') \<Longrightarrow> wp m Q s"
  by (rule wp_keeps) (auto intro: tree_frame_grows)

text \<open>Changes of a node that leave its links alone.\<close>

lemma tree_upd_node:
  assumes "vfs_tree s" and "\<And>n. vn_parent (f n) = vn_parent n"
    and "\<And>n. length (vn_name n) < VFS_NAME_MAX \<Longrightarrow> length (vn_name (f n)) < VFS_NAME_MAX"
    and "length (vn_children (f (g_nodes s i))) \<le> VFS_MAX_CHILDREN" "distinct (vn_children (f (g_nodes s i)))"
    and "set (vn_children (f (g_nodes s i))) \<subseteq> set (vn_children (g_nodes s i))"
  shows "tree_grows s (upd_node i f s)"
proof -
  have "node_ok (g_node_count s) ((g_nodes s)(i := f (g_nodes s i))) j" if j: "node_ok (g_node_count s) (g_nodes s) j" for j
  proof (cases "j = i")
    case True
    have "length (vn_name (f (g_nodes s i))) < 64" using j True by (intro assms(3)) (simp add: node_ok_def)
    then show ?thesis using j True assms(2,4-6) by (auto simp: node_ok_def subset_iff)
  next
    case False
    then show ?thesis using j assms(2) by (auto simp: node_ok_def)
  qed
  then show ?thesis using assms(1) by (simp add: tree_grows_def vfs_tree_def upd_node_def)
qed

lemma tree_upd_same:
  assumes "vfs_tree s" and "i < g_node_count s" and "\<And>n. vn_parent (f n) = vn_parent n" and "\<And>n. vn_name (f n) = vn_name n" "\<And>n. vn_children (f n) = vn_children n"
  shows "tree_grows s (upd_node i f s)"
proof (rule tree_upd_node [OF assms(1,3)])
  have "node_ok (g_node_count s) (g_nodes s) i" using assms(1,2) by (simp add: vfs_tree_def)
  then show "length (vn_children (f (g_nodes s i))) \<le> 32" "distinct (vn_children (f (g_nodes s i)))"
    by (simp_all add: assms(5) node_ok_def)
qed (simp_all add: assms(4,5))

lemma tree_node: "vfs_tree s \<Longrightarrow> i < g_node_count s \<Longrightarrow> node_ok (g_node_count s) (g_nodes s) i"
  by (simp add: vfs_tree_def)

lemma tree_clear_children:
  assumes "vfs_tree s" and "\<And>n. vn_parent (f n) = vn_parent n" "\<And>n. length (vn_name n) < VFS_NAME_MAX \<Longrightarrow> length (vn_name (f n)) < VFS_NAME_MAX" "\<And>n. vn_children (f n) = []"
  shows "tree_grows s (upd_node i f s)"
  by (rule tree_upd_node) (simp_all add: assms)

lemma str_copy_bound [simp]: "length (str_copy name VFS_NAME_MAX) < VFS_NAME_MAX"
  by (simp add: str_copy_def)

subsection \<open>Allocation\<close>

lemma alloc_node_tree:
  assumes "vfs_tree s" and "p < g_node_count s"
  shows "wp (alloc_node name is_dir sz data (Some p)) (\<lambda>r s'. tree_grows s s' \<and> (\<forall>i. r = Some i \<longrightarrow> i < g_node_count s' \<and> i \<noteq> 0)) s"
proof (cases "g_node_count s \<ge> MAX_NODES")
  case True
  then show ?thesis using assms(1) by (simp add: alloc_node_def wp_def tree_grows_refl)
next
  case False
  define n where "n = g_node_count s"
  define new where "new = new_node name is_dir sz data p"
  define s1 where "s1 = s\<lparr>g_node_count := n + 1, g_nodes := (g_nodes s)(n := new)\<rparr>"
  have pn: "p < n" "0 < n" "n < 256" using assms False by (auto simp: n_def vfs_tree_def)
  have ok: "node_ok n (g_nodes s) i" if "i < n" for i using tree_node [OF assms(1)] that by (simp add: n_def)
  have new: "vn_parent new = p" "vn_children new = []" "length (vn_name new) < 64" by (simp_all add: new_def new_node_def)
  have ok1: "node_ok (n + 1) (g_nodes s1) i" if "i < n" for i
    using ok [OF that] that by (auto simp: node_ok_def s1_def)
  have okn: "node_ok (n + 1) (g_nodes s1) n" using new pn by (auto simp: node_ok_def s1_def)
  have t1: "vfs_tree s1"
    using assms(1) pn ok1 okn by (auto simp: vfs_tree_def s1_def less_Suc_eq)
  have notin: "n \<notin> set (vn_children (g_nodes s p))" using ok [OF pn(1)] by (auto simp: node_ok_def)
  have link: "vfs_tree (upd_node p (\<lambda>m. m\<lparr>vn_children := vn_children m @ [n]\<rparr>) s1)"
    if len: "length (vn_children (g_nodes s p)) < 32"
  proof -
    let ?s2 = "upd_node p (\<lambda>m. m\<lparr>vn_children := vn_children m @ [n]\<rparr>) s1"
    have "node_ok (n + 1) (g_nodes ?s2) i" if i: "i < n + 1" for i
    proof (cases "i = p")
      case True
      then show ?thesis using ok1 [OF pn(1)] len notin pn new
        by (auto simp: node_ok_def upd_node_def s1_def)
    next
      case False
      have "node_ok (n + 1) (g_nodes s1) i" using ok1 okn i by (cases "i = n") auto
      then show ?thesis using False by (auto simp: node_ok_def upd_node_def)
    qed
    then show ?thesis using t1 by (simp add: vfs_tree_def upd_node_def s1_def)
  qed
  have run: "run_state (alloc_node name is_dir sz data (Some p)) s =
    (Some n, if length (vn_children (g_nodes s1 p)) < 32 then upd_node p (\<lambda>m. m\<lparr>vn_children := vn_children m @ [n]\<rparr>) s1 else s1)"
    using False by (simp add: alloc_node_def s1_def new_def n_def Let_def)
  have "vn_children (g_nodes s1 p) = vn_children (g_nodes s p)" using pn by (simp add: s1_def)
  then show ?thesis using run t1 link pn
    by (auto simp: wp_def tree_grows_def s1_def upd_node_def n_def)
qed

text \<open>
  A computation that, run on the tree of \<open>s\<close>, leaves a tree at least as large and establishes \<open>Q\<close>. The rules for the constructs
  are collected in \<open>tree\<close>.
\<close>

named_theorems tree \<open>rules for \<open>tree_wp\<close>\<close>

definition tree_wp :: "(('d, 'x) vfs_scheme, 'a) state \<Rightarrow> ('a \<Rightarrow> ('d, 'x) vfs_scheme \<Rightarrow> bool) \<Rightarrow> ('d, 'x) vfs_scheme \<Rightarrow> bool" where
  "tree_wp m Q s \<longleftrightarrow> wp m (\<lambda>b s'. tree_grows s s' \<and> Q b s') s"

lemma tree_bind:
  assumes "tree_wp m P s"
    and "\<And>a s1. vfs_tree s1 \<Longrightarrow> g_node_count s \<le> g_node_count s1 \<Longrightarrow> P a s1 \<Longrightarrow> tree_wp (g a) Q s1"
  shows "tree_wp (State_Monad.bind m g) Q s"
  unfolding tree_wp_def wp_bind
proof (rule wp_mono [OF assms(1) [unfolded tree_wp_def]])
  fix a s1 assume a: "tree_grows s s1 \<and> P a s1"
  then have "tree_wp (g a) Q s1" by (intro assms(2)) (auto simp: tree_grows_def)
  then show "wp (g a) (\<lambda>b s'. tree_grows s s' \<and> Q b s') s1"
    unfolding tree_wp_def by (rule wp_mono) (use a tree_grows_trans in blast)
qed

lemma tree_get [tree]: "tree_wp (g s) Q s \<Longrightarrow> tree_wp (State_Monad.bind State_Monad.get g) Q s"
  by (simp add: tree_wp_def)

lemma tree_return [tree]: "vfs_tree s \<Longrightarrow> Q a s \<Longrightarrow> tree_wp (State_Monad.return a) Q s"
  by (simp add: tree_wp_def tree_grows_refl)

lemma tree_if [tree]: "(b \<Longrightarrow> tree_wp m Q s) \<Longrightarrow> (\<not> b \<Longrightarrow> tree_wp n Q s) \<Longrightarrow> tree_wp (if b then m else n) Q s"
  by simp

lemma tree_Let [tree]: "tree_wp (g x) Q s \<Longrightarrow> tree_wp (Let x g) Q s"
  by simp

lemma tree_option [tree]:
  "(x = None \<Longrightarrow> tree_wp m Q s) \<Longrightarrow> (\<And>y. x = Some y \<Longrightarrow> tree_wp (g y) Q s) \<Longrightarrow> tree_wp (case x of None \<Rightarrow> m | Some y \<Rightarrow> g y) Q s"
  by (cases x) auto

lemma tree_frame_wp: "keeps tree_frame m \<Longrightarrow> vfs_tree s \<Longrightarrow> tree_wp m (\<lambda>_ _. True) s"
  unfolding tree_wp_def by (rule wp_tree_frame) auto

lemma tree_update: "tree_grows s (f s) \<Longrightarrow> tree_wp (State_Monad.update f) (\<lambda>_ _. True) s"
  by (simp add: tree_wp_def)

lemma tree_true: "tree_wp m P s \<Longrightarrow> tree_wp m (\<lambda>_ _. True) s"
  unfolding tree_wp_def by (erule wp_mono) auto

subsection \<open>Loading directories\<close>

lemma alloc_node_wp:
  "vfs_tree s \<Longrightarrow> p < g_node_count s \<Longrightarrow> tree_wp (alloc_node name is_dir sz data (Some p)) (\<lambda>r s'. \<forall>i. r = Some i \<longrightarrow> i < g_node_count s' \<and> i \<noteq> 0) s"
  unfolding tree_wp_def by (rule alloc_node_tree)

lemma mark_child_wp:
  assumes "vfs_tree s" and "\<forall>i. child = Some i \<longrightarrow> i < g_node_count s \<and> i \<noteq> 0"
    and "\<And>n. vn_parent (f n) = vn_parent n" "\<And>n. vn_name (f n) = vn_name n" "\<And>n. vn_children (f n) = vn_children n"
  shows "tree_wp (case child of None \<Rightarrow> State_Monad.return () | Some c \<Rightarrow> State_Monad.update (upd_node c f)) (\<lambda>_ _. True) s"
  using assms by (cases child) (auto simp: tree_wp_def intro!: tree_upd_same tree_grows_refl)

lemma add_fat32_children_wp:
  assumes "vfs_tree s" and "dir < g_node_count s"
  shows "tree_wp (add_fat32_children dir es) (\<lambda>_ _. True) s"
  using assms
proof (induction es arbitrary: s)
  case (Cons e es)
  show ?case
    unfolding add_fat32_children.simps
    by (intro tree tree_bind [OF alloc_node_wp [OF Cons.prems]] tree_bind [OF mark_child_wp] Cons.IH) (use Cons.prems in auto)
qed (simp add: tree_return)

lemma add_iso9660_children_wp:
  assumes "vfs_tree s" and "dir < g_node_count s"
  shows "tree_wp (add_iso9660_children dir es) (\<lambda>_ _. True) s"
  using assms
proof (induction es arbitrary: s)
  case (Cons e es)
  show ?case
    unfolding add_iso9660_children.simps
    by (intro tree tree_bind [OF alloc_node_wp [OF Cons.prems]] tree_bind [OF mark_child_wp] Cons.IH) (use Cons.prems in auto)
qed (simp add: tree_return)

lemma populate_fat32_node_wp:
  assumes "vfs_tree s" and "dir < g_node_count s"
  shows "tree_wp (populate_fat32_node drv dir) (\<lambda>_ _. True) s"
  unfolding populate_fat32_node_def
  by (intro tree tree_bind [OF tree_update] tree_bind [OF tree_frame_wp [OF keeps_tree_fat [OF keeps_fat32_list_dir]]]
    add_fat32_children_wp tree_clear_children) (use assms in auto)

lemma populate_iso9660_node_wp:
  assumes "vfs_tree s" and "dir < g_node_count s"
  shows "tree_wp (populate_iso9660_node drv dir) (\<lambda>_ _. True) s"
  unfolding populate_iso9660_node_def
  by (intro tree tree_bind [OF tree_update] tree_bind [OF tree_frame_wp [OF keeps_iso9660_list_dir]]
    add_iso9660_children_wp tree_clear_children) (use assms in auto)

subsection \<open>Lookup\<close>

abbreviation (input) valid_node :: "nat option \<Rightarrow> ('d, 'x) vfs_scheme \<Rightarrow> bool" where
  "valid_node r s \<equiv> \<forall>i. r = Some i \<longrightarrow> i < g_node_count s"

lemma child_where_valid: "vfs_tree s \<Longrightarrow> dir < g_node_count s \<Longrightarrow> child_where s dir P = Some i \<Longrightarrow> i < g_node_count s"
  unfolding child_where_def find_Some_iff using tree_node [of s dir] by (auto simp: node_ok_def)

lemma find_component_wp:
  assumes "vfs_tree s" and "cur < g_node_count s" and "root < g_node_count s"
  shows "tree_wp (find_component drv root cur cname) valid_node s"
  unfolding find_component_def
  apply (intro tree tree_bind [OF populate_fat32_node_wp] tree_bind [OF populate_iso9660_node_wp])
  using assms apply auto
    apply (meson child_where_valid order_less_le_trans order_trans)+
  done

lemma find_loop_wp:
  assumes "vfs_tree s" and "cur < g_node_count s" and "root < g_node_count s"
  shows "tree_wp (find_loop drv root cur p) valid_node s"
  using assms
proof (induction p arbitrary: s cur rule: length_induct)
  case (1 p)
  note fl = find_loop.simps [of drv root cur p]
  show ?case
  proof (cases "p = []")
    case True
    then show ?thesis unfolding fl if_P [OF True] using 1 by (intro tree) auto
  next
    case False
    have IH: "tree_wp (find_loop drv root c (path_rest p)) valid_node t"
      if "vfs_tree t" "c < g_node_count t" "root < g_node_count t" for t :: "('a, 'b) vfs_scheme" and c
      using "1.IH" path_rest_shorter [OF False] that by blast
    have par: "vn_parent (g_nodes s cur) < g_node_count s"
      using tree_node [OF "1.prems"(1,2)] "1.prems"(2) by (auto simp: node_ok_def split: if_splits)
    show ?thesis
      unfolding fl if_not_P [OF False]
      by (intro tree IH tree_bind [OF find_component_wp]) (use "1.prems" par in auto)
  qed
qed

lemma find_node_by_path_wp:
  assumes "vfs_tree s"
  shows "tree_wp (find_node_by_path drv path) valid_node s"
proof -
  have root: "g_root s = Some 0" "0 < g_node_count s" using assms by (auto simp: vfs_tree_def)
  show ?thesis
    unfolding find_node_by_path_def
    by (intro tree find_loop_wp) (use assms root child_where_valid [OF assms root(2)] in \<open>auto split: option.splits\<close>)
qed

subsection \<open>The calls\<close>

lemma populate_wp:
  assumes "vfs_tree s" and "i < g_node_count s"
  shows "tree_wp (populate drv i) (\<lambda>_ _. True) s"
  unfolding populate_def by (intro tree_bind [OF populate_fat32_node_wp] populate_iso9660_node_wp) (use assms in auto)

lemma vfs_list_wp:
  assumes "vfs_tree s"
  shows "tree_wp (vfs_list drv path n) (\<lambda>_ _. True) s"
  unfolding vfs_list_def by (intro tree tree_bind [OF find_node_by_path_wp] tree_bind [OF populate_wp]) (use assms in auto)

lemma vfs_read_at_wp:
  assumes "vfs_tree s"
  shows "tree_wp (vfs_read_at drv path off n) (\<lambda>_ _. True) s"
  unfolding vfs_read_at_def
  by (intro tree tree_bind [OF find_node_by_path_wp] tree_bind [OF tree_frame_wp [OF keeps_tree_fat [OF keeps_fat32_read_file]]]
    tree_bind [OF tree_frame_wp [OF keeps_iso9660_read_file_offset]]) (use assms in auto)

lemma vfs_stat_wp:
  assumes "vfs_tree s"
  shows "tree_wp (vfs_stat drv path) (\<lambda>_ _. True) s"
  unfolding vfs_stat_def by (intro tree tree_bind [OF find_node_by_path_wp]) (use assms in auto)

lemma keeps_alloc_file [keeps]: "keeps tree_frame (alloc_file n)"
  unfolding alloc_file_def by (intro keeps_State) (auto simp: Let_def split: prod.splits)

lemma keeps_write_pages [keeps]: "keeps tree_frame (write_pages a bs)"
  unfolding write_pages_def by (intro keeps_update) simp

lemma tree_parent: "vfs_tree s \<Longrightarrow> i < g_node_count s \<Longrightarrow> vn_parent (g_nodes s i) < g_node_count s"
  using tree_node [of s i] by (auto simp: node_ok_def split: if_splits)

lemma write_fat32_wp:
  assumes "vfs_tree s" and "parent < g_node_count s"
  shows "tree_wp (write_fat32 drv parent path bs e) (\<lambda>_ _. True) s"
  unfolding write_fat32_def
  by (intro tree tree_bind [OF tree_frame_wp [OF keeps_tree_fat [OF keeps_fat32_write_file]]] tree_bind [OF tree_update [OF tree_upd_same]]
    tree_bind [OF populate_fat32_node_wp]) (use assms in auto)

lemma store_data_wp:
  assumes "vfs_tree s" and "i < g_node_count s"
  shows "tree_wp (store_data i d bs) (\<lambda>_ _. True) s"
  unfolding store_data_def
  by (cases d) (use assms in \<open>auto intro!: tree tree_update tree_upd_same tree_frame_wp [OF keeps_write_pages]\<close>)

lemma write_memory_wp:
  assumes "vfs_tree s" and "i < g_node_count s"
  shows "tree_wp (write_memory i bs) (\<lambda>_ _. True) s"
proof -
  have data: "tree_wp (if b then do { phys \<leftarrow> alloc_file n; State_Monad.return (if phys = 0 then None else Some (Pages phys)) }
      else State_Monad.return (Some d)) (\<lambda>_ _. True) s" for b n d
    by (intro tree tree_bind [OF tree_frame_wp [OF keeps_alloc_file]]) (use assms in auto)
  show ?thesis
    unfolding write_memory_def
    by (intro tree tree_bind [OF data] tree_bind [OF tree_update [OF tree_upd_same]] tree_bind [OF store_data_wp]) (use assms in auto)
qed

lemma write_new_wp:
  assumes "vfs_tree s"
  shows "tree_wp (write_new drv path bs) (\<lambda>_ _. True) s"
  unfolding write_new_def
  by (intro tree tree_bind [OF find_node_by_path_wp] write_fat32_wp tree_bind [OF tree_frame_wp [OF keeps_alloc_file]]
    tree_bind [OF tree_frame_wp [OF keeps_write_pages]] tree_bind [OF alloc_node_wp]) (use assms in auto)

lemma vfs_write_wp:
  assumes "vfs_tree s"
  shows "tree_wp (vfs_write drv path buf n) (\<lambda>_ _. True) s"
  unfolding vfs_write_def
  by (intro tree tree_bind [OF find_node_by_path_wp] write_fat32_wp write_memory_wp write_new_wp) (use assms tree_parent in auto)

lemma mkdir_cluster_wp:
  assumes "vfs_tree s" and "node < g_node_count s"
  shows "tree_wp (mkdir_cluster drv parent node name) (\<lambda>_ _. True) s"
  unfolding mkdir_cluster_def
  by (intro tree tree_bind [OF tree_update [OF tree_upd_same]] tree_bind [OF tree_frame_wp [OF keeps_tree_fat [OF keeps_fat32_list_dir]]]
    tree_update [OF tree_upd_same]) (use assms in auto)

lemma mkdir_in_wp:
  assumes "vfs_tree s" and "parent < g_node_count s"
  shows "tree_wp (mkdir_in drv parent name) (\<lambda>_ _. True) s"
proof -
  have make: "tree_wp (if b then fat32_make_dir drv c name else State_Monad.return True) (\<lambda>_ _. True) s" for b c
    by (intro tree tree_frame_wp [OF keeps_tree_fat [OF keeps_fat32_make_dir]]) (use assms in auto)
  show ?thesis
    unfolding mkdir_in_def
    by (intro tree tree_bind [OF make] tree_bind [OF alloc_node_wp] tree_bind [OF mkdir_cluster_wp]) (use assms in auto)
qed

lemma vfs_mkdir_wp:
  assumes "vfs_tree s"
  shows "tree_wp (vfs_mkdir drv path) (\<lambda>_ _. True) s"
  unfolding vfs_mkdir_def by (intro tree tree_bind [OF find_node_by_path_wp] tree_bind [OF mkdir_in_wp]) (use assms in auto)

lemma delete_node_wp:
  assumes "vfs_tree s" and "node < g_node_count s"
  shows "tree_wp (delete_node drv node) (\<lambda>_ _. True) s"
proof -
  have del: "tree_wp (if b then fat32_delete_file drv c name else State_Monad.return True) (\<lambda>_ _. True) s" for b c name
    by (intro tree tree_frame_wp [OF keeps_tree_fat [OF keeps_fat32_delete_file]]) (use assms in auto)
  have unlink: "tree_grows t (upd_node p (\<lambda>n. n\<lparr>vn_children := remove1 node (vn_children n)\<rparr>) t)"
    if "vfs_tree t" "p < g_node_count t" for t :: "('a, 'b) vfs_scheme" and p
    using tree_node [OF that] that by (intro tree_upd_node) (auto simp: node_ok_def length_remove1 dest: set_remove1_subset [THEN subsetD])
  show ?thesis
    unfolding delete_node_def
    by (intro tree tree_bind [OF del] tree_bind [OF tree_update [OF unlink]]) (use assms tree_parent [OF assms] in auto)
qed

lemma vfs_delete_wp:
  assumes "vfs_tree s"
  shows "tree_wp (vfs_delete drv path) (\<lambda>_ _. True) s"
  unfolding vfs_delete_def by (intro tree tree_bind [OF find_node_by_path_wp] delete_node_wp) (use assms in auto)

lemma rename_node_wp:
  assumes "vfs_tree s" and "node < g_node_count s"
  shows "tree_wp (rename_node drv node name) (\<lambda>_ _. True) s"
proof -
  have ren: "tree_wp (if b then fat32_rename_file drv c nm name else State_Monad.return True) (\<lambda>_ _. True) s" for b c nm
    by (intro tree tree_frame_wp [OF keeps_tree_fat [OF keeps_fat32_rename_file]]) (use assms in auto)
  have nm: "tree_grows t (upd_node node (\<lambda>n. n\<lparr>vn_name := str_copy name VFS_NAME_MAX\<rparr>) t)"
    if "vfs_tree t" "node < g_node_count t" for t :: "('a, 'b) vfs_scheme"
    using tree_node [OF that] that by (intro tree_upd_node) (auto simp: node_ok_def)
  show ?thesis
    unfolding rename_node_def
    by (intro tree tree_bind [OF ren] tree_bind [OF tree_update [OF nm]]) (use assms in auto)
qed

lemma vfs_rename_wp:
  assumes "vfs_tree s"
  shows "tree_wp (vfs_rename drv old new) (\<lambda>_ _. True) s"
  unfolding vfs_rename_def prod.case
  by (intro tree tree_bind [OF find_node_by_path_wp] rename_node_wp) (use assms in auto)

lemma existing_or_new_wp:
  assumes "vfs_tree s" and "root < g_node_count s" and "valid_node existing s"
  shows "tree_wp (existing_or_new existing name root) valid_node s"
  unfolding existing_or_new_def
proof (intro tree)
  show "tree_wp (alloc_node name True 0 No_data (Some root)) valid_node s"
    using alloc_node_wp [OF assms(1,2)] unfolding tree_wp_def by (rule wp_mono) auto
qed (use assms in auto)

lemma mount_hdd_wp:
  assumes "vfs_tree s" and "node < g_node_count s"
  shows "tree_wp (mount_hdd drv node) (\<lambda>_ _. True) s"
proof -
  have root: "tree_grows t (upd_node node (\<lambda>n. n\<lparr>vn_is_fat32 := True, vn_fat_cluster := fat32_root_cluster t, vn_fat_populated := False\<rparr>) t)"
    if "vfs_tree t" "node < g_node_count t" for t :: "('a, 'b) vfs_scheme"
    using that by (intro tree_upd_same) auto
  show ?thesis
    unfolding mount_hdd_def
    by (intro tree tree_bind [OF tree_update [OF tree_clear_children]] tree_bind [OF tree_frame_wp [OF keeps_tree_more [OF keeps_more_fat32_init]]]
      tree_bind [OF tree_frame_wp [OF keeps_update]] tree_bind [OF tree_update [OF root]] populate_fat32_node_wp tree_update [OF tree_upd_same])
      (use assms in \<open>auto simp: str_copy_def\<close>)
qed

lemma mount_cdrom_wp:
  assumes "vfs_tree s" and "node < g_node_count s"
  shows "tree_wp (mount_cdrom drv node) (\<lambda>_ _. True) s"
  unfolding mount_cdrom_def
  by (intro tree_bind [OF tree_update] tree_clear_children populate_iso9660_node_wp) (use assms in auto)

lemma rescan_hdd_wp:
  assumes "vfs_tree s" and "root < g_node_count s"
  shows "tree_wp (rescan_hdd drv root) (\<lambda>_ _. True) s"
  unfolding rescan_hdd_def
  by (intro tree tree_bind [OF existing_or_new_wp] mount_hdd_wp) (use assms child_where_valid [OF assms] in auto)

lemma rescan_cdrom_wp:
  assumes "vfs_tree s" and "root < g_node_count s"
  shows "tree_wp (rescan_cdrom drv root) (\<lambda>_ _. True) s"
  unfolding rescan_cdrom_def
  by (intro tree tree_bind [OF tree_frame_wp [OF keeps_iso9660_init]] tree_bind [OF tree_frame_wp [OF keeps_update]]
    tree_bind [OF existing_or_new_wp] mount_cdrom_wp tree_update [OF tree_clear_children])
    (use assms in \<open>auto dest: child_where_valid [rotated 2]\<close>)

lemma vfs_rescan_drives_wp:
  assumes "vfs_tree s"
  shows "tree_wp (vfs_rescan_drives drv) (\<lambda>_ _. True) s"
  unfolding vfs_rescan_drives_def
  by (intro tree tree_bind [OF rescan_hdd_wp] rescan_cdrom_wp) (use assms in \<open>auto simp: vfs_tree_def\<close>)

subsection \<open>Start-up\<close>

lemma vfs_add_resource_wp:
  assumes "vfs_tree s" and "valid_node parent s"
  shows "tree_wp (vfs_add_resource parent res name) (\<lambda>_ _. True) s"
  unfolding vfs_add_resource_def prod.case
  by (intro tree tree_bind [OF alloc_node_wp]) (use assms in auto)

lemma add_resources_wp:
  assumes "vfs_tree s" and "valid_node parent s"
  shows "tree_wp (add_resources parent res names) (\<lambda>_ _. True) s"
  using assms
proof (induction names arbitrary: s)
  case (Cons nm names)
  show ?case
    unfolding add_resources.simps
    by (intro tree_bind [OF vfs_add_resource_wp] Cons.IH) (use Cons.prems in \<open>auto dest: order_less_le_trans\<close>)
qed (simp add: tree_return)

lemma add_placeholders_wp:
  assumes "vfs_tree s" and "p < g_node_count s"
  shows "tree_wp (add_placeholders (Some p) xs) (\<lambda>_ _. True) s"
  using assms
proof (induction xs arbitrary: s)
  case (Cons x xs)
  obtain nm sz where x: "x = (nm, sz)" by fastforce
  show ?case
    unfolding x add_placeholders.simps
    by (intro tree_bind [OF alloc_node_wp] Cons.IH) (use Cons.prems in auto)
qed (simp add: tree_return)

text \<open>The first node of an empty table becomes the root.\<close>

lemma root_tree:
  "wp (do { _ \<leftarrow> State_Monad.update (\<lambda>s. s\<lparr>g_node_count := 0\<rparr>); root \<leftarrow> alloc_node ''/'' True 0 No_data None;
          _ \<leftarrow> State_Monad.update (\<lambda>s. s\<lparr>g_root := root\<rparr>); State_Monad.return root })
     (\<lambda>r s'. r = Some 0 \<and> vfs_tree s') s"
  by (simp add: wp_def alloc_node_def Let_def vfs_tree_def node_ok_def new_node_def str_copy_def)

lemma alloc_node_full: "g_node_count s \<ge> MAX_NODES \<Longrightarrow> run_state (alloc_node name is_dir sz data parent) s = (None, s)"
  by (simp add: alloc_node_def)

lemma alloc_node_none: "wp (alloc_node name is_dir sz data (Some p)) (\<lambda>r s'. r = None \<longrightarrow> g_node_count s' \<ge> MAX_NODES) s"
  by (simp add: wp_def alloc_node_def Let_def)

lemma alloc_node_total_wp:
  assumes "vfs_tree s" and "p < g_node_count s"
  shows "tree_wp (alloc_node name is_dir sz data (Some p))
    (\<lambda>r s'. (\<forall>i. r = Some i \<longrightarrow> i < g_node_count s') \<and> (r = None \<longrightarrow> g_node_count s' \<ge> MAX_NODES)) s"
  unfolding tree_wp_def
  by (rule wp_mono [OF wp_conj [OF alloc_node_tree [OF assms] alloc_node_none]]) auto

lemma add_placeholders_full: "g_node_count s \<ge> MAX_NODES \<Longrightarrow> run_state (add_placeholders parent xs) s = ((), s)"
  by (induction xs) (auto simp: alloc_node_full)

lemma vfs_init_tree:
  fixes s :: "('d, 'x) vfs_scheme"
  shows "vfs_tree (snd (run_state (vfs_init drv res) s))"
proof -
  define rest :: "nat option \<Rightarrow> ('d, 'x, unit) nio" where "rest root = do {
     apps \<leftarrow> alloc_node ''apps'' True 0 No_data root;
     _ \<leftarrow> add_resources apps res [''notepad.kea'', ''explorer.kea'', ''taskmgr.kea'', ''paint.kea'', ''shell.kea'', ''settings.kea'',
            ''about.kea'', ''browser.kea'', ''installer.kea''];
     icons \<leftarrow> alloc_node ''icons'' True 0 No_data root;
     _ \<leftarrow> add_resources icons res [''settings.ico'', ''picture.ico'', ''file.ico'', ''folder.ico'', ''explorer.ico'', ''terminal.ico'',
            ''taskmgr.ico'', ''browser.ico'', ''installer.ico'', ''notepad.ico'', ''paint.ico'', ''doom.ico''];
     bin \<leftarrow> alloc_node ''bin'' True 0 No_data root;
     _ \<leftarrow> add_placeholders bin [(''notepad.elf'', 16384), (''explorer.elf'', 32768), (''calc.elf'', 12288)];
     vfs_rescan_drives drv
   }" for root
  have split: "vfs_init drv res = State_Monad.bind (do { _ \<leftarrow> State_Monad.update (\<lambda>s. s\<lparr>g_node_count := 0\<rparr>); root \<leftarrow> alloc_node ''/'' True 0 No_data None;
          _ \<leftarrow> State_Monad.update (\<lambda>s. s\<lparr>g_root := root\<rparr>); State_Monad.return root }) rest"
    by (simp add: vfs_init_def rest_def)
  have bin: "tree_wp (State_Monad.bind (add_placeholders b xs) (\<lambda>_. vfs_rescan_drives drv)) (\<lambda>_ _. True) t"
    if t: "vfs_tree t" and b: "(\<forall>i. b = Some i \<longrightarrow> i < g_node_count t) \<and> (b = None \<longrightarrow> g_node_count t \<ge> MAX_NODES)"
    for b xs and t :: "('d, 'x) vfs_scheme"
  proof (rule tree_bind)
    show "tree_wp (add_placeholders b xs) (\<lambda>_ _. True) t"
      using b t add_placeholders_wp [OF t] by (cases b) (auto simp: tree_wp_def wp_run [OF add_placeholders_full] tree_grows_refl)
  qed (rule vfs_rescan_drives_wp)
  have r: "tree_wp (rest (Some 0)) (\<lambda>_ _. True) t" if t: "vfs_tree t" for t :: "('d, 'x) vfs_scheme"
  proof -
    have z: "0 < g_node_count u" if "vfs_tree u" for u :: "('d, 'x) vfs_scheme" using that by (simp add: vfs_tree_def)
    show ?thesis
      unfolding rest_def
      by (intro tree_bind [OF alloc_node_total_wp] tree_bind [OF add_resources_wp] bin) (use t z in auto)
  qed
  have rt: "wp (rest (Some 0)) (\<lambda>_. vfs_tree) t" if "vfs_tree t" for t
    using r [OF that] unfolding tree_wp_def by (rule wp_mono) (simp add: tree_grows_def)
  have "wp (vfs_init drv res) (\<lambda>_. vfs_tree) s"
    unfolding split
    by (subst wp_bind, rule wp_mono [OF root_tree]) (auto simp: rt)
  then show ?thesis by (simp add: wp_def split: prod.splits)
qed

subsection \<open>Reachable states\<close>

inductive vfs_reach :: "'d drivers \<Rightarrow> ('d, 'x) vfs_scheme \<Rightarrow> bool" for drv where
  boot: "vfs_reach drv (snd (run_state (vfs_init drv res) s))"
| do_list: "vfs_reach drv s \<Longrightarrow> vfs_reach drv (snd (run_state (vfs_list drv path n) s))"
| do_read: "vfs_reach drv s \<Longrightarrow> vfs_reach drv (snd (run_state (vfs_read_at drv path off n) s))"
| do_write: "vfs_reach drv s \<Longrightarrow> vfs_reach drv (snd (run_state (vfs_write drv path buf n) s))"
| do_stat: "vfs_reach drv s \<Longrightarrow> vfs_reach drv (snd (run_state (vfs_stat drv path) s))"
| do_mkdir: "vfs_reach drv s \<Longrightarrow> vfs_reach drv (snd (run_state (vfs_mkdir drv path) s))"
| do_delete: "vfs_reach drv s \<Longrightarrow> vfs_reach drv (snd (run_state (vfs_delete drv path) s))"
| do_rename: "vfs_reach drv s \<Longrightarrow> vfs_reach drv (snd (run_state (vfs_rename drv old_path new_path) s))"
| do_rescan: "vfs_reach drv s \<Longrightarrow> vfs_reach drv (snd (run_state (vfs_rescan_drives drv) s))"

lemma tree_wp_tree: "tree_wp m Q s \<Longrightarrow> vfs_tree (snd (run_state m s))"
  by (auto simp: tree_wp_def wp_def tree_grows_def split: prod.splits)

lemma vfs_reach_tree: "vfs_reach drv s \<Longrightarrow> vfs_tree s"
  by (induction rule: vfs_reach.induct)
    (auto intro: vfs_init_tree tree_wp_tree vfs_list_wp vfs_read_at_wp vfs_write_wp vfs_stat_wp vfs_mkdir_wp vfs_delete_wp vfs_rename_wp vfs_rescan_drives_wp)

lemma parents_reach_root:
  assumes "\<forall>i < n. node_ok n nodes i" and "i < n"
  shows "\<exists>k \<le> i. ((\<lambda>j. vn_parent (nodes j)) ^^ k) i = 0"
  using assms(2)
proof (induction i rule: less_induct)
  case (less i)
  show ?case
  proof (cases "i = 0")
    case True
    then show ?thesis by (intro exI [of _ 0]) simp
  next
    case False
    then have p: "vn_parent (nodes i) < i" using assms(1) less.prems by (auto simp: node_ok_def)
    then obtain k where "k \<le> vn_parent (nodes i)" "((\<lambda>j. vn_parent (nodes j)) ^^ k) (vn_parent (nodes i)) = 0"
      using less by (meson order_less_trans)
    then show ?thesis using p by (intro exI [of _ "Suc k"]) (simp add: funpow_swap1 [symmetric] del: funpow.simps, simp add: funpow_Suc_right del: funpow.simps)
  qed
qed

text \<open>
  C29. Whatever calls are made after start-up, and whatever the volumes contain, the node table is a tree: the root is node 0, at most 256
  nodes are in use, every node in use reaches the root by its parent pointers, the children of a node are nodes in use that point back
  to it, are listed once and number at most 32, a node is listed by its parent only, and a path never resolves to an entry that is not in use.
\<close>

theorem vfs_reachable_tree:
  assumes "vfs_reach drv s"
  shows "g_root s = Some 0 \<and> g_node_count s \<le> 256 \<and>
    (\<forall>i < g_node_count s.
       (\<exists>k. ((\<lambda>j. vn_parent (g_nodes s j)) ^^ k) i = 0) \<and> length (vn_name (g_nodes s i)) < 64 \<and>
       length (vn_children (g_nodes s i)) \<le> 32 \<and> distinct (vn_children (g_nodes s i)) \<and>
       (\<forall>c. c \<in> set (vn_children (g_nodes s i)) \<longrightarrow> c < g_node_count s \<and> c \<noteq> 0 \<and> vn_parent (g_nodes s c) = i)) \<and>
    (\<forall>path i s'. run_state (find_node_by_path drv path) s = (Some i, s') \<longrightarrow> i < g_node_count s')"
proof -
  note t = vfs_reach_tree [OF assms]
  have ok: "\<forall>i < g_node_count s. node_ok (g_node_count s) (g_nodes s) i" using t by (simp add: vfs_tree_def)
  have "i < g_node_count s'" if "run_state (find_node_by_path drv path) s = (Some i, s')" for path i s'
    using find_node_by_path_wp [OF t, of drv path] that by (simp add: tree_wp_def wp_def)
  moreover have "\<exists>k. ((\<lambda>j. vn_parent (g_nodes s j)) ^^ k) i = 0" if "i < g_node_count s" for i
    using parents_reach_root [OF ok that] by blast
  ultimately show ?thesis using t ok by (auto simp: vfs_tree_def node_ok_def)
qed

text \<open>A machine without drives, before start-up.\<close>

definition vfs_blank :: "(medium \<Rightarrow> nat \<Rightarrow> u8 list) vfs" where
  "vfs_blank = volumes.extend (disc_state\<lparr>m_blocks := disc_blocks\<lparr>g_devices := []\<rparr>\<rparr>)
     \<lparr>g_nodes = (\<lambda>_. new_node [] False 0 No_data 0), g_node_count = 0, g_root = None, g_fat32_available = False, g_iso9660_available = False\<rparr>"

theorem vfs_reachable_tree_witness:
  "g_node_count (snd (run_state (vfs_mkdir (ram_drivers 512) ''/tmp'') (snd (run_state (vfs_init (ram_drivers 512) (\<lambda>_. None)) vfs_blank)))) \<le> 256"
  using vfs_reachable_tree [OF vfs_reach.do_mkdir [OF vfs_reach.boot]] by blast

end
