(* ===== verification/Vfs_Lookup.thy ===== *)
theory Vfs_Lookup
  imports Vfs_Tree User_Memory
begin

text \<open>
  Path lookup as a function of the node table alone, the stability of lookup, and what it gives for files kept in memory:
  what was written is read back.
\<close>

subsection \<open>Looking a path up without loading anything\<close>

text \<open>A node whose entries are in the table as far as they will ever be loaded.\<close>

definition settled :: "vfs_node \<Rightarrow> bool" where
  "settled n \<longleftrightarrow> (vn_is_fat32 n \<longrightarrow> vn_fat_populated n) \<and> (vn_is_iso9660 n \<longrightarrow> vn_iso_populated n)"

definition child_in :: "(nat \<Rightarrow> vfs_node) \<Rightarrow> nat \<Rightarrow> (string \<Rightarrow> bool) \<Rightarrow> nat option" where
  "child_in nodes dir P = List.find (\<lambda>c. P (vn_name (nodes c))) (vn_children (nodes dir))"

lemma child_where_in: "child_where s dir P = child_in (g_nodes s) dir P"
  by (simp add: child_where_def child_in_def)

text \<open>The lookup in the table as it is; \<open>None\<close> where a directory on the way is not loaded yet.\<close>

definition resolve_component :: "(nat \<Rightarrow> vfs_node) \<Rightarrow> bool \<Rightarrow> nat \<Rightarrow> string \<Rightarrow> nat option option" where
  "resolve_component nodes at_root cur cname =
     (if \<not> settled (nodes cur) then None
      else case child_in nodes cur (component_matches (vn_is_iso9660 (nodes cur)) cname) of
        Some c \<Rightarrow> Some (Some c)
      | None \<Rightarrow>
          if at_root \<and> str_eq cname ''boot''
          then (case child_in nodes cur (\<lambda>name. str_eq name ''cdrom'') of
                  None \<Rightarrow> Some None
                | Some cd \<Rightarrow> if \<not> settled (nodes cd) then None else Some (child_in nodes cd (\<lambda>name. str_eq_ci name ''boot'')))
          else Some None)"

function resolve :: "(nat \<Rightarrow> vfs_node) \<Rightarrow> nat \<Rightarrow> nat \<Rightarrow> string \<Rightarrow> nat option option" where
  "resolve nodes root cur p =
     (if p = [] then Some (Some cur)
      else if str_eq (path_component p) ''.'' then resolve nodes root cur (path_rest p)
      else if str_eq (path_component p) ''..'' then resolve nodes root (vn_parent (nodes cur)) (path_rest p)
      else case resolve_component nodes (cur = root) cur (path_component p) of
        None \<Rightarrow> None
      | Some None \<Rightarrow> Some None
      | Some (Some c) \<Rightarrow> resolve nodes root c (path_rest p))"
  by pat_completeness auto

termination resolve
  by (relation "measure (\<lambda>(_, _, _, p). length p)") (auto simp: path_rest_shorter)

declare resolve.simps [simp del]

lemma populate_fat32_settled: "(vn_is_fat32 (g_nodes s i) \<longrightarrow> vn_fat_populated (g_nodes s i)) \<Longrightarrow> run_state (populate_fat32_node drv i) s = ((), s)"
  by (simp add: populate_fat32_node_def)

lemma populate_iso9660_settled: "(vn_is_iso9660 (g_nodes s i) \<longrightarrow> vn_iso_populated (g_nodes s i)) \<Longrightarrow> run_state (populate_iso9660_node drv i) s = ((), s)"
  by (simp add: populate_iso9660_node_def)

lemma resolve_component_find:
  "resolve_component (g_nodes s) (cur = root) cur cname = Some r \<Longrightarrow> run_state (find_component drv root cur cname) s = (r, s)"
  by (auto simp: resolve_component_def find_component_def settled_def child_where_in populate_fat32_settled populate_iso9660_settled
    split: if_splits option.splits)

lemma resolve_find:
  assumes "resolve (g_nodes s) root cur p = Some r"
  shows "run_state (find_loop drv root cur p) s = (r, s)"
  using assms
proof (induction p arbitrary: cur rule: length_induct)
  case (1 p)
  note fl = find_loop.simps [of drv root cur p] resolve.simps [of "g_nodes s" root cur p]
  show ?case
  proof (cases "p = []")
    case True
    then show ?thesis using "1.prems" unfolding fl if_P [OF True] by simp
  next
    case False
    have IH: "run_state (find_loop drv root c (path_rest p)) s = (r, s)" if "resolve (g_nodes s) root c (path_rest p) = Some r" for c
      using "1.IH" path_rest_shorter [OF False] that by blast
    show ?thesis
      using "1.prems" resolve_component_find [of s cur root "path_component p" _ drv] unfolding fl if_not_P [OF False]
      by (auto simp: IH split: if_splits option.splits)
  qed
qed

subsection \<open>Loading only adds\<close>

text \<open>From \<open>s\<close> to \<open>s'\<close> directories may have been loaded: nothing else of a node changes, and nothing of a settled one.\<close>

definition node_core :: "vfs_node \<Rightarrow> vfs_node" where
  "node_core n = n\<lparr>vn_children := [], vn_fat_populated := False, vn_iso_populated := False\<rparr>"

definition loads :: "('d, 'x) vfs_scheme \<Rightarrow> ('d, 'x) vfs_scheme \<Rightarrow> bool" where
  "loads s s' \<longleftrightarrow> g_root s' = g_root s \<and> g_node_count s \<le> g_node_count s' \<and>
     (\<forall>i < g_node_count s. node_core (g_nodes s' i) = node_core (g_nodes s i) \<and>
        (vn_fat_populated (g_nodes s i) \<longrightarrow> vn_fat_populated (g_nodes s' i)) \<and> (vn_iso_populated (g_nodes s i) \<longrightarrow> vn_iso_populated (g_nodes s' i)) \<and>
        (settled (g_nodes s i) \<longrightarrow> g_nodes s' i = g_nodes s i))"

lemma loads_refl [simp]: "loads s s"
  by (simp add: loads_def)

lemma loads_trans: "loads s t \<Longrightarrow> loads t u \<Longrightarrow> loads s u"
  unfolding loads_def by (smt (verit) order_less_le_trans order_trans)

lemma core_fields:
  assumes "node_core a = node_core b"
  shows "vn_name a = vn_name b" "vn_parent a = vn_parent b" "vn_is_fat32 a = vn_is_fat32 b" "vn_is_iso9660 a = vn_is_iso9660 b"
    "vn_is_dir a = vn_is_dir b" "vn_data a = vn_data b" "vn_size a = vn_size b" "vn_fat_cluster a = vn_fat_cluster b"
  using assms by (cases a, cases b, simp add: node_core_def)+

text \<open>What filling the directory \<open>dir\<close> does to the nodes there before: it changes the children of \<open>dir\<close>.\<close>

definition fills :: "nat \<Rightarrow> ('d, 'x) vfs_scheme \<Rightarrow> ('d, 'x) vfs_scheme \<Rightarrow> bool" where
  "fills dir s s' \<longleftrightarrow> g_root s' = g_root s \<and> g_node_count s \<le> g_node_count s' \<and>
     (\<forall>i < g_node_count s. (g_nodes s' i)\<lparr>vn_children := []\<rparr> = (g_nodes s i)\<lparr>vn_children := []\<rparr> \<and> (i \<noteq> dir \<longrightarrow> g_nodes s' i = g_nodes s i))"

lemma fills_refl [simp]: "fills dir s s"
  by (simp add: fills_def)

lemma fills_trans: "fills dir s t \<Longrightarrow> fills dir t u \<Longrightarrow> fills dir s u"
  by (simp add: fills_def)

lemma alloc_child_fills:
  assumes "dir < g_node_count s"
  shows "wp (State_Monad.bind (alloc_node name is_dir sz data (Some dir))
      (\<lambda>child. case child of None \<Rightarrow> State_Monad.return () | Some c \<Rightarrow> State_Monad.update (upd_node c f))) (\<lambda>_ s'. fills dir s s') s"
  using assms by (auto simp: wp_def alloc_node_def Let_def fills_def upd_node_def)

lemma add_fat32_children_fills:
  "dir < g_node_count s \<Longrightarrow> wp (add_fat32_children dir es) (\<lambda>_ s'. fills dir s s') s"
proof (induction es arbitrary: s)
  case (Cons e es)
  have IH: "wp (add_fat32_children dir es) (\<lambda>_. fills dir s) s1" if f: "fills dir s s1" for s1 :: "('a, 'b) vfs_scheme"
  proof (rule wp_mono [OF Cons.IH])
    show "dir < g_node_count s1" using f Cons.prems by (simp add: fills_def)
  qed (rule fills_trans [OF f])
  have "wp (State_Monad.bind (alloc_node (fe_name e) (fe_is_dir e) (fe_size e) No_data (Some dir))
      (\<lambda>child. case child of None \<Rightarrow> State_Monad.return () | Some c \<Rightarrow> State_Monad.update (upd_node c (\<lambda>n. n\<lparr>vn_is_fat32 := True, vn_fat_cluster := fe_first_cluster e, vn_fat_populated := False\<rparr>))))
    (\<lambda>_. wp (add_fat32_children dir es) (\<lambda>_. fills dir s)) s"
    by (rule wp_mono [OF alloc_child_fills [OF Cons.prems]]) (rule IH)
  then show ?case by simp
qed simp

lemma add_iso9660_children_fills:
  "dir < g_node_count s \<Longrightarrow> wp (add_iso9660_children dir es) (\<lambda>_ s'. fills dir s s') s"
proof (induction es arbitrary: s)
  case (Cons e es)
  have IH: "wp (add_iso9660_children dir es) (\<lambda>_. fills dir s) s1" if f: "fills dir s s1" for s1 :: "('a, 'b) vfs_scheme"
  proof (rule wp_mono [OF Cons.IH])
    show "dir < g_node_count s1" using f Cons.prems by (simp add: fills_def)
  qed (rule fills_trans [OF f])
  have "wp (State_Monad.bind (alloc_node (ie_name e) (ie_is_dir e) (ie_size e) No_data (Some dir))
      (\<lambda>child. case child of None \<Rightarrow> State_Monad.return () | Some c \<Rightarrow> State_Monad.update (upd_node c (\<lambda>n. n\<lparr>vn_is_iso9660 := True, vn_iso_lba := ie_lba e, vn_iso_populated := False\<rparr>))))
    (\<lambda>_. wp (add_iso9660_children dir es) (\<lambda>_. fills dir s)) s"
    by (rule wp_mono [OF alloc_child_fills [OF Cons.prems]]) (rule IH)
  then show ?case by simp
qed simp


text \<open>Loading a directory; afterwards it counts as loaded.\<close>

lemma fills_marked_loads:
  assumes "fills dir (upd_node dir f s1) s'" "tree_frame s1 = tree_frame s" "dir < g_node_count s" "\<not> settled (g_nodes s dir)"
    and "\<And>n. node_core (f n) = node_core n" "\<And>n. vn_fat_populated n \<longrightarrow> vn_fat_populated (f n)" "\<And>n. vn_iso_populated n \<longrightarrow> vn_iso_populated (f n)"
  shows "loads s s'" "(g_nodes s' dir)\<lparr>vn_children := []\<rparr> = (f (g_nodes s dir))\<lparr>vn_children := []\<rparr>"
proof -
  have c: "node_core a = node_core b" "vn_fat_populated a = vn_fat_populated b" "vn_iso_populated a = vn_iso_populated b"
    if "a\<lparr>vn_children := []\<rparr> = b\<lparr>vn_children := []\<rparr>" for a b :: vfs_node
    using that by (cases a, cases b, simp add: node_core_def)+
  have s1: "g_nodes s1 = g_nodes s" "g_node_count s1 = g_node_count s" "g_root s1 = g_root s" using assms(2) by (simp_all add: tree_frame_def)
  show d: "(g_nodes s' dir)\<lparr>vn_children := []\<rparr> = (f (g_nodes s dir))\<lparr>vn_children := []\<rparr>"
    using assms(1,3) by (simp add: fills_def upd_node_def s1)
  show "loads s s'"
    unfolding loads_def
  proof (intro conjI allI impI)
    fix i assume i: "i < g_node_count s"
    have e: "g_nodes s' i = g_nodes s i" if "i \<noteq> dir" using assms(1) i that by (simp add: fills_def upd_node_def s1)
    show "node_core (g_nodes s' i) = node_core (g_nodes s i)" using c(1) [OF d] e assms(5) by (cases "i = dir") auto
    show "vn_fat_populated (g_nodes s i) \<Longrightarrow> vn_fat_populated (g_nodes s' i)" using c(2) [OF d] e assms(6) by (cases "i = dir") auto
    show "vn_iso_populated (g_nodes s i) \<Longrightarrow> vn_iso_populated (g_nodes s' i)" using c(3) [OF d] e assms(7) by (cases "i = dir") auto
    show "settled (g_nodes s i) \<Longrightarrow> g_nodes s' i = g_nodes s i" using e assms(4) by (cases "i = dir") auto
  qed (use assms(1) in \<open>simp_all add: fills_def upd_node_def s1\<close>)
qed

abbreviation (input) fat_loaded :: "vfs_node \<Rightarrow> bool" where "fat_loaded n \<equiv> vn_is_fat32 n \<longrightarrow> vn_fat_populated n"
abbreviation (input) iso_loaded :: "vfs_node \<Rightarrow> bool" where "iso_loaded n \<equiv> vn_is_iso9660 n \<longrightarrow> vn_iso_populated n"

lemma fills_frame: "fills dir t s' \<Longrightarrow> tree_frame t = tree_frame u \<Longrightarrow> fills dir u s'"
  by (simp add: fills_def tree_frame_def)

lemma populate_fat32_loads:
  assumes dir: "dir < g_node_count s"
  shows "wp (populate_fat32_node drv dir) (\<lambda>_ s'. loads s s' \<and> fat_loaded (g_nodes s' dir)) s"
proof (cases "fat_loaded (g_nodes s dir)")
  case True
  then show ?thesis by (simp add: wp_run [OF populate_fat32_settled])
next
  case False
  let ?f = "\<lambda>n. n\<lparr>vn_fat_populated := True, vn_children := []\<rparr>"
  have un: "\<not> settled (g_nodes s dir)" using False by (simp add: settled_def)
  have "wp (State_Monad.bind (fat32_list_dir drv (vn_fat_cluster (g_nodes s dir)) (int VFS_MAX_CHILDREN)) (add_fat32_children dir))
     (\<lambda>_ s'. loads s s' \<and> fat_loaded (g_nodes s' dir)) (upd_node dir ?f s)"
    unfolding wp_bind
  proof (rule wp_keeps [OF keeps_tree_fat [OF keeps_fat32_list_dir]])
    fix es and s1 :: "('a, 'b) vfs_scheme" assume fr: "tree_frame s1 = tree_frame (upd_node dir ?f s)"
    have "dir < g_node_count s1" using fr dir by (simp add: tree_frame_def upd_node_def)
    then show "wp (add_fat32_children dir es) (\<lambda>_ s'. loads s s' \<and> fat_loaded (g_nodes s' dir)) s1"
    proof (rule wp_mono [OF add_fat32_children_fills])
      fix s' assume "fills dir s1 s'"
      note f = fills_marked_loads [OF fills_frame [OF this fr] refl dir un]
      have "vn_fat_populated ((g_nodes s' dir)\<lparr>vn_children := []\<rparr>)" by (subst f(2)) (simp_all add: node_core_def)
      then show "loads s s' \<and> fat_loaded (g_nodes s' dir)" using f(1) by (simp add: node_core_def)
    qed
  qed
  then show ?thesis using False by (simp add: populate_fat32_node_def)
qed

lemma populate_iso9660_loads:
  assumes dir: "dir < g_node_count s"
  shows "wp (populate_iso9660_node drv dir) (\<lambda>_ s'. loads s s' \<and> iso_loaded (g_nodes s' dir)) s"
proof (cases "iso_loaded (g_nodes s dir)")
  case True
  then show ?thesis by (simp add: wp_run [OF populate_iso9660_settled])
next
  case False
  let ?f = "\<lambda>n. n\<lparr>vn_iso_populated := True, vn_children := []\<rparr>"
  have un: "\<not> settled (g_nodes s dir)" using False by (simp add: settled_def)
  have "wp (State_Monad.bind (iso9660_list_dir drv (vn_iso_lba (g_nodes s dir)) (vn_size (g_nodes s dir)) (int VFS_MAX_CHILDREN)) (add_iso9660_children dir))
     (\<lambda>_ s'. loads s s' \<and> iso_loaded (g_nodes s' dir)) (upd_node dir ?f s)"
    unfolding wp_bind
  proof (rule wp_keeps [OF keeps_iso9660_list_dir])
    fix es and s1 :: "('a, 'b) vfs_scheme" assume fr: "tree_frame s1 = tree_frame (upd_node dir ?f s)"
    have "dir < g_node_count s1" using fr dir by (simp add: tree_frame_def upd_node_def)
    then show "wp (add_iso9660_children dir es) (\<lambda>_ s'. loads s s' \<and> iso_loaded (g_nodes s' dir)) s1"
    proof (rule wp_mono [OF add_iso9660_children_fills])
      fix s' assume "fills dir s1 s'"
      note f = fills_marked_loads [OF fills_frame [OF this fr] refl dir un]
      have "vn_iso_populated ((g_nodes s' dir)\<lparr>vn_children := []\<rparr>)" by (subst f(2)) (simp_all add: node_core_def)
      then show "loads s s' \<and> iso_loaded (g_nodes s' dir)" using f(1) by (simp add: node_core_def)
    qed
  qed
  then show ?thesis using False by (simp add: populate_iso9660_node_def)
qed

text \<open>Loading does not change what is found where nothing had to be loaded.\<close>

lemma child_in_valid: "vfs_tree s \<Longrightarrow> dir < g_node_count s \<Longrightarrow> child_in (g_nodes s) dir P = Some i \<Longrightarrow> i < g_node_count s"
  using child_where_valid by (simp add: child_where_in)

lemma loads_child_in:
  assumes "loads s s'" "vfs_tree s" "dir < g_node_count s" "g_nodes s' dir = g_nodes s dir"
  shows "child_in (g_nodes s') dir P = child_in (g_nodes s) dir P"
  unfolding child_in_def assms(4)
proof (rule find_cong)
  fix c assume "c \<in> set (vn_children (g_nodes s dir))"
  then have "c < g_node_count s" using tree_node [OF assms(2,3)] by (auto simp: node_ok_def)
  then have "vn_name (g_nodes s' c) = vn_name (g_nodes s c)" using assms(1) by (intro core_fields(1)) (simp add: loads_def)
  then show "P (vn_name (g_nodes s' c)) = P (vn_name (g_nodes s c))" by simp
qed simp

lemma loads_settled: "loads s s' \<Longrightarrow> i < g_node_count s \<Longrightarrow> settled (g_nodes s i) \<Longrightarrow> g_nodes s' i = g_nodes s i"
  by (simp add: loads_def)

lemma loads_resolve_component:
  assumes "loads s s'" "vfs_tree s" "cur < g_node_count s" and r: "resolve_component (g_nodes s) b cur cname = Some r"
  shows "resolve_component (g_nodes s') b cur cname = Some r"
proof -
  have st: "settled (g_nodes s cur)" using r by (auto simp: resolve_component_def split: if_splits)
  note cur = loads_settled [OF assms(1,3) st]
  note fc = loads_child_in [OF assms(1-3) cur]
  have cd: "g_nodes s' d = g_nodes s d \<and> child_in (g_nodes s') d P = child_in (g_nodes s) d P"
    if "child_in (g_nodes s) cur Q = Some d" "settled (g_nodes s d)" for d P Q
    using that child_in_valid [OF assms(2,3) that(1)] loads_settled [OF assms(1)] loads_child_in [OF assms(1,2)] by simp
  show ?thesis using r st cd
    by (cases "child_in (g_nodes s) cur (component_matches (vn_is_iso9660 (g_nodes s cur)) cname)")
      (auto simp: resolve_component_def cur fc split: if_splits option.splits)
qed

lemma resolve_component_valid:
  assumes "vfs_tree s" "cur < g_node_count s" "resolve_component (g_nodes s) b cur cname = Some (Some c)"
  shows "c < g_node_count s"
  using assms(3) child_in_valid [OF assms(1)] assms(2)
  by (auto simp: resolve_component_def split: if_splits option.splits) blast

lemma loads_resolve:
  assumes "loads s s'" "vfs_tree s" "vfs_tree s'" "root < g_node_count s" "cur < g_node_count s" "resolve (g_nodes s) root cur p = Some r"
  shows "resolve (g_nodes s') root cur p = Some r"
  using assms(5,6)
proof (induction p arbitrary: cur rule: length_induct)
  case (1 p)
  note rs = resolve.simps [of _ root cur p]
  show ?case
  proof (cases "p = []")
    case True
    then show ?thesis using "1.prems" unfolding rs if_P [OF True] by simp
  next
    case False
    have IH: "resolve (g_nodes s') root c (path_rest p) = Some r" if "c < g_node_count s" "resolve (g_nodes s) root c (path_rest p) = Some r" for c
      using "1.IH" path_rest_shorter [OF False] that by blast
    have par: "vn_parent (g_nodes s' cur) = vn_parent (g_nodes s cur)"
      using assms(1) "1.prems"(1) by (intro core_fields(2)) (simp add: loads_def)
    have c: "c < g_node_count s" if "resolve_component (g_nodes s) (cur = root) cur (path_component p) = Some (Some c)" for c
      using resolve_component_valid [OF assms(2) "1.prems"(1) that] .
    show ?thesis
      using "1.prems" par tree_parent [OF assms(2) "1.prems"(1)] c loads_resolve_component [OF assms(1,2) "1.prems"(1)]
      unfolding rs if_not_P [OF False]
      by (auto simp: IH split: if_splits option.splits)
  qed
qed

text \<open>The mount point of the disc, if the root has one, is not on the FAT32 volume, and the root itself is on neither.\<close>

definition plain_root :: "(nat \<Rightarrow> vfs_node) \<Rightarrow> nat \<Rightarrow> bool" where
  "plain_root nodes root \<longleftrightarrow> settled (nodes root) \<and>
     (\<forall>c \<in> set (vn_children (nodes root)). vn_name (nodes c) = ''cdrom'' \<longrightarrow> \<not> vn_is_fat32 (nodes c))"

lemma loads_plain_root:
  assumes "loads s s'" "vfs_tree s" "root < g_node_count s" "plain_root (g_nodes s) root"
  shows "plain_root (g_nodes s') root"
proof -
  have root: "g_nodes s' root = g_nodes s root" using assms(1,3,4) by (simp add: loads_def plain_root_def)
  have "node_core (g_nodes s' c) = node_core (g_nodes s c)" if "c \<in> set (vn_children (g_nodes s root))" for c
    using tree_node [OF assms(2,3)] that assms(1) by (auto simp: node_ok_def loads_def)
  then have "vn_name (g_nodes s' c) = vn_name (g_nodes s c) \<and> vn_is_fat32 (g_nodes s' c) = vn_is_fat32 (g_nodes s c)"
    if "c \<in> set (vn_children (g_nodes s root))" for c using that core_fields(1,3) by blast
  then show ?thesis using assms(4) root by (simp add: plain_root_def)
qed

lemma find_component_loads:
  assumes "vfs_tree s" "cur < g_node_count s" "root < g_node_count s" "plain_root (g_nodes s) root"
  shows "wp (find_component drv root cur cname) (\<lambda>r s'. loads s s' \<and> resolve_component (g_nodes s') (cur = root) cur cname = Some r) s"
proof -
  have pop: "wp (populate_fat32_node drv cur) (\<lambda>_. wp (populate_iso9660_node drv cur)
      (\<lambda>_ s'. loads s s' \<and> vfs_tree s' \<and> settled (g_nodes s' cur))) s"
  proof (rule wp_mono [OF wp_conj [OF populate_fat32_loads [OF assms(2)] populate_fat32_node_wp [OF assms(1,2), unfolded tree_wp_def]]])
    fix s1 :: "('a, 'b) vfs_scheme" assume a: "(loads s s1 \<and> fat_loaded (g_nodes s1 cur)) \<and> tree_grows s s1 \<and> True"
    then have t: "vfs_tree s1" "cur < g_node_count s1" using assms(2) by (auto simp: tree_grows_def)
    show "wp (populate_iso9660_node drv cur) (\<lambda>_ s'. loads s s' \<and> vfs_tree s' \<and> settled (g_nodes s' cur)) s1"
    proof (rule wp_mono [OF wp_conj [OF populate_iso9660_loads [OF t(2)] populate_iso9660_node_wp [OF t, unfolded tree_wp_def]]])
      fix s2 :: "('a, 'b) vfs_scheme" assume b: "(loads s1 s2 \<and> iso_loaded (g_nodes s2 cur)) \<and> tree_grows s1 s2 \<and> True"
      have "vn_is_fat32 (g_nodes s2 cur) = vn_is_fat32 (g_nodes s1 cur)" using b t by (intro core_fields(3)) (simp add: loads_def)
      moreover have "loads s s2" using a b loads_trans by blast
      moreover have "vn_fat_populated (g_nodes s1 cur) \<longrightarrow> vn_fat_populated (g_nodes s2 cur)" using b t by (simp add: loads_def)
      ultimately show "loads s s2 \<and> vfs_tree s2 \<and> settled (g_nodes s2 cur)"
        using a b by (auto simp: settled_def tree_grows_def)
    qed
  qed
  have boot: "wp (case child_where s2 cur (\<lambda>name. str_eq name ''cdrom'') of None \<Rightarrow> State_Monad.return None
      | Some cd \<Rightarrow> populate_iso9660_node drv cd \<bind> (\<lambda>_. State_Monad.get \<bind> (\<lambda>s1. State_Monad.return (child_where s1 cd (\<lambda>name. str_eq_ci name ''boot'')))))
     (\<lambda>r s'. loads s2 s' \<and> resolve_component (g_nodes s') True cur cname = Some r) s2"
    if s2: "vfs_tree s2" "settled (g_nodes s2 cur)" "cur < g_node_count s2" "plain_root (g_nodes s2) cur"
      "child_in (g_nodes s2) cur (component_matches (vn_is_iso9660 (g_nodes s2 cur)) cname) = None" "str_eq cname ''boot''" for s2 :: "('a, 'b) vfs_scheme"
  proof (cases "child_in (g_nodes s2) cur (\<lambda>name. str_eq name ''cdrom'')")
    case None
    then show ?thesis using s2 by (simp add: child_where_in resolve_component_def)
  next
    case (Some cd)
    have cd: "cd < g_node_count s2" using child_in_valid [OF s2(1,3) Some] .
    have nofat: "\<not> vn_is_fat32 (g_nodes s2 cd)"
      using Some s2(4) unfolding child_in_def find_Some_iff plain_root_def by (auto simp: str_eq_def)
    have "wp (populate_iso9660_node drv cd) (\<lambda>_ s'. loads s2 s' \<and>
        resolve_component (g_nodes s') True cur cname = Some (child_in (g_nodes s') cd (\<lambda>name. str_eq_ci name ''boot''))) s2"
    proof (rule wp_mono [OF populate_iso9660_loads [OF cd]])
      fix s3 :: "('a, 'b) vfs_scheme" assume l: "loads s2 s3 \<and> iso_loaded (g_nodes s3 cd)"
      then have "settled (g_nodes s3 cd)"
        using nofat cd core_fields(3) [of "g_nodes s3 cd" "g_nodes s2 cd"] by (simp add: settled_def loads_def)
      moreover have "g_nodes s3 cur = g_nodes s2 cur" using l s2 loads_settled by blast
      moreover note loads_child_in [OF conjunct1 [OF l] s2(1,3) calculation(2)]
      ultimately show "loads s2 s3 \<and> resolve_component (g_nodes s3) True cur cname = Some (child_in (g_nodes s3) cd (\<lambda>name. str_eq_ci name ''boot''))"
        using l s2 Some by (simp add: resolve_component_def)
    qed
    then show ?thesis using Some by (simp add: child_where_in)
  qed
  show ?thesis
    unfolding find_component_def wp_bind
  proof (rule wp_mono [OF pop], rule wp_mono, assumption)
    fix s2 :: "('a, 'b) vfs_scheme" assume s2: "loads s s2 \<and> vfs_tree s2 \<and> settled (g_nodes s2 cur)"
    then have root: "root < g_node_count s2" "cur < g_node_count s2" using assms(2,3) by (auto simp: loads_def)
    have plain: "plain_root (g_nodes s2) root" using loads_plain_root [OF _ assms(1,3,4)] s2 by blast
    show "wp State_Monad.get (\<lambda>a. wp (case child_where a cur (component_matches (vn_is_iso9660 (g_nodes a cur)) cname) of
             None \<Rightarrow> if cur = root \<and> str_eq cname ''boot''
               then case child_where a root (\<lambda>name. str_eq name ''cdrom'') of None \<Rightarrow> State_Monad.return None
                 | Some cd \<Rightarrow> populate_iso9660_node drv cd \<bind> (\<lambda>_. State_Monad.get \<bind> (\<lambda>s1. State_Monad.return (child_where s1 cd (\<lambda>name. str_eq_ci name ''boot''))))
               else State_Monad.return None
           | Some c \<Rightarrow> State_Monad.return (Some c))
       (\<lambda>r s'. loads s s' \<and> resolve_component (g_nodes s') (cur = root) cur cname = Some r)) s2"
    proof (cases "child_in (g_nodes s2) cur (component_matches (vn_is_iso9660 (g_nodes s2 cur)) cname) = None \<and> cur = root \<and> str_eq cname ''boot''")
      case True
      have "wp (case child_where s2 root (\<lambda>name. str_eq name ''cdrom'') of None \<Rightarrow> State_Monad.return None
        | Some cd \<Rightarrow> populate_iso9660_node drv cd \<bind> (\<lambda>_. State_Monad.get \<bind> (\<lambda>s1. State_Monad.return (child_where s1 cd (\<lambda>name. str_eq_ci name ''boot'')))))
       (\<lambda>r s'. loads s s' \<and> resolve_component (g_nodes s') (cur = root) cur cname = Some r) s2"
        using boot [of s2] s2 root plain True by (auto elim!: wp_mono intro: loads_trans)
      then show ?thesis using True by (auto simp: child_where_in)
    next
      case False
      then show ?thesis using s2 by (auto simp: child_where_in resolve_component_def split: option.splits)
    qed
  qed
qed

lemma find_loop_loads:
  assumes "vfs_tree s" "cur < g_node_count s" "root < g_node_count s" "plain_root (g_nodes s) root"
  shows "wp (find_loop drv root cur p) (\<lambda>r s'. loads s s' \<and> resolve (g_nodes s') root cur p = Some r) s"
  using assms
proof (induction p arbitrary: s cur rule: length_induct)
  case (1 p)
  note fl = find_loop.simps [of drv root cur p] and rs = resolve.simps [of _ root cur p]
  show ?case
  proof (cases "p = []")
    case True
    then show ?thesis unfolding fl rs if_P [OF True] by simp
  next
    case False
    have IH: "wp (find_loop drv root c (path_rest p)) (\<lambda>r s'. loads t s' \<and> resolve (g_nodes s') root c (path_rest p) = Some r) t"
      if "vfs_tree t" "c < g_node_count t" "root < g_node_count t" "plain_root (g_nodes t) root" for t :: "('a, 'b) vfs_scheme" and c
      using "1.IH" path_rest_shorter [OF False] that by blast
    consider (dot) "str_eq (path_component p) ''.''" | (dotdot) "\<not> str_eq (path_component p) ''.''" "str_eq (path_component p) ''..''"
      | (name) "\<not> str_eq (path_component p) ''.''" "\<not> str_eq (path_component p) ''..''" by blast
    then show ?thesis
    proof cases
      case dot
      then show ?thesis unfolding fl rs if_not_P [OF False] using IH [OF "1.prems"] by simp
    next
      case dotdot
      have "wp (find_loop drv root (vn_parent (g_nodes s cur)) (path_rest p))
          (\<lambda>r s'. loads s s' \<and> resolve (g_nodes s') root (vn_parent (g_nodes s' cur)) (path_rest p) = Some r) s"
      proof (rule wp_mono [OF IH [OF "1.prems"(1) tree_parent [OF "1.prems"(1,2)] "1.prems"(3,4)]])
        fix r and s' :: "('a, 'b) vfs_scheme"
        assume l: "loads s s' \<and> resolve (g_nodes s') root (vn_parent (g_nodes s cur)) (path_rest p) = Some r"
        then have "vn_parent (g_nodes s' cur) = vn_parent (g_nodes s cur)" using "1.prems"(2) by (intro core_fields(2)) (simp add: loads_def)
        then show "loads s s' \<and> resolve (g_nodes s') root (vn_parent (g_nodes s' cur)) (path_rest p) = Some r" using l by simp
      qed
      then show ?thesis unfolding fl rs if_not_P [OF False] using dotdot by simp
    next
      case name
      have "wp (find_component drv root cur (path_component p)) (\<lambda>found.
          wp (case found of None \<Rightarrow> State_Monad.return None | Some c \<Rightarrow> find_loop drv root c (path_rest p))
            (\<lambda>r s'. loads s s' \<and> resolve (g_nodes s') root cur p = Some r)) s"
      proof (rule wp_mono [OF wp_conj [OF find_component_loads [OF "1.prems"] find_component_wp [OF "1.prems"(1-3), unfolded tree_wp_def]]])
        fix found and s1 :: "('a, 'b) vfs_scheme"
        assume a: "(loads s s1 \<and> resolve_component (g_nodes s1) (cur = root) cur (path_component p) = Some found) \<and>
          tree_grows s s1 \<and> valid_node found s1"
        then have t: "vfs_tree s1" "cur < g_node_count s1" "root < g_node_count s1" using "1.prems" by (auto simp: tree_grows_def)
        have plain: "plain_root (g_nodes s1) root" using a loads_plain_root [OF _ "1.prems"(1,3,4)] by blast
        show "wp (case found of None \<Rightarrow> State_Monad.return None | Some c \<Rightarrow> find_loop drv root c (path_rest p))
            (\<lambda>r s'. loads s s' \<and> resolve (g_nodes s') root cur p = Some r) s1"
        proof (cases found)
          case None
          then show ?thesis using a name False by (simp add: rs)
        next
          case (Some c)
          then have c: "c < g_node_count s1" using a by simp
          show ?thesis
            unfolding Some option.case
          proof (rule wp_mono [OF IH [OF t(1) c t(3) plain]])
            fix r and s2 :: "('a, 'b) vfs_scheme" assume b: "loads s1 s2 \<and> resolve (g_nodes s2) root c (path_rest p) = Some r"
            then show "loads s s2 \<and> resolve (g_nodes s2) root cur p = Some r"
              using a Some loads_trans loads_resolve_component [OF _ t(1,2), of s2] name False by (auto simp: rs)
          qed
        qed
      qed
      then show ?thesis unfolding fl if_not_P [OF False] using name by simp
    qed
  qed
qed

subsection \<open>Whole paths\<close>

definition resolve_path :: "(nat \<Rightarrow> vfs_node) \<Rightarrow> string \<Rightarrow> nat option option" where
  "resolve_path nodes path =
     (if path = [] \<or> str_eq path ''/'' \<or> str_eq path [CHR 0x5C] then Some (Some 0)
      else let p = strip_drive (skip_sep path) in
        if p = [] then Some (Some (case child_in nodes 0 (\<lambda>name. str_eq name ''c'') of Some c \<Rightarrow> c | None \<Rightarrow> 0))
        else resolve nodes 0 0 p)"

lemma resolve_path_find:
  "g_root s = Some 0 \<Longrightarrow> resolve_path (g_nodes s) path = Some r \<Longrightarrow> run_state (find_node_by_path drv path) s = (r, s)"
  by (auto simp: find_node_by_path_def resolve_path_def Let_def child_where_in resolve_find split: if_splits)

lemma find_node_by_path_resolves:
  assumes "vfs_tree s" "plain_root (g_nodes s) 0" "run_state (find_node_by_path drv path) s = (r, s')"
  shows "loads s s' \<and> resolve_path (g_nodes s') path = Some r"
proof -
  have root: "g_root s = Some 0" "0 < g_node_count s" using assms(1) by (auto simp: vfs_tree_def)
  note fl = find_loop_loads [OF assms(1) root(2,2) assms(2), of drv, unfolded wp_def]
  show ?thesis
    using assms(3) root fl [of "strip_drive (skip_sep path)"]
    by (auto simp: find_node_by_path_def resolve_path_def Let_def child_where_in split: if_splits prod.splits)
qed

text \<open>Looking up a path a second time finds the same node and changes nothing.\<close>

lemma find_node_by_path_again:
  assumes "vfs_tree s" "plain_root (g_nodes s) 0" "run_state (find_node_by_path drv path) s = (r, s')"
  shows "run_state (find_node_by_path drv' path) s' = (r, s')"
proof -
  note f = find_node_by_path_resolves [OF assms]
  have "g_root s' = Some 0" using f assms(1) by (simp add: loads_def vfs_tree_def)
  then show ?thesis using f by (intro resolve_path_find) auto
qed

subsection \<open>Contents do not matter for lookup\<close>

definition node_links :: "vfs_node \<Rightarrow> vfs_node" where
  "node_links n = n\<lparr>vn_data := No_data, vn_size := 0\<rparr>"

lemma links_fields:
  assumes "node_links a = node_links b"
  shows "vn_name a = vn_name b" "vn_parent a = vn_parent b" "vn_children a = vn_children b" "vn_is_iso9660 a = vn_is_iso9660 b" "settled a = settled b"
  using assms by (cases a, cases b, simp add: node_links_def settled_def)+

lemma links_child_in: "\<forall>i. node_links (nodes i) = node_links (nodes' i) \<Longrightarrow> child_in nodes dir P = child_in nodes' dir P"
  unfolding child_in_def using links_fields(1,3) by (intro find_cong) metis+

lemma links_resolve:
  assumes "\<forall>i. node_links (nodes i) = node_links (nodes' i)"
  shows "resolve nodes root cur p = resolve nodes' root cur p"
proof (induction p arbitrary: cur rule: length_induct)
  case (1 p)
  note l = links_fields [OF assms [rule_format]]
  have rc: "resolve_component nodes b c nm = resolve_component nodes' b c nm" for b c nm
    unfolding resolve_component_def l(4,5) links_child_in [OF assms] ..
  show ?case
  proof (cases "p = []")
    case True
    then show ?thesis by (subst (1 2) resolve.simps) simp
  next
    case False
    have IH: "resolve nodes root c (path_rest p) = resolve nodes' root c (path_rest p)" for c
      using 1 path_rest_shorter [OF False] by blast
    show ?thesis by (subst (1 2) resolve.simps) (simp add: IH rc l(2) split: option.splits)
  qed
qed

lemma links_resolve_path: "\<forall>i. node_links (nodes i) = node_links (nodes' i) \<Longrightarrow> resolve_path nodes path = resolve_path nodes' path"
  unfolding resolve_path_def Let_def by (simp add: links_resolve [of nodes nodes'] links_child_in [of nodes nodes'])

subsection \<open>Files in memory\<close>

lemma unat_ucast_64: "unat (ucast (w :: u32) :: u64) = unat w"
  using unsigned_less [of w, where 'a = nat] by (simp add: unsigned_ucast_eq take_bit_nat_eq_self)

lemma read_write_bytes:
  assumes "length bs \<le> 2 ^ 63" and "unat off + n \<le> length bs"
  shows "read_bytes (write_bytes a bs m) (a + off) n = take n (drop (unat off) bs)"
proof (rule nth_equalityI)
  fix i assume "i < length (read_bytes (write_bytes a bs m) (a + off) n)"
  then have i: "i < n" by simp
  have b: "unat off + i < 2 ^ 64" using assms i by simp
  have "unat (a + off + word_of_nat i - a) = unat off + i"
    using b by (simp add: unat_word_ariths unat_of_nat take_bit_eq_mod)
  then show "read_bytes (write_bytes a bs m) (a + off) n ! i = take n (drop (unat off) bs) ! i"
    using i assms by (simp add: nth_read_bytes mem_byte_write)
qed (use assms in simp)

lemma data_bytes_pages:
  assumes "length bs \<le> 2 ^ 63" and "unat off + n \<le> length bs"
  shows "data_bytes (m\<lparr>phys_mem := write_bytes a bs mem\<rparr>) (Pages a) off n = take n (drop (unat off) bs)"
  using read_write_bytes [OF assms] by (simp add: data_bytes_def)

text \<open>A write to a file in memory: either no pages were left and no node changed, or the node holds exactly the new bytes.\<close>

definition holds_bytes :: "mm \<Rightarrow> vfs_node \<Rightarrow> u8 list \<Rightarrow> bool" where
  "holds_bytes m n bs \<longleftrightarrow> vn_size n = word_of_nat (length bs) \<and> vn_data n \<noteq> No_data \<and>
     (\<forall>off k. unat off + k \<le> length bs \<longrightarrow> data_bytes m (vn_data n) off k = take k (drop (unat off) bs))"

definition node_image_ok :: "vfs_node \<Rightarrow> bool" where
  "node_image_ok n \<longleftrightarrow> (\<forall>img. vn_data n = Image img \<longrightarrow> unat (vn_size n) \<le> length img)"

lemma write_memory_effect:
  assumes "length bs < 2 ^ 31" and "node_image_ok (g_nodes s i)" and "run_state (write_memory i bs) s = (r, s1)"
  shows "tree_frame s1 = tree_frame s \<and> r = - 5 \<or>
    r = int (length bs) \<and> g_root s1 = g_root s \<and> holds_bytes (m_mm s1) (g_nodes s1 i) bs \<and>
    node_links (g_nodes s1 i) = node_links (g_nodes s i) \<and> (\<forall>j. j \<noteq> i \<longrightarrow> g_nodes s1 j = g_nodes s j)"
proof -
  let ?n = "g_nodes s i"
  have sz: "(word_of_nat (length bs) :: u64) = word_of_int (int (length bs))" by simp
  have u: "unat (word_of_nat (length bs) :: u64) = length bs" using assms(1) by (simp add: unat_of_nat take_bit_eq_mod)
  have b63: "length bs \<le> 2 ^ 63" using assms(1) by simp
  define need where "need \<longleftrightarrow> vn_data ?n = No_data \<or> (ucast (vn_size ?n) :: u64) < word_of_nat (length bs)"
  show ?thesis
  proof (cases need)
    case True
    obtain phys m where al: "pmm_alloc_pages (file_pages (int (length bs))) (m_mm s) = (phys, m)" by fastforce
    show ?thesis
    proof (cases "phys = 0")
      case True
      then show ?thesis using assms(3) \<open>need\<close> al by (auto simp: write_memory_def need_def alloc_file_def Let_def)
    next
      case False
      then have "s1 = upd_node i (\<lambda>n. n\<lparr>vn_size := word_of_nat (length bs)\<rparr>)
          ((upd_node i (\<lambda>n. n\<lparr>vn_data := Pages phys\<rparr>) (s\<lparr>m_mm := m\<rparr>))\<lparr>m_mm := m\<lparr>phys_mem := write_bytes phys bs (phys_mem m)\<rparr>\<rparr>) \<and> r = int (length bs)"
        using assms(3) True al
        by (simp add: write_memory_def need_def alloc_file_def Let_def store_data_def write_pages_def upd_node_def)
      then show ?thesis using data_bytes_pages [OF b63]
        by (auto simp: holds_bytes_def upd_node_def node_links_def)
    qed
  next
    case False
    then have le: "length bs \<le> unat (vn_size ?n)" and nd: "vn_data ?n \<noteq> No_data"
      using u by (simp_all add: need_def not_less word_le_nat_alt unat_ucast_64)
    show ?thesis
    proof (cases "vn_data ?n")
      case (Image img)
      then have "length bs \<le> length img" using assms(2) le by (auto simp: node_image_ok_def)
      moreover have "s1 = upd_node i (\<lambda>n. n\<lparr>vn_size := word_of_nat (length bs)\<rparr>)
          (upd_node i (\<lambda>n. n\<lparr>vn_data := Image (bs @ drop (length bs) img)\<rparr>) (upd_node i (\<lambda>n. n\<lparr>vn_data := vn_data ?n\<rparr>) s)) \<and> r = int (length bs)"
        using assms(3) False Image by (simp add: write_memory_def need_def Let_def store_data_def)
      ultimately show ?thesis
        by (auto simp: holds_bytes_def upd_node_def node_links_def data_bytes_def)
    next
      case (Pages phys)
      have "s1 = upd_node i (\<lambda>n. n\<lparr>vn_size := word_of_nat (length bs)\<rparr>)
          ((upd_node i (\<lambda>n. n\<lparr>vn_data := vn_data ?n\<rparr>) s)\<lparr>m_mm := (m_mm s)\<lparr>phys_mem := write_bytes phys bs (phys_mem (m_mm s))\<rparr>\<rparr>) \<and> r = int (length bs)"
        using assms(3) False Pages by (simp add: write_memory_def need_def Let_def store_data_def write_pages_def upd_node_def)
      then show ?thesis using data_bytes_pages [OF b63] Pages
        by (auto simp: holds_bytes_def upd_node_def node_links_def)
    qed (use nd in simp)
  qed
qed

lemma read_held_bytes:
  assumes "length bs < 2 ^ 31" and "holds_bytes (m_mm s) (g_nodes s i) bs" and "run_state (find_node_by_path drv path) s = (Some i, s)"
    and "\<not> vn_is_dir (g_nodes s i)" "\<not> vn_is_fat32 (g_nodes s i)" "\<not> vn_is_iso9660 (g_nodes s i)" and "0 < k"
  shows "run_state (vfs_read_at drv path off k) s =
    ((int (length (take (nat k) (drop (unat off) bs))), take (nat k) (drop (unat off) bs)), s)"
proof -
  have sz: "vn_size (g_nodes s i) = word_of_nat (length bs)" "vn_data (g_nodes s i) \<noteq> No_data" using assms(2) by (auto simp: holds_bytes_def)
  have u: "unat (ucast (vn_size (g_nodes s i)) :: u64) = length bs"
    using assms(1) by (simp add: sz unat_of_nat take_bit_eq_mod unat_ucast_64)
  show ?thesis
  proof (cases "off < ucast (vn_size (g_nodes s i))")
    case True
    then have lt: "unat off < length bs" by (simp add: word_less_nat_alt u)
    define w where "w = (ucast (ucast (vn_size (g_nodes s i)) - off) :: u32)"
    have ud: "unat (ucast (vn_size (g_nodes s i)) - off) = length bs - unat off" using lt u by (subst unat_sub) (auto simp: word_le_nat_alt)
    have uw: "unat w = length bs - unat off" unfolding w_def using assms(1) ud by (subst ucast_lba32) auto
    have "sint w = int (length bs - unat off)"
    proof -
      have "uint w < 2 ^ 31" using uw assms(1) by (simp add: uint_nat)
      then have "sint w = uint w" unfolding sint_uint by (intro signed_take_bit_int_eq_self) (simp_all add: order_trans [OF _ uint_ge_0])
      then show ?thesis by (simp add: uw uint_nat)
    qed
    define tc where "tc = (if sint w > k then k else sint w)"
    have tc: "nat tc = min (nat k) (length bs - unat off)" "0 \<le> tc"
      unfolding tc_def \<open>sint w = _\<close> using assms(7) by auto
    have db: "data_bytes (m_mm s) (vn_data (g_nodes s i)) off (nat tc) = take (nat tc) (drop (unat off) bs)"
      using assms(2) tc lt by (auto simp: holds_bytes_def)
    have "take (nat k) (drop (unat off) bs) = take (nat tc) (drop (unat off) bs)" unfolding tc by (simp add: min_def)
    moreover have "int (length (take (nat tc) (drop (unat off) bs))) = tc" using tc by auto
    moreover have "\<not> ucast (vn_size (g_nodes s i)) \<le> off" using True by simp
    ultimately show ?thesis
      using assms(3-7) sz(2) db by (auto simp: vfs_read_at_def Let_def w_def [symmetric] tc_def [symmetric])
  next
    case False
    then have "length bs \<le> unat off" by (simp add: word_less_nat_alt u not_less)
    then show ?thesis using assms(3-7) sz(2) False by (simp add: vfs_read_at_def Let_def not_less)
  qed
qed

subsection \<open>The lookup and round-trip properties\<close>

text \<open>
  C30. Lookup is stable: looking a path up loads directories into the table but changes nothing else (name, parent, kind, size and
  contents of every node in use stay, and the children of every directory that was loaded before), and looking it up again finds the same
  node and changes nothing at all. The disc's mount point must not be a node of the FAT32 volume.
\<close>

theorem vfs_lookup_stable:
  assumes "vfs_reach drv s" and "plain_root (g_nodes s) 0" and "run_state (find_node_by_path drv path) s = (r, s')"
  shows "run_state (find_node_by_path drv path) s' = (r, s') \<and> g_root s' = g_root s \<and> g_node_count s \<le> g_node_count s' \<and>
    (\<forall>i < g_node_count s. node_core (g_nodes s' i) = node_core (g_nodes s i) \<and> (settled (g_nodes s i) \<longrightarrow> g_nodes s' i = g_nodes s i))"
  using find_node_by_path_again [OF vfs_reach_tree [OF assms(1)] assms(2,3)]
    find_node_by_path_resolves [OF vfs_reach_tree [OF assms(1)] assms(2,3)]
  by (auto simp: loads_def)


definition boot_images :: "string \<Rightarrow> u8 list option" where
  "boot_images name = (if name = ''about.kea'' then Some [1, 2, 3] else None)"

definition vfs_booted :: "(medium \<Rightarrow> nat \<Rightarrow> u8 list) vfs" where
  "vfs_booted = snd (run_state (vfs_init (ram_drivers 512) boot_images) vfs_blank)"

lemma vfs_booted_nodes:
  "g_root vfs_booted = Some 0" "g_nodes vfs_booted 0 = (new_node ''/'' True 0 No_data 0)\<lparr>vn_children := [1, 3, 4]\<rparr>"
  "g_nodes vfs_booted 1 = (new_node ''apps'' True 0 No_data 0)\<lparr>vn_children := [2]\<rparr>"
  "g_nodes vfs_booted 2 = new_node ''about.kea'' False 3 (Image [1, 2, 3]) 1"
  "vn_name (g_nodes vfs_booted 3) = ''icons''" "vn_name (g_nodes vfs_booted 4) = ''bin''"
  by (simp_all add: vfs_booted_def vfs_init_def alloc_node_def Let_def new_node_def str_copy_def upd_node_def vfs_blank_def volumes.extend_def
    vfs_add_resource_def boot_images_def vfs_rescan_drives_def rescan_hdd_def rescan_cdrom_def fat_device_def iso9660_init_def disc_blocks_def
    disc_state_def child_where_def str_eq_def)

lemma vfs_booted_plain: "plain_root (g_nodes vfs_booted) 0"
  using vfs_booted_nodes by (auto simp: plain_root_def settled_def new_node_def str_copy_def)

lemma vfs_booted_find: "run_state (find_node_by_path (ram_drivers 512) ''/apps/about.kea'') vfs_booted = (Some 2, vfs_booted)"
proof (rule resolve_path_find [OF vfs_booted_nodes(1)])
  let ?n = "g_nodes vfs_booted"
  have "resolve_component ?n True 0 ''apps'' = Some (Some 1)"
    using vfs_booted_nodes by (simp add: resolve_component_def child_in_def settled_def new_node_def str_copy_def component_matches_def str_eq_def)
  moreover have "resolve_component ?n False 1 ''about.kea'' = Some (Some 2)"
    using vfs_booted_nodes by (simp add: resolve_component_def child_in_def settled_def new_node_def str_copy_def component_matches_def str_eq_def)
  moreover have "resolve ?n 0 2 [] = Some (Some 2)" by (subst resolve.simps) simp
  moreover have "path_component ''apps/about.kea'' = ''apps''" "path_rest ''apps/about.kea'' = ''about.kea''"
    "path_component ''about.kea'' = ''about.kea''" "path_rest ''about.kea'' = []"
    by (simp_all add: path_component_def path_rest_def is_sep_def)
  ultimately have "resolve ?n 0 0 ''apps/about.kea'' = Some (Some 2)"
    by (subst resolve.simps, simp add: str_eq_def, subst resolve.simps, simp add: str_eq_def)
  then show "resolve_path ?n ''/apps/about.kea'' = Some (Some 2)"
    by (simp add: resolve_path_def str_eq_def skip_sep_def strip_drive_def is_sep_def)
qed

theorem vfs_lookup_stable_witness:
  "run_state (find_node_by_path (ram_drivers 512) ''/apps/about.kea'') vfs_booted = (Some 2, vfs_booted)"
  using vfs_lookup_stable [OF vfs_reach.boot [of "ram_drivers 512" boot_images vfs_blank, folded vfs_booted_def] vfs_booted_plain vfs_booted_find]
  by blast


end
