(* ===== verification/Fat32_Disk.thy ===== *)
theory Fat32_Disk
  imports Fat32_Frame
begin

text \<open>
  The FAT32 volume on the device below: where the copies of the allocation table and the clusters lie, and what reading and setting an
  entry, reading a cluster and writing a cluster do to the sectors of the device, whether or not the device reports an error.
\<close>

subsection \<open>The sectors of the volume's device\<close>

definition fat_disk_ok :: "'d drivers \<Rightarrow> 'd media \<Rightarrow> (medium \<Rightarrow> nat) \<Rightarrow> ('d, 'x) fat32_scheme \<Rightarrow> bool" where
  "fat_disk_ok drv view bytes_of s \<longleftrightarrow>
     drivers_ok drv view bytes_of \<and> (\<forall>bi \<in> set (g_devices (m_blocks s)). binding_ok bytes_of bi) \<and>
     0 \<le> s_block_device s \<and> s_block_device s < int (length (g_devices (m_blocks s))) \<and>
     bytes_of (binding_medium (g_devices (m_blocks s) ! nat (s_block_device s))) = 512"

definition secs :: "'d media \<Rightarrow> ('d, 'x) fat32_scheme \<Rightarrow> nat \<Rightarrow> u8 list" where
  "secs view s = view (m_dev s) (binding_medium (g_devices (m_blocks s) ! nat (s_block_device s)))"

lemma frame_fields:
  assumes "fat_frame s' = fat_frame s"
  shows "m_blocks s' = m_blocks s" "s_block_device s' = s_block_device s" "s_partition_lba s' = s_partition_lba s"
    "s_partition_sectors s' = s_partition_sectors s" "s_fat_start_lba s' = s_fat_start_lba s" "s_data_start_lba s' = s_data_start_lba s"
    "s_sectors_per_cluster s' = s_sectors_per_cluster s" "s_root_cluster s' = s_root_cluster s" "s_fat_size_sectors s' = s_fat_size_sectors s"
    "s_max_cluster s' = s_max_cluster s" "s_num_fats s' = s_num_fats s" "s_ready s' = s_ready s" "s_fsinfo_lba s' = s_fsinfo_lba s"
    "s_fsinfo_valid s' = s_fsinfo_valid s"
  using assms by (cases s, cases s', simp add: fat_frame_def)+

lemma frame_disk_ok:
  assumes "fat_frame s' = fat_frame s"
  shows "fat_disk_ok drv view bytes_of s' = fat_disk_ok drv view bytes_of s"
  unfolding fat_disk_ok_def frame_fields [OF assms] ..

lemma frame_derived:
  assumes "fat_frame s' = fat_frame s"
  shows "valid_cluster s' c = valid_cluster s c" "cluster_to_lba s' c = cluster_to_lba s c" "chain_fuel s' = chain_fuel s"
    "cluster_bytes s' = cluster_bytes s" "entries_in_cluster s' = entries_in_cluster s" "clusters_needed s' n = clusters_needed s n"
  unfolding valid_cluster_def cluster_to_lba_def chain_fuel_def cluster_bytes_def entries_in_cluster_def clusters_needed_def frame_fields [OF assms]
  by (rule refl)+

text \<open>Nothing on the device changed.\<close>

definition same_disk :: "'d media \<Rightarrow> ('d, 'x) fat32_scheme \<Rightarrow> ('d, 'x) fat32_scheme \<Rightarrow> bool" where
  "same_disk view s s' \<longleftrightarrow> fat_frame s' = fat_frame s \<and> secs view s' = secs view s"

lemma same_disk_refl [simp]: "same_disk view s s"
  by (simp add: same_disk_def)

lemma same_disk_trans: "same_disk view s t \<Longrightarrow> same_disk view t u \<Longrightarrow> same_disk view s u"
  by (simp add: same_disk_def)

lemma disk_read_spec:
  assumes ok: "fat_disk_ok drv view bytes_of s"
  shows "wp (disk_read drv lba n) (\<lambda>r s'. same_disk view s s' \<and> cluster_buf s' = cluster_buf s \<and>
    (\<forall>bs. r = Some bs \<longrightarrow> bs = span (secs view s) (unat lba) (unat n))) s"
proof -
  obtain q b d where rd: "block_read drv (s_block_device s) lba n (m_blocks s) (m_dev s) = (q, b, d)"
    by (cases "block_read drv (s_block_device s) lba n (m_blocks s) (m_dev s)") auto
  note r = block_read_ok [OF _ _ rd, of view bytes_of]
  show ?thesis
    using ok r rd by (auto simp: wp_def disk_read_def fat_disk_ok_def same_disk_def secs_def)
qed

lemma disk_write_spec:
  assumes ok: "fat_disk_ok drv view bytes_of s" and len: "unat n * 512 \<le> length buf"
  shows "wp (disk_write drv lba n buf) (\<lambda>r s'. fat_frame s' = fat_frame s \<and> cluster_buf s' = cluster_buf s \<and>
    within (unat lba) (unat n) (secs view s) (secs view s') \<and>
    (r \<longrightarrow> secs view s' = overwrite 512 (unat lba) (unat n) buf (secs view s))) s"
proof -
  obtain q d where wr: "block_write drv (s_block_device s) lba n buf (m_blocks s) (m_dev s) = (q, d)" by fastforce
  have "if 0 \<le> s_block_device s \<and> s_block_device s < int (length (g_devices (m_blocks s))) \<and>
        bd_writable (device (g_devices (m_blocks s) ! nat (s_block_device s))) \<and> range_valid (device (g_devices (m_blocks s) ! nat (s_block_device s))) lba n
      then writes view bytes_of (binding_medium (g_devices (m_blocks s) ! nat (s_block_device s))) (unat lba) (unat n) buf (q = 0, d) (m_dev s)
      else q = - 1 \<and> d = m_dev s"
    using ok by (intro block_write_ok [OF _ _ wr]) (auto simp: fat_disk_ok_def)
  then show ?thesis
    using ok wr len by (auto simp: wp_def disk_write_def fat_disk_ok_def secs_def writes_def within_def split: if_splits)
qed

lemma length_secs: "fat_disk_ok drv view bytes_of s \<Longrightarrow> length (secs view s l) = 512"
  unfolding fat_disk_ok_def drivers_ok_def secs_def by metis

lemma sector_read_spec:
  assumes ok: "fat_disk_ok drv view bytes_of s"
  shows "wp (disk_read drv lba 1) (\<lambda>r s'. same_disk view s s' \<and> cluster_buf s' = cluster_buf s \<and> (\<forall>bs. r = Some bs \<longrightarrow> bs = secs view s (unat lba))) s"
  by (rule wp_mono [OF disk_read_spec [OF ok]]) (auto simp: span_one [unfolded One_nat_def])

lemma sector_write_spec:
  assumes ok: "fat_disk_ok drv view bytes_of s" and len: "length buf = 512"
  shows "wp (disk_write drv lba 1 buf) (\<lambda>r s'. fat_frame s' = fat_frame s \<and> cluster_buf s' = cluster_buf s \<and>
    (\<forall>l. l \<noteq> unat lba \<longrightarrow> secs view s' l = secs view s l) \<and> (r \<longrightarrow> secs view s' (unat lba) = buf)) s"
  by (rule wp_mono [OF disk_write_spec [OF ok]]) (auto simp: len within_def overwrite_def, metis Suc_leI linorder_neqE_nat)

subsection \<open>Entries of the allocation table\<close>

lemma and_28: "(w :: u32) AND 0x0FFFFFFF = take_bit 28 w"
  by (simp add: take_bit_eq_mask mask_eq_exp_minus_1)

lemma rd_u32_bytes:
  assumes "off + 3 < length p"
  shows "rd_u32 p off = ucast (p ! off) OR push_bit 8 (ucast (p ! (off + 1))) OR push_bit 16 (ucast (p ! (off + 2))) OR push_bit 24 (ucast (p ! (off + 3)))"
proof -
  have "take 4 (drop off p) = [p ! off, p ! (off + 1), p ! (off + 2), p ! (off + 3)]"
    using assms by (auto intro!: nth_equalityI simp: less_Suc_eq numeral_eq_Suc)
  then show ?thesis
    unfolding rd_u32_def field_def by (intro bit_eqI) (auto simp: bit_simps possible_bit_def dest: bit_u8)
qed

lemma rd_put_same:
  assumes "off + 3 < length p"
  shows "rd_u32 (put_fat_entry off v p) off AND 0x0FFFFFFF = v AND 0x0FFFFFFF"
proof -
  have "rd_u32 (put_fat_entry off v p) off =
      ucast (ucast (v AND 0xFF) :: u8) OR push_bit 8 (ucast (ucast (drop_bit 8 v AND 0xFF) :: u8)) OR push_bit 16 (ucast (ucast (drop_bit 16 v AND 0xFF) :: u8)) OR
      push_bit 24 (ucast ((p ! (off + 3) AND 0xF0) OR ucast (drop_bit 24 v AND 0x0F)))"
    using assms by (subst rd_u32_bytes) (simp_all add: put_fat_entry_def nth_list_update)
  moreover have "v AND 0xFF = take_bit 8 v" "drop_bit 8 v AND 0xFF = take_bit 8 (drop_bit 8 v)" "drop_bit 16 v AND 0xFF = take_bit 8 (drop_bit 16 v)"
    "drop_bit 24 v AND 0x0F = take_bit 4 (drop_bit 24 v)"
    by (simp_all add: take_bit_eq_mask mask_eq_exp_minus_1)
  moreover have f0: "\<not> bit (0xF0 :: u8) n" if "n < 4" for n
    using that by (auto simp: less_Suc_eq numeral_eq_Suc)
  ultimately have e: "rd_u32 (put_fat_entry off v p) off =
      ucast (ucast (take_bit 8 v) :: u8) OR push_bit 8 (ucast (ucast (take_bit 8 (drop_bit 8 v)) :: u8)) OR push_bit 16 (ucast (ucast (take_bit 8 (drop_bit 16 v)) :: u8)) OR
      push_bit 24 (ucast ((p ! (off + 3) AND 0xF0) OR ucast (take_bit 4 (drop_bit 24 v))))" by metis
  have "bit (rd_u32 (put_fat_entry off v p) off) n = bit v n" if n: "n < 28" for n
  proof -
    consider "n < 8" | "8 \<le> n" "n < 16" | "16 \<le> n" "n < 24" | "24 \<le> n" by linarith
    then show ?thesis using n f0 [of "n - 24"] unfolding e by cases (auto simp: bit_simps)
  qed
  then show ?thesis
    unfolding and_28 by (intro bit_eqI) (auto simp: bit_take_bit_iff)
qed

lemma rd_put_other:
  assumes "off + 3 < length p" "off' + 3 < length p" "off' + 3 < off \<or> off + 3 < off'"
  shows "rd_u32 (put_fat_entry off v p) off' = rd_u32 p off'"
proof -
  have l: "length (put_fat_entry off v p) = length p" by (simp add: put_fat_entry_def)
  have "put_fat_entry off v p ! (off' + k) = p ! (off' + k)" if "k \<le> 3" for k
    using that assms(3) by (auto simp: put_fat_entry_def nth_list_update)
  note n = this [of 0] this [of 1] this [of 2] this [of 3]
  show ?thesis using n by (subst (1 2) rd_u32_bytes) (use assms l in \<open>simp_all\<close>)
qed

lemma length_put_fat_entry [simp]: "length (put_fat_entry off v p) = length p"
  by (simp add: put_fat_entry_def)

text \<open>The entry of a cluster in copy \<open>k\<close> of the table; the driver reads copy 0.\<close>

definition fat_pos :: "('d, 'x) fat32_scheme \<Rightarrow> nat \<Rightarrow> u32 \<Rightarrow> nat" where
  "fat_pos s k c = unat (s_fat_start_lba s) + k * unat (s_fat_size_sectors s) + unat c div 128"

definition fat_copy :: "'d media \<Rightarrow> ('d, 'x) fat32_scheme \<Rightarrow> nat \<Rightarrow> u32 \<Rightarrow> u32" where
  "fat_copy view s k c = rd_u32 (secs view s (fat_pos s k c)) (unat c mod 128 * 4) AND 0x0FFFFFFF"

abbreviation fatv :: "'d media \<Rightarrow> ('d, 'x) fat32_scheme \<Rightarrow> u32 \<Rightarrow> u32" where
  "fatv view s c \<equiv> fat_copy view s 0 c"

text \<open>A mounted volume: the areas follow each other without overlap and without wrap-around.\<close>

definition volume_sound :: "('d, 'x) fat32_scheme \<Rightarrow> bool" where
  "volume_sound s \<longleftrightarrow> s_ready s \<and>
     unat (s_data_start_lba s) = unat (s_fat_start_lba s) + unat (s_num_fats s) * unat (s_fat_size_sectors s) \<and>
     (unat (s_max_cluster s) + 1) * 4 \<le> unat (s_fat_size_sectors s) * 512 \<and>
     1 \<le> unat (s_num_fats s) \<and> unat (s_num_fats s) \<le> 2 \<and> 1 \<le> unat (s_sectors_per_cluster s) \<and> unat (s_sectors_per_cluster s) \<le> 64 \<and>
     2 \<le> unat (s_root_cluster s) \<and> unat (s_root_cluster s) \<le> unat (s_max_cluster s) \<and>
     unat (s_partition_lba s) \<le> unat (s_fat_start_lba s) \<and>
     unat (s_data_start_lba s) + (unat (s_max_cluster s) - 1) * unat (s_sectors_per_cluster s) \<le> unat (s_partition_lba s) + unat (s_partition_sectors s) \<and>
     unat (s_partition_lba s) + unat (s_partition_sectors s) \<le> 2 ^ 28"

lemma frame_sound:
  assumes "fat_frame s' = fat_frame s"
  shows "volume_sound s' = volume_sound s" "fat_pos s' k c = fat_pos s k c"
  unfolding volume_sound_def fat_pos_def frame_fields [OF assms] by (rule refl)+

lemma sound_bounds:
  assumes "volume_sound s"
  shows "unat (s_max_cluster s) < 2 ^ 28" "unat (s_data_start_lba s) \<le> 2 ^ 28" "2 \<le> unat (s_max_cluster s)"
proof -
  have v: "(unat (s_max_cluster s) + 1) * 4 \<le> unat (s_fat_size_sectors s) * 512"
    "unat (s_data_start_lba s) = unat (s_fat_start_lba s) + unat (s_num_fats s) * unat (s_fat_size_sectors s)"
    "unat (s_data_start_lba s) + (unat (s_max_cluster s) - 1) * unat (s_sectors_per_cluster s) \<le> 2 ^ 28"
    and w: "1 \<le> unat (s_num_fats s)" "1 \<le> unat (s_sectors_per_cluster s)" and r: "2 \<le> unat (s_max_cluster s)"
    using assms unfolding volume_sound_def by auto
  have a: "unat (s_max_cluster s) - 1 \<le> (unat (s_max_cluster s) - 1) * unat (s_sectors_per_cluster s)"
    and b: "unat (s_fat_size_sectors s) \<le> unat (s_num_fats s) * unat (s_fat_size_sectors s)"
    using w by simp_all
  define P where "P = (unat (s_max_cluster s) - 1) * unat (s_sectors_per_cluster s)"
  define Q where "Q = unat (s_num_fats s) * unat (s_fat_size_sectors s)"
  have 1: "unat (s_data_start_lba s) + P \<le> 268435456" using v(3) by (simp add: P_def)
  have 2: "unat (s_max_cluster s) \<le> P + 1" using a [folded P_def] by linarith
  have 3: "unat (s_data_start_lba s) = unat (s_fat_start_lba s) + Q" "unat (s_fat_size_sectors s) \<le> Q" using v(2) b by (simp_all only: Q_def)
  have key: "m < 268435456" if "d + p \<le> 268435456" "m \<le> p + 1" "d = f + q" "fs \<le> q" "m + 1 \<le> fs * 128" for m d p f q fs :: nat
    using that by linarith
  have "unat (s_max_cluster s) < 268435456" by (rule key [OF 1 2 3]) (use v(1) in simp)
  then show "unat (s_max_cluster s) < 2 ^ 28" by simp
  show "unat (s_data_start_lba s) \<le> 2 ^ 28" using v by linarith
  show "2 \<le> unat (s_max_cluster s)" by (rule r)
qed

text \<open>The arithmetic of the code for the place of an entry is the one above.\<close>

lemma fat_offset:
  assumes "volume_sound s" "c \<le> s_max_cluster s"
  shows "unat (c * 4 div 512) = unat c div 128" "unat (c * 4 mod 512) = unat c mod 128 * 4" "c * 4 div 512 < s_fat_size_sectors s"
proof -
  have c: "unat c < 2 ^ 28" using sound_bounds(1) [OF assms(1)] assms(2) by (simp add: word_le_nat_alt)
  have m: "unat (c * 4) = unat c * 4" using c by (simp add: unat_word_ariths)
  show d: "unat (c * 4 div 512) = unat c div 128" by (simp add: unat_div m)
  show "unat (c * 4 mod 512) = unat c mod 128 * 4" by (simp add: unat_mod m mod_mult_mult2 [of _ 4 128, simplified])
  have "unat c * 4 < unat (s_fat_size_sectors s) * 512" using assms by (simp add: volume_sound_def word_le_nat_alt)
  then have "unat c div 128 < unat (s_fat_size_sectors s)" by (simp add: less_mult_imp_div_less)
  then show "c * 4 div 512 < s_fat_size_sectors s" by (simp add: word_less_nat_alt d)
qed

lemma unat_add_u32: "unat (a :: u32) + unat b < 2 ^ 32 \<Longrightarrow> unat (a + b) = unat a + unat b"
  by (simp add: unat_word_ariths)

lemma unat_ucast_u32: "unat (ucast (w :: u32) :: u64) = unat w"
  using unsigned_less [of w, where 'a = nat] by (simp add: unsigned_ucast_eq take_bit_nat_eq_self)

lemma fat_pos_bound:
  assumes "volume_sound s" "c \<le> s_max_cluster s" "k < unat (s_num_fats s)"
  shows "fat_pos s k c < unat (s_data_start_lba s)" "unat (s_fat_start_lba s) \<le> fat_pos s k c"
proof -
  have "unat c div 128 < unat (s_fat_size_sectors s)" using fat_offset [OF assms(1,2)] by (simp add: word_less_nat_alt)
  moreover have "(k + 1) * unat (s_fat_size_sectors s) \<le> unat (s_num_fats s) * unat (s_fat_size_sectors s)" using assms(3) by (intro mult_le_mono) auto
  ultimately show "fat_pos s k c < unat (s_data_start_lba s)" using assms(1) by (simp add: volume_sound_def fat_pos_def)
  show "unat (s_fat_start_lba s) \<le> fat_pos s k c" by (simp add: fat_pos_def)
qed

lemma fat_lba:
  assumes "volume_sound s" "c \<le> s_max_cluster s" "unat k < unat (s_num_fats s)"
  shows "unat (ucast (s_fat_start_lba s + k * s_fat_size_sectors s + c * 4 div 512) :: u64) = fat_pos s (unat k) c"
proof -
  note p = fat_pos_bound [OF assms] and b = sound_bounds(2) [OF assms(1)]
  have k: "unat (k * s_fat_size_sectors s) = unat k * unat (s_fat_size_sectors s)"
    using p b by (simp add: fat_pos_def unat_word_ariths)
  have "unat (s_fat_start_lba s + k * s_fat_size_sectors s) = unat (s_fat_start_lba s) + unat k * unat (s_fat_size_sectors s)"
    using p b k by (subst unat_add_u32) (simp_all add: fat_pos_def)
  then have "unat (s_fat_start_lba s + k * s_fat_size_sectors s + c * 4 div 512) = fat_pos s (unat k) c"
    using p b by (subst unat_add_u32) (simp_all add: fat_pos_def fat_offset [OF assms(1,2)])
  then show ?thesis by (simp only: unat_ucast_u32)
qed

lemma fat_read_entry_spec:
  assumes ok: "fat_disk_ok drv view bytes_of s" and vol: "volume_sound s"
  shows "wp (fat_read_entry drv c) (\<lambda>r s'. same_disk view s s' \<and> cluster_buf s' = cluster_buf s \<and>
    (\<forall>v. r = Some v \<longrightarrow> 1 \<le> c \<and> c \<le> s_max_cluster s \<and> v = fatv view s c)) s"
proof (cases "c < 1 \<or> c > s_max_cluster s")
  case True
  then show ?thesis by (auto simp: fat_read_entry_def wp_def)
next
  case False
  then have c: "c \<le> s_max_cluster s" "1 \<le> c" using linorder_not_less by blast+
  have n: "unat (0 :: u32) < unat (s_num_fats s)" using vol by (simp add: volume_sound_def)
  have lba: "unat (ucast (s_fat_start_lba s + c * 4 div 512) :: u64) = fat_pos s 0 c" using fat_lba [OF vol c(1) n] by simp
  have rdy: "s_ready s" using vol by (simp add: volume_sound_def)
  have "wp (disk_read drv (ucast (s_fat_start_lba s + c * 4 div 512)) 1)
      (\<lambda>r s'. same_disk view s s' \<and> cluster_buf s' = cluster_buf s \<and>
        (\<forall>v. map_option (\<lambda>buf. rd_u32 buf (unat (c * 4 mod 512)) AND 0x0FFFFFFF) r = Some v \<longrightarrow> 1 \<le> c \<and> c \<le> s_max_cluster s \<and> v = fatv view s c)) s"
    by (rule wp_mono [OF sector_read_spec [OF ok]]) (auto simp: lba fat_copy_def fat_offset [OF vol c(1)] c)
  then show ?thesis using False rdy fat_offset(3) [OF vol c(1)] by (simp add: fat_read_entry_def Let_def not_le)
qed

lemma fat_set_copies_spec:
  assumes "fat_disk_ok drv view bytes_of s" "volume_sound s" "c \<le> s_max_cluster s" "unat copy + n \<le> unat (s_num_fats s)"
  shows "wp (fat_set_copies n drv copy (c * 4 div 512) off v) (\<lambda>r s'. fat_frame s' = fat_frame s \<and> cluster_buf s' = cluster_buf s \<and>
    (\<forall>l. (\<forall>k. unat copy \<le> k \<longrightarrow> k < unat copy + n \<longrightarrow> l \<noteq> fat_pos s k c) \<longrightarrow> secs view s' l = secs view s l) \<and>
    (r \<longrightarrow> (\<forall>k. unat copy \<le> k \<longrightarrow> k < unat copy + n \<longrightarrow> secs view s' (fat_pos s k c) = put_fat_entry off v (secs view s (fat_pos s k c))))) s"
  using assms
proof (induction n arbitrary: s copy)
  case (Suc n)
  have two: "unat (s_num_fats s) \<le> 2" using Suc.prems(2) by (simp add: volume_sound_def)
  have k: "unat copy < unat (s_num_fats s)" using Suc.prems(4) by simp
  have next_copy: "unat (copy + 1) = unat copy + 1" using Suc.prems(4) two by (subst unat_add_u32) auto
  note lba = fat_lba [OF Suc.prems(2,3) k]
  let ?lba = "ucast (s_fat_start_lba s + copy * s_fat_size_sectors s + c * 4 div 512) :: u64"
  let ?p = "\<lambda>k. fat_pos s k c"
  have fs: "0 < unat (s_fat_size_sectors s)" using Suc.prems(2) by (auto simp: volume_sound_def)
  have inj: "?p k = ?p k' \<longleftrightarrow> k = k'" for k k' using fs by (simp add: fat_pos_def)
  let ?Q = "\<lambda>r s'. fat_frame s' = fat_frame s \<and> cluster_buf s' = cluster_buf s \<and>
    (\<forall>l. (\<forall>k. unat copy \<le> k \<longrightarrow> k < unat copy + Suc n \<longrightarrow> l \<noteq> ?p k) \<longrightarrow> secs view s' l = secs view s l) \<and>
    (r \<longrightarrow> (\<forall>k. unat copy \<le> k \<longrightarrow> k < unat copy + Suc n \<longrightarrow> secs view s' (?p k) = put_fat_entry off v (secs view s (?p k))))"
  have step: "wp (case r of None \<Rightarrow> State_Monad.return False
      | Some buf \<Rightarrow> do { ok \<leftarrow> disk_write drv ?lba 1 (put_fat_entry off v buf);
          if \<not> ok then State_Monad.return False else fat_set_copies n drv (copy + 1) (c * 4 div 512) off v }) ?Q s1"
    if s1: "same_disk view s s1" "cluster_buf s1 = cluster_buf s" "\<forall>bs. r = Some bs \<longrightarrow> bs = secs view s (unat ?lba)" for r s1
  proof (cases r)
    case None
    then show ?thesis using s1 by (simp add: same_disk_def)
  next
    case (Some buf)
    have buf: "buf = secs view s (?p (unat copy))" using s1(3) Some lba by simp
    have ok1: "fat_disk_ok drv view bytes_of s1" using frame_disk_ok [of s1 s] Suc.prems(1) s1(1) by (simp add: same_disk_def)
    have len: "length (put_fat_entry off v buf) = 512" using length_secs [OF Suc.prems(1)] buf by simp
    have "wp (disk_write drv ?lba 1 (put_fat_entry off v buf))
        (\<lambda>ok. wp (if \<not> ok then State_Monad.return False else fat_set_copies n drv (copy + 1) (c * 4 div 512) off v) ?Q) s1"
    proof (rule wp_mono [OF sector_write_spec [OF ok1 len]])
      fix ok s2
      assume w: "fat_frame s2 = fat_frame s1 \<and> cluster_buf s2 = cluster_buf s1 \<and>
        (\<forall>l. l \<noteq> unat ?lba \<longrightarrow> secs view s2 l = secs view s1 l) \<and> (ok \<longrightarrow> secs view s2 (unat ?lba) = put_fat_entry off v buf)"
      have fr: "fat_frame s2 = fat_frame s" using w s1 by (simp add: same_disk_def)
      have sec2: "secs view s2 l = secs view s l" if "l \<noteq> ?p (unat copy)" for l using w s1 that lba by (simp add: same_disk_def)
      show "wp (if \<not> ok then State_Monad.return False else fat_set_copies n drv (copy + 1) (c * 4 div 512) off v) ?Q s2"
      proof (cases ok)
        case False
        then show ?thesis using fr w s1 sec2 by auto
      next
        case True
        have "wp (fat_set_copies n drv (copy + 1) (c * 4 div 512) off v) ?Q s2"
        proof (rule wp_mono [OF Suc.IH])
          show "fat_disk_ok drv view bytes_of s2" "volume_sound s2" "c \<le> s_max_cluster s2" "unat (copy + 1) + n \<le> unat (s_num_fats s2)"
            using Suc.prems next_copy frame_disk_ok [OF fr] frame_sound(1) [OF fr] frame_fields [OF fr] by simp_all
        next
          fix r s3
          assume a: "fat_frame s3 = fat_frame s2 \<and> cluster_buf s3 = cluster_buf s2 \<and>
            (\<forall>l. (\<forall>k. unat (copy + 1) \<le> k \<longrightarrow> k < unat (copy + 1) + n \<longrightarrow> l \<noteq> fat_pos s2 k c) \<longrightarrow> secs view s3 l = secs view s2 l) \<and>
            (r \<longrightarrow> (\<forall>k. unat (copy + 1) \<le> k \<longrightarrow> k < unat (copy + 1) + n \<longrightarrow> secs view s3 (fat_pos s2 k c) = put_fat_entry off v (secs view s2 (fat_pos s2 k c))))"
          note a = a [unfolded frame_sound(2) [OF fr] next_copy]
          have same: "secs view s3 (?p (unat copy)) = secs view s2 (?p (unat copy))" using a inj by auto
          show "?Q r s3"
          proof (intro conjI allI impI)
            fix l assume l: "\<forall>k. unat copy \<le> k \<longrightarrow> k < unat copy + Suc n \<longrightarrow> l \<noteq> ?p k"
            then have "secs view s3 l = secs view s2 l" using a by auto
            then show "secs view s3 l = secs view s l" using sec2 l by auto
          next
            fix k assume r and k: "unat copy \<le> k" "k < unat copy + Suc n"
            show "secs view s3 (?p k) = put_fat_entry off v (secs view s (?p k))"
            proof (cases "k = unat copy")
              case True
              then show ?thesis using same w \<open>ok\<close> buf lba by simp
            next
              case False
              then show ?thesis using a \<open>r\<close> k sec2 [of "?p k"] inj by auto
            qed
          qed (use a w s1 fr in auto)
        qed
        then show ?thesis using True by simp
      qed
    qed
    then show ?thesis using Some by simp
  qed
  show ?case
    unfolding fat_set_copies.simps Let_def wp_bind wp_get
    by (rule wp_mono [OF sector_read_spec [OF Suc.prems(1)]]) (use step in auto)
qed simp

lemma fat_set_entry_spec:
  assumes ok: "fat_disk_ok drv view bytes_of s" and vol: "volume_sound s"
  shows "wp (fat_set_entry drv c v) (\<lambda>r s'. fat_frame s' = fat_frame s \<and> cluster_buf s' = cluster_buf s \<and>
    (\<forall>l. l < unat (s_fat_start_lba s) \<or> unat (s_data_start_lba s) \<le> l \<longrightarrow> secs view s' l = secs view s l) \<and>
    (r \<longrightarrow> 1 \<le> c \<and> c \<le> s_max_cluster s \<and> (\<forall>k x. k < unat (s_num_fats s) \<longrightarrow> x \<le> s_max_cluster s \<longrightarrow>
       fat_copy view s' k x = (if x = c then v AND 0x0FFFFFFF else fat_copy view s k x)))) s"
proof (cases "c < 1 \<or> c > s_max_cluster s")
  case True
  then show ?thesis by (auto simp: fat_set_entry_def wp_def)
next
  case False
  then have c: "c \<le> s_max_cluster s" "1 \<le> c" using linorder_not_less by blast+
  have rdy: "s_ready s" using vol by (simp add: volume_sound_def)
  let ?off = "unat c mod 128 * 4"
  have fs: "0 < unat (s_fat_size_sectors s)" using vol by (auto simp: volume_sound_def)
  have "wp (fat_set_copies (unat (s_num_fats s)) drv 0 (c * 4 div 512) ?off v) (\<lambda>r s'. fat_frame s' = fat_frame s \<and> cluster_buf s' = cluster_buf s \<and>
    (\<forall>l. l < unat (s_fat_start_lba s) \<or> unat (s_data_start_lba s) \<le> l \<longrightarrow> secs view s' l = secs view s l) \<and>
    (r \<longrightarrow> 1 \<le> c \<and> c \<le> s_max_cluster s \<and> (\<forall>k x. k < unat (s_num_fats s) \<longrightarrow> x \<le> s_max_cluster s \<longrightarrow>
       fat_copy view s' k x = (if x = c then v AND 0x0FFFFFFF else fat_copy view s k x)))) s"
  proof (rule wp_mono [OF fat_set_copies_spec [OF ok vol c(1), of 0]])
    fix r s'
    assume "fat_frame s' = fat_frame s \<and> cluster_buf s' = cluster_buf s \<and>
      (\<forall>l. (\<forall>k. unat (0 :: u32) \<le> k \<longrightarrow> k < unat (0 :: u32) + unat (s_num_fats s) \<longrightarrow> l \<noteq> fat_pos s k c) \<longrightarrow> secs view s' l = secs view s l) \<and>
      (r \<longrightarrow> (\<forall>k. unat (0 :: u32) \<le> k \<longrightarrow> k < unat (0 :: u32) + unat (s_num_fats s) \<longrightarrow> secs view s' (fat_pos s k c) = put_fat_entry ?off v (secs view s (fat_pos s k c))))"
    then have a: "fat_frame s' = fat_frame s" "cluster_buf s' = cluster_buf s"
      "\<And>l. (\<forall>k. k < unat (s_num_fats s) \<longrightarrow> l \<noteq> fat_pos s k c) \<Longrightarrow> secs view s' l = secs view s l"
      "\<And>k. r \<Longrightarrow> k < unat (s_num_fats s) \<Longrightarrow> secs view s' (fat_pos s k c) = put_fat_entry ?off v (secs view s (fat_pos s k c))"
      by auto
    have entry: "fat_copy view s' k x = (if x = c then v AND 0x0FFFFFFF else fat_copy view s k x)"
      if "r" "k < unat (s_num_fats s)" "x \<le> s_max_cluster s" for k x
    proof (cases "unat x div 128 = unat c div 128")
      case True
      then have pos: "fat_pos s k x = fat_pos s k c" by (simp add: fat_pos_def)
      have len: "length (secs view s (fat_pos s k c)) = 512" by (rule length_secs [OF ok])
      show ?thesis
      proof (cases "x = c")
        case True
        then show ?thesis using a(4) [OF that(1,2)] len rd_put_same [of ?off]
          by (simp add: fat_copy_def frame_sound(2) [OF a(1)])
      next
        case False
        have "unat x mod 128 \<noteq> unat c mod 128" using False True by (metis div_mod_decomp word_unat_eq_iff)
        then have "unat x mod 128 * 4 + 3 < ?off \<or> ?off + 3 < unat x mod 128 * 4" by linarith
        then show ?thesis using a(4) [OF that(1,2)] len False pos rd_put_other [of ?off _ "unat x mod 128 * 4"]
          by (simp add: fat_copy_def frame_sound(2) [OF a(1)])
      qed
    next
      case False
      have "fat_pos s k x \<noteq> fat_pos s k' c" for k'
      proof
        assume e: "fat_pos s k x = fat_pos s k' c"
        have "unat x div 128 < unat (s_fat_size_sectors s)" "unat c div 128 < unat (s_fat_size_sectors s)"
          using fat_offset [OF vol that(3)] fat_offset [OF vol c(1)] by (simp_all add: word_less_nat_alt)
        moreover have "k * unat (s_fat_size_sectors s) + unat x div 128 = k' * unat (s_fat_size_sectors s) + unat c div 128"
          using e by (simp add: fat_pos_def)
        ultimately have "(unat x div 128) = (unat c div 128)" by (metis mod_less mod_mult_self3)
        then show False using False by simp
      qed
      then show ?thesis using a(3) False by (auto simp: fat_copy_def frame_sound(2) [OF a(1)])
    qed
    have "secs view s' l = secs view s l" if "l < unat (s_fat_start_lba s) \<or> unat (s_data_start_lba s) \<le> l" for l
      using that a(3) fat_pos_bound [OF vol c(1)] by (metis not_less)
    then show "fat_frame s' = fat_frame s \<and> cluster_buf s' = cluster_buf s \<and>
      (\<forall>l. l < unat (s_fat_start_lba s) \<or> unat (s_data_start_lba s) \<le> l \<longrightarrow> secs view s' l = secs view s l) \<and>
      (r \<longrightarrow> 1 \<le> c \<and> c \<le> s_max_cluster s \<and> (\<forall>k x. k < unat (s_num_fats s) \<longrightarrow> x \<le> s_max_cluster s \<longrightarrow>
         fat_copy view s' k x = (if x = c then v AND 0x0FFFFFFF else fat_copy view s k x)))"
      using a(1,2) entry c by blast
  qed simp
  then show ?thesis using False rdy fat_offset [OF vol c(1)] by (simp add: fat_set_entry_def Let_def not_le)
qed

subsection \<open>Clusters\<close>

definition cluster_pos :: "('d, 'x) fat32_scheme \<Rightarrow> u32 \<Rightarrow> nat" where
  "cluster_pos s c = unat (s_data_start_lba s) + (unat c - 2) * unat (s_sectors_per_cluster s)"

definition dat :: "'d media \<Rightarrow> ('d, 'x) fat32_scheme \<Rightarrow> u32 \<Rightarrow> u8 list" where
  "dat view s c = span (secs view s) (cluster_pos s c) (unat (s_sectors_per_cluster s))"

abbreviation csize :: "('d, 'x) fat32_scheme \<Rightarrow> nat" where
  "csize s \<equiv> unat (s_sectors_per_cluster s) * 512"

lemma frame_cluster_pos:
  assumes "fat_frame s' = fat_frame s"
  shows "cluster_pos s' c = cluster_pos s c"
  unfolding cluster_pos_def frame_fields [OF assms] ..

lemma valid_cluster_nat: "valid_cluster s c \<longleftrightarrow> 2 \<le> unat c \<and> unat c \<le> unat (s_max_cluster s)"
  by (simp add: valid_cluster_def word_le_nat_alt)

lemma cluster_area:
  assumes "volume_sound s" "valid_cluster s c"
  shows "cluster_pos s c + unat (s_sectors_per_cluster s) \<le> unat (s_data_start_lba s) + (unat (s_max_cluster s) - 1) * unat (s_sectors_per_cluster s)"
    "cluster_pos s c + unat (s_sectors_per_cluster s) \<le> unat (s_partition_lba s) + unat (s_partition_sectors s)"
    "cluster_pos s c + unat (s_sectors_per_cluster s) \<le> 2 ^ 28"
proof -
  have "2 \<le> unat c" "unat c \<le> unat (s_max_cluster s)" using assms(2) unfolding valid_cluster_nat by blast+
  then have "unat c - 2 + 1 \<le> unat (s_max_cluster s) - 1" by arith
  then have "(unat c - 2 + 1) * unat (s_sectors_per_cluster s) \<le> (unat (s_max_cluster s) - 1) * unat (s_sectors_per_cluster s)"
    by (rule mult_le_mono1)
  then have le: "(unat c - 2) * unat (s_sectors_per_cluster s) + unat (s_sectors_per_cluster s) \<le> (unat (s_max_cluster s) - 1) * unat (s_sectors_per_cluster s)"
    by (simp add: algebra_simps)
  show 1: "cluster_pos s c + unat (s_sectors_per_cluster s) \<le> unat (s_data_start_lba s) + (unat (s_max_cluster s) - 1) * unat (s_sectors_per_cluster s)"
    using le by (simp add: cluster_pos_def)
  have 2: "unat (s_data_start_lba s) + (unat (s_max_cluster s) - 1) * unat (s_sectors_per_cluster s) \<le> unat (s_partition_lba s) + unat (s_partition_sectors s)"
    "unat (s_partition_lba s) + unat (s_partition_sectors s) \<le> 2 ^ 28"
    using assms(1) unfolding volume_sound_def by blast+
  show "cluster_pos s c + unat (s_sectors_per_cluster s) \<le> unat (s_partition_lba s) + unat (s_partition_sectors s)"
    using 1 2(1) by (rule order_trans)
  then show "cluster_pos s c + unat (s_sectors_per_cluster s) \<le> 2 ^ 28" using 2(2) by (rule order_trans)
qed

lemma cluster_to_lba_pos:
  assumes vol: "volume_sound s" and c: "valid_cluster s c"
  shows "\<exists>lba. cluster_to_lba s c = Some lba \<and> unat lba = cluster_pos s c"
proof -
  note a = cluster_area [OF vol c]
  have spc: "1 \<le> unat (s_sectors_per_cluster s)" using vol by (simp add: volume_sound_def)
  have c2: "unat (c - 2) = unat c - 2" using c by (subst unat_sub) (simp_all add: valid_cluster_def word_le_nat_alt)
  define rel where "rel = (c - 2) * s_sectors_per_cluster s"
  have rel: "unat rel = (unat c - 2) * unat (s_sectors_per_cluster s)"
    using a(3) by (simp add: rel_def unat_word_ariths c2 cluster_pos_def)
  have fat: "unat (s_partition_lba s) \<le> unat (s_data_start_lba s)" using vol unfolding volume_sound_def by linarith
  have 1: "\<not> rel > s_partition_sectors s"
    using a(2) fat unfolding cluster_pos_def rel [symmetric] word_less_nat_alt by linarith
  have b: "unat (s_data_start_lba s) + unat rel \<le> 0x0FFFFFFF" using a(3) spc unfolding cluster_pos_def rel [symmetric] by simp
  have "unat (0x0FFFFFFF - rel) = 0x0FFFFFFF - unat rel" using b by (subst unat_sub) (simp_all add: word_le_nat_alt)
  then have 2: "\<not> s_data_start_lba s > 0x0FFFFFFF - rel" using b by (simp add: word_less_nat_alt)
  have "unat (s_data_start_lba s + rel) = cluster_pos s c" using b rel by (subst unat_add_u32) (simp_all add: cluster_pos_def)
  then show ?thesis using c 1 2 by (simp add: cluster_to_lba_def Let_def rel_def [symmetric])
qed

lemma length_dat: "fat_disk_ok drv view bytes_of s \<Longrightarrow> length (dat view s c) = csize s"
  unfolding dat_def by (rule length_span) (rule length_secs)

lemma span_cong: "(\<And>k. l \<le> k \<Longrightarrow> k < l + n \<Longrightarrow> v k = v' k) \<Longrightarrow> span v l n = span v' l n"
  unfolding span_def by (auto intro!: arg_cong [where f = concat] map_cong)

lemma span_overwrite_same:
  assumes "n * 512 \<le> length buf"
  shows "span (overwrite 512 l n buf v) l n = take (n * 512) buf"
  using assms
proof (induction n)
  case (Suc n)
  have "span (overwrite 512 l (Suc n) buf v) l n = span (overwrite 512 l n buf v) l n"
    by (rule span_cong) (simp add: overwrite_def)
  moreover have "span (overwrite 512 l (Suc n) buf v) l (n + 1) = span (overwrite 512 l (Suc n) buf v) l n @ take 512 (drop (n * 512) buf)"
    by (simp add: span_def overwrite_def)
  ultimately show ?case using Suc by (simp add: take_add [of "n * 512" 512 buf, symmetric] add.commute)
qed (simp add: span_def)

lemma frame_dat:
  assumes "same_disk view s s'"
  shows "dat view s' c = dat view s c" "fat_copy view s' k c = fat_copy view s k c"
  using assms frame_fields(7) [of s' s] frame_cluster_pos [of s' s] frame_sound(2) [of s' s]
  by (simp_all add: dat_def fat_copy_def same_disk_def)

lemma read_cluster_spec:
  assumes ok: "fat_disk_ok drv view bytes_of s" and vol: "volume_sound s"
  shows "wp (read_cluster drv c) (\<lambda>r s'. same_disk view s s' \<and>
    (r \<longrightarrow> valid_cluster s c \<and> cluster_buf s' = dat view s c @ drop (csize s) (cluster_buf s))) s"
proof (cases "valid_cluster s c")
  case False
  then show ?thesis by (simp add: wp_def read_cluster_def cluster_to_lba_def)
next
  case True
  obtain lba where lba: "cluster_to_lba s c = Some lba" "unat lba = cluster_pos s c" using cluster_to_lba_pos [OF vol True] by blast
  obtain q b d where rd: "block_read drv (s_block_device s) (ucast lba) (s_sectors_per_cluster s) (m_blocks s) (m_dev s) = (q, b, d)"
    by (cases "block_read drv (s_block_device s) (ucast lba) (s_sectors_per_cluster s) (m_blocks s) (m_dev s)") auto
  note r = block_read_ok [OF _ _ rd, of view bytes_of]
  have "view d = view (m_dev s)" and q: "q = 0 \<Longrightarrow> b = dat view s c"
    using ok r by (auto simp: fat_disk_ok_def dat_def secs_def lba(2) unat_ucast_u32)
  moreover have "q = 0 \<Longrightarrow> length b = csize s" using q length_dat [OF ok] by simp
  ultimately show ?thesis using ok rd lba(1) True
    by (auto simp: wp_def read_cluster_def same_disk_def secs_def fat_disk_ok_def)
qed

lemma cluster_disjoint:
  assumes "valid_cluster s c" "valid_cluster s x" "x \<noteq> c"
    and k: "cluster_pos s x \<le> k" "k < cluster_pos s x + unat (s_sectors_per_cluster s)"
  shows "k < cluster_pos s c \<or> cluster_pos s c + unat (s_sectors_per_cluster s) \<le> k"
proof -
  let ?n = "unat (s_sectors_per_cluster s)"
  have "unat x \<noteq> unat c" using assms(3) by (simp add: word_unat_eq_iff)
  moreover have "2 \<le> unat x" "2 \<le> unat c" using assms(1,2) unfolding valid_cluster_nat by blast+
  ultimately consider "unat x - 2 + 1 \<le> unat c - 2" | "unat c - 2 + 1 \<le> unat x - 2" by arith
  then show ?thesis
  proof cases
    case 1
    then have "(unat x - 2 + 1) * ?n \<le> (unat c - 2) * ?n" by (rule mult_le_mono1)
    then show ?thesis using k by (simp add: cluster_pos_def)
  next
    case 2
    then have "(unat c - 2 + 1) * ?n \<le> (unat x - 2) * ?n" by (rule mult_le_mono1)
    then show ?thesis using k by (simp add: cluster_pos_def)
  qed
qed

lemma write_cluster_spec:
  assumes ok: "fat_disk_ok drv view bytes_of s" and vol: "volume_sound s" and len: "csize s \<le> length buf"
  shows "wp (write_cluster drv c buf) (\<lambda>r s'. fat_frame s' = fat_frame s \<and> cluster_buf s' = cluster_buf s \<and>
    (\<forall>k x. k < unat (s_num_fats s) \<longrightarrow> x \<le> s_max_cluster s \<longrightarrow> fat_copy view s' k x = fat_copy view s k x) \<and>
    (\<forall>x. valid_cluster s x \<longrightarrow> x \<noteq> c \<longrightarrow> dat view s' x = dat view s x) \<and>
    (r \<longrightarrow> valid_cluster s c \<and> dat view s' c = take (csize s) buf)) s"
proof (cases "valid_cluster s c")
  case False
  then show ?thesis by (simp add: wp_def write_cluster_def cluster_to_lba_def)
next
  case True
  obtain lba where lba: "cluster_to_lba s c = Some lba" "unat lba = cluster_pos s c" using cluster_to_lba_pos [OF vol True] by blast
  let ?n = "unat (s_sectors_per_cluster s)"
  have "wp (disk_write drv (ucast lba) (s_sectors_per_cluster s) buf) (\<lambda>r s'. fat_frame s' = fat_frame s \<and> cluster_buf s' = cluster_buf s \<and>
    (\<forall>k x. k < unat (s_num_fats s) \<longrightarrow> x \<le> s_max_cluster s \<longrightarrow> fat_copy view s' k x = fat_copy view s k x) \<and>
    (\<forall>x. valid_cluster s x \<longrightarrow> x \<noteq> c \<longrightarrow> dat view s' x = dat view s x) \<and>
    (r \<longrightarrow> valid_cluster s c \<and> dat view s' c = take (csize s) buf)) s"
  proof (rule wp_mono [OF disk_write_spec [OF ok len]], unfold unat_ucast_u32 lba(2))
    fix r s'
    assume w: "fat_frame s' = fat_frame s \<and> cluster_buf s' = cluster_buf s \<and> within (cluster_pos s c) ?n (secs view s) (secs view s') \<and>
      (r \<longrightarrow> secs view s' = overwrite 512 (cluster_pos s c) ?n buf (secs view s))"
    then have fr: "fat_frame s' = fat_frame s" by simp
    note ff = frame_fields(7) [OF fr] frame_cluster_pos [OF fr] frame_sound(2) [OF fr]
    have out: "secs view s' l = secs view s l" if "l < cluster_pos s c \<or> cluster_pos s c + ?n \<le> l" for l
      using w that by (auto simp: within_def)
    have "fat_copy view s' k x = fat_copy view s k x" if "k < unat (s_num_fats s)" "x \<le> s_max_cluster s" for k x
      using out [of "fat_pos s k x"] fat_pos_bound(1) [OF vol that(2,1)] by (simp add: fat_copy_def ff cluster_pos_def)
    moreover have "dat view s' x = dat view s x" if "valid_cluster s x" "x \<noteq> c" for x
      unfolding dat_def ff by (rule span_cong) (use out cluster_disjoint [OF True that] in blast)
    moreover have "dat view s' c = take (csize s) buf" if r
      using that w span_overwrite_same [OF len] by (simp add: dat_def ff)
    ultimately show "fat_frame s' = fat_frame s \<and> cluster_buf s' = cluster_buf s \<and>
      (\<forall>k x. k < unat (s_num_fats s) \<longrightarrow> x \<le> s_max_cluster s \<longrightarrow> fat_copy view s' k x = fat_copy view s k x) \<and>
      (\<forall>x. valid_cluster s x \<longrightarrow> x \<noteq> c \<longrightarrow> dat view s' x = dat view s x) \<and>
      (r \<longrightarrow> valid_cluster s c \<and> dat view s' c = take (csize s) buf)"
      using w True by blast
  qed
  then show ?thesis using lba(1) by (simp add: write_cluster_def)
qed

text \<open>Setting an entry leaves the data of every cluster alone.\<close>

lemma frame_dat_outside:
  assumes "fat_frame s' = fat_frame s" "\<forall>l. l < a \<or> unat (s_data_start_lba s) \<le> l \<longrightarrow> secs view s' l = secs view s l"
  shows "dat view s' x = dat view s x"
  unfolding dat_def frame_fields(7) [OF assms(1)] frame_cluster_pos [OF assms(1)]
  by (rule span_cong) (use assms(2) in \<open>auto simp: cluster_pos_def\<close>)

end
