(* ===== verification/Fat32_Files.thy ===== *)
theory Fat32_Files
  imports Fat32_Disk
begin

text \<open>
  Cluster chains: finding a free cluster, allocating the chain of a file, following and reading a chain. The chain that is written reads back
  as the bytes of the file and touches no cluster that was in use.
\<close>

subsection \<open>Free clusters\<close>

lemma unat_cluster_bytes: "volume_sound s \<Longrightarrow> unat (cluster_bytes s) = csize s"
  by (simp add: cluster_bytes_def volume_sound_def unat_word_ariths)

lemma sector_cluster:
  assumes "unat i < 2 ^ 25" "e < 128"
  shows "unat (i * 128 + word_of_nat e :: u32) = unat i * 128 + e"
proof -
  have "unat (i * 128) = unat i * 128" using assms(1) by (simp add: unat_word_ariths)
  moreover have "unat (word_of_nat e :: u32) = e" using assms(2) by (simp add: unsigned_of_nat take_bit_nat_eq_self)
  ultimately show ?thesis using assms by (subst unat_add_u32) simp_all
qed

lemma free_in_sector_spec:
  assumes "free_in_sector s i (secs view s (unat (s_fat_start_lba s) + unat i)) = Some c" "unat i < 2 ^ 25"
  shows "valid_cluster s c \<and> fatv view s c = 0"
proof -
  obtain e where e: "e < 128" "c = i * 128 + word_of_nat e" "valid_cluster s c"
    "rd_u32 (secs view s (unat (s_fat_start_lba s) + unat i)) (e * 4) AND 0x0FFFFFFF = 0"
    using assms(1) by (auto simp: free_in_sector_def first_from_Some_iff Let_def valid_cluster_def not_less simp del: first_from_numeral)
  have u: "unat c = unat i * 128 + e" using sector_cluster [OF assms(2) e(1)] e(2) by simp
  then show ?thesis using e by (simp add: fat_copy_def fat_pos_def)
qed

lemma find_free_loop_spec:
  assumes "fat_disk_ok drv view bytes_of s" "volume_sound s" "unat i + n \<le> unat (s_fat_size_sectors s)" "unat (s_fat_size_sectors s) \<le> 2 ^ 25"
  shows "wp (find_free_loop n drv i) (\<lambda>c s'. same_disk view s s' \<and> cluster_buf s' = cluster_buf s \<and>
    (c \<noteq> 0 \<longrightarrow> valid_cluster s c \<and> fatv view s c = 0)) s"
  using assms
proof (induction n arbitrary: s i)
  case (Suc n)
  have i: "unat i < 2 ^ 25" using Suc.prems(3,4) by simp
  have f: "unat (s_fat_start_lba s) \<le> 2 ^ 28" using Suc.prems(2) sound_bounds(2) [OF Suc.prems(2)] unfolding volume_sound_def by simp
  have lba: "unat (ucast (s_fat_start_lba s + i) :: u64) = unat (s_fat_start_lba s) + unat i"
    using i f by (simp add: unat_ucast_u32 unat_add_u32)
  have step: "unat (i + 1) + n \<le> unat (s_fat_size_sectors s)" using Suc.prems(3) i by (simp add: unat_add_u32)
  have *: "wp (find_free_loop n drv (i + 1)) (\<lambda>c s'. same_disk view s s' \<and> cluster_buf s' = cluster_buf s \<and>
      (c \<noteq> 0 \<longrightarrow> valid_cluster s c \<and> fatv view s c = 0)) s1"
    if s1: "same_disk view s s1" "cluster_buf s1 = cluster_buf s" for s1
  proof -
    have fr: "fat_frame s1 = fat_frame s" using s1(1) by (simp add: same_disk_def)
    show ?thesis
      by (rule wp_mono [OF Suc.IH])
        (use Suc.prems step s1 same_disk_trans [OF s1(1)] frame_disk_ok [OF fr] frame_sound [OF fr] frame_fields(9) [OF fr]
           frame_derived(1) [OF fr] frame_dat [OF s1(1)] in \<open>auto\<close>)
  qed
  show ?case
    unfolding find_free_loop.simps wp_bind wp_get
    by (rule wp_mono [OF sector_read_spec [OF Suc.prems(1)]])
      (use * free_in_sector_spec [OF _ i, of s view] in \<open>auto simp: lba split: option.splits\<close>)
qed simp

lemma find_free_cluster_spec:
  assumes "fat_disk_ok drv view bytes_of s" "volume_sound s" "unat (s_fat_size_sectors s) \<le> 2 ^ 25"
  shows "wp (find_free_cluster drv) (\<lambda>c s'. same_disk view s s' \<and> cluster_buf s' = cluster_buf s \<and>
    (c \<noteq> 0 \<longrightarrow> valid_cluster s c \<and> fatv view s c = 0)) s"
  using find_free_loop_spec [OF assms(1,2) _ assms(3), of 0 "unat (s_fat_size_sectors s)"] assms(2)
  by (simp add: find_free_cluster_def volume_sound_def)

subsection \<open>Chains\<close>

text \<open>The clusters of a file in order, as the table links them: each entry names the next cluster, the last one is an end mark.\<close>

fun links :: "(u32 \<Rightarrow> u32) \<Rightarrow> u32 list \<Rightarrow> bool" where
  "links f [] \<longleftrightarrow> True"
| "links f [c] \<longleftrightarrow> f c = FAT32_EOC"
| "links f (c # d # cs) \<longleftrightarrow> f c = d \<and> links f (d # cs)"

lemma links_cong: "(\<And>c. c \<in> set cs \<Longrightarrow> f c = g c) \<Longrightarrow> links f cs = links g cs"
  by (induction f cs rule: links.induct) auto

text \<open>The content of \<open>n\<close> clusters of \<open>b\<close> bytes that hold the bytes \<open>d\<close>: zeros fill the rest.\<close>

definition padded :: "nat \<Rightarrow> nat \<Rightarrow> u8 list \<Rightarrow> u8 list" where
  "padded b n d = take (n * b) (d @ replicate (n * b) 0)"

lemma padded_Suc: "padded b (Suc n) d = padded b 1 d @ padded b n (drop b d)"
proof -
  have "take (b + n * b) (d @ replicate (b + n * b) 0) = take b (d @ replicate (b + n * b) 0) @ take (n * b) (drop b (d @ replicate (b + n * b) 0))"
    by (rule take_add)
  moreover have "take b (d @ replicate (b + n * b) 0) = take b (d @ replicate b 0)"
    by (simp add: replicate_add)
  moreover have "take m (drop b (d @ replicate (b + m) 0)) = take m (drop b d @ replicate m 0)" for m
    by (cases "b \<le> length d") simp_all
  ultimately show ?thesis by (simp add: padded_def)
qed

lemma take_padded: "length d \<le> n * b \<Longrightarrow> j \<le> length d \<Longrightarrow> take j (padded b n d) = take j d"
  by (simp add: padded_def)

subsection \<open>Allocating a chain\<close>

lemma valid_cluster_le: "valid_cluster s x \<Longrightarrow> x \<le> s_max_cluster s"
  by (simp add: valid_cluster_def)

lemma set_entry_spec:
  assumes ok: "fat_disk_ok drv view bytes_of s" and vol: "volume_sound s"
  shows "wp (fat_set_entry drv c v) (\<lambda>r s'. fat_frame s' = fat_frame s \<and> cluster_buf s' = cluster_buf s \<and> (\<forall>x. dat view s' x = dat view s x) \<and>
    (r \<longrightarrow> (\<forall>k x. k < unat (s_num_fats s) \<longrightarrow> x \<le> s_max_cluster s \<longrightarrow>
       fat_copy view s' k x = (if x = c then v AND 0x0FFFFFFF else fat_copy view s k x)))) s"
  by (rule wp_mono [OF fat_set_entry_spec [OF ok vol]]) (use frame_dat_outside in blast)

lemma release_clusters_spec:
  assumes "fat_disk_ok drv view bytes_of s" "volume_sound s"
  shows "wp (release_clusters drv cs) (\<lambda>_ s'. fat_frame s' = fat_frame s \<and> (\<forall>x. dat view s' x = dat view s x)) s"
  using assms
proof (induction cs arbitrary: s)
  case (Cons c cs)
  show ?case
    unfolding release_clusters.simps wp_bind
  proof (rule wp_mono [OF set_entry_spec [OF Cons.prems, of c 0]])
    fix r s1
    assume 1: "fat_frame s1 = fat_frame s \<and> cluster_buf s1 = cluster_buf s \<and> (\<forall>x. dat view s1 x = dat view s x) \<and>
      (r \<longrightarrow> (\<forall>k x. k < unat (s_num_fats s) \<longrightarrow> x \<le> s_max_cluster s \<longrightarrow>
         fat_copy view s1 k x = (if x = c then 0 AND 0x0FFFFFFF else fat_copy view s k x)))"
    then have fr: "fat_frame s1 = fat_frame s" by simp
    show "wp (release_clusters drv cs) (\<lambda>_ s'. fat_frame s' = fat_frame s \<and> (\<forall>x. dat view s' x = dat view s x)) s1"
      by (rule wp_mono [OF Cons.IH]) (use Cons.prems 1 frame_disk_ok [OF fr] frame_sound [OF fr] in \<open>simp_all\<close>)
  qed
qed simp

text \<open>
  \<open>grown view s al n rest s' new\<close>: from state \<open>s\<close>, where the chain under construction is \<open>al\<close>, to \<open>s'\<close> the \<open>n\<close> clusters \<open>new\<close> were taken. They were
  free, they follow the last cluster of \<open>al\<close> in every copy of the table, they hold the bytes \<open>rest\<close>, and nothing else changed.
\<close>

definition chain_end :: "u32 list \<Rightarrow> u32 list" where
  "chain_end al = (if al = [] then [] else [last al])"

definition grown :: "'d media \<Rightarrow> ('d, 'x) fat32_scheme \<Rightarrow> u32 list \<Rightarrow> nat \<Rightarrow> u8 list \<Rightarrow> ('d, 'x) fat32_scheme \<Rightarrow> u32 list \<Rightarrow> bool" where
  "grown view s al n rest s' new \<longleftrightarrow> length new = n \<and> distinct new \<and> (\<forall>c\<in>set new. valid_cluster s c \<and> fatv view s c = 0) \<and>
     (\<forall>k < unat (s_num_fats s). links (fat_copy view s' k) (chain_end al @ new)) \<and>
     (\<forall>k x. k < unat (s_num_fats s) \<longrightarrow> x \<le> s_max_cluster s \<longrightarrow> x \<notin> set (chain_end al @ new) \<longrightarrow> fat_copy view s' k x = fat_copy view s k x) \<and>
     (\<forall>x. valid_cluster s x \<longrightarrow> x \<notin> set new \<longrightarrow> dat view s' x = dat view s x) \<and>
     concat (map (dat view s') new) = padded (csize s) n rest"

definition ends_open :: "'d media \<Rightarrow> ('d, 'x) fat32_scheme \<Rightarrow> u32 list \<Rightarrow> bool" where
  "ends_open view s al \<longleftrightarrow> (\<forall>c \<in> set (chain_end al). valid_cluster s c \<and> (\<forall>k < unat (s_num_fats s). fat_copy view s k c = FAT32_EOC))"

lemma grown_none: "ends_open view s al \<Longrightarrow> grown view s al 0 rest s []"
  by (simp add: grown_def ends_open_def padded_def chain_end_def)

lemma grown_step:
  assumes fr: "fat_frame s5 = fat_frame s" and vol: "volume_sound s" and c: "valid_cluster s c" "fatv view s c = 0" and al: "ends_open view s al"
    and ent: "\<forall>k x. k < unat (s_num_fats s) \<longrightarrow> x \<le> s_max_cluster s \<longrightarrow>
      fat_copy view s5 k x = (if x = c then FAT32_EOC else if x \<in> set (chain_end al) then c else fat_copy view s k x)"
    and dat: "\<forall>x. valid_cluster s x \<longrightarrow> x \<noteq> c \<longrightarrow> dat view s5 x = dat view s x" "dat view s5 c = padded (csize s) 1 rest"
    and g: "grown view s5 (al @ [c]) n (drop (csize s) rest) s' new"
  shows "grown view s al (Suc n) rest s' (c # new)"
proof -
  have nf: "0 < unat (s_num_fats s)" using vol by (simp add: volume_sound_def)
  note ff = frame_fields(7,10,11) [OF fr] frame_derived(1) [OF fr]
  note le = valid_cluster_le [of s]
  have new: "valid_cluster s x" "fatv view s5 x = 0" if "x \<in> set new" for x using g that by (auto simp: grown_def ff)
  have c0: "c \<noteq> 0" using c(1) by (auto simp: valid_cluster_def)
  have cn: "c \<notin> set new" using new(2) [of c] ent nf le [OF c(1)] by auto
  have en: "e \<notin> set new" "e \<noteq> c" if "e \<in> set (chain_end al)" for e
    using that al new(2) [of e] ent nf c c0 le [of e] by (auto simp: ends_open_def split: if_splits)
  have free: "fatv view s x = 0" if "x \<in> set new" for x
    using new [OF that] ent nf le [of x] cn en(1) [of x] that by (auto split: if_splits)
  have keep: "fat_copy view s' k x = fat_copy view s5 k x" if "k < unat (s_num_fats s)" "x \<le> s_max_cluster s" "x \<notin> set new" "x \<noteq> c" for k x
    using g that by (auto simp: grown_def ff chain_end_def)
  have "links (fat_copy view s' k) (chain_end al @ c # new)" if k: "k < unat (s_num_fats s)" for k
  proof (cases "al = []")
    case True then show ?thesis using g k by (simp add: grown_def ff chain_end_def)
  next
    case False
    then have e: "last al \<in> set (chain_end al)" by (simp add: chain_end_def)
    then have "last al \<le> s_max_cluster s" using al le by (auto simp: ends_open_def)
    then have "fat_copy view s' k (last al) = c" using keep k en [OF e] ent e by simp
    then show ?thesis using False g k by (simp add: grown_def ff chain_end_def)
  qed
  moreover have "concat (map (dat view s') (c # new)) = padded (csize s) (Suc n) rest"
  proof -
    have "dat view s' c = dat view s5 c" using g c(1) cn by (auto simp: grown_def ff)
    then show ?thesis using g dat(2) by (simp add: grown_def ff padded_Suc [of _ n])
  qed
  moreover have "\<forall>x. valid_cluster s x \<longrightarrow> x \<notin> set (c # new) \<longrightarrow> dat view s' x = dat view s x"
    using g dat(1) by (auto simp: grown_def ff)
  ultimately show ?thesis
    using g c cn new(1) free keep ent by (auto simp: grown_def)
qed


text \<open>Taking clusters never changes the content of a cluster that was in use, whether or not the device fails on the way.\<close>

definition used_kept :: "'d media \<Rightarrow> ('d, 'x) fat32_scheme \<Rightarrow> ('d, 'x) fat32_scheme \<Rightarrow> bool" where
  "used_kept view s s' \<longleftrightarrow> fat_frame s' = fat_frame s \<and> (\<forall>x. valid_cluster s x \<longrightarrow> fatv view s x \<noteq> 0 \<longrightarrow> dat view s' x = dat view s x)"

lemma chain_failed_spec:
  assumes "fat_disk_ok drv view bytes_of s" "volume_sound s" "used_kept view s0 s"
  shows "wp (chain_failed drv cs) (\<lambda>r s'. r = None \<and> used_kept view s0 s') s"
  unfolding chain_failed_def wp_bind wp_return
  by (rule wp_mono [OF release_clusters_spec [OF assms(1,2)]]) (use assms(3) in \<open>auto simp: used_kept_def\<close>)

lemma and_28_valid: "volume_sound s \<Longrightarrow> valid_cluster s c \<Longrightarrow> c AND 0x0FFFFFFF = c"
  using sound_bounds(1) [of s]
  by (simp add: and_28 valid_cluster_nat word_unat_eq_iff unsigned_take_bit_eq take_bit_nat_eq_self)

text \<open>The second half of one round: the content of the new cluster.\<close>

lemma allocate_fill_spec:
  fixes s t :: "('d, 'x) fat32_scheme"
  assumes ok: "fat_disk_ok drv view bytes_of s" and vol: "volume_sound s" and c: "valid_cluster s c" "fatv view s c = 0" and al: "ends_open view s al"
    and t: "fat_frame t = fat_frame s" "\<forall>x. dat view t x = dat view s x"
    and ent: "\<forall>k x. k < unat (s_num_fats s) \<longrightarrow> x \<le> s_max_cluster s \<longrightarrow>
      fat_copy view t k x = (if x = c then FAT32_EOC else if x \<in> set (chain_end al) then c else fat_copy view s k x)"
    and buf: "csize s \<le> length buf" "take (csize s) buf = padded (csize s) 1 rest"
    and failed: "\<And>t'. used_kept view s t' \<Longrightarrow> wp (failing :: ('d, 'x, u32 list option) fio) Q t'"
    and more: "\<And>t' :: ('d, 'x) fat32_scheme. fat_frame t' = fat_frame s \<Longrightarrow> ends_open view t' (al @ [c]) \<Longrightarrow> used_kept view s t' \<Longrightarrow>
      \<forall>x. valid_cluster s x \<longrightarrow> x \<noteq> c \<longrightarrow> dat view t' x = dat view s x \<Longrightarrow> dat view t' c = padded (csize s) 1 rest \<Longrightarrow>
      \<forall>k x. k < unat (s_num_fats s) \<longrightarrow> x \<le> s_max_cluster s \<longrightarrow>
        fat_copy view t' k x = (if x = c then FAT32_EOC else if x \<in> set (chain_end al) then c else fat_copy view s k x) \<Longrightarrow> wp rest_of_loop Q t'"
  shows "wp (State_Monad.bind (set_cluster_buf buf) (\<lambda>_. State_Monad.bind (write_cluster drv c buf) (\<lambda>ok3. if \<not> ok3 then failing else rest_of_loop))) Q t"
proof -
  define t0 where "t0 = t\<lparr>cluster_buf := buf\<rparr>"
  have t0: "same_disk view t t0" by (simp add: t0_def same_disk_def fat_frame_def secs_def)
  have fr: "fat_frame t0 = fat_frame s" using t0 t(1) by (simp add: same_disk_def)
  note ff = frame_fields(7,10,11) [OF fr] frame_derived(1) [OF fr]
  note d0 = frame_dat [OF t0]
  have set: "wp (set_cluster_buf buf) R t = R () t0" for R by (simp add: wp_def set_cluster_buf_def t0_def)
  have ok0: "fat_disk_ok drv view bytes_of t0" "volume_sound t0" using ok vol frame_disk_ok [OF fr] frame_sound [OF fr] by auto
  show ?thesis
    unfolding wp_bind set
  proof (rule wp_mono [OF write_cluster_spec [OF ok0, of buf c]])
    show "csize t0 \<le> length buf" using buf(1) by (simp add: ff)
  next
    fix r t'
    assume w: "fat_frame t' = fat_frame t0 \<and> cluster_buf t' = cluster_buf t0 \<and>
      (\<forall>k x. k < unat (s_num_fats t0) \<longrightarrow> x \<le> s_max_cluster t0 \<longrightarrow> fat_copy view t' k x = fat_copy view t0 k x) \<and>
      (\<forall>x. valid_cluster t0 x \<longrightarrow> x \<noteq> c \<longrightarrow> dat view t' x = dat view t0 x) \<and>
      (r \<longrightarrow> valid_cluster t0 c \<and> dat view t' c = take (csize t0) buf)"
    have fr': "fat_frame t' = fat_frame s" using w fr by simp
    have keep: "\<forall>x. valid_cluster s x \<longrightarrow> x \<noteq> c \<longrightarrow> dat view t' x = dat view s x" using w t(2) by (simp add: ff d0)
    then have used: "used_kept view s t'" using fr' c(2) by (auto simp: used_kept_def)
    have ent': "\<forall>k x. k < unat (s_num_fats s) \<longrightarrow> x \<le> s_max_cluster s \<longrightarrow>
        fat_copy view t' k x = (if x = c then FAT32_EOC else if x \<in> set (chain_end al) then c else fat_copy view s k x)"
      using w ent by (simp add: ff d0)
    have op: "ends_open view t' (al @ [c])"
      using ent' c(1) frame_fields(11) [OF fr'] frame_derived(1) [OF fr'] valid_cluster_le [OF c(1)] by (simp add: ends_open_def chain_end_def)
    show "wp (if \<not> r then failing else rest_of_loop) Q t'"
      using failed [OF used] more [OF fr' op used keep _ ent'] w buf(2) by (simp add: ff)
  qed
qed

text \<open>The first half: the new cluster is marked as the end of the chain and the old end linked to it.\<close>

lemma allocate_mark_spec:
  fixes s s1 :: "('d, 'x) fat32_scheme"
  assumes ok: "fat_disk_ok drv view bytes_of s" and vol: "volume_sound s" and c: "valid_cluster s c" "fatv view s c = 0" and al: "ends_open view s al"
    and s1: "same_disk view s s1"
    and failed: "\<And>t'. used_kept view s t' \<Longrightarrow> wp (failing :: ('d, 'x, u32 list option) fio) Q t'"
    and more: "\<And>t :: ('d, 'x) fat32_scheme. fat_frame t = fat_frame s \<Longrightarrow> \<forall>x. dat view t x = dat view s x \<Longrightarrow>
      \<forall>k x. k < unat (s_num_fats s) \<longrightarrow> x \<le> s_max_cluster s \<longrightarrow>
        fat_copy view t k x = (if x = c then FAT32_EOC else if x \<in> set (chain_end al) then c else fat_copy view s k x) \<Longrightarrow> wp rest_of_loop Q t"
  shows "wp (State_Monad.bind (fat_set_entry drv c FAT32_EOC) (\<lambda>ok1. if \<not> ok1 then failing else
    State_Monad.bind (if al \<noteq> [] then fat_set_entry drv (last al) c else State_Monad.return True) (\<lambda>ok2. if \<not> ok2 then failing else rest_of_loop))) Q s1"
proof -
  have fr1: "fat_frame s1 = fat_frame s" using s1 by (simp add: same_disk_def)
  note d1 = frame_dat [OF s1] and f1 = frame_fields(10,11) [OF fr1]
  have ok1: "fat_disk_ok drv view bytes_of s1" "volume_sound s1" using ok vol frame_disk_ok [OF fr1] frame_sound [OF fr1] by auto
  have nf: "0 < unat (s_num_fats s)" using vol by (simp add: volume_sound_def)
  show ?thesis
    unfolding wp_bind
  proof (rule wp_mono [OF set_entry_spec [OF ok1, of c FAT32_EOC]])
    fix r s2
    assume w: "fat_frame s2 = fat_frame s1 \<and> cluster_buf s2 = cluster_buf s1 \<and> (\<forall>x. dat view s2 x = dat view s1 x) \<and>
      (r \<longrightarrow> (\<forall>k x. k < unat (s_num_fats s1) \<longrightarrow> x \<le> s_max_cluster s1 \<longrightarrow>
         fat_copy view s2 k x = (if x = c then FAT32_EOC AND 0x0FFFFFFF else fat_copy view s1 k x)))"
    have fr2: "fat_frame s2 = fat_frame s" using w fr1 by simp
    note f2 = frame_fields(10,11) [OF fr2]
    have d2: "\<forall>x. dat view s2 x = dat view s x" using w by (simp add: d1)
    have ok2: "fat_disk_ok drv view bytes_of s2" "volume_sound s2" using ok vol frame_disk_ok [OF fr2] frame_sound [OF fr2] by auto
    show "wp (if \<not> r then failing else
      State_Monad.bind (if al \<noteq> [] then fat_set_entry drv (last al) c else State_Monad.return True) (\<lambda>ok2. if \<not> ok2 then failing else rest_of_loop)) Q s2"
    proof (cases r)
      case False
      then show ?thesis using failed [of s2] fr2 d2 by (simp add: used_kept_def)
    next
      case True
      then have e2: "fat_copy view s2 k x = (if x = c then FAT32_EOC else fat_copy view s k x)" if "k < unat (s_num_fats s)" "x \<le> s_max_cluster s" for k x
        using w that by (simp add: f1 d1)
      show ?thesis
      proof (cases "al = []")
        case True
        have "\<forall>k x. k < unat (s_num_fats s) \<longrightarrow> x \<le> s_max_cluster s \<longrightarrow>
            fat_copy view s2 k x = (if x = c then FAT32_EOC else if x \<in> set (chain_end al) then c else fat_copy view s k x)"
          using e2 True by (simp add: chain_end_def)
        from more [OF fr2 d2 this] show ?thesis using True \<open>r\<close> by simp
      next
        case False
        have e: "valid_cluster s (last al)" "last al \<noteq> c" using al False c(2) nf by (auto simp: ends_open_def chain_end_def)
        have "wp (fat_set_entry drv (last al) c) (\<lambda>ok2. wp (if \<not> ok2 then failing else rest_of_loop) Q) s2"
        proof (rule wp_mono [OF set_entry_spec [OF ok2, of "last al" c]])
          fix q t
          assume v: "fat_frame t = fat_frame s2 \<and> cluster_buf t = cluster_buf s2 \<and> (\<forall>x. dat view t x = dat view s2 x) \<and>
            (q \<longrightarrow> (\<forall>k x. k < unat (s_num_fats s2) \<longrightarrow> x \<le> s_max_cluster s2 \<longrightarrow>
               fat_copy view t k x = (if x = last al then c AND 0x0FFFFFFF else fat_copy view s2 k x)))"
          have fr: "fat_frame t = fat_frame s" and d: "\<forall>x. dat view t x = dat view s x" using v fr2 d2 by auto
          have "\<forall>k x. k < unat (s_num_fats s) \<longrightarrow> x \<le> s_max_cluster s \<longrightarrow>
              fat_copy view t k x = (if x = c then FAT32_EOC else if x \<in> set (chain_end al) then c else fat_copy view s k x)" if q
            using v that e2 False e(2) by (auto simp: f2 chain_end_def and_28_valid [OF vol c(1)])
          from more [OF fr d this] show "wp (if \<not> q then failing else rest_of_loop) Q t"
            using failed [of t] fr d by (auto simp: used_kept_def)
        qed
        then show ?thesis using False \<open>r\<close> by simp
      qed
    qed
  qed
qed

lemma allocate_loop_spec:
  assumes "fat_disk_ok drv view bytes_of s" "volume_sound s" "unat (s_fat_size_sectors s) \<le> 2 ^ 25" "ends_open view s al"
  shows "wp (allocate_loop n drv al rest) (\<lambda>r s'. used_kept view s s' \<and> (\<forall>cs. r = Some cs \<longrightarrow> (\<exists>new. cs = al @ new \<and> grown view s al n rest s' new))) s"
  using assms
proof (induction n arbitrary: s al rest)
  case 0
  then show ?case by (auto simp: used_kept_def intro: grown_none)
next
  case (Suc n)
  note ok = Suc.prems(1) and vol = Suc.prems(2) and narrow = Suc.prems(3) and op = Suc.prems(4)
  let ?Q = "\<lambda>r s'. used_kept view s s' \<and> (\<forall>cs. r = Some cs \<longrightarrow> (\<exists>new. cs = al @ new \<and> grown view s al (Suc n) rest s' new))"
  have failed: "wp (chain_failed drv cs) ?Q t" if t: "used_kept view s t" for cs t
  proof -
    have fr: "fat_frame t = fat_frame s" using t by (simp add: used_kept_def)
    show ?thesis by (rule wp_mono [OF chain_failed_spec [OF _ _ t]]) (use ok vol frame_disk_ok [OF fr] frame_sound [OF fr] in \<open>auto\<close>)
  qed
  show ?case
    unfolding allocate_loop.simps wp_bind wp_get
  proof (rule wp_mono [OF find_free_cluster_spec [OF ok vol narrow]])
    fix c s1
    assume "same_disk view s s1 \<and> cluster_buf s1 = cluster_buf s \<and> (c \<noteq> 0 \<longrightarrow> valid_cluster s c \<and> fatv view s c = 0)"
    then have s1: "same_disk view s s1" "c \<noteq> 0 \<Longrightarrow> valid_cluster s c" "c \<noteq> 0 \<Longrightarrow> fatv view s c = 0" by auto
    have fr1: "fat_frame s1 = fat_frame s" using s1(1) by (simp add: same_disk_def)
    note d1 = frame_dat [OF s1(1)]
    have ok1: "fat_disk_ok drv view bytes_of s1" "volume_sound s1" using ok vol frame_disk_ok [OF fr1] frame_sound [OF fr1] by auto
    have k1: "used_kept view s s1" using fr1 d1 by (simp add: used_kept_def)
    show "wp (if c = 0 \<or> 256 \<le> length al then chain_failed drv al
      else do {
        let allocated1 = al @ [c];
        ok1 \<leftarrow> fat_set_entry drv c FAT32_EOC;
        if \<not> ok1 then chain_failed drv allocated1
        else do {
          ok2 \<leftarrow> (if al \<noteq> [] then fat_set_entry drv (last al) c else State_Monad.return True);
          if \<not> ok2 then chain_failed drv allocated1
          else do {
            let to_write = min (length rest) (unat (cluster_bytes s));
            let buf = take to_write rest @ replicate (unat (cluster_bytes s) - to_write) 0 @ drop (unat (cluster_bytes s)) (cluster_buf s);
            _ \<leftarrow> set_cluster_buf buf;
            ok3 \<leftarrow> write_cluster drv c buf;
            if \<not> ok3 then chain_failed drv allocated1
            else allocate_loop n drv allocated1 (drop to_write rest)
          }
        }
      }) ?Q s1"
    proof (cases "c = 0 \<or> 256 \<le> length al")
      case True then show ?thesis using failed [OF k1] by simp
    next
      case False
      then have c: "valid_cluster s c" "fatv view s c = 0" using s1 by auto
      define buf where "buf = take (min (length rest) (unat (cluster_bytes s))) rest @ replicate (unat (cluster_bytes s) - min (length rest) (unat (cluster_bytes s))) 0 @
        drop (unat (cluster_bytes s)) (cluster_buf s)"
      have drop: "drop (min (length rest) (unat (cluster_bytes s))) rest = drop (csize s) rest"
        by (simp add: unat_cluster_bytes [OF vol] min_def)
      have buf: "csize s \<le> length buf" "take (csize s) buf = padded (csize s) 1 rest"
        by (auto simp: buf_def unat_cluster_bytes [OF vol] padded_def min_def)
      have round: "wp (allocate_loop n drv (al @ [c]) (drop (csize s) rest)) ?Q t'"
        if t': "fat_frame t' = fat_frame s" "ends_open view t' (al @ [c])" "used_kept view s t'" "\<forall>x. valid_cluster s x \<longrightarrow> x \<noteq> c \<longrightarrow> dat view t' x = dat view s x"
          "dat view t' c = padded (csize s) 1 rest"
          "\<forall>k x. k < unat (s_num_fats s) \<longrightarrow> x \<le> s_max_cluster s \<longrightarrow>
            fat_copy view t' k x = (if x = c then FAT32_EOC else if x \<in> set (chain_end al) then c else fat_copy view s k x)" for t'
      proof (rule wp_mono [OF Suc.IH [OF _ _ _ t'(2)]])
        show "fat_disk_ok drv view bytes_of t'" "volume_sound t'" "unat (s_fat_size_sectors t') \<le> 2 ^ 25"
          using ok vol narrow frame_disk_ok [OF t'(1)] frame_sound [OF t'(1)] frame_fields(9) [OF t'(1)] by auto
      next
        fix r s'
        assume r: "used_kept view t' s' \<and> (\<forall>cs. r = Some cs \<longrightarrow> (\<exists>new. cs = (al @ [c]) @ new \<and> grown view t' (al @ [c]) n (drop (csize s) rest) s' new))"
        note step = grown_step [OF t'(1) vol c op t'(6,4,5)]
        have nf: "0 < unat (s_num_fats s)" using vol by (simp add: volume_sound_def)
        have "dat view s' x = dat view s x" if x: "valid_cluster s x" "fatv view s x \<noteq> 0" for x
        proof -
          have "fatv view t' x \<noteq> 0" using t'(6) nf valid_cluster_le [OF x(1)] x(2) c(1) by (auto simp: valid_cluster_def)
          then have "dat view s' x = dat view t' x" using r x(1) frame_derived(1) [OF t'(1)] by (auto simp: used_kept_def)
          also have "\<dots> = dat view s x" using t'(4) x c(2) by auto
          finally show ?thesis .
        qed
        then have "used_kept view s s'" using r t'(1) by (simp add: used_kept_def)
        then show "?Q r s'" using r step by fastforce
      qed
      show ?thesis
        unfolding Let_def if_not_P [OF False] drop buf_def [symmetric]
        by (rule allocate_mark_spec [OF ok vol c op s1(1) failed], assumption)
          (rule allocate_fill_spec [OF ok vol c op _ _ _ buf failed round]; assumption)
    qed
  qed
qed

subsection \<open>Reading a chain\<close>

text \<open>A device that delivers every sector of the partition.\<close>

definition reads_succeed :: "'d drivers \<Rightarrow> ('d, 'x) fat32_scheme \<Rightarrow> bool" where
  "reads_succeed drv s \<longleftrightarrow> (\<forall>d lba n. 0 < unat n \<longrightarrow> unat lba + unat n \<le> unat (s_partition_lba s) + unat (s_partition_sectors s) \<longrightarrow>
     fst (block_read drv (s_block_device s) lba n (m_blocks s) d) = 0)"

lemma frame_reads_succeed:
  assumes "fat_frame s' = fat_frame s"
  shows "reads_succeed drv s' = reads_succeed drv s"
  unfolding reads_succeed_def frame_fields [OF assms] ..

lemma disk_read_succeeds:
  assumes ok: "fat_disk_ok drv view bytes_of s"
    and "reads_succeed drv s" "0 < unat n" "unat lba + unat n \<le> unat (s_partition_lba s) + unat (s_partition_sectors s)"
  shows "wp (disk_read drv lba n) (\<lambda>r _. r \<noteq> None) s"
proof -
  have "fst (block_read drv (s_block_device s) lba n (m_blocks s) (m_dev s)) = 0" using assms(2-4) unfolding reads_succeed_def by blast
  then show ?thesis using ok by (auto simp: wp_def disk_read_def fat_disk_ok_def split: prod.splits)
qed

lemma volume_end: "volume_sound s \<Longrightarrow> unat (s_data_start_lba s) \<le> unat (s_partition_lba s) + unat (s_partition_sectors s)"
  unfolding volume_sound_def by linarith

lemma read_cluster_succeeds:
  assumes ok: "fat_disk_ok drv view bytes_of s" and vol: "volume_sound s" and rs: "reads_succeed drv s" and c: "valid_cluster s c"
  shows "wp (read_cluster drv c) (\<lambda>r _. r) s"
proof -
  obtain lba where lba: "cluster_to_lba s c = Some lba" "unat lba = cluster_pos s c" using cluster_to_lba_pos [OF vol c] by blast
  have "1 \<le> unat (s_sectors_per_cluster s)" using vol by (simp add: volume_sound_def)
  then have "fst (block_read drv (s_block_device s) (ucast lba) (s_sectors_per_cluster s) (m_blocks s) (m_dev s)) = 0"
    using rs cluster_area(2) [OF vol c] unfolding reads_succeed_def by (metis lba(2) less_eq_Suc_le One_nat_def unat_ucast_u32)
  then show ?thesis using ok lba(1) by (auto simp: wp_def read_cluster_def fat_disk_ok_def split: prod.splits)
qed

lemma fat_read_entry_succeeds:
  assumes ok: "fat_disk_ok drv view bytes_of s" and vol: "volume_sound s" and rs: "reads_succeed drv s" and c: "1 \<le> c" "c \<le> s_max_cluster s"
  shows "wp (fat_read_entry drv c) (\<lambda>r _. r \<noteq> None) s"
proof -
  have rdy: "s_ready s" and nf: "0 < unat (s_num_fats s)" using vol by (simp_all add: volume_sound_def)
  have "unat (ucast (s_fat_start_lba s + c * 4 div 512) :: u64) = fat_pos s 0 c" using fat_lba [OF vol c(2), of 0] nf by simp
  then have "wp (disk_read drv (ucast (s_fat_start_lba s + c * 4 div 512)) 1) (\<lambda>r _. r \<noteq> None) s"
    using fat_pos_bound(1) [OF vol c(2) nf] volume_end [OF vol] by (intro disk_read_succeeds [OF ok rs]) simp_all
  then show ?thesis
    using rdy c fat_offset(3) [OF vol c(2)] by (auto simp: fat_read_entry_def not_less [symmetric] Let_def elim: wp_mono)
qed

lemma max_cluster_proper:
  assumes "volume_sound s"
  shows "unat (s_max_cluster s) < 0x0FFFFFF0"
proof -
  have v: "(unat (s_max_cluster s) + 1) * 4 \<le> unat (s_fat_size_sectors s) * 512"
    "unat (s_data_start_lba s) = unat (s_fat_start_lba s) + unat (s_num_fats s) * unat (s_fat_size_sectors s)"
    "unat (s_data_start_lba s) + (unat (s_max_cluster s) - 1) * unat (s_sectors_per_cluster s) \<le> 2 ^ 28"
    and w: "1 \<le> unat (s_num_fats s)" "1 \<le> unat (s_sectors_per_cluster s)"
    using assms unfolding volume_sound_def by auto
  define q where "q = unat (s_num_fats s) * unat (s_fat_size_sectors s)"
  define p where "p = (unat (s_max_cluster s) - 1) * unat (s_sectors_per_cluster s)"
  have 1: "unat (s_fat_size_sectors s) \<le> q" using w(1) by (simp add: q_def)
  have 2: "unat (s_max_cluster s) - 1 \<le> p" using w(2) by (simp add: p_def)
  have 3: "unat (s_max_cluster s) + 1 \<le> unat (s_fat_size_sectors s) * 128" using v(1) by simp
  have 4: "q + p \<le> 268435456" using v(2,3) by (simp add: q_def p_def)
  have key: "m < 0x0FFFFFF0" if "f \<le> q" "m - 1 \<le> p" "m + 1 \<le> f * 128" "q + p \<le> 268435456" for m p q f :: nat using that by linarith
  show ?thesis by (rule key [OF 1 2 3 4])
qed

text \<open>The next cluster of a chain, or 0 at its end; a failed read looks like the end of the chain.\<close>

definition first_of :: "u32 list \<Rightarrow> u32" where
  "first_of cs = (case cs of [] \<Rightarrow> 0 | c # _ \<Rightarrow> c)"

definition next_of :: "('d, 'x) fat32_scheme \<Rightarrow> u32 option \<Rightarrow> u32" where
  "next_of s r = (case r of None \<Rightarrow> 0
     | Some v \<Rightarrow> if v \<ge> FAT32_EOC then 0 else if v = FAT32_BAD_CLUSTER then 0 else if v < 2 \<or> v > s_max_cluster s then 0 else v)"

lemma fat_next_cluster_spec:
  assumes ok: "fat_disk_ok drv view bytes_of s" and vol: "volume_sound s" and l: "links (fatv view s) (c # cs)" "\<forall>x \<in> set (c # cs). valid_cluster s x"
  shows "wp (fat_next_cluster drv c) (\<lambda>r s'. same_disk view s s' \<and> cluster_buf s' = cluster_buf s \<and>
    (r = 0 \<or> r = first_of cs) \<and> (reads_succeed drv s \<longrightarrow> r = first_of cs)) s"
proof -
  have rdy: "s_ready s" using vol by (simp add: volume_sound_def)
  have c: "valid_cluster s c" using l(2) by simp
  have "wp (fat_read_entry drv c) (\<lambda>r s'. (same_disk view s s' \<and> cluster_buf s' = cluster_buf s \<and>
    (\<forall>v. r = Some v \<longrightarrow> 1 \<le> c \<and> c \<le> s_max_cluster s \<and> v = fatv view s c)) \<and> (reads_succeed drv s \<longrightarrow> r \<noteq> None)) s"
  proof (rule wp_conj [OF fat_read_entry_spec [OF ok vol]])
    have "1 \<le> c" "c \<le> s_max_cluster s" using c by (simp_all add: valid_cluster_nat word_le_nat_alt)
    from fat_read_entry_succeeds [OF ok vol _ this] show "wp (fat_read_entry drv c) (\<lambda>r _. reads_succeed drv s \<longrightarrow> r \<noteq> None) s"
      by (cases "reads_succeed drv s") (auto simp: wp_def split: prod.splits)
  qed
  moreover have nx: "next_of s (Some (fatv view s c)) = first_of cs"
  proof (cases cs)
    case (Cons d ds)
    then have "valid_cluster s d" "fatv view s c = d" using l by auto
    then show ?thesis using max_cluster_proper [OF vol] Cons by (auto simp: next_of_def first_of_def valid_cluster_nat word_le_nat_alt word_less_nat_alt)
  qed (use l in \<open>simp add: first_of_def next_of_def\<close>)
  moreover have "next_of s None = 0" by (simp add: next_of_def)
  ultimately have "wp (fat_read_entry drv c) (\<lambda>r s'. same_disk view s s' \<and> cluster_buf s' = cluster_buf s \<and>
      (next_of s r = 0 \<or> next_of s r = first_of cs) \<and> (reads_succeed drv s \<longrightarrow> next_of s r = first_of cs)) s"
    by (elim wp_mono) (metis option.exhaust)
  then show ?thesis
    using rdy c by (simp add: fat_next_cluster_def next_of_def)
qed

lemma read_file_loop_0 [simp]: "read_file_loop n drv 0 sz max_len out = State_Monad.return out"
  by (cases n) simp_all

text \<open>One cluster that was read: either it completes the result or it is copied whole and the loop goes on.\<close>

lemma read_file_step:
  fixes s1 :: "('d, 'x) fat32_scheme"
  assumes "length out < unat sz" "length out < unat max_len" "length d = unat (cluster_bytes s1)" "cluster_buf s1 = d @ old"
  shows "(let to_copy = unat (cluster_bytes s1);
            to_copy = (if to_copy > unat sz - length out then unat sz - length out else to_copy);
            to_copy = (if to_copy > unat max_len - length out then unat max_len - length out else to_copy);
            out1 = out @ take to_copy (cluster_buf s1)
        in if length out1 \<ge> unat sz \<or> length out1 \<ge> unat max_len then State_Monad.return out1
           else State_Monad.bind (fat_next_cluster drv c) (\<lambda>nxt. read_file_loop n drv nxt sz max_len out1)) =
      (if min (unat sz) (unat max_len) - length out \<le> length d
       then State_Monad.return (out @ take (min (unat sz) (unat max_len) - length out) d)
       else State_Monad.bind (fat_next_cluster drv c) (\<lambda>nxt. read_file_loop n drv nxt sz max_len (out @ d) :: ('d, 'x, u8 list) fio))"
proof -
  define k where "k = (if (if unat (cluster_bytes s1) > unat sz - length out then unat sz - length out else unat (cluster_bytes s1)) > unat max_len - length out
    then unat max_len - length out else (if unat (cluster_bytes s1) > unat sz - length out then unat sz - length out else unat (cluster_bytes s1)))"
  have k: "k = min (length d) (min (unat sz) (unat max_len) - length out)" using assms(1-3) by (auto simp: k_def min_def)
  have out1: "take k (cluster_buf s1) = take k d" using assms(4) k by simp
  have len: "length (out @ take k d) = length out + k" using k by simp
  have stop: "unat sz \<le> length out + k \<or> unat max_len \<le> length out + k \<longleftrightarrow> min (unat sz) (unat max_len) - length out \<le> length d"
    using assms(1,2) k by auto
  have "take k d = (if min (unat sz) (unat max_len) - length out \<le> length d then take (min (unat sz) (unat max_len) - length out) d else d)"
    using k by (simp add: min_def)
  then show ?thesis
    unfolding Let_def k_def [symmetric] out1 len stop by (simp del: length_append)
qed

lemma read_file_loop_spec:
  fixes s :: "('d, 'x) fat32_scheme"
  assumes "fat_disk_ok drv view bytes_of s" "volume_sound s" "links (fatv view s) cs" "\<forall>x \<in> set cs. valid_cluster s x"
    "length cs \<le> n" "length out \<le> min (unat sz) (unat max_len)"
  shows "wp (read_file_loop n drv (first_of cs) sz max_len out) (\<lambda>r s'. same_disk view s s' \<and>
    (\<exists>m \<le> min (unat sz) (unat max_len) - length out. r = out @ take m (concat (map (dat view s) cs))) \<and>
    (reads_succeed drv s \<longrightarrow> r = out @ take (min (unat sz) (unat max_len) - length out) (concat (map (dat view s) cs)))) s"
  using assms
proof (induction cs arbitrary: s n out)
  case Nil
  then show ?case by (auto simp: first_of_def)
next
  case (Cons c cs)
  note ok = Cons.prems(1) and vol = Cons.prems(2) and ch = Cons.prems(3,4)
  obtain n' where n: "n = Suc n'" using Cons.prems(5) by (cases n) auto
  have c: "valid_cluster s c" using ch by simp
  have c0: "c \<noteq> 0" using c by (auto simp: valid_cluster_def)
  let ?T = "min (unat sz) (unat max_len)"
  let ?D = "concat (map (dat view s) (c # cs))"
  let ?Q = "\<lambda>r s'. same_disk view s s' \<and> (\<exists>m \<le> ?T - length out. r = out @ take m ?D) \<and> (reads_succeed drv s \<longrightarrow> r = out @ take (?T - length out) ?D)"
  have none: "?Q out s1" if "same_disk view s s1" "reads_succeed drv s \<longrightarrow> ?T \<le> length out" for s1 using that by (auto intro: exI [of _ 0])
  have rec: "wp (State_Monad.bind (fat_next_cluster drv c) (\<lambda>nxt. read_file_loop n' drv nxt sz max_len (out @ dat view s c))) ?Q s1"
    if s1: "same_disk view s s1" and le: "length (out @ dat view s c) \<le> ?T" for s1
  proof -
    have fr1: "fat_frame s1 = fat_frame s" using s1 by (simp add: same_disk_def)
    have ok1: "fat_disk_ok drv view bytes_of s1" "volume_sound s1" using ok vol frame_disk_ok [OF fr1] frame_sound [OF fr1] by auto
    have ch1: "links (fatv view s1) (c # cs)" "\<forall>x \<in> set (c # cs). valid_cluster s1 x" using ch by (simp_all add: frame_dat [OF s1] frame_derived(1) [OF fr1])
    have part: "\<exists>m \<le> ?T - length out. out @ dat view s c @ take k (concat (map (dat view s) cs)) = out @ take m ?D"
      if "k \<le> ?T - length (out @ dat view s c)" for k
      by (rule exI [of _ "length (dat view s c) + k"]) (use that le in \<open>auto\<close>)
    have whole: "out @ dat view s c @ take (?T - length (out @ dat view s c)) (concat (map (dat view s) cs)) = out @ take (?T - length out) ?D"
    proof -
      have "length (dat view s c) \<le> ?T - length out" using le by (simp add: min_def)
      then show ?thesis by simp
    qed
    show ?thesis
      unfolding wp_bind
    proof (rule wp_mono [OF fat_next_cluster_spec [OF ok1 ch1]])
      fix nxt s2
      assume a: "same_disk view s1 s2 \<and> cluster_buf s2 = cluster_buf s1 \<and> (nxt = 0 \<or> nxt = first_of cs) \<and> (reads_succeed drv s1 \<longrightarrow> nxt = first_of cs)"
      then have s2: "same_disk view s s2" using same_disk_trans [OF s1] by blast
      have fr2: "fat_frame s2 = fat_frame s" using s2 by (simp add: same_disk_def)
      have ok2: "fat_disk_ok drv view bytes_of s2" "volume_sound s2" using ok vol frame_disk_ok [OF fr2] frame_sound [OF fr2] by auto
      have ch2: "links (fatv view s2) cs" "\<forall>x \<in> set cs. valid_cluster s2 x"
        using ch by (cases cs; simp add: frame_dat [OF s2] frame_derived(1) [OF fr2])+
      show "wp (read_file_loop n' drv nxt sz max_len (out @ dat view s c)) ?Q s2"
      proof (cases "nxt = first_of cs")
        case True
        show ?thesis
          unfolding True
        proof (rule wp_mono [OF Cons.IH [OF ok2 ch2]])
          show "length cs \<le> n'" "length (out @ dat view s c) \<le> ?T" using Cons.prems(5) n le by auto
          fix r s'
          assume "same_disk view s2 s' \<and> (\<exists>m \<le> ?T - length (out @ dat view s c). r = (out @ dat view s c) @ take m (concat (map (dat view s2) cs))) \<and>
            (reads_succeed drv s2 \<longrightarrow> r = (out @ dat view s c) @ take (?T - length (out @ dat view s c)) (concat (map (dat view s2) cs)))"
          then show "?Q r s'"
            using same_disk_trans [OF s2] part whole frame_reads_succeed [OF fr2] unfolding frame_dat(1) [OF s2] by (auto simp only: append_assoc)
        qed
      next
        case False
        then have "nxt = 0" "\<not> reads_succeed drv s" using a frame_reads_succeed [OF fr1] by auto
        then show ?thesis using s2 part [of 0] by simp
      qed
    qed
  qed
  show ?case
  proof (cases "length out < unat sz \<and> length out < unat max_len")
    case False
    then show ?thesis using none [of s] n by (auto simp: first_of_def)
  next
    case True
    let ?body = "\<lambda>s1. let to_copy = unat (cluster_bytes s1);
            to_copy = (if to_copy > unat sz - length out then unat sz - length out else to_copy);
            to_copy = (if to_copy > unat max_len - length out then unat max_len - length out else to_copy);
            out1 = out @ take to_copy (cluster_buf s1)
        in if length out1 \<ge> unat sz \<or> length out1 \<ge> unat max_len then State_Monad.return out1
           else State_Monad.bind (fat_next_cluster drv c) (\<lambda>nxt. read_file_loop n' drv nxt sz max_len out1 :: ('d, 'x, u8 list) fio)"
    have "wp (read_cluster drv c) (\<lambda>r s1. (same_disk view s s1 \<and> (r \<longrightarrow> valid_cluster s c \<and> cluster_buf s1 = dat view s c @ drop (csize s) (cluster_buf s))) \<and>
        (reads_succeed drv s \<longrightarrow> r)) s"
      by (intro wp_conj read_cluster_spec [OF ok vol]) (use read_cluster_succeeds [OF ok vol _ c] in \<open>auto simp: wp_def split: prod.splits\<close>)
    then have "wp (read_cluster drv c) (\<lambda>okr s1. wp (if \<not> okr then State_Monad.return out else ?body s1) ?Q s1) s"
    proof (rule wp_mono)
      fix okr s1
      assume a: "(same_disk view s s1 \<and> (okr \<longrightarrow> valid_cluster s c \<and> cluster_buf s1 = dat view s c @ drop (csize s) (cluster_buf s))) \<and> (reads_succeed drv s \<longrightarrow> okr)"
      have fr1: "fat_frame s1 = fat_frame s" using a by (simp add: same_disk_def)
      have ld: "length (dat view s c) = unat (cluster_bytes s1)"
        using length_dat [OF ok] unat_cluster_bytes [OF vol] frame_derived(4) [OF fr1] by simp
      show "wp (if \<not> okr then State_Monad.return out else ?body s1) ?Q s1"
      proof (cases okr)
        case False
        then show ?thesis using none a by auto
      next
        case okr: True
        have body: "?body s1 = (if ?T - length out \<le> length (dat view s c) then State_Monad.return (out @ take (?T - length out) (dat view s c))
            else State_Monad.bind (fat_next_cluster drv c) (\<lambda>nxt. read_file_loop n' drv nxt sz max_len (out @ dat view s c)))"
          using True a okr by (intro read_file_step [OF _ _ ld]) auto
        show ?thesis
        proof (cases "?T - length out \<le> length (dat view s c)")
          case True then show ?thesis unfolding body using a okr by (auto intro!: exI [of _ "?T - length out"])
        next
          case False
          then have "length (out @ dat view s c) \<le> ?T" by (simp add: min_def split: if_splits)
          from rec [OF _ this] show ?thesis unfolding body if_not_P [OF False] using a okr by simp
        qed
      qed
    qed
    then show ?thesis using True c0 n by (simp add: first_of_def)
  qed
qed

subsection \<open>A file's chain, written and read\<close>

lemma clusters_needed_enough:
  assumes vol: "volume_sound s" and len: "length data + csize s \<le> 2 ^ 32"
  shows "length data \<le> unat (clusters_needed s (word_of_nat (length data))) * csize s" "1 \<le> unat (clusters_needed s (word_of_nat (length data)))"
proof -
  have spc: "1 \<le> unat (s_sectors_per_cluster s)" using vol by (simp add: volume_sound_def)
  let ?sz = "word_of_nat (length data) :: u32"
  have sz: "unat ?sz = length data" using len spc by (simp add: unsigned_of_nat take_bit_nat_eq_self)
  have cb: "unat (cluster_bytes s) = csize s" by (rule unat_cluster_bytes [OF vol])
  have sub: "?sz + cluster_bytes s - 1 = ?sz + (cluster_bytes s - 1)" by simp
  have cb1: "unat (cluster_bytes s - 1) = csize s - 1" using cb spc by (subst unat_sub) (simp_all add: word_le_nat_alt)
  have sum: "unat (?sz + cluster_bytes s - 1) = length data + (csize s - 1)"
    unfolding sub using len spc by (subst unat_add_u32) (simp_all add: sz cb1)
  let ?n = "(?sz + cluster_bytes s - 1) div cluster_bytes s"
  have n: "unat ?n = (length data + (csize s - 1)) div csize s" by (simp add: unat_div sum cb)
  have le: "length data \<le> (length data + (b - 1)) div b * b" if "1 \<le> b" for b :: nat
  proof -
    have "(length data + (b - 1)) div b * b + (length data + (b - 1)) mod b = length data + (b - 1)" by (rule div_mult_mod_eq)
    moreover have "(length data + (b - 1)) mod b \<le> b - 1" using that mod_less_divisor [of b "length data + (b - 1)"] by linarith
    ultimately show ?thesis by linarith
  qed
  have "length data \<le> unat ?n * csize s" unfolding n using spc by (intro le) simp
  moreover have "clusters_needed s ?sz = (if ?n = 0 then 1 else ?n)" by (simp only: clusters_needed_def Let_def)
  ultimately show "length data \<le> unat (clusters_needed s ?sz) * csize s" "1 \<le> unat (clusters_needed s ?sz)"
    using le_trans by (auto simp: Suc_le_eq unat_gt_0)
qed

lemma allocate_file_chain_spec:
  assumes ok: "fat_disk_ok drv view bytes_of s" and vol: "volume_sound s" and narrow: "unat (s_fat_size_sectors s) \<le> 2 ^ 25"
    and len: "length data + csize s \<le> 2 ^ 32"
  shows "wp (allocate_file_chain drv data) (\<lambda>r s'. used_kept view s s' \<and> (\<forall>first n. r = Some (first, n) \<longrightarrow>
    (\<exists>cs. cs \<noteq> [] \<and> first = hd cs \<and> n = word_of_nat (length cs) \<and> length data \<le> length cs * csize s \<and> grown view s [] (length cs) data s' cs))) s"
proof -
  note need = clusters_needed_enough [OF vol len]
  have op: "ends_open view s []" by (simp add: ends_open_def chain_end_def)
  have "wp (allocate_loop (unat (clusters_needed s (word_of_nat (length data)))) drv [] data)
    (\<lambda>q s'. used_kept view s s' \<and> (\<forall>first (n :: u32). map_option (\<lambda>cs. (hd cs, word_of_nat (length cs))) q = Some (first, n) \<longrightarrow>
      (\<exists>cs. cs \<noteq> [] \<and> first = hd cs \<and> n = word_of_nat (length cs) \<and> length data \<le> length cs * csize s \<and> grown view s [] (length cs) data s' cs))) s"
  proof (rule wp_mono [OF allocate_loop_spec [OF ok vol narrow op]])
    fix q s'
    assume a: "used_kept view s s' \<and> (\<forall>cs. q = Some cs \<longrightarrow> (\<exists>new. cs = [] @ new \<and> grown view s [] (unat (clusters_needed s (word_of_nat (length data)))) data s' new))"
    have "\<exists>cs. cs \<noteq> [] \<and> first = hd cs \<and> n = word_of_nat (length cs) \<and> length data \<le> length cs * csize s \<and> grown view s [] (length cs) data s' cs"
      if "map_option (\<lambda>cs. (hd cs, word_of_nat (length cs))) q = Some (first, n :: u32)" for first n
    proof -
      obtain cs where cs: "q = Some cs" "first = hd cs" "n = word_of_nat (length cs)" using \<open>map_option _ q = _\<close> by auto
      then have g: "grown view s [] (unat (clusters_needed s (word_of_nat (length data)))) data s' cs" using a by auto
      then have "length cs = unat (clusters_needed s (word_of_nat (length data)))" by (simp add: grown_def)
      then show ?thesis using cs g need by (intro exI [of _ cs]) auto
    qed
    then show "used_kept view s s' \<and> (\<forall>first (n :: u32). map_option (\<lambda>cs. (hd cs, word_of_nat (length cs))) q = Some (first, n) \<longrightarrow>
      (\<exists>cs. cs \<noteq> [] \<and> first = hd cs \<and> n = word_of_nat (length cs) \<and> length data \<le> length cs * csize s \<and> grown view s [] (length cs) data s' cs))"
      using a by blast
  qed
  moreover have "used_kept view s s" by (simp add: used_kept_def)
  ultimately show ?thesis by (simp add: allocate_file_chain_def Let_def)
qed

lemma chain_length:
  assumes "distinct cs" "\<forall>c \<in> set cs. valid_cluster s c"
  shows "length cs \<le> chain_fuel s"
proof -
  have "inj_on unat (set cs)" by (rule inj_onI) (simp add: word_unat_eq_iff)
  then have "length cs = card (unat ` set cs)" using assms(1) by (simp add: card_image distinct_card)
  also have "\<dots> \<le> card {0..<chain_fuel s}"
    by (rule card_mono) (use assms(2) in \<open>auto simp: valid_cluster_nat chain_fuel_def le_imp_less_Suc\<close>)
  finally show ?thesis by simp
qed

lemma fat32_read_file_chain:
  assumes ok: "fat_disk_ok drv view bytes_of s" and vol: "volume_sound s" and l: "links (fatv view s) cs" "\<forall>x \<in> set cs. valid_cluster s x"
    and cs: "distinct cs" "cs \<noteq> []"
  shows "wp (fat32_read_file drv (hd cs) sz max_len) (\<lambda>r s'. same_disk view s s' \<and>
    (\<exists>m \<le> min (unat sz) (unat max_len). r = take m (concat (map (dat view s) cs))) \<and>
    (reads_succeed drv s \<longrightarrow> r = take (min (unat sz) (unat max_len)) (concat (map (dat view s) cs)))) s"
proof -
  have "valid_cluster s (hd cs)" using l(2) cs(2) by simp
  moreover then have "\<not> hd cs < 2" by (simp add: valid_cluster_def not_less)
  moreover have "first_of cs = hd cs" using cs(2) by (cases cs) (simp_all add: first_of_def)
  moreover have "s_ready s" using vol by (simp add: volume_sound_def)
  ultimately show ?thesis
    using read_file_loop_spec [OF ok vol l chain_length [OF cs(1) l(2)], of "[]" sz max_len]
    by (auto simp: fat32_read_file_def)
qed

text \<open>A small volume on a RAM disk: one table of one sector, 14 clusters of one sector, the root directory in cluster 2.\<close>

definition fat_example_blocks :: blocks where
  "fat_example_blocks =
     \<lparr>g_devices = [\<lparr>device = \<lparr>bd_id = 0, block_size = 512, block_count = 16, bd_writable = True,
                             transport = BLOCK_TRANSPORT_NVME, bd_name = ''NVMe''\<rparr>,
                   ata_index = - 1, ata_type = ATA_TYPE_HDD, ahci_port_index = - 1, nvme_index = 0\<rparr>],
      g_ahci_dma = (\<lambda>i. \<lparr>dma_phys = 0, dma_pages = 0\<rparr>)\<rparr>"

definition fat_example_disk :: "medium \<Rightarrow> nat \<Rightarrow> u8 list" where
  "fat_example_disk m l = (if l = 1 then [0xF8, 0xFF, 0xFF, 0x0F, 0xFF, 0xFF, 0xFF, 0x0F, 0xF8, 0xFF, 0xFF, 0x0F] else [])"

definition fat_example :: "(medium \<Rightarrow> nat \<Rightarrow> u8 list) fat32" where
  "fat_example = \<lparr>m_blocks = fat_example_blocks, m_dev = fat_example_disk, m_mm = mm_zero,
     s_partition_lba = 0, s_partition_sectors = 16, s_fat_start_lba = 1, s_data_start_lba = 2, s_sectors_per_cluster = 1, s_root_cluster = 2,
     s_fat_size_sectors = 1, s_max_cluster = 15, s_num_fats = 1, s_fsinfo_lba = 0, s_fsinfo_valid = False, s_ready = True, s_was_dirty = False,
     s_total_bytes = 0, s_free_bytes = 0, s_block_device = 0, cluster_buf = []\<rparr>"

abbreviation ram512 :: "(medium \<Rightarrow> nat \<Rightarrow> u8 list) drivers" where
  "ram512 \<equiv> ram_drivers 512"

lemma fat_example_ok: "fat_disk_ok ram512 (ram_view 512) (\<lambda>_. 512) fat_example"
  by (simp add: fat_disk_ok_def ram_drivers_ok fat_example_def fat_example_blocks_def binding_ok_def binding_medium_def)

lemma fat_example_sound: "volume_sound fat_example" "unat (s_fat_size_sectors fat_example) \<le> 2 ^ 25" "csize fat_example = 512"
  "s_num_fats fat_example = 1" "s_max_cluster fat_example = 15"
  by (simp_all add: volume_sound_def fat_example_def)

lemma fat_example_reads: "reads_succeed ram512 fat_example"
  by (auto simp: reads_succeed_def block_read_def range_valid_def fat_example_def fat_example_blocks_def ram_drivers_def word_le_nat_alt word_less_nat_alt unat_sub_if' unat_ucast_u32)

text \<open>
  C32. The allocation table. Setting the entry of a cluster stores the low 28 bits of the value in every copy of the table and changes no other
  entry, no sector outside the tables and no cluster's content; what is read back afterwards is the stored value, and for any other
  cluster the value it had.
\<close>

theorem fat_entry_roundtrip:
  assumes "fat_disk_ok drv view bytes_of s" "volume_sound s"
    and "run_state (fat_set_entry drv c v) s = (True, s1)" "run_state (fat_read_entry drv x) s1 = (Some e, s2)"
  shows "e = (if x = c then v AND 0x0FFFFFFF else fatv view s x) \<and>
    (\<forall>k y. k < unat (s_num_fats s) \<longrightarrow> y \<le> s_max_cluster s \<longrightarrow> fat_copy view s2 k y = (if y = c then v AND 0x0FFFFFFF else fat_copy view s k y)) \<and>
    (\<forall>l. l < unat (s_fat_start_lba s) \<or> unat (s_data_start_lba s) \<le> l \<longrightarrow> secs view s2 l = secs view s l) \<and> (\<forall>y. dat view s2 y = dat view s y)"
proof -
  note w = fat_set_entry_spec [OF assms(1,2), of c v, unfolded wp_run [OF assms(3)]]
  then have fr: "fat_frame s1 = fat_frame s" by simp
  have ok1: "fat_disk_ok drv view bytes_of s1" "volume_sound s1" using assms(1,2) frame_disk_ok [OF fr] frame_sound [OF fr] by auto
  note r = fat_read_entry_spec [OF ok1, of x, unfolded wp_run [OF assms(4)]]
  have sd: "same_disk view s1 s2" using r by blast
  have nf: "0 < unat (s_num_fats s)" using assms(2) by (simp add: volume_sound_def)
  have "\<forall>y. dat view s1 y = dat view s y" using w frame_dat_outside [OF fr] by blast
  then show ?thesis
    using w r nf frame_fields(10) [OF fr] sd by (auto simp: frame_dat [OF sd] same_disk_def)
qed

theorem fat_entry_roundtrip_witness:
  "\<exists>s1 s2. run_state (fat_set_entry ram512 3 0x10000005) fat_example = (True, s1) \<and> run_state (fat_read_entry ram512 3) s1 = (Some 5, s2) \<and>
     fat_copy (ram_view 512) s2 0 2 = fat_copy (ram_view 512) fat_example 0 2"
proof -
  let ?s1 = "snd (run_state (fat_set_entry ram512 3 0x10000005) fat_example)"
  let ?s2 = "snd (run_state (fat_read_entry ram512 3) ?s1)"
  have "fst (run_state (fat_set_entry ram512 3 0x10000005) fat_example)" by code_simp
  then have 1: "run_state (fat_set_entry ram512 3 0x10000005) fat_example = (True, ?s1)" by (simp add: prod_eq_iff)
  have "fst (run_state (fat_read_entry ram512 3) ?s1) = Some 5" by code_simp
  then have 2: "run_state (fat_read_entry ram512 3) ?s1 = (Some 5, ?s2)" by (simp add: prod_eq_iff)
  from fat_entry_roundtrip [OF fat_example_ok fat_example_sound(1) 1 2] have "fat_copy (ram_view 512) ?s2 0 2 = fat_copy (ram_view 512) fat_example 0 2"
    by (simp add: fat_example_sound)
  then show ?thesis using 1 2 by blast
qed

text \<open>
  C33. Files. The chain that is allocated for a file's bytes reads back as these bytes, cut at the length asked for: a read that hits a device error
  delivers a prefix, and on a device that delivers every sector of the partition the whole. The clusters taken were free, so no cluster
  that was in use before changes, neither its content nor its entry in any copy of the table.
\<close>

theorem file_chain_roundtrip:
  assumes "fat_disk_ok drv view bytes_of s" "volume_sound s" "unat (s_fat_size_sectors s) \<le> 2 ^ 25" "length data + csize s \<le> 2 ^ 32" "data \<noteq> []" "m \<noteq> 0"
    and "run_state (allocate_file_chain drv data) s = (Some (first, n), s1)"
    and "run_state (fat32_read_file drv first (word_of_nat (length data)) m) s1 = (r, s2)"
  shows "r = take (length r) data \<and> length r \<le> unat m \<and> (reads_succeed drv s \<longrightarrow> r = take (unat m) data) \<and>
    (\<forall>x. valid_cluster s x \<longrightarrow> fatv view s x \<noteq> 0 \<longrightarrow> dat view s2 x = dat view s x \<and> (\<forall>k < unat (s_num_fats s). fat_copy view s2 k x = fat_copy view s k x))"
proof -
  obtain cs where cs: "cs \<noteq> []" "first = hd cs" "length data \<le> length cs * csize s" and g: "grown view s [] (length cs) data s1 cs" and fr: "fat_frame s1 = fat_frame s"
    using allocate_file_chain_spec [OF assms(1-4), unfolded wp_run [OF assms(7)]] by (auto simp: used_kept_def)
  have ok1: "fat_disk_ok drv view bytes_of s1" "volume_sound s1" using assms(1,2) frame_disk_ok [OF fr] frame_sound [OF fr] by auto
  have nf: "0 < unat (s_num_fats s)" and spc: "1 \<le> unat (s_sectors_per_cluster s)" using assms(2) by (simp_all add: volume_sound_def)
  have l: "links (fatv view s1) cs" "\<forall>x \<in> set cs. valid_cluster s1 x" "distinct cs"
    using g nf by (auto simp: grown_def chain_end_def frame_derived(1) [OF fr])
  have sz: "unat (word_of_nat (length data) :: u32) = length data" using assms(4) spc by (simp add: unsigned_of_nat take_bit_nat_eq_self)
  have c: "concat (map (dat view s1) cs) = padded (csize s) (length cs) data" using g by (simp add: grown_def)
  note t = take_padded [OF cs(3)]
  have min: "take (min (length data) (unat m)) data = take (unat m) data" by (simp add: min_def)
  note rd = fat32_read_file_chain [OF ok1 l(1-3) cs(1), of "word_of_nat (length data)" m, unfolded cs(2) [symmetric] wp_run [OF assms(8)] sz c]
  obtain j where j: "j \<le> min (length data) (unat m)" "r = take j data" using rd t by auto
  then have "r = take (length r) data" "length r \<le> unat m" by simp_all
  moreover have "reads_succeed drv s \<longrightarrow> r = take (unat m) data" using rd t [of "min (length data) (unat m)"] min frame_reads_succeed [OF fr] by simp
  moreover have sd: "same_disk view s1 s2" using rd by blast
  have "dat view s2 x = dat view s x \<and> (\<forall>k < unat (s_num_fats s). fat_copy view s2 k x = fat_copy view s k x)"
    if x: "valid_cluster s x" "fatv view s x \<noteq> 0" for x
    using g x valid_cluster_le [OF x(1)] unfolding frame_dat [OF sd] by (auto simp: grown_def chain_end_def)
  ultimately show ?thesis by blast
qed

theorem file_chain_roundtrip_witness:
  "\<exists>s1 s2. run_state (allocate_file_chain ram512 [1, 2, 3]) fat_example = (Some (3, 1), s1) \<and> run_state (fat32_read_file ram512 3 3 2) s1 = ([1, 2], s2) \<and>
     dat (ram_view 512) s2 2 = dat (ram_view 512) fat_example 2"
proof -
  let ?s1 = "snd (run_state (allocate_file_chain ram512 [1, 2, 3]) fat_example)"
  have "fst (run_state (allocate_file_chain ram512 [1, 2, 3]) fat_example) = Some (3, 1)" by code_simp
  then have 1: "run_state (allocate_file_chain ram512 [1, 2, 3]) fat_example = (Some (3, 1), ?s1)" by (simp add: prod_eq_iff)
  obtain r s2 where 2: "run_state (fat32_read_file ram512 3 3 2) ?s1 = (r, s2)" by fastforce
  have "valid_cluster fat_example 2" by (simp add: valid_cluster_def fat_example_sound)
  moreover have "fatv (ram_view 512) fat_example 2 \<noteq> 0" by code_simp
  ultimately have "r = [1, 2]" "dat (ram_view 512) s2 2 = dat (ram_view 512) fat_example 2"
    using file_chain_roundtrip [OF fat_example_ok fat_example_sound(1,2) _ _ _ 1, of 2 r s2] 2 fat_example_reads by (simp_all add: fat_example_sound)
  then show ?thesis using 1 2 by blast
qed

end
