(* ===== verification/Fat32_Mount.thy ===== *)
theory Fat32_Mount
  imports Fat32_Files
begin

text \<open>
  Mounting a FAT32 volume: the geometry computed from the boot sector, over the natural numbers, its soundness for every volume that is
  accepted without wrap-around, and a boot sector for which the size of the tables wraps around.
\<close>

text \<open>The geometry of a volume over the natural numbers.\<close>

definition geometry_sound :: "u32 \<Rightarrow> u32 \<Rightarrow> u8 list \<Rightarrow> geometry \<Rightarrow> bool" where
  "geometry_sound part_lba part_sectors b g \<longleftrightarrow>
     unat (g_fat_start g) = unat part_lba + unat (rd_u16 b 14) \<and>
     unat (g_data_start g) = unat (g_fat_start g) + unat (g_fats g) * unat (g_fat_size g) \<and>
     (unat (g_max_cluster g) + 1) * 4 \<le> unat (g_fat_size g) * 512 \<and>
     1 \<le> unat (g_fats g) \<and> unat (g_fats g) \<le> 2 \<and> 1 \<le> unat (g_spc g) \<and> unat (g_spc g) \<le> 64 \<and>
     2 \<le> unat (g_root g) \<and> unat (g_root g) \<le> unat (g_max_cluster g) \<and>
     unat (g_data_start g) + (unat (g_max_cluster g) - 1) * unat (g_spc g) \<le> unat part_lba + unat part_sectors"

lemma bpb_geometry_sound:
  assumes g: "bpb_geometry part_lba part_sectors b = Some g"
    and fits: "unat (rd_u16 b 14) + unat (b ! 16) * unat (rd_u32 b 36) < 2 ^ 32"
    and part: "unat part_lba + unat part_sectors \<le> 2 ^ 28"
  shows "geometry_sound part_lba part_sectors b g"
proof -
  define spc :: u32 where "spc = ucast (b ! 13)"
  define fat_size where "fat_size = rd_u32 b 36"
  define reserved :: u32 where "reserved = ucast (rd_u16 b 14)"
  define nf :: u32 where "nf = ucast (b ! 16)"
  define t0 where "t0 = (if rd_u32 b 32 = 0 then part_sectors else rd_u32 b 32)"
  define tot where "tot = (if part_sectors > 0 \<and> t0 > part_sectors then part_sectors else t0)"
  define first where "first = reserved + nf * fat_size"
  define cc where "cc = (tot - first) div spc"
  define ds where "ds = part_lba + reserved + nf * fat_size"
  define room where "room = part_sectors - (ds - part_lba)"
  define cc1 where "cc1 = (if tot - first > room then room div spc else cc)"
  define mc1 where "mc1 = (if tot - first > room then cc1 + 1 else cc + 1)"
  have ok: "bpb_ok b" using g by (simp add: bpb_geometry_def split: if_splits)
  note d = g [unfolded bpb_geometry_def Let_def, folded spc_def fat_size_def reserved_def nf_def, folded t0_def, folded tot_def, folded first_def, folded cc_def]
  have c: "first < tot" "8 \<le> cc" "\<not> cc + 1 < 2" "\<not> cc + 1 > 0x0FFFFFEF" "\<not> (ucast (cc + 1 + 1) :: u64) * 4 > ucast fat_size * 512"
    "\<not> part_lba + reserved < part_lba" "\<not> ds < part_lba + reserved" "\<not> ds - part_lba \<ge> part_sectors" "\<not> rd_u32 b 44 > mc1"
    and ge: "g = \<lparr>g_fat_start = part_lba + reserved, g_data_start = ds, g_spc = b ! 13, g_fat_size = fat_size,
       g_root = rd_u32 b 44, g_max_cluster = mc1, g_cluster_count = cc1, g_fats = b ! 16\<rparr>"
    using d by (auto simp: ds_def room_def cc1_def mc1_def not_less not_le split: if_splits)
  have u: "unat reserved = unat (rd_u16 b 14)" "unat nf = unat (b ! 16)" "unat spc = unat (b ! 13)"
    using unsigned_less [of "rd_u16 b 14", where 'a = nat] by (simp_all add: reserved_def nf_def spc_def unsigned_ucast_eq take_bit_nat_eq_self)
  have lt: "unat part_lba \<le> 2 ^ 28" "unat part_sectors \<le> 2 ^ 28" using part by auto
  have uf: "unat first = unat reserved + unat nf * unat fat_size"
    using fits u by (simp add: first_def fat_size_def unat_word_ariths)
  have ps: "part_sectors \<noteq> 0" using c(8) by auto
  then have tot: "unat tot \<le> unat part_sectors"
    by (auto simp: tot_def word_less_nat_alt unat_gt_0 not_less)
  have ft: "unat first < unat tot" using c(1) by (simp add: word_less_nat_alt)
  have dsf: "ds = part_lba + first" by (simp add: ds_def first_def add.assoc)
  have uds: "unat ds = unat part_lba + unat first" using ft tot lt by (simp add: dsf unat_word_ariths)
  have ur: "unat (part_lba + reserved) = unat part_lba + unat reserved" using uf ft tot lt by (simp add: unat_word_ariths)
  have utf: "unat (tot - first) = unat tot - unat first" using ft by (intro unat_sub) (simp add: word_le_nat_alt)
  have uroom: "unat room = unat part_sectors - unat first"
    using ft tot by (simp add: room_def dsf) (subst unat_sub, auto simp: word_le_nat_alt)
  have big: "\<not> tot - first > room" using utf uroom tot ft by (simp add: word_less_nat_alt not_less)
  have mc: "mc1 = cc + 1" using big by (simp add: mc1_def)
  have ucc: "unat cc = (unat tot - unat first) div unat spc" by (simp add: cc_def unat_div utf)
  have ccb: "unat cc \<le> 2 ^ 28" using ucc tot lt by (metis diff_le_self div_le_dividend order_trans)
  have umc: "unat mc1 = unat cc + 1" using ccb by (simp add: mc unat_word_ariths)
  have spc: "unat cc * unat spc \<le> unat tot - unat first" using ucc by simp
  have fat: "(unat mc1 + 1) * 4 \<le> unat fat_size * 512"
  proof -
    have a: "unat (cc + 1 + 1) = unat cc + 2" using ccb by (simp add: unat_word_ariths)
    have "unat ((ucast (cc + 1 + 1) :: u64) * 4) = (unat cc + 2) * 4"
      using a ccb by (simp add: unat_word_ariths unsigned_ucast_eq take_bit_nat_eq_self)
    moreover have "unat ((ucast fat_size :: u64) * 512) = unat fat_size * 512"
      using unsigned_less [of fat_size, where 'a = nat] by (simp add: unat_word_ariths unsigned_ucast_eq take_bit_nat_eq_self)
    ultimately show ?thesis using c(5) umc by (simp add: not_less word_le_nat_alt)
  qed
  have bounds: "1 \<le> unat (b ! 16)" "unat (b ! 16) \<le> 2" "1 \<le> unat (b ! 13)" "unat (b ! 13) \<le> 64" "2 \<le> unat (rd_u32 b 44)"
    using ok by (auto simp: bpb_ok_def word_le_nat_alt Suc_le_eq unat_gt_0)
  have root: "unat (rd_u32 b 44) \<le> unat mc1" using c(9) by (simp add: word_le_nat_alt not_less)
  have "unat ds + unat cc * unat (b ! 13) \<le> unat part_lba + unat part_sectors"
    using spc uds tot ft u(3) by simp
  then show ?thesis
    using bounds root fat u uf uds ur umc by (simp add: geometry_sound_def ge)
qed

subsection \<open>Mounting\<close>

text \<open>What soundness of the volume depends on; unlike the frame it leaves out the information sector, which is found while mounting.\<close>

definition vol_geom where
  "vol_geom s = (m_blocks s, s_block_device s, s_partition_lba s, s_partition_sectors s, s_fat_start_lba s, s_data_start_lba s, s_sectors_per_cluster s,
     s_root_cluster s, s_fat_size_sectors s, s_max_cluster s, s_num_fats s, s_ready s)"

lemma vol_geom_sound:
  assumes "vol_geom s' = vol_geom s"
  shows "volume_sound s' = volume_sound s" "fat_disk_ok drv view bytes_of s' = fat_disk_ok drv view bytes_of s"
  using assms by (simp_all add: vol_geom_def volume_sound_def fat_disk_ok_def)

lemma vol_geom_frame:
  assumes "fat_frame s' = fat_frame s"
  shows "vol_geom s' = vol_geom s"
  unfolding vol_geom_def frame_fields [OF assms] ..

lemma keeps_geom: "keeps fat_frame m \<Longrightarrow> keeps vol_geom m"
  unfolding keeps_def using vol_geom_frame by blast

lemma keeps_load_fsinfo: "keeps vol_geom (load_fsinfo drv lba i r g)"
  unfolding load_fsinfo_def
  by (intro keeps keeps_geom [OF keeps_disk_read]) (auto simp: keeps_def vol_geom_def)

lemma clip_partition_bound:
  assumes "lba \<le> 0x0FFFFFFF"
  shows "unat lba + unat (clip_partition lba n) \<le> 2 ^ 28"
proof -
  have u: "unat (0x10000000 - lba) = 0x10000000 - unat lba" using assms by (subst unat_sub) (simp_all add: word_le_nat_alt)
  have "unat lba \<le> 0x0FFFFFFF" using assms by (simp add: word_le_nat_alt)
  moreover have "unat (clip_partition lba n) \<le> 0x10000000 - unat lba"
    using u by (auto simp: clip_partition_def Let_def word_less_nat_alt not_less)
  ultimately show ?thesis by simp
qed

lemma install_geometry_sound:
  assumes "geometry_sound (s_partition_lba s) (s_partition_sectors s) b g" "unat (s_partition_lba s) + unat (s_partition_sectors s) \<le> 2 ^ 28"
  shows "volume_sound (install_geometry g s)"
  using assms by (simp add: geometry_sound_def volume_sound_def install_geometry_def Let_def)

lemma keeps_geom_check_repair: "keeps vol_geom (fat32_check_repair drv)"
proof -
  note g = keepsD [OF keeps_geom [OF keeps_repair_phases]] keepsD [OF keeps_geom [OF keeps_upd_free]] keepsD [OF keeps_geom [OF keeps_fat32_sync_fsinfo]]
  have m: "vol_geom (s\<lparr>m_mm := x\<rparr>) = vol_geom s" for s :: "('d, 'x) fat32_scheme" and x by (simp add: vol_geom_def)
  show ?thesis
    unfolding keeps_def by (auto simp: fat32_check_repair_def Let_def m split: prod.splits option.splits dest!: g)
qed

definition mount_rest :: "'d drivers \<Rightarrow> u32 \<Rightarrow> u8 list \<Rightarrow> geometry \<Rightarrow> ('d, 'x, bool) fio" where
  "mount_rest drv part_lba b g = do {
     _ \<leftarrow> load_fsinfo drv part_lba (rd_u16 b 48) (rd_u16 b 14) g;
     e \<leftarrow> fat_read_entry drv 1;
     let dirty = (case e of None \<Rightarrow> False | Some v \<Rightarrow> v AND 0x08000000 = 0);
     _ \<leftarrow> State_Monad.update (\<lambda>s. s\<lparr>s_was_dirty := dirty\<rparr>);
     _ \<leftarrow> (if dirty then do { _ \<leftarrow> fat32_check_repair drv; State_Monad.return () } else State_Monad.return ());
     _ \<leftarrow> fat32_set_clean_flag drv False;
     State_Monad.return True
   }"

lemma keeps_mount_rest: "keeps vol_geom (mount_rest drv lba b g)"
  unfolding mount_rest_def
  by (intro keeps keeps_load_fsinfo keeps_geom [OF keeps_fat_read_entry] keeps_geom [OF keeps_set_clean_flag] keeps_geom_check_repair keeps_update)
    (simp add: vol_geom_def)

lemma fat32_mount_spec:
  fixes s :: "('d, 'x) fat32_scheme"
  assumes ok: "fat_disk_ok drv view bytes_of s" and lba: "lba \<le> 0x0FFFFFFF"
    and fits: "unat (rd_u16 (secs view s (unat lba)) 14) + unat (secs view s (unat lba) ! 16) * unat (rd_u32 (secs view s (unat lba)) 36) < 2 ^ 32"
  shows "wp (fat32_mount drv lba (clip_partition lba n)) (\<lambda>r s'. r \<longrightarrow> volume_sound s' \<and> fat_disk_ok drv view bytes_of s' \<and>
    s_partition_lba s' = lba \<and> s_partition_sectors s' = clip_partition lba n) s"
proof -
  let ?p = "clip_partition lba n"
  let ?Q = "\<lambda>r (s' :: ('d, 'x) fat32_scheme). r \<longrightarrow> volume_sound s' \<and> fat_disk_ok drv view bytes_of s' \<and> s_partition_lba s' = lba \<and> s_partition_sectors s' = ?p"
  define s0 where "s0 = s\<lparr>s_partition_lba := lba, s_partition_sectors := ?p\<rparr>"
  have ok0: "fat_disk_ok drv view bytes_of s0" and sec: "secs view s0 = secs view s" using ok by (simp_all add: s0_def fat_disk_ok_def secs_def)
  have "wp (disk_read drv (ucast lba) 1) (\<lambda>r. wp (case r of None \<Rightarrow> State_Monad.return False
     | Some b \<Rightarrow> if \<not> valid_boot_signature b then State_Monad.return False
         else (case bpb_geometry lba ?p b of None \<Rightarrow> State_Monad.return False
         | Some g \<Rightarrow> State_Monad.bind (State_Monad.update (install_geometry g)) (\<lambda>_. mount_rest drv lba b g))) ?Q) s0"
  proof (rule wp_mono [OF sector_read_spec [OF ok0]])
    fix r s1
    assume "same_disk view s0 s1 \<and> cluster_buf s1 = cluster_buf s0 \<and> (\<forall>bs. r = Some bs \<longrightarrow> bs = secs view s0 (unat (ucast lba :: u64)))"
    then have fr: "fat_frame s1 = fat_frame s0" and b: "\<And>bs. r = Some bs \<Longrightarrow> bs = secs view s (unat lba)" by (auto simp: same_disk_def sec unat_ucast_u32)
    have part: "s_partition_lba s1 = lba" "s_partition_sectors s1 = ?p" using frame_fields(3,4) [OF fr] by (simp_all add: s0_def)
    have "wp (mount_rest drv lba b g) ?Q (install_geometry g s1)" if g: "bpb_geometry lba ?p b = Some g" "r = Some b" for b g
    proof (rule wp_keeps [OF keeps_mount_rest])
      fix a and s' :: "('d, 'x) fat32_scheme"
      assume vg: "vol_geom s' = vol_geom (install_geometry g s1)"
      have "geometry_sound lba ?p b g" by (rule bpb_geometry_sound [OF g(1) _ clip_partition_bound [OF lba]]) (use fits b [OF g(2)] in simp)
      then have "volume_sound (install_geometry g s1)" using clip_partition_bound [OF lba] by (intro install_geometry_sound) (simp_all add: part)
      moreover have "fat_disk_ok drv view bytes_of (install_geometry g s1)"
        using ok0 unfolding frame_disk_ok [OF fr, symmetric] by (simp add: install_geometry_def Let_def fat_disk_ok_def)
      moreover have "s_partition_lba s' = lba" "s_partition_sectors s' = ?p" using vg part by (auto simp: vol_geom_def install_geometry_def Let_def)
      ultimately show "?Q a s'" using vol_geom_sound [OF vg] by simp
    qed
    then show "wp (case r of None \<Rightarrow> State_Monad.return False
     | Some b \<Rightarrow> if \<not> valid_boot_signature b then State_Monad.return False
         else (case bpb_geometry lba ?p b of None \<Rightarrow> State_Monad.return False
         | Some g \<Rightarrow> State_Monad.bind (State_Monad.update (install_geometry g)) (\<lambda>_. mount_rest drv lba b g))) ?Q s1"
      by (auto split: option.splits)
  qed
  then show ?thesis unfolding fat32_mount_def wp_bind wp_update mount_rest_def [symmetric] s0_def .
qed

text \<open>A boot sector with the given sectors per cluster, reserved sectors, tables, sectors in all and per table, and root cluster 2.\<close>

definition boot_sector :: "u8 \<Rightarrow> u8 \<Rightarrow> u8 \<Rightarrow> u32 \<Rightarrow> u32 \<Rightarrow> u8 list" where
  "boot_sector spc reserved fats tot fat_size =
     wr_u32 44 2 (wr_u32 36 fat_size (wr_u32 32 tot ((replicate 512 0)[12 := 2, 13 := spc, 14 := reserved, 16 := fats, 510 := 0x55, 511 := 0xAA])))"

text \<open>
  C34. Mounting. When the driver accepts a volume whose reserved area and tables have a size below \<open>2\<^sup>3\<^sup>2\<close> sectors, in the partition as \<open>fat32_init\<close> cuts it,
  its geometry is sound: the tables start after the reserved area, the data area starts where the last table ends, every table has room for the
  entry of every cluster, the root directory is a cluster of the volume, and the last cluster ends inside the partition, below
  sector \<open>2\<^sup>2\<^sup>8\<close>; the consistency check and the dirty mark leave that geometry alone.
\<close>

theorem fat32_mount_sound:
  assumes "fat_disk_ok drv view bytes_of s" "lba \<le> 0x0FFFFFFF" "b = secs view s (unat lba)"
    and "unat (rd_u16 b 14) + unat (b ! 16) * unat (rd_u32 b 36) < 2 ^ 32"
    and "run_state (fat32_mount drv lba (clip_partition lba n)) s = (True, s')"
  shows "volume_sound s' \<and> fat_disk_ok drv view bytes_of s' \<and> s_partition_lba s' = lba \<and> s_partition_sectors s' = clip_partition lba n"
  using fat32_mount_spec [OF assms(1,2), of n] assms(3,4) unfolding wp_run [OF assms(5)] by simp

definition mount_example :: "(medium \<Rightarrow> nat \<Rightarrow> u8 list) fat32" where
  "mount_example = fat_example\<lparr>m_dev := (\<lambda>m l. if l = 0 then boot_sector 1 1 1 16 1 else fat_example_disk m l), s_ready := False\<rparr>"

theorem fat32_mount_sound_witness:
  "\<exists>s'. run_state (fat32_mount ram512 0 (clip_partition 0 16)) mount_example = (True, s') \<and> volume_sound s'"
proof -
  let ?s' = "snd (run_state (fat32_mount ram512 0 (clip_partition 0 16)) mount_example)"
  have ok: "fat_disk_ok ram512 (ram_view 512) (\<lambda>_. 512) mount_example" using fat_example_ok by (simp add: mount_example_def fat_disk_ok_def)
  have sec: "secs (ram_view 512) mount_example (unat 0) = boot_sector 1 1 1 16 1"
    by (simp add: secs_def mount_example_def ram_view_def boot_sector_def wr_u32_def)
  have "rd_u16 (boot_sector 1 1 1 16 1) 14 = 1 \<and> boot_sector 1 1 1 16 1 ! 16 = 1 \<and> rd_u32 (boot_sector 1 1 1 16 1) 36 = 1" by code_simp
  then have fits: "unat (rd_u16 (boot_sector 1 1 1 16 1) 14) + unat (boot_sector 1 1 1 16 1 ! 16) * unat (rd_u32 (boot_sector 1 1 1 16 1) 36) < 2 ^ 32" by simp
  have "fst (run_state (fat32_mount ram512 0 (clip_partition 0 16)) mount_example)" by code_simp
  then have run: "run_state (fat32_mount ram512 0 (clip_partition 0 16)) mount_example = (True, ?s')" by (simp add: prod_eq_iff)
  from fat32_mount_sound [OF ok _ sec [symmetric] fits run] run show ?thesis by auto
qed


end
