(* ===== verification/Fat32_Dirs.thy ===== *)
theory Fat32_Dirs
  imports Fat32_Files
begin

text \<open>
  Directories of the FAT32 driver: operations that only read, the deletion of a directory, and the end of the consistency check's walk.
\<close>

subsection \<open>Operations that only read\<close>

text \<open>\<open>reads_only\<close>: run on a volume whose device behaves, the computation leaves the driver's variables and every sector as they were.\<close>

definition reads_only :: "'d drivers \<Rightarrow> 'd media \<Rightarrow> (medium \<Rightarrow> nat) \<Rightarrow> ('d, 'x, 'a) fio \<Rightarrow> bool" where
  "reads_only drv view bytes_of m \<longleftrightarrow> (\<forall>s. fat_disk_ok drv view bytes_of s \<longrightarrow> same_disk view s (snd (run_state m s)))"

named_theorems reads_only \<open>computations that change no sector\<close>

lemma reads_only_return [reads_only]: "reads_only drv view bytes_of (State_Monad.return a)"
  by (simp add: reads_only_def)

lemma reads_only_bind [reads_only]:
  assumes "reads_only drv view bytes_of m" "\<And>a. reads_only drv view bytes_of (g a)"
  shows "reads_only drv view bytes_of (State_Monad.bind m g)"
  unfolding reads_only_def
proof (intro allI impI)
  fix s :: "('a, 'b) fat32_scheme"
  assume ok: "fat_disk_ok drv view bytes_of s"
  obtain a t where r: "run_state m s = (a, t)" by fastforce
  have st: "same_disk view s t" using assms(1) ok r unfolding reads_only_def by (metis snd_conv)
  then have "fat_disk_ok drv view bytes_of t" using ok frame_disk_ok [of t s] by (simp add: same_disk_def)
  then have "same_disk view t (snd (run_state (g a) t))" using assms(2) unfolding reads_only_def by blast
  then show "same_disk view s (snd (run_state (State_Monad.bind m g) s))" using same_disk_trans [OF st] r by simp
qed

lemma reads_only_get [reads_only]: "reads_only drv view bytes_of State_Monad.get"
  by (simp add: reads_only_def)

lemma reads_only_if [reads_only]:
  "reads_only drv view bytes_of m \<Longrightarrow> reads_only drv view bytes_of n \<Longrightarrow> reads_only drv view bytes_of (if b then m else n)"
  by simp

lemma reads_only_Let [reads_only]: "reads_only drv view bytes_of (g x) \<Longrightarrow> reads_only drv view bytes_of (Let x g)"
  by simp

lemma reads_only_option [reads_only]:
  "reads_only drv view bytes_of m \<Longrightarrow> (\<And>y. reads_only drv view bytes_of (g y)) \<Longrightarrow> reads_only drv view bytes_of (case x of None \<Rightarrow> m | Some y \<Rightarrow> g y)"
  by (cases x) auto

lemma reads_only_sum [reads_only]:
  "(\<And>y. reads_only drv view bytes_of (f y)) \<Longrightarrow> (\<And>y. reads_only drv view bytes_of (g y)) \<Longrightarrow> reads_only drv view bytes_of (case x of Inl y \<Rightarrow> f y | Inr y \<Rightarrow> g y)"
  by (cases x) auto

lemma reads_only_prod [reads_only]:
  "(\<And>a b. reads_only drv view bytes_of (f a b)) \<Longrightarrow> reads_only drv view bytes_of (case x of (a, b) \<Rightarrow> f a b)"
  by (cases x) auto

lemma reads_only_disk_read [reads_only]: "reads_only drv view bytes_of (disk_read drv lba n)"
  unfolding reads_only_def using disk_read_spec [of drv view bytes_of _ lba n] by (fastforce simp: wp_def split: prod.splits)

lemma reads_only_read_cluster [reads_only]: "reads_only drv view bytes_of (read_cluster drv c)"
  unfolding reads_only_def
proof (intro allI impI)
  fix s :: "('a, 'b) fat32_scheme"
  assume ok: "fat_disk_ok drv view bytes_of s"
  have "view d = view (m_dev s)" if "block_read drv (s_block_device s) lba n (m_blocks s) (m_dev s) = (q, b, d)" for lba n q b d
    using block_read_ok [OF _ _ that, of view bytes_of] ok by (simp add: fat_disk_ok_def)
  then show "same_disk view s (snd (run_state (read_cluster drv c) s))"
    by (auto simp: read_cluster_def same_disk_def secs_def split: option.splits prod.splits)
qed

lemma reads_only_fat_read_entry [reads_only]: "reads_only drv view bytes_of (fat_read_entry drv c)"
  unfolding fat_read_entry_def by (intro reads_only)

lemma reads_only_fat_next_cluster [reads_only]: "reads_only drv view bytes_of (fat_next_cluster drv c)"
  unfolding fat_next_cluster_def by (intro reads_only)

lemma reads_only_list_dir_loop [reads_only]: "reads_only drv view bytes_of (list_dir_loop n drv c k acc)"
  by (induction n arbitrary: c acc) (simp_all only: list_dir_loop.simps, (intro reads_only | assumption)+)

lemma reads_only_fat32_list_dir [reads_only]: "reads_only drv view bytes_of (fat32_list_dir drv c k)"
  unfolding fat32_list_dir_def by (intro reads_only)

lemma reads_only_read_file_loop [reads_only]: "reads_only drv view bytes_of (read_file_loop n drv c sz k out)"
  by (induction n arbitrary: c out) (simp_all only: read_file_loop.simps, (intro reads_only | assumption)+)

lemma reads_only_fat32_read_file [reads_only]: "reads_only drv view bytes_of (fat32_read_file drv c sz k)"
  unfolding fat32_read_file_def by (intro reads_only)

lemma reads_only_locate_loop [reads_only]: "reads_only drv view bytes_of (locate_loop n drv c nm)"
  by (induction n arbitrary: c) (simp_all only: locate_loop.simps, (intro reads_only | assumption)+)

lemma reads_only_locate_dir_entry [reads_only]: "reads_only drv view bytes_of (locate_dir_entry drv c nm)"
  unfolding locate_dir_entry_def by (intro reads_only)

lemma wp_reads_only: "reads_only drv view bytes_of m \<Longrightarrow> fat_disk_ok drv view bytes_of s \<Longrightarrow> wp m (\<lambda>_ s'. same_disk view s s') s"
  by (auto simp: reads_only_def wp_def split: prod.splits dest: spec [of _ s])

subsection \<open>Operations that leave the clusters alone\<close>

lemma free_chain_loop_dat:
  assumes "fat_disk_ok drv view bytes_of s" "volume_sound s"
  shows "wp (free_chain_loop n drv c k) (\<lambda>_ s'. fat_frame s' = fat_frame s \<and> (\<forall>x. dat view s' x = dat view s x)) s"
  using assms
proof (induction n arbitrary: s c k)
  case (Suc n)
  let ?Q = "\<lambda>_ s'. fat_frame s' = fat_frame s \<and> (\<forall>x. dat view s' x = dat view s x)"
  have "wp (fat_next_cluster drv c) (\<lambda>nxt. wp (State_Monad.bind (fat_set_entry drv c 0) (\<lambda>ok. if \<not> ok then State_Monad.return None
      else if nxt = 0 then State_Monad.return (Some (k + 1)) else free_chain_loop n drv nxt (k + 1))) ?Q) s"
  proof (rule wp_mono [OF wp_reads_only [OF reads_only_fat_next_cluster Suc.prems(1)]])
    fix nxt s1
    assume s1: "same_disk view s s1"
    then have fr1: "fat_frame s1 = fat_frame s" by (simp add: same_disk_def)
    have ok1: "fat_disk_ok drv view bytes_of s1" "volume_sound s1" using Suc.prems frame_disk_ok [OF fr1] frame_sound [OF fr1] by auto
    show "wp (State_Monad.bind (fat_set_entry drv c 0) (\<lambda>ok. if \<not> ok then State_Monad.return None
      else if nxt = 0 then State_Monad.return (Some (k + 1)) else free_chain_loop n drv nxt (k + 1))) ?Q s1"
      unfolding wp_bind
    proof (rule wp_mono [OF set_entry_spec [OF ok1, of c 0]], goal_cases)
      case (1 r s2)
      then have fr2: "fat_frame s2 = fat_frame s" and d2: "\<forall>x. dat view s2 x = dat view s x" using fr1 frame_dat [OF s1] by auto
      have ok2: "fat_disk_ok drv view bytes_of s2" "volume_sound s2" using Suc.prems frame_disk_ok [OF fr2] frame_sound [OF fr2] by auto
      have "wp (free_chain_loop n drv nxt (k + 1)) ?Q s2" by (rule wp_mono [OF Suc.IH [OF ok2]]) (use fr2 d2 in auto)
      then show ?case using fr2 d2 by simp
    qed
  qed
  then show ?case by simp
qed simp

lemma sync_fsinfo_dat:
  assumes ok: "fat_disk_ok drv view bytes_of s" and vol: "volume_sound s" and out: "s_fsinfo_valid s \<longrightarrow> unat (s_fsinfo_lba s) < unat (s_data_start_lba s)"
  shows "wp (fat32_sync_fsinfo drv) (\<lambda>_ s'. fat_frame s' = fat_frame s \<and> (\<forall>x. dat view s' x = dat view s x)) s"
proof -
  let ?Q = "\<lambda>_ s'. fat_frame s' = fat_frame s \<and> (\<forall>x. dat view s' x = dat view s x)"
  have upd: "wp (disk_read drv (ucast (s_fsinfo_lba s)) 1) (\<lambda>r. wp (case r of None \<Rightarrow> State_Monad.return ()
      | Some buf \<Rightarrow> if rd_u32 buf 0 \<noteq> 0x41615252 \<or> rd_u32 buf 0x1E4 \<noteq> 0x61417272 then State_Monad.return ()
        else State_Monad.bind (disk_write drv (ucast (s_fsinfo_lba s)) 1 (wr_u32 0x1EC 0xFFFFFFFF (wr_u32 0x1E8 v buf))) (\<lambda>_. State_Monad.return ())) ?Q) s"
    if "s_fsinfo_valid s" for v
  proof (rule wp_mono [OF sector_read_spec [OF ok]])
    fix r s1
    assume a: "same_disk view s s1 \<and> cluster_buf s1 = cluster_buf s \<and> (\<forall>bs. r = Some bs \<longrightarrow> bs = secs view s (unat (ucast (s_fsinfo_lba s) :: u64)))"
    then have s1: "same_disk view s s1" by simp
    then have fr: "fat_frame s1 = fat_frame s" by (simp add: same_disk_def)
    have ok1: "fat_disk_ok drv view bytes_of s1" using ok frame_disk_ok [OF fr] by simp
    have keep: "?Q q s1" for q :: unit using fr frame_dat [OF s1] by simp
    have "wp (disk_write drv (ucast (s_fsinfo_lba s)) 1 (wr_u32 0x1EC 0xFFFFFFFF (wr_u32 0x1E8 v buf))) (\<lambda>_ s'. ?Q () s') s1" if "r = Some buf" for buf
    proof (rule wp_mono [OF sector_write_spec [OF ok1]])
      show "length (wr_u32 0x1EC 0xFFFFFFFF (wr_u32 0x1E8 v buf)) = 512" using a that length_secs [OF ok] by (simp add: wr_u32_def)
    next
      fix q s2
      assume w: "fat_frame s2 = fat_frame s1 \<and> cluster_buf s2 = cluster_buf s1 \<and> (\<forall>l. l \<noteq> unat (ucast (s_fsinfo_lba s) :: u64) \<longrightarrow> secs view s2 l = secs view s1 l) \<and>
        (q \<longrightarrow> secs view s2 (unat (ucast (s_fsinfo_lba s) :: u64)) = wr_u32 0x1EC 0xFFFFFFFF (wr_u32 0x1E8 v buf))"
      then have fr2: "fat_frame s2 = fat_frame s1" by simp
      have "\<forall>l. l < 0 \<or> unat (s_data_start_lba s1) \<le> l \<longrightarrow> secs view s2 l = secs view s1 l"
        using w out \<open>s_fsinfo_valid s\<close> frame_fields(6) [OF fr] by (auto simp: unat_ucast_u32)
      from frame_dat_outside [OF fr2 this] show "?Q () s2" using fr fr2 frame_dat [OF s1] by simp
    qed
    then show "wp (case r of None \<Rightarrow> State_Monad.return ()
      | Some buf \<Rightarrow> if rd_u32 buf 0 \<noteq> 0x41615252 \<or> rd_u32 buf 0x1E4 \<noteq> 0x61417272 then State_Monad.return ()
        else State_Monad.bind (disk_write drv (ucast (s_fsinfo_lba s)) 1 (wr_u32 0x1EC 0xFFFFFFFF (wr_u32 0x1E8 v buf))) (\<lambda>_. State_Monad.return ())) ?Q s1"
      using keep by (auto split: option.splits)
  qed
  show ?thesis
  proof (cases "\<not> s_ready s \<or> \<not> s_fsinfo_valid s \<or> s_sectors_per_cluster s = 0")
    case True then show ?thesis by (simp add: fat32_sync_fsinfo_def)
  next
    case False
    then have "s_fsinfo_valid s" by simp
    from upd [OF this] show ?thesis unfolding fat32_sync_fsinfo_def Let_def wp_bind wp_get if_not_P [OF False] .
  qed
qed

subsection \<open>Deleting a directory\<close>

lemma dir_raw_append: "32 * i + 32 \<le> length d \<Longrightarrow> dir_raw (d @ e) i = dir_raw d i"
  by (simp add: dir_raw_def)

lemma entries_in_cluster_bytes: "volume_sound s \<Longrightarrow> entries_in_cluster s * 32 = csize s"
  by (simp add: entries_in_cluster_def volume_sound_def unat_word_ariths unat_div)

lemma dir_raws_append: "volume_sound s \<Longrightarrow> length d = csize s \<Longrightarrow> dir_raws s (d @ e) = dir_raws s d"
  using entries_in_cluster_bytes [of s] by (auto simp: dir_raws_def intro!: dir_raw_append)

lemma list_entries_frame:
  assumes "fat_frame s' = fat_frame s"
  shows "list_entries s' k raws acc = list_entries s k raws acc"
  by (induction raws arbitrary: acc) (simp_all add: frame_derived(1) [OF assms] Let_def)

text \<open>Listing a directory that ends in its first cluster leaves that cluster in the buffer.\<close>

lemma fat32_list_dir_first:
  assumes ok: "fat_disk_ok drv view bytes_of s" and vol: "volume_sound s" and rs: "reads_succeed drv s" and c: "valid_cluster s c"
    and l: "list_entries s 2 (dir_raws s (dat view s c)) [] = (es, True)"
  shows "wp (fat32_list_dir drv c 2) (\<lambda>r s'. same_disk view s s' \<and> r = es \<and> cluster_buf s' = dat view s c @ drop (csize s) (cluster_buf s)) s"
proof -
  have "wp (read_cluster drv c) (\<lambda>okr s1. wp (if \<not> okr then State_Monad.return [] else do {
          let (acc1, at_end) = list_entries s1 2 (dir_raws s1 (cluster_buf s1)) [];
          if at_end then State_Monad.return acc1
          else do { nxt \<leftarrow> fat_next_cluster drv c; list_dir_loop (unat (s_max_cluster s)) drv nxt 2 acc1 } })
      (\<lambda>r s'. same_disk view s s' \<and> r = es \<and> cluster_buf s' = dat view s c @ drop (csize s) (cluster_buf s)) s1) s"
  proof (rule wp_mono [OF wp_conj [OF read_cluster_spec [OF ok vol] read_cluster_succeeds [OF ok vol rs c]]], goal_cases)
    case (1 r s1)
    then have fr: "fat_frame s1 = fat_frame s" by (simp add: same_disk_def)
    have "dir_raws s1 (cluster_buf s1) = dir_raws s (cluster_buf s1)" by (simp only: dir_raws_def frame_derived(5) [OF fr])
    also have "\<dots> = dir_raws s (dat view s c)" using 1 dir_raws_append [OF vol length_dat [OF ok]] by simp
    finally show ?case using 1 l list_entries_frame [OF fr] by simp
  qed
  moreover have "c \<noteq> 0" using c by (auto simp: valid_cluster_def)
  ultimately show ?thesis using vol c by (simp add: fat32_list_dir_def chain_fuel_def volume_sound_def)
qed

lemma dir_is_empty_first:
  assumes "fat_disk_ok drv view bytes_of s" "volume_sound s" "reads_succeed drv s" "valid_cluster s c"
    and "list_entries s 2 (dir_raws s (dat view s c)) [] = ([], True)"
  shows "wp (dir_is_empty drv c) (\<lambda>r s'. same_disk view s s' \<and> r \<and> cluster_buf s' = dat view s c @ drop (csize s) (cluster_buf s)) s"
  using fat32_list_dir_first [OF assms] assms(4) by (auto simp: dir_is_empty_def elim: wp_mono)

text \<open>The end of a deletion: the entry is gone, its chain is released and the counters are brought up to date.\<close>

lemma delete_tail_dat:
  fixes s :: "('d, 'x) fat32_scheme"
  assumes ok: "fat_disk_ok drv view bytes_of s" and vol: "volume_sound s" and out: "s_fsinfo_valid s \<longrightarrow> unat (s_fsinfo_lba s) < unat (s_data_start_lba s)"
  shows "wp (State_Monad.bind (if first \<ge> 2 then fat_free_chain drv first else State_Monad.return (Some 0)) (\<lambda>freed. case freed of
      None \<Rightarrow> State_Monad.return False
    | Some n \<Rightarrow> State_Monad.bind (upd_free (f n)) (\<lambda>_. State_Monad.bind (fat32_sync_fsinfo drv) (\<lambda>_. State_Monad.return True))))
    (\<lambda>_ s'. \<forall>x. dat view s' x = dat view s x) s"
proof -
  let ?P = "\<lambda>s' :: ('d, 'x) fat32_scheme. fat_frame s' = fat_frame s \<and> (\<forall>x. dat view s' x = dat view s x)"
  have "wp (fat_free_chain drv first) (\<lambda>_. ?P) s"
    unfolding fat_free_chain_def wp_bind wp_get using free_chain_loop_dat [OF ok vol] by simp
  then have "wp (if first \<ge> 2 then fat_free_chain drv first else State_Monad.return (Some 0)) (\<lambda>_. ?P) s" by simp
  then show ?thesis
    unfolding wp_bind
  proof (rule wp_mono)
    fix r s1
    assume p: "?P s1"
    define s2 where "s2 n = s1\<lparr>s_free_bytes := f n (s_free_bytes s1) (s_total_bytes s1)\<rparr>" for n
    have sd: "same_disk view s1 (s2 n)" for n by (simp add: s2_def same_disk_def fat_frame_def secs_def)
    have fr: "fat_frame (s2 n) = fat_frame s" for n using sd [of n] p by (simp add: same_disk_def)
    have "wp (fat32_sync_fsinfo drv) (\<lambda>_ s'. \<forall>x. dat view s' x = dat view s x) (s2 n)" for n
      by (rule wp_mono [OF sync_fsinfo_dat])
        (use ok vol out p frame_disk_ok [OF fr [of n]] frame_sound(1) [OF fr [of n]] frame_fields(6,13,14) [OF fr [of n]] frame_dat(1) [OF sd [of n]] in \<open>auto\<close>)
    moreover have "wp (upd_free (f n)) Q s1 = Q () (s2 n)" for n Q by (simp add: wp_def upd_free_def s2_def)
    ultimately show "wp (case r of None \<Rightarrow> State_Monad.return False
      | Some n \<Rightarrow> State_Monad.bind (upd_free (f n)) (\<lambda>_. State_Monad.bind (fat32_sync_fsinfo drv) (\<lambda>_. State_Monad.return True)))
      (\<lambda>_ s'. \<forall>x. dat view s' x = dat view s x) s1"
      using p by (simp split: option.split)
  qed
qed

lemma delete_commit_dat:
  fixes s :: "('d, 'x) fat32_scheme"
  assumes ok: "fat_disk_ok drv view bytes_of s" and vol: "volume_sound s" and out: "s_fsinfo_valid s \<longrightarrow> unat (s_fsinfo_lba s) < unat (s_data_start_lba s)"
    and len: "csize s \<le> length buf"
  shows "wp (State_Monad.bind (set_cluster_buf buf) (\<lambda>_. State_Monad.bind (write_cluster drv ec buf) (\<lambda>ok2. if \<not> ok2 then State_Monad.return False
    else State_Monad.bind (if first \<ge> 2 then fat_free_chain drv first else State_Monad.return (Some 0)) (\<lambda>freed. case freed of
      None \<Rightarrow> State_Monad.return False
    | Some n \<Rightarrow> State_Monad.bind (upd_free (f n)) (\<lambda>_. State_Monad.bind (fat32_sync_fsinfo drv) (\<lambda>_. State_Monad.return True))))))
    (\<lambda>r s'. r \<longrightarrow> dat view s' ec = take (csize s) buf) s"
proof -
  define t where "t = s\<lparr>cluster_buf := buf\<rparr>"
  have sd: "same_disk view s t" by (simp add: t_def same_disk_def fat_frame_def secs_def)
  then have fr: "fat_frame t = fat_frame s" by (simp add: same_disk_def)
  have set: "wp (set_cluster_buf buf) R s = R () t" for R by (simp add: wp_def set_cluster_buf_def t_def)
  have okt: "fat_disk_ok drv view bytes_of t" "volume_sound t" "csize t \<le> length buf"
    using ok vol len frame_disk_ok [OF fr] frame_sound [OF fr] frame_fields(7) [OF fr] by auto
  show ?thesis
    unfolding wp_bind set
  proof (rule wp_mono [OF write_cluster_spec [OF okt]], goal_cases)
    case (1 r u)
    then have fru: "fat_frame u = fat_frame s" using fr by simp
    have oku: "fat_disk_ok drv view bytes_of u" "volume_sound u" "s_fsinfo_valid u \<longrightarrow> unat (s_fsinfo_lba u) < unat (s_data_start_lba u)"
      using ok vol out frame_disk_ok [OF fru] frame_sound [OF fru] frame_fields(6,13,14) [OF fru] by auto
    have "r \<Longrightarrow> dat view u ec = take (csize s) buf" using 1 frame_fields(7) [OF fr] by simp
    then show ?case using delete_tail_dat [OF oku, of first f] by (auto elim!: wp_mono simp: wp_def split: prod.splits)
  qed
qed

lemma delete_directory_spec:
  assumes ok: "fat_disk_ok drv view bytes_of s" and vol: "volume_sound s" and rs: "reads_succeed drv s"
    and out: "s_fsinfo_valid s \<longrightarrow> unat (s_fsinfo_lba s) < unat (s_data_start_lba s)"
    and loc: "run_state (locate_dir_entry drv dir (to_short_name name)) s = (Some (ec, i), s0)" and i: "32 * i + 32 \<le> csize s"
    and raw: "dir_raw (dat view s ec) i ! 11 AND 0x10 \<noteq> 0" "raw_first_cluster (dir_raw (dat view s ec) i) = c"
    and c: "valid_cluster s c" and e: "list_entries s 2 (dir_raws s (dat view s c)) [] = ([], True)"
  shows "wp (fat32_delete_file drv dir name) (\<lambda>r s'. r \<longrightarrow> dat view s' ec = (dat view s c)[32 * i := 0xE5]) s"
proof (cases "\<not> s_ready s \<or> \<not> valid_cluster s dir")
  case True then show ?thesis by (simp add: fat32_delete_file_def)
next
  case False
  have sd0: "same_disk view s s0" using wp_reads_only [OF reads_only_locate_dir_entry ok, of dir "to_short_name name"] by (simp add: wp_run [OF loc])
  have fr0: "fat_frame s0 = fat_frame s" using sd0 by (simp add: same_disk_def)
  have ok0: "fat_disk_ok drv view bytes_of s0" "volume_sound s0" using ok vol frame_disk_ok [OF fr0] frame_sound [OF fr0] by auto
  have c2: "c \<ge> 2" using c by (simp add: valid_cluster_def)
  show ?thesis
    unfolding fat32_delete_file_def wp_bind wp_get if_not_P [OF False] Let_def wp_run [OF loc] option.case prod.case
  proof (rule wp_mono [OF read_cluster_spec [OF ok0]], goal_cases)
    case (1 r1 s1)
    then have sd1: "same_disk view s s1" using same_disk_trans [OF sd0] by blast
    then have fr1: "fat_frame s1 = fat_frame s" by (simp add: same_disk_def)
    note f1 = frame_dat(1) [OF sd1] frame_fields(7) [OF fr1] frame_derived(1) [OF fr1]
    have ok1: "fat_disk_ok drv view bytes_of s1" "volume_sound s1" "reads_succeed drv s1" "valid_cluster s1 c"
      using ok vol rs c frame_disk_ok [OF fr1] frame_sound [OF fr1] frame_reads_succeed [OF fr1] f1 by auto
    have e1: "list_entries s1 2 (dir_raws s1 (dat view s1 c)) [] = ([], True)"
      using e list_entries_frame [OF fr1] frame_derived(5) [OF fr1] by (simp add: f1 dir_raws_def)
    have raw1: "dir_raw (cluster_buf s1) i = dir_raw (dat view s ec) i" if r1
      using 1 that i length_dat [OF ok] frame_dat(1) [OF sd0] by (simp add: dir_raw_append)
    show ?case
    proof (cases r1)
      case False then show ?thesis by simp
    next
      case True
      note rw = raw1 [OF True]
      have "wp (State_Monad.bind (dir_is_empty drv c) (\<lambda>empty. if \<not> empty then State_Monad.return False else State_Monad.bind State_Monad.get (\<lambda>s2.
          State_Monad.bind (set_cluster_buf ((cluster_buf s2)[32 * i := 0xE5])) (\<lambda>_. State_Monad.bind (write_cluster drv ec ((cluster_buf s2)[32 * i := 0xE5])) (\<lambda>ok2.
            if \<not> ok2 then State_Monad.return False
            else State_Monad.bind (if c \<ge> 2 then fat_free_chain drv c else State_Monad.return (Some 0)) (\<lambda>freed. case freed of
              None \<Rightarrow> State_Monad.return False
            | Some n \<Rightarrow> State_Monad.bind (upd_free (f n)) (\<lambda>_. State_Monad.bind (fat32_sync_fsinfo drv) (\<lambda>_. State_Monad.return True))))))))
          (\<lambda>r s'. r \<longrightarrow> dat view s' ec = (dat view s c)[32 * i := 0xE5]) s1" for f
        unfolding wp_bind
      proof (rule wp_mono [OF dir_is_empty_first [OF ok1 e1]], goal_cases)
        case (1 r2 s2)
        then have sd2: "same_disk view s s2" using same_disk_trans [OF sd1] by blast
        then have fr2: "fat_frame s2 = fat_frame s" by (simp add: same_disk_def)
        have ok2: "fat_disk_ok drv view bytes_of s2" "volume_sound s2" "s_fsinfo_valid s2 \<longrightarrow> unat (s_fsinfo_lba s2) < unat (s_data_start_lba s2)"
          using ok vol out frame_disk_ok [OF fr2] frame_sound [OF fr2] frame_fields(6,13,14) [OF fr2] by auto
        have b: "cluster_buf s2 = dat view s c @ drop (csize s) (cluster_buf s1)" using 1 by (simp add: f1)
        have t: "take (csize s2) ((cluster_buf s2)[32 * i := 0xE5]) = (dat view s c)[32 * i := 0xE5]" "csize s2 \<le> length ((cluster_buf s2)[32 * i := 0xE5])"
          using length_dat [OF ok] frame_fields(7) [OF fr2] by (simp_all add: b take_update_swap)
        show ?case using 1 delete_commit_dat [OF ok2 t(2), of ec c f] unfolding t(1) by simp
      qed
      then show ?thesis
        using True raw(1) c2 by (simp only: rw raw(2) not_True_eq_False if_False if_True conj_absorb simp_thms)
    qed
  qed
qed

text \<open>An evaluation of \<open>dir_raws\<close> that passes over the buffer once.\<close>

primrec raw_chunks :: "nat \<Rightarrow> u8 list \<Rightarrow> u8 list list" where
  "raw_chunks 0 buf = []"
| "raw_chunks (Suc n) buf = take 32 buf # raw_chunks n (drop 32 buf)"

lemma raw_chunks_eq: "raw_chunks n buf = map (dir_raw buf) [0..<n]"
proof (induction n arbitrary: buf)
  case (Suc n)
  have "[0..<Suc n] = 0 # map Suc [0..<n]" by (simp add: upt_conv_Cons map_Suc_upt del: upt_Suc)
  then show ?case by (simp add: Suc dir_raw_def add.commute)
qed simp

lemma dir_raws_code [code]: "dir_raws s buf = raw_chunks (entries_in_cluster s) buf"
  by (simp add: dir_raws_def raw_chunks_eq)

text \<open>A volume whose root directory holds the file \<open>KEEP.TXT\<close> in cluster 4 and the empty directory \<open>SUB\<close> in cluster 3.\<close>

definition dir_example_disk :: "medium \<Rightarrow> nat \<Rightarrow> u8 list" where
  "dir_example_disk m l =
     (if l = 1 then [0xF8, 0xFF, 0xFF, 0x0F, 0xFF, 0xFF, 0xFF, 0x0F, 0xF8, 0xFF, 0xFF, 0x0F, 0xF8, 0xFF, 0xFF, 0x0F, 0xF8, 0xFF, 0xFF, 0x0F]
      else if l = 2 then [0x4B, 0x45, 0x45, 0x50, 0x20, 0x20, 0x20, 0x20, 0x54, 0x58, 0x54, 0x20, 0, 0, 0, 0, 0, 0, 0, 0, 0, 0, 0, 0, 0, 0, 0x04, 0, 0x03,
        0, 0, 0, 0x53, 0x55, 0x42, 0x20, 0x20, 0x20, 0x20, 0x20, 0x20, 0x20, 0x20, 0x10, 0, 0, 0, 0, 0, 0, 0, 0, 0, 0, 0, 0, 0, 0, 0x03,
        0, 0, 0, 0, 0]
      else if l = 3 then [0x2E, 0x20, 0x20, 0x20, 0x20, 0x20, 0x20, 0x20, 0x20, 0x20, 0x20, 0x10, 0, 0, 0, 0, 0, 0, 0, 0, 0, 0, 0, 0, 0, 0, 0x03, 0, 0, 0,
        0, 0, 0x2E, 0x2E, 0x20, 0x20, 0x20, 0x20, 0x20, 0x20, 0x20, 0x20, 0x20, 0x10, 0, 0, 0, 0, 0, 0, 0, 0, 0, 0, 0, 0, 0, 0, 0x02, 0,
        0, 0, 0, 0]
      else if l = 4 then [1, 2, 3] else [])"

definition dir_example :: "(medium \<Rightarrow> nat \<Rightarrow> u8 list) fat32" where
  "dir_example = fat_example\<lparr>m_dev := dir_example_disk\<rparr>"

lemma dir_example_ok: "fat_disk_ok ram512 (ram_view 512) (\<lambda>_. 512) dir_example" "volume_sound dir_example" "reads_succeed ram512 dir_example"
  using fat_example_ok fat_example_sound(1) fat_example_reads by (simp_all add: dir_example_def fat_disk_ok_def volume_sound_def reads_succeed_def)



text \<open>
  C37. Deleting an empty directory destroys its parent. The test for emptiness lists the directory and so reads it into the buffer that holds the cluster of the
  parent with the entry; that buffer is then marked and written back. After a successful deletion the parent's cluster is therefore the content of the
  deleted directory with one mark in it, and every other entry of that cluster is lost.
\<close>

theorem delete_directory_overwrites_parent:
  assumes "fat_disk_ok drv view bytes_of s" "volume_sound s" "reads_succeed drv s"
    and "s_fsinfo_valid s \<longrightarrow> unat (s_fsinfo_lba s) < unat (s_data_start_lba s)"
    and "run_state (locate_dir_entry drv dir (to_short_name name)) s = (Some (ec, i), s0)" "32 * i + 32 \<le> csize s"
    and "dir_raw (dat view s ec) i ! 11 AND 0x10 \<noteq> 0" "raw_first_cluster (dir_raw (dat view s ec) i) = c" "valid_cluster s c"
    and "list_entries s 2 (dir_raws s (dat view s c)) [] = ([], True)"
    and "run_state (fat32_delete_file drv dir name) s = (True, s')"
  shows "dat view s' ec = (dat view s c)[32 * i := 0xE5]"
  using delete_directory_spec [OF assms(1-10)] unfolding wp_run [OF assms(11)] by simp

theorem delete_directory_overwrites_parent_witness:
  "\<exists>s'. run_state (fat32_delete_file ram512 2 ''sub'') dir_example = (True, s') \<and>
     dat (ram_view 512) s' 2 = (dat (ram_view 512) dir_example 3)[32 := 0xE5]"
proof -
  let ?s' = "snd (run_state (fat32_delete_file ram512 2 ''sub'') dir_example)"
  let ?s0 = "snd (run_state (locate_dir_entry ram512 2 (to_short_name ''sub'')) dir_example)"
  have f: "s_fsinfo_valid dir_example \<longrightarrow> unat (s_fsinfo_lba dir_example) < unat (s_data_start_lba dir_example)" by (simp add: dir_example_def fat_example_def)
  have "fst (run_state (locate_dir_entry ram512 2 (to_short_name ''sub'')) dir_example) = Some (2, 1)" by code_simp
  then have l: "run_state (locate_dir_entry ram512 2 (to_short_name ''sub'')) dir_example = (Some (2, 1), ?s0)" by (simp add: prod_eq_iff)
  have i: "32 * 1 + 32 \<le> csize dir_example" by (simp add: dir_example_def fat_example_def)
  have raw: "dir_raw (dat (ram_view 512) dir_example 2) 1 ! 11 AND 0x10 \<noteq> 0" "raw_first_cluster (dir_raw (dat (ram_view 512) dir_example 2) 1) = 3" "valid_cluster dir_example 3"
    by code_simp+
  have e: "list_entries dir_example 2 (dir_raws dir_example (dat (ram_view 512) dir_example 3)) [] = ([], True)" by code_simp
  have "fst (run_state (fat32_delete_file ram512 2 ''sub'') dir_example)" by code_simp
  then have d: "run_state (fat32_delete_file ram512 2 ''sub'') dir_example = (True, ?s')" by (simp add: prod_eq_iff)
  from delete_directory_overwrites_parent [OF dir_example_ok f l i raw e d] d show ?thesis by auto
qed

subsection \<open>The directory walk of the consistency check ends\<close>

text \<open>A step of the walk queues as many directories as it counts, and never more than the queue has places.\<close>

definition queued :: "walk \<Rightarrow> walk \<Rightarrow> bool" where
  "queued w w' \<longleftrightarrow> (case (w, w') of ((_, _, q, c), (_, _, q', c')) \<Rightarrow> length q' + c = length q + c' \<and> c \<le> c' \<and> (c \<le> 1024 \<longrightarrow> c' \<le> 1024))"

lemma queued_refl: "queued w (u, r, snd (snd w))"
  by (cases w) (simp add: queued_def)

lemma queued_self [simp]: "queued w w"
  by (cases w) (simp add: queued_def)

lemma queued_trans: "queued w w' \<Longrightarrow> queued w' w'' \<Longrightarrow> queued w w''"
  by (auto simp: queued_def split: prod.splits)

lemma queued_push: "snd (snd (snd w)) < 1024 \<Longrightarrow> queued w (u, r, fst (snd (snd w)) @ [x], snd (snd (snd w)) + 1)"
  by (cases w) (simp add: queued_def)

text \<open>\<open>results P m\<close>: whatever state \<open>m\<close> starts in, its result satisfies \<open>P\<close>.\<close>

definition results :: "('a \<Rightarrow> bool) \<Rightarrow> ('s, 'a) state \<Rightarrow> bool" where
  "results P m \<longleftrightarrow> (\<forall>s. P (fst (run_state m s)))"

named_theorems results \<open>results of composed computations\<close>

lemma results_return [results]: "P a \<Longrightarrow> results P (State_Monad.return a)"
  by (simp add: results_def)

lemma results_if [results]: "(b \<Longrightarrow> results P m) \<Longrightarrow> (\<not> b \<Longrightarrow> results P n) \<Longrightarrow> results P (if b then m else n)"
  by simp

lemma results_Let [results]: "results P (g x) \<Longrightarrow> results P (Let x g)"
  by simp

lemma results_option [results]: "(x = None \<Longrightarrow> results P m) \<Longrightarrow> (\<And>y. x = Some y \<Longrightarrow> results P (g y)) \<Longrightarrow> results P (case x of None \<Rightarrow> m | Some y \<Rightarrow> g y)"
  by (cases x) auto

lemma results_prod [results]: "(\<And>a b. x = (a, b) \<Longrightarrow> results P (g a b)) \<Longrightarrow> results P (case x of (a, b) \<Rightarrow> g a b)"
  by (cases x) auto

lemma results_bind [results]: "(\<And>a. results P (g a)) \<Longrightarrow> results P (State_Monad.bind m g)"
  by (simp add: results_def split_beta)

lemma results_bind_from: "results R m \<Longrightarrow> (\<And>a. R a \<Longrightarrow> results P (g a)) \<Longrightarrow> results P (State_Monad.bind m g)"
  by (simp add: results_def split_beta)

lemma results_mono: "results R m \<Longrightarrow> (\<And>a. R a \<Longrightarrow> P a) \<Longrightarrow> results P m"
  by (simp add: results_def)

lemma repair_entries_queued: "results (\<lambda>res. \<forall>w' e. res = Some (w', e) \<longrightarrow> queued w w') (repair_entries drv raws w :: ('d, 'x, (walk \<times> bool) option) fio)"
proof (induction raws arbitrary: w)
  case (Cons raw raws)
  have step: "results (\<lambda>res. \<forall>w' e. res = Some (w', e) \<longrightarrow> queued w w') (repair_entries drv raws w1 :: ('d, 'x, (walk \<times> bool) option) fio)" if "queued w w1" for w1
    by (rule results_mono [OF Cons.IH]) (use queued_trans [OF that] in blast)
  show ?case
    unfolding repair_entries.simps by (intro results step queued_self queued_refl queued_push) simp_all
qed (simp add: results_def)

lemma repair_dir_loop_queued: "results (\<lambda>res. \<forall>w'. res = Some w' \<longrightarrow> queued w w') (repair_dir_loop n drv c w :: ('d, 'x, walk option) fio)"
proof (induction n arbitrary: c w)
  case (Suc n)
  have step: "results (\<lambda>res. \<forall>w'. res = Some w' \<longrightarrow> queued w w') (repair_dir_loop n drv c1 w1 :: ('d, 'x, walk option) fio)" if "queued w w1" for c1 w1
    by (rule results_mono [OF Suc.IH]) (use queued_trans [OF that] in blast)
  show ?case
    unfolding repair_dir_loop.simps by (intro results_bind_from [OF repair_entries_queued] results step) auto
qed (simp add: results_def)

lemma repair_walk_fuel:
  assumes "length (fst (snd (snd w))) + (1024 - snd (snd (snd w))) \<le> n" "length (fst (snd (snd w))) + (1024 - snd (snd (snd w))) \<le> m" "snd (snd (snd w)) \<le> 1024"
  shows "run_state (repair_walk n drv w) s = run_state (repair_walk m drv w) s"
  using assms
proof (induction n arbitrary: m w s)
  case 0
  have "length (fst (snd (snd w))) = 0" using 0 by linarith
  then show ?case by (cases m) simp_all
next
  case (Suc n)
  obtain u r q c where w: "w = (u, r, q, c)" by (cases w)
  show ?case
  proof (cases q)
    case Nil
    then show ?thesis by (cases m) (simp_all add: w)
  next
    case (Cons x q1)
    obtain m1 where m: "m = Suc m1" using Suc.prems(2) Cons by (cases m) (simp_all add: w)
    let ?w0 = "(u, r\<lparr>rr_directories := rr_directories r + 1\<rparr>, q1, c)"
    obtain a s1 where run: "run_state (repair_dir_loop (chain_fuel s) drv x ?w0) s = (a, s1)" by fastforce
    have "run_state (repair_walk n drv w1) s1 = run_state (repair_walk m1 drv w1) s1" if "a = Some w1" for w1
    proof -
      have "\<forall>w'. fst (run_state (repair_dir_loop (chain_fuel s) drv x ?w0) s) = Some w' \<longrightarrow> queued ?w0 w'"
        using repair_dir_loop_queued unfolding results_def by blast
      then have q: "queued ?w0 w1" using that run by simp
      obtain u1 r1 q2 c1 where w1: "w1 = (u1, r1, q2, c1)" by (cases w1)
      have c: "length q2 + c = length q1 + c1" "c1 \<le> 1024" "c \<le> 1024" using q Suc.prems(3) by (simp_all add: queued_def w w1)
      have "length q2 + (1024 - c1) \<le> n" "length q2 + (1024 - c1) \<le> m1" using c Suc.prems(1,2) Cons m by (simp_all add: w)
      then show ?thesis using c by (intro Suc.IH) (simp_all add: w1)
    qed
    then show ?thesis using run Cons m by (simp add: w Let_def split: option.split)
  qed
qed

text \<open>
  C38. The consistency check ends. Its walk over the directories is a loop that runs while the queue it fills itself is not empty, over directories that may
  contain each other; on every volume, whatever its tables and directories contain and whatever the device answers, the queue is empty after at
  most 1024 rounds: more rounds give the same result.
\<close>

theorem repair_walk_terminates:
  "run_state (repair_walk (1024 + k) drv (used, report, [root], 1)) s = run_state (repair_walk 1024 drv (used, report, [root], 1)) s"
  by (rule repair_walk_fuel) simp_all

end
