(* ===== verification/Unix_Objects.thy ===== *)
theory Unix_Objects
  imports Vmm Ring
begin

text \<open>
  The objects behind descriptors of \<open>kernel/unix_ipc.c\<close>: memory files, stream sockets, event counters and epoll instances, each in a
  table of its own, with the operations that work on an object. Those that work on descriptors are in \<open>Unix_Ipc\<close>.
\<close>

abbreviation (input) MAX_MEMFDS :: nat where "MAX_MEMFDS \<equiv> 32"
abbreviation (input) MEMFD_MAX_PAGES :: u64 where "MEMFD_MAX_PAGES \<equiv> 4096"
abbreviation (input) MAX_UNIX_SOCKETS :: nat where "MAX_UNIX_SOCKETS \<equiv> 32"
abbreviation (input) UNIX_RING_SIZE :: nat where "UNIX_RING_SIZE \<equiv> 64 * 1024"
abbreviation (input) MAX_QUEUED_FDS :: nat where "MAX_QUEUED_FDS \<equiv> 16"
abbreviation (input) UNIX_BACKLOG :: nat where "UNIX_BACKLOG \<equiv> 16"
abbreviation (input) MAX_EPOLLS :: nat where "MAX_EPOLLS \<equiv> 16"
abbreviation (input) MAX_EPOLL_ITEMS :: nat where "MAX_EPOLL_ITEMS \<equiv> 32"
abbreviation (input) MAX_EVENTFDS :: nat where "MAX_EVENTFDS \<equiv> 32"
abbreviation (input) FD_POLL_READ :: u32 where "FD_POLL_READ \<equiv> 1"
abbreviation (input) FD_POLL_WRITE :: u32 where "FD_POLL_WRITE \<equiv> 2"
abbreviation (input) FD_POLL_HANGUP :: u32 where "FD_POLL_HANGUP \<equiv> 4"

subsection \<open>The tables\<close>

text \<open>A pointer to an object is its index in the table of its kind; \<open>NULL\<close> is \<open>None\<close>. The pages of a memory file are the used part of \<open>phys_pages\<close>.\<close>

record memfd_object =
  mf_refcount :: u32
  mf_in_use :: bool
  mf_name :: string
  mf_size :: u64
  mf_pages :: "u64 list"
  mf_flags :: u32

datatype unix_state = UNIX_STATE_CLOSED | UNIX_STATE_OPEN | UNIX_STATE_LISTENING | UNIX_STATE_CONNECTED

text \<open>
  A socket. Its byte ring is kept with its indices; of the two small circular arrays, the descriptors in transit and the connections
  waiting to be accepted, only the live elements are kept, oldest first.
\<close>

record unix_socket =
  us_refcount :: u32
  us_in_use :: bool
  us_owner_pid :: int
  us_state :: unix_state
  us_path :: string
  us_peer :: "nat option"
  us_ring :: ring
  us_queued :: "u16 list"
  us_backlog :: "nat list"

record epoll_item =
  it_fd :: int
  it_events :: u32
  it_data :: u64
  it_active :: bool

record epoll_instance =
  ep_refcount :: u32
  ep_in_use :: bool
  ep_owner_pid :: int
  ep_items :: "nat \<Rightarrow> epoll_item"
  ep_count :: int

record eventfd_object =
  ev_in_use :: bool
  ev_semaphore :: bool
  ev_counter :: u64

record unix_objs =
  g_memfds :: "nat \<Rightarrow> memfd_object"
  g_unix_sockets :: "nat \<Rightarrow> unix_socket"
  g_epolls :: "nat \<Rightarrow> epoll_instance"
  g_eventfds :: "nat \<Rightarrow> eventfd_object"

definition upd_memfd :: "nat \<Rightarrow> (memfd_object \<Rightarrow> memfd_object) \<Rightarrow> unix_objs \<Rightarrow> unix_objs" where
  "upd_memfd i f u = u\<lparr>g_memfds := (g_memfds u)(i := f (g_memfds u i))\<rparr>"

definition upd_socket :: "nat \<Rightarrow> (unix_socket \<Rightarrow> unix_socket) \<Rightarrow> unix_objs \<Rightarrow> unix_objs" where
  "upd_socket i f u = u\<lparr>g_unix_sockets := (g_unix_sockets u)(i := f (g_unix_sockets u i))\<rparr>"

definition upd_epoll :: "nat \<Rightarrow> (epoll_instance \<Rightarrow> epoll_instance) \<Rightarrow> unix_objs \<Rightarrow> unix_objs" where
  "upd_epoll i f u = u\<lparr>g_epolls := (g_epolls u)(i := f (g_epolls u i))\<rparr>"

definition upd_eventfd :: "nat \<Rightarrow> (eventfd_object \<Rightarrow> eventfd_object) \<Rightarrow> unix_objs \<Rightarrow> unix_objs" where
  "upd_eventfd i f u = u\<lparr>g_eventfds := (g_eventfds u)(i := f (g_eventfds u i))\<rparr>"

definition unix_ipc_init :: "unix_objs \<Rightarrow> unix_objs" where
  "unix_ipc_init u =
     \<lparr>g_memfds = (\<lambda>i. if i < MAX_MEMFDS then (g_memfds u i)\<lparr>mf_in_use := False, mf_refcount := 0\<rparr> else g_memfds u i),
      g_unix_sockets = (\<lambda>i. if i < MAX_UNIX_SOCKETS then (g_unix_sockets u i)\<lparr>us_in_use := False, us_refcount := 0\<rparr> else g_unix_sockets u i),
      g_epolls = (\<lambda>i. if i < MAX_EPOLLS then (g_epolls u i)\<lparr>ep_in_use := False, ep_refcount := 0\<rparr> else g_epolls u i),
      g_eventfds = (\<lambda>i. if i < MAX_EVENTFDS then (g_eventfds u i)\<lparr>ev_in_use := False\<rparr> else g_eventfds u i)\<rparr>"

subsection \<open>Memory files\<close>

definition alloc_memfd :: "unix_objs \<Rightarrow> nat option \<times> unix_objs" where
  "alloc_memfd u =
     (case first_from (\<lambda>i. \<not> mf_in_use (g_memfds u i) \<and> mf_refcount (g_memfds u i) = 0) 0 MAX_MEMFDS of
        None \<Rightarrow> (None, u)
      | Some i \<Rightarrow> (Some i, upd_memfd i (\<lambda>_. \<lparr>mf_refcount = 1, mf_in_use = True, mf_name = '''', mf_size = 0, mf_pages = [], mf_flags = 0\<rparr>) u))"

definition needed_pages :: "u64 \<Rightarrow> u64" where
  "needed_pages len = (len + PAGE_SIZE - 1) div PAGE_SIZE"

text \<open>The loop that adds \<open>n\<close> zeroed pages; it stops when there is no memory, keeping what it has.\<close>

primrec memfd_grow :: "nat \<Rightarrow> memfd_object \<Rightarrow> mm \<Rightarrow> bool \<times> memfd_object \<times> mm" where
  "memfd_grow 0 f m = (True, f, m)"
| "memfd_grow (Suc n) f m =
     (case pmm_alloc_page m of
        (phys, m1) \<Rightarrow>
          if phys = 0 then (False, f, m1)
          else memfd_grow n (f\<lparr>mf_pages := mf_pages f @ [phys]\<rparr>) (m1\<lparr>phys_mem := write_bytes phys (replicate 4096 0) (phys_mem m1)\<rparr>))"

text \<open>The loop that gives back the last \<open>n\<close> pages.\<close>

primrec memfd_shrink :: "nat \<Rightarrow> memfd_object \<Rightarrow> mm \<Rightarrow> memfd_object \<times> mm" where
  "memfd_shrink 0 f m = (f, m)"
| "memfd_shrink (Suc n) f m =
     memfd_shrink n (f\<lparr>mf_pages := butlast (mf_pages f)\<rparr>)
       (if last (mf_pages f) \<noteq> 0 then snd (pmm_free_page (last (mf_pages f)) m) else m)"

text \<open>\<open>unix_memfd_ftruncate\<close> from the object on.\<close>

definition memfd_truncate :: "u64 \<Rightarrow> memfd_object \<Rightarrow> mm \<Rightarrow> int \<times> memfd_object \<times> mm" where
  "memfd_truncate len f m =
     (if needed_pages len > MEMFD_MAX_PAGES then (- 1, f, m)
      else
        let n = unat (needed_pages len) in
        case memfd_grow (n - length (mf_pages f)) f m of
          (False, f1, m1) \<Rightarrow> (- 1, f1, m1)
        | (True, f1, m1) \<Rightarrow>
            (case memfd_shrink (length (mf_pages f1) - n) f1 m1 of (f2, m2) \<Rightarrow> (0, f2\<lparr>mf_size := len\<rparr>, m2)))"

text \<open>The bytes at positions \<open>cur\<close> to \<open>cur + n\<close>, page by page; positions beyond the pages read as zero.\<close>

function memfd_bytes :: "memfd_object \<Rightarrow> mm \<Rightarrow> u64 \<Rightarrow> nat \<Rightarrow> u8 list" where
  "memfd_bytes f m cur n =
     (if n = 0 then []
      else
        let idx = unat (cur div PAGE_SIZE);
            off = cur mod PAGE_SIZE;
            chunk = page_chunk cur n;
            phys = (if idx < length (mf_pages f) then mf_pages f ! idx else 0)
        in (if phys \<noteq> 0 then read_bytes (phys_mem m) (phys + off) chunk else replicate chunk 0) @
           memfd_bytes f m (cur + word_of_nat chunk) (n - chunk))"
  by auto
termination
  by (relation "measure (\<lambda>(_, _, _, n). n)") (auto simp: page_chunk_pos)

definition unix_memfd_read :: "nat option \<Rightarrow> u64 \<Rightarrow> u32 \<Rightarrow> unix_objs \<Rightarrow> mm \<Rightarrow> int \<times> u8 list \<times> u64" where
  "unix_memfd_read ptr off count u m =
     (case ptr of
        None \<Rightarrow> (- 1, [], off)
      | Some i \<Rightarrow>
          let f = g_memfds u i in
          if count = 0 then (- 1, [], off)
          else if off \<ge> mf_size f then (0, [], off)
          else
            let avail = mf_size f - off;
                to_read = (if ucast count < avail then count else ucast avail) :: u32
            in (int (unat to_read), memfd_bytes f m off (unat to_read), off + ucast to_read))"

function memfd_store :: "memfd_object \<Rightarrow> u64 \<Rightarrow> u8 list \<Rightarrow> mm \<Rightarrow> mm" where
  "memfd_store f cur data m =
     (if data = [] then m
      else
        let chunk = page_chunk cur (length data);
            phys = mf_pages f ! unat (cur div PAGE_SIZE)
        in memfd_store f (cur + word_of_nat chunk) (drop chunk data)
             (m\<lparr>phys_mem := write_bytes (phys + cur mod PAGE_SIZE) (take chunk data) (phys_mem m)\<rparr>))"
  by auto
termination
  by (relation "measure (\<lambda>(_, _, data, _). length data)") (auto simp: page_chunk_pos)

definition unix_memfd_write :: "nat option \<Rightarrow> u64 \<Rightarrow> u8 list \<Rightarrow> unix_objs \<Rightarrow> mm \<Rightarrow> int \<times> u64 \<times> unix_objs \<times> mm" where
  "unix_memfd_write ptr off data u m =
     (case ptr of
        None \<Rightarrow> (- 1, off, u, m)
      | Some i \<Rightarrow>
          let e = off + word_of_nat (length data) in
          if data = [] then (- 1, off, u, m)
          else if needed_pages e > MEMFD_MAX_PAGES then (- 1, off, u, m)
          else
            case memfd_grow (unat (needed_pages e) - length (mf_pages (g_memfds u i))) (g_memfds u i) m of
              (False, f1, m1) \<Rightarrow> (- 1, off, upd_memfd i (\<lambda>_. f1) u, m1)
            | (True, f1, m1) \<Rightarrow>
                (int (length data), e, upd_memfd i (\<lambda>_. f1\<lparr>mf_size := (if e > mf_size f1 then e else mf_size f1)\<rparr>) u, memfd_store f1 off data m1))"

text \<open>Giving up a reference; the last one frees the pages.\<close>

definition unix_memfd_release :: "nat option \<Rightarrow> unix_objs \<Rightarrow> mm \<Rightarrow> unix_objs \<times> mm" where
  "unix_memfd_release ptr u m =
     (case ptr of
        None \<Rightarrow> (u, m)
      | Some i \<Rightarrow>
          let f = g_memfds u i;
              r = (if mf_refcount f > 0 then mf_refcount f - 1 else mf_refcount f)
          in if r = 0
             then (upd_memfd i (\<lambda>f. f\<lparr>mf_refcount := 0, mf_in_use := False, mf_pages := [], mf_size := 0\<rparr>) u,
                   fold (\<lambda>phys m. if phys \<noteq> 0 then snd (pmm_free_page phys m) else m) (mf_pages f) m)
             else (upd_memfd i (\<lambda>f. f\<lparr>mf_refcount := r\<rparr>) u, m))"

definition unix_memfd_retain :: "nat option \<Rightarrow> unix_objs \<Rightarrow> unix_objs" where
  "unix_memfd_retain ptr u =
     (case ptr of None \<Rightarrow> u
      | Some i \<Rightarrow> if mf_in_use (g_memfds u i) then upd_memfd i (\<lambda>f. f\<lparr>mf_refcount := mf_refcount f + 1\<rparr>) u else u)"

definition unix_memfd_get_size :: "nat option \<Rightarrow> unix_objs \<Rightarrow> u64" where
  "unix_memfd_get_size ptr u = (case ptr of None \<Rightarrow> 0 | Some i \<Rightarrow> mf_size (g_memfds u i))"

subsection \<open>Sockets\<close>

definition unix_socket_new :: "int \<Rightarrow> unix_socket \<Rightarrow> unix_socket" where
  "unix_socket_new pid old =
     \<lparr>us_refcount = 1, us_in_use = True, us_owner_pid = pid, us_state = UNIX_STATE_OPEN, us_path = '''', us_peer = None,
      us_ring = ring_reset (us_ring old), us_queued = [], us_backlog = []\<rparr>"

definition alloc_unix_socket :: "int \<Rightarrow> unix_objs \<Rightarrow> nat option \<times> unix_objs" where
  "alloc_unix_socket pid u =
     (case first_from (\<lambda>i. \<not> us_in_use (g_unix_sockets u i) \<and> us_refcount (g_unix_sockets u i) = 0) 0 MAX_UNIX_SOCKETS of
        None \<Rightarrow> (None, u)
      | Some i \<Rightarrow> (Some i, upd_socket i (unix_socket_new pid) u))"

definition unix_socket_release :: "nat option \<Rightarrow> unix_objs \<Rightarrow> unix_objs" where
  "unix_socket_release ptr u =
     (case ptr of
        None \<Rightarrow> u
      | Some i \<Rightarrow>
          let s = g_unix_sockets u i;
              r = (if us_refcount s > 0 then us_refcount s - 1 else us_refcount s);
              u1 = upd_socket i (\<lambda>s. s\<lparr>us_refcount := r\<rparr>) u
          in if r = 0
             then
               let u2 = upd_socket i (\<lambda>s. s\<lparr>us_state := UNIX_STATE_CLOSED\<rparr>) u1;
                   u3 = (case us_peer s of
                           None \<Rightarrow> u2
                         | Some p \<Rightarrow> upd_socket i (\<lambda>s. s\<lparr>us_peer := None\<rparr>) (upd_socket p (\<lambda>s. s\<lparr>us_peer := None\<rparr>) u2))
               in upd_socket i (\<lambda>s. s\<lparr>us_in_use := False\<rparr>) u3
             else u1)"

text \<open>The two nested loops of a send: as much as fits is stored, and the free space looked at again until nothing is left or the ring is full.\<close>

function socket_put :: "u8 list \<Rightarrow> ring \<Rightarrow> nat \<times> ring" where
  "socket_put data r =
     (if data = [] \<or> UNIX_RING_SIZE - ring_used r = 0 then (0, r)
      else
        let space = UNIX_RING_SIZE - ring_used r;
            chunk = (if length data > space then space else length data);
            (n, r2) = socket_put (drop chunk data) (fold (ring_store UNIX_RING_SIZE) (take chunk data) r)
        in (chunk + n, r2))"
  by auto
termination
  by (relation "measure (\<lambda>(data, _). length data)") (auto split: if_splits)

declare socket_put.simps [simp del]

primrec socket_get :: "nat \<Rightarrow> ring \<Rightarrow> u8 list \<times> ring" where
  "socket_get 0 r = ([], r)"
| "socket_get (Suc k) r =
     (if ring_used r > 0
      then let (b, r1) = ring_fetch UNIX_RING_SIZE r; (bs, r2) = socket_get k r1 in (b # bs, r2)
      else ([], r))"

definition unix_socket_send_stream :: "nat option \<Rightarrow> u8 list \<Rightarrow> unix_objs \<Rightarrow> int \<times> unix_objs" where
  "unix_socket_send_stream ptr data u =
     (case ptr of
        None \<Rightarrow> (- 1, u)
      | Some i \<Rightarrow>
          (case us_peer (g_unix_sockets u i) of
             None \<Rightarrow> (- 1, u)
           | Some p \<Rightarrow>
               if us_state (g_unix_sockets u i) \<noteq> UNIX_STATE_CONNECTED \<or> data = [] then (- 1, u)
               else let (n, r) = socket_put data (us_ring (g_unix_sockets u p))
                    in (if n > 0 then int n else - 1, upd_socket p (\<lambda>s. s\<lparr>us_ring := r\<rparr>) u)))"

text \<open>0 is the end of the stream, \<open>-11\<close> that nothing has arrived.\<close>

definition unix_socket_recv_stream :: "nat option \<Rightarrow> u32 \<Rightarrow> unix_objs \<Rightarrow> int \<times> u8 list \<times> unix_objs" where
  "unix_socket_recv_stream ptr count u =
     (case ptr of
        None \<Rightarrow> (- 1, [], u)
      | Some i \<Rightarrow>
          let s = g_unix_sockets u i in
          if count = 0 then (- 1, [], u)
          else if ring_used (us_ring s) = 0
          then (if us_state s \<noteq> UNIX_STATE_CONNECTED \<or> us_peer s = None then 0 else - 11, [], u)
          else let (bs, r) = socket_get (unat count) (us_ring s)
               in (int (length bs), bs, upd_socket i (\<lambda>s. s\<lparr>us_ring := r\<rparr>) u))"

definition unix_socket_poll_events :: "nat option \<Rightarrow> u32 \<Rightarrow> unix_objs \<Rightarrow> int" where
  "unix_socket_poll_events ptr events u =
     (case ptr of
        None \<Rightarrow> - 1
      | Some i \<Rightarrow>
          let s = g_unix_sockets u i in
          if us_state s = UNIX_STATE_LISTENING
          then sint ((if us_backlog s \<noteq> [] then FD_POLL_READ else 0) AND events)
          else
            let ready =
              (if us_state s = UNIX_STATE_CONNECTED
               then (if ring_used (us_ring s) > 0 then FD_POLL_READ else 0) OR
                    (case us_peer s of
                       None \<Rightarrow> FD_POLL_HANGUP
                     | Some p \<Rightarrow>
                         (if UNIX_RING_SIZE - ring_used (us_ring (g_unix_sockets u p)) > 0 then FD_POLL_WRITE else 0) OR
                         (if us_state (g_unix_sockets u p) = UNIX_STATE_CLOSED then FD_POLL_HANGUP else 0))
               else FD_POLL_HANGUP)
            in sint (ready AND events))"

subsection \<open>Event counters and epoll instances\<close>

definition unix_eventfd_read :: "nat option \<Rightarrow> u32 \<Rightarrow> unix_objs \<Rightarrow> int \<times> u8 list \<times> unix_objs" where
  "unix_eventfd_read ptr count u =
     (case ptr of
        None \<Rightarrow> (- 1, [], u)
      | Some i \<Rightarrow>
          let e = g_eventfds u i in
          if \<not> ev_in_use e \<or> count < 8 then (- 1, [], u)
          else if ev_counter e = 0 then (0, [], u)
          else let value = (if ev_semaphore e then 1 else ev_counter e)
               in (8, le_bytes 8 value, upd_eventfd i (\<lambda>e. e\<lparr>ev_counter := ev_counter e - value\<rparr>) u))"

definition unix_eventfd_write :: "nat option \<Rightarrow> u8 list \<Rightarrow> unix_objs \<Rightarrow> int \<times> unix_objs" where
  "unix_eventfd_write ptr data u =
     (case ptr of
        None \<Rightarrow> (- 1, u)
      | Some i \<Rightarrow>
          let e = g_eventfds u i in
          if \<not> ev_in_use e \<or> length data < 8 then (- 1, u)
          else
            let value = field data 0 8 in
            if value = - 1 then (- 1, u)
            else if value > (- 1 - 1) - ev_counter e then (- 1, u)
            else (8, upd_eventfd i (\<lambda>e. e\<lparr>ev_counter := ev_counter e + value\<rparr>) u))"

definition unix_eventfd_poll :: "nat option \<Rightarrow> u32 \<Rightarrow> unix_objs \<Rightarrow> int" where
  "unix_eventfd_poll ptr events u =
     (case ptr of
        None \<Rightarrow> - 1
      | Some i \<Rightarrow>
          if \<not> ev_in_use (g_eventfds u i) then - 1
          else sint ((FD_POLL_WRITE OR (if ev_counter (g_eventfds u i) \<noteq> 0 then FD_POLL_READ else 0)) AND events))"

definition unix_eventfd_release :: "nat option \<Rightarrow> unix_objs \<Rightarrow> unix_objs" where
  "unix_eventfd_release ptr u = (case ptr of None \<Rightarrow> u | Some i \<Rightarrow> upd_eventfd i (\<lambda>e. e\<lparr>ev_in_use := False\<rparr>) u)"

definition unix_epoll_release :: "nat option \<Rightarrow> unix_objs \<Rightarrow> unix_objs" where
  "unix_epoll_release ptr u =
     (case ptr of
        None \<Rightarrow> u
      | Some i \<Rightarrow>
          let ep = g_epolls u i;
              r = (if ep_refcount ep > 0 then ep_refcount ep - 1 else ep_refcount ep)
          in upd_epoll i (\<lambda>e. if r = 0 then e\<lparr>ep_refcount := r, ep_in_use := False\<rparr> else e\<lparr>ep_refcount := r\<rparr>) u)"

subsection \<open>The stream of a socket\<close>

lemma fold_ring_store:
  assumes "ring_wf N r" "length bs + ring_used r \<le> N"
  shows "ring_wf N (fold (ring_store N) bs r) \<and> ring_content N (fold (ring_store N) bs r) = ring_content N r @ bs \<and>
    ring_used (fold (ring_store N) bs r) = ring_used r + length bs"
  using assms
proof (induction bs arbitrary: r)
  case (Cons b bs)
  have "ring_used r < N" using Cons.prems(2) by simp
  note st = ring_store_ok [OF Cons.prems(1) this, of b]
  show ?case using Cons.IH [OF st(1)] Cons.prems(2) st by simp
qed simp

lemma socket_put_eq:
  "socket_put data r =
     (let k = min (length data) (UNIX_RING_SIZE - ring_used r) in (k, fold (ring_store UNIX_RING_SIZE) (take k data) r))"
  if "ring_wf UNIX_RING_SIZE r"
proof (cases "data = [] \<or> UNIX_RING_SIZE - ring_used r = 0")
  case True
  then show ?thesis by (subst socket_put.simps) auto
next
  case False
  define k where "k = min (length data) (UNIX_RING_SIZE - ring_used r)"
  have k: "(if length data > UNIX_RING_SIZE - ring_used r then UNIX_RING_SIZE - ring_used r else length data) = k" by (simp add: k_def min_def)
  let ?r1 = "fold (ring_store UNIX_RING_SIZE) (take k data) r"
  have le: "length (take k data) + ring_used r \<le> UNIX_RING_SIZE" using that by (auto simp: k_def ring_wf_def)
  have used: "ring_used ?r1 = ring_used r + k" using fold_ring_store [OF that le] by (simp add: k_def)
  have "drop k data = [] \<or> UNIX_RING_SIZE - ring_used ?r1 = 0" using used by (auto simp: k_def min_def)
  then have "socket_put (drop k data) ?r1 = (0, ?r1)" by (subst socket_put.simps) (simp only: if_True)
  then show ?thesis
    by (subst socket_put.simps) (simp only: if_not_P [OF False] Let_def k k_def [symmetric] prod.case add_0_right)
qed

lemma socket_get_ok:
  assumes "ring_wf UNIX_RING_SIZE r"
  shows "ring_wf UNIX_RING_SIZE (snd (socket_get k r)) \<and> fst (socket_get k r) = take k (ring_content UNIX_RING_SIZE r) \<and>
    ring_content UNIX_RING_SIZE (snd (socket_get k r)) = drop k (ring_content UNIX_RING_SIZE r)"
  using assms
proof (induction k arbitrary: r)
  case (Suc k)
  show ?case
  proof (cases "ring_used r > 0")
    case True
    note f = ring_fetch_ok [OF Suc.prems True]
    show ?thesis using Suc.IH [OF f(1)] f(2) True by (simp add: case_prod_beta Let_def)
  next
    case False
    then show ?thesis using Suc.prems by (simp add: ring_content_def)
  qed
qed simp

interpretation socket_ring: byte_fifo "64 * 1024" "ring_wf (64 * 1024)" "ring_content (64 * 1024)" socket_put socket_get
proof unfold_locales
  fix r :: ring and bs :: "u8 list"
  assume wf: "ring_wf (64 * 1024) r"
  define k where "k = min (length bs) (64 * 1024 - ring_used r)"
  have le: "length (take k bs) + ring_used r \<le> 64 * 1024" using wf by (auto simp: k_def ring_wf_def)
  have put: "socket_put bs r = (k, fold (ring_store (64 * 1024)) (take k bs) r)" using socket_put_eq [OF wf, of bs] by (simp add: k_def Let_def)
  show "ring_wf (64 * 1024) (snd (socket_put bs r))" "fst (socket_put bs r) = min (length bs) (64 * 1024 - length (ring_content (64 * 1024) r))"
    "ring_content (64 * 1024) (snd (socket_put bs r)) = ring_content (64 * 1024) r @ take (fst (socket_put bs r)) bs"
    using fold_ring_store [OF wf le] by (simp_all add: put k_def)
qed (use socket_get_ok in \<open>auto simp: ring_wf_def\<close>)

end
