(* ===== verification/Evdev.thy ===== *)
theory Evdev
  imports Vmm
begin

text \<open>
  The event devices of \<open>kernel/evdev.c\<close>: instances with a queue of input events, fed by the keyboard and the mouse, read through descriptors.
\<close>

abbreviation (input) EVDEV_RING_SIZE :: nat where "EVDEV_RING_SIZE \<equiv> 128"
abbreviation (input) MAX_EVDEV_INSTANCES :: nat where "MAX_EVDEV_INSTANCES \<equiv> 16"
abbreviation (input) EVDEV_DEV_KBD :: int where "EVDEV_DEV_KBD \<equiv> 0"
abbreviation (input) EVDEV_DEV_MOUSE :: int where "EVDEV_DEV_MOUSE \<equiv> 1"
abbreviation (input) EV_SYN :: u16 where "EV_SYN \<equiv> 0"
abbreviation (input) EV_KEY :: u16 where "EV_KEY \<equiv> 1"
abbreviation (input) EV_REL :: u16 where "EV_REL \<equiv> 2"
abbreviation (input) SYN_REPORT :: u16 where "SYN_REPORT \<equiv> 0"
abbreviation (input) REL_X :: u16 where "REL_X \<equiv> 0"
abbreviation (input) REL_Y :: u16 where "REL_Y \<equiv> 1"
abbreviation (input) REL_WHEEL :: u16 where "REL_WHEEL \<equiv> 8"
abbreviation (input) BTN_LEFT :: u16 where "BTN_LEFT \<equiv> 0x110"
abbreviation (input) BTN_RIGHT :: u16 where "BTN_RIGHT \<equiv> 0x111"
abbreviation (input) BTN_MIDDLE :: u16 where "BTN_MIDDLE \<equiv> 0x112"

record linux_input_event =
  tv_sec :: u64
  tv_usec :: u64
  ie_type :: u16
  ie_code :: u16
  ie_value :: u32

record evdev_instance =
  ei_in_use :: bool
  ei_dev_id :: int
  ei_pid :: int
  ei_queue :: "nat \<Rightarrow> linux_input_event"
  ei_head :: nat
  ei_tail :: nat

record evdevs =
  g_instances :: "nat \<Rightarrow> evdev_instance"
  s_last_mouse_x :: int
  s_last_mouse_y :: int
  s_last_mouse_left :: int
  s_last_mouse_right :: int

definition upd_inst :: "nat \<Rightarrow> (evdev_instance \<Rightarrow> evdev_instance) \<Rightarrow> evdevs \<Rightarrow> evdevs" where
  "upd_inst i f s = s\<lparr>g_instances := (g_instances s)(i := f (g_instances s i))\<rparr>"

definition evdev_init :: "evdevs \<Rightarrow> evdevs" where
  "evdev_init s = s\<lparr>g_instances := (\<lambda>i. if i < MAX_EVDEV_INSTANCES then (g_instances s i)\<lparr>ei_in_use := False, ei_head := 0, ei_tail := 0\<rparr> else g_instances s i)\<rparr>"

text \<open>The oldest event gives way to the new one when the queue is full. \<open>ms\<close> is the time \<open>timer_millis\<close> returns.\<close>

definition evdev_push_event :: "u64 \<Rightarrow> u16 \<Rightarrow> u16 \<Rightarrow> int \<Rightarrow> evdev_instance \<Rightarrow> evdev_instance" where
  "evdev_push_event ms t code val inst =
     (let nxt = (ei_head inst + 1) mod EVDEV_RING_SIZE in
      inst\<lparr>ei_tail := (if nxt = ei_tail inst then (ei_tail inst + 1) mod EVDEV_RING_SIZE else ei_tail inst),
        ei_queue := (ei_queue inst)(ei_head inst := \<lparr>tv_sec = ms div 1000, tv_usec = (ms mod 1000) * 1000, ie_type = t, ie_code = code, ie_value = word_of_int val\<rparr>),
        ei_head := nxt\<rparr>)"

definition linux_key_code :: "u8 \<Rightarrow> bool \<Rightarrow> u16" where
  "linux_key_code scancode extended =
     (let c = scancode AND 0x7F in
      if extended then
        if c = 0x48 then 103 else if c = 0x4B then 105 else if c = 0x4D then 106 else if c = 0x50 then 108
        else if c = 0x1D then 97 else if c = 0x38 then 100 else if c = 0x47 then 102 else if c = 0x4F then 107
        else if c = 0x49 then 104 else if c = 0x51 then 109 else if c = 0x52 then 110 else if c = 0x53 then 111
        else ucast c
      else ucast c)"

text \<open>An update of every open instance of one device.\<close>

definition for_device :: "int \<Rightarrow> (evdev_instance \<Rightarrow> evdev_instance) \<Rightarrow> evdevs \<Rightarrow> evdevs" where
  "for_device dev f s =
     s\<lparr>g_instances := (\<lambda>i. if i < MAX_EVDEV_INSTANCES \<and> ei_in_use (g_instances s i) \<and> ei_dev_id (g_instances s i) = dev
        then f (g_instances s i) else g_instances s i)\<rparr>"

definition evdev_feed_key :: "u64 \<Rightarrow> u8 \<Rightarrow> bool \<Rightarrow> bool \<Rightarrow> evdevs \<Rightarrow> evdevs" where
  "evdev_feed_key ms scancode pressed extended s =
     (let code = linux_key_code scancode extended in
      if code = 0 then s
      else for_device EVDEV_DEV_KBD
             (\<lambda>inst. evdev_push_event ms EV_SYN SYN_REPORT 0 (evdev_push_event ms EV_KEY code (if pressed then 1 else 0) inst)) s)"

text \<open>Positions and button states are C integers; the differences do not overflow for positions on a screen.\<close>

definition evdev_feed_mouse :: "u64 \<Rightarrow> int \<Rightarrow> int \<Rightarrow> int \<Rightarrow> int \<Rightarrow> evdevs \<Rightarrow> evdevs" where
  "evdev_feed_mouse ms x y left right s =
     (let seen = s\<lparr>s_last_mouse_x := x, s_last_mouse_y := y, s_last_mouse_left := left, s_last_mouse_right := right\<rparr> in
      if s_last_mouse_x s < 0 then seen
      else
        let dx = x - s_last_mouse_x s;
            dy = y - s_last_mouse_y s;
            left_changed = (left \<noteq> s_last_mouse_left s);
            right_changed = (right \<noteq> s_last_mouse_right s)
        in if dx = 0 \<and> dy = 0 \<and> \<not> left_changed \<and> \<not> right_changed then s
           else for_device EVDEV_DEV_MOUSE (\<lambda>inst.
                  let i1 = (if dx \<noteq> 0 then evdev_push_event ms EV_REL REL_X dx inst else inst);
                      i2 = (if dy \<noteq> 0 then evdev_push_event ms EV_REL REL_Y dy i1 else i1);
                      i3 = (if left_changed then evdev_push_event ms EV_KEY BTN_LEFT (if left \<noteq> 0 then 1 else 0) i2 else i2);
                      i4 = (if right_changed then evdev_push_event ms EV_KEY BTN_RIGHT (if right \<noteq> 0 then 1 else 0) i3 else i3)
                  in evdev_push_event ms EV_SYN SYN_REPORT 0 i4) seen)"

text \<open>\<open>evdev_open\<close> up to the creation of the descriptor: the slot taken, and the state.\<close>

definition evdev_alloc :: "int \<Rightarrow> int \<Rightarrow> int \<Rightarrow> int \<Rightarrow> evdevs \<Rightarrow> nat option \<times> evdevs" where
  "evdev_alloc dev_id pid mouse_x mouse_y s =
     (case first_from (\<lambda>i. \<not> ei_in_use (g_instances s i)) 0 MAX_EVDEV_INSTANCES of
        None \<Rightarrow> (None, s)
      | Some i \<Rightarrow>
          let s1 = upd_inst i (\<lambda>e. e\<lparr>ei_in_use := True, ei_dev_id := dev_id, ei_pid := pid, ei_head := 0, ei_tail := 0\<rparr>) s
          in (Some i, if dev_id = EVDEV_DEV_MOUSE then s1\<lparr>s_last_mouse_x := mouse_x, s_last_mouse_y := mouse_y\<rparr> else s1))"

definition event_bytes :: "linux_input_event \<Rightarrow> u8 list" where
  "event_bytes e = le_bytes 8 (tv_sec e) @ le_bytes 8 (tv_usec e) @ le_bytes 2 (ucast (ie_type e)) @ le_bytes 2 (ucast (ie_code e)) @ le_bytes 4 (ucast (ie_value e))"

primrec evdev_take :: "nat \<Rightarrow> evdev_instance \<Rightarrow> linux_input_event list \<times> evdev_instance" where
  "evdev_take 0 inst = ([], inst)"
| "evdev_take (Suc n) inst =
     (if ei_head inst \<noteq> ei_tail inst
      then let (es, inst1) = evdev_take n (inst\<lparr>ei_tail := (ei_tail inst + 1) mod EVDEV_RING_SIZE\<rparr>)
           in (ei_queue inst (ei_tail inst) # es, inst1)
      else ([], inst))"

definition evdev_read :: "nat option \<Rightarrow> u32 \<Rightarrow> evdevs \<Rightarrow> int \<times> u8 list \<times> evdevs" where
  "evdev_read ptr max_bytes s =
     (case ptr of
        None \<Rightarrow> (- 11, [], s)
      | Some i \<Rightarrow>
          if max_bytes < 24 \<or> ei_head (g_instances s i) = ei_tail (g_instances s i) then (- 11, [], s)
          else let (es, inst) = evdev_take (unat (max_bytes div 24)) (g_instances s i)
               in (int (length es * 24), concat (map event_bytes es), upd_inst i (\<lambda>_. inst) s))"

definition evdev_poll :: "nat option \<Rightarrow> u32 \<Rightarrow> evdevs \<Rightarrow> int" where
  "evdev_poll ptr events s =
     (case ptr of
        None \<Rightarrow> 0
      | Some i \<Rightarrow> if events AND 1 \<noteq> 0 \<and> ei_head (g_instances s i) \<noteq> ei_tail (g_instances s i) then 1 else 0)"

definition evdev_release :: "nat option \<Rightarrow> evdevs \<Rightarrow> evdevs" where
  "evdev_release ptr s =
     (case ptr of None \<Rightarrow> s | Some i \<Rightarrow> upd_inst i (\<lambda>e. e\<lparr>ei_in_use := False, ei_head := 0, ei_tail := 0\<rparr>) s)"

subsection \<open>Requests\<close>

definition evdev_set_bit :: "nat \<Rightarrow> u8 list \<Rightarrow> u8 list" where
  "evdev_set_bit b bits = (if b div 8 < length bits then bits[b div 8 := (bits ! (b div 8)) OR push_bit (b mod 8) 1] else bits)"

definition evdev_bits :: "int \<Rightarrow> u32 \<Rightarrow> nat \<Rightarrow> u8 list" where
  "evdev_bits dev_id event_type bytes =
     (let zero = replicate bytes 0 in
      if event_type = ucast EV_SYN
      then let b = evdev_set_bit (unat EV_KEY) (evdev_set_bit (unat EV_SYN) zero)
           in if dev_id = EVDEV_DEV_MOUSE then evdev_set_bit (unat EV_REL) b else b
      else if event_type = ucast EV_KEY
      then if dev_id = EVDEV_DEV_KBD then fold evdev_set_bit [1..<128] zero
           else fold evdev_set_bit [unat BTN_LEFT, unat BTN_RIGHT, unat BTN_MIDDLE] zero
      else if event_type = ucast EV_REL \<and> dev_id = EVDEV_DEV_MOUSE
      then fold evdev_set_bit [unat REL_X, unat REL_Y, unat REL_WHEEL] zero
      else zero)"

definition string_bytes :: "string \<Rightarrow> u8 list" where
  "string_bytes s = map (\<lambda>c. word_of_nat (of_char c)) s @ [0]"

definition evdev_ioctl :: "nat option \<Rightarrow> u64 \<Rightarrow> u64 \<Rightarrow> evdevs \<Rightarrow> mm \<Rightarrow> int \<times> mm" where
  "evdev_ioctl ptr req arg s m =
     (case ptr of
        None \<Rightarrow> (- 1, m)
      | Some i \<Rightarrow>
          let inst = g_instances s i;
              request = ucast req :: u32;
              t = drop_bit 8 request AND 0xFF;
              number = request AND 0xFF;
              sz = drop_bit 16 request AND 0x3FFF;
              put = (\<lambda>data. if arg = 0 then (- 1, m) else copy_to_user arg data m)
          in if request = 0x80044501 \<or> request = 0x80045501 then put (le_bytes 4 0x010001)
             else if request = 0x80084502 \<or> request = 0x80085502
             then put (le_bytes 2 3 @ le_bytes 2 0x4B53 @ le_bytes 2 (word_of_int (ei_dev_id inst + 1)) @ le_bytes 2 1)
             else if t \<noteq> 0x45 then (- 1, m)
             else if number = 0x06
             then if sz = 0 then (- 1, m)
                  else put (take (unat sz) (string_bytes (if ei_dev_id inst = EVDEV_DEV_KBD then ''KeshOS Keyboard'' else ''KeshOS Mouse'')))
             else if number \<ge> 0x20 \<and> number \<le> 0x3F
             then if sz = 0 then (- 1, m)
                  else put (evdev_bits (ei_dev_id inst) (number - 0x20) (min (unat sz) 128))
             else if number = 0x19
             then if sz = 0 then (- 1, m) else put (replicate (min (unat sz) 16) 0)
             else if number = 0x03 \<or> number = 0x90 then (0, m)
             else (- 1, m))"

end
