(* ===== verification/Fd.thy ===== *)
theory Fd
  imports Vfs Tty Unix_Objects Evdev
begin

text \<open>
  The descriptors of a process and the pipes (\<open>kernel/fd.c\<close>): a table of descriptors per process, whose entries name open files with a
  count of the descriptors that refer to them, and the pipes. An open file stands for a path of the VFS, an end of a pipe, a pseudo terminal,
  or an object of the UNIX layer or of the event devices; reading, writing, polling and closing dispatch on its kind. The state extends that of the VFS.
\<close>

abbreviation (input) FD_MAX_PROCESSES :: nat where "FD_MAX_PROCESSES \<equiv> 16"
abbreviation (input) FD_MAX_PER_PROCESS :: nat where "FD_MAX_PER_PROCESS \<equiv> 64"
abbreviation (input) FD_FILE_MAX :: nat where "FD_FILE_MAX \<equiv> 1024"
abbreviation (input) FD_PIPE_MAX :: nat where "FD_PIPE_MAX \<equiv> 16"
abbreviation (input) FD_PIPE_BUFFER :: nat where "FD_PIPE_BUFFER \<equiv> 4096"
abbreviation (input) FD_IO_MAX :: nat where "FD_IO_MAX \<equiv> 8 * 1024 * 1024"
abbreviation (input) FD_PATH_MAX :: nat where "FD_PATH_MAX \<equiv> 256"
abbreviation (input) FD_OPEN_READ :: u32 where "FD_OPEN_READ \<equiv> 0x01"
abbreviation (input) FD_OPEN_WRITE :: u32 where "FD_OPEN_WRITE \<equiv> 0x02"
abbreviation (input) FD_OPEN_CREATE :: u32 where "FD_OPEN_CREATE \<equiv> 0x04"
abbreviation (input) FD_OPEN_TRUNC :: u32 where "FD_OPEN_TRUNC \<equiv> 0x08"
abbreviation (input) FD_OPEN_APPEND :: u32 where "FD_OPEN_APPEND \<equiv> 0x10"
abbreviation (input) FD_OPEN_DIRECTORY :: u32 where "FD_OPEN_DIRECTORY \<equiv> 0x20"

subsection \<open>State\<close>

datatype fd_kind =
  FD_KIND_FILE | FD_KIND_DIRECTORY | FD_KIND_PIPE_READ | FD_KIND_PIPE_WRITE | FD_KIND_PTY | FD_KIND_UNIX_SOCKET
| FD_KIND_MEMFD | FD_KIND_EPOLL | FD_KIND_EVDEV | FD_KIND_DRM_FB | FD_KIND_EVENTFD

record fd_pipe =
  fp_allocated :: bool
  fp_readers :: nat
  fp_writers :: nat
  fp_ring :: ring

text \<open>\<open>custom_ptr\<close> points into the table of objects that the kind selects.\<close>

record fd_file =
  ff_references :: u32
  ff_flags :: u32
  ff_offset :: u64
  ff_kind :: fd_kind
  ff_pipe_id :: u16
  ff_custom_ptr :: "nat option"
  ff_path :: string

record fd_entry =
  en_open :: bool
  en_file_id :: u16

text \<open>The static variables of \<open>fd.c\<close>, over those of the VFS and beside those of the terminals, the UNIX objects and the event devices.\<close>

record 'd fds = "'d vfs" +
  k_ttys :: ttys
  k_unix :: unix_objs
  k_evdev :: evdevs
  g_fds :: "nat \<Rightarrow> nat \<Rightarrow> fd_entry"
  g_files :: "nat \<Rightarrow> fd_file"
  g_pipes :: "nat \<Rightarrow> fd_pipe"

type_synonym ('d, 'x, 'a) dio = "(('d, 'x) fds_scheme, 'a) state"

definition upd_file :: "nat \<Rightarrow> (fd_file \<Rightarrow> fd_file) \<Rightarrow> ('d, 'x) fds_scheme \<Rightarrow> ('d, 'x) fds_scheme" where
  "upd_file i f s = s\<lparr>g_files := (g_files s)(i := f (g_files s i))\<rparr>"

definition upd_pipe :: "nat \<Rightarrow> (fd_pipe \<Rightarrow> fd_pipe) \<Rightarrow> ('d, 'x) fds_scheme \<Rightarrow> ('d, 'x) fds_scheme" where
  "upd_pipe i f s = s\<lparr>g_pipes := (g_pipes s)(i := f (g_pipes s i))\<rparr>"

definition upd_fd :: "nat \<Rightarrow> nat \<Rightarrow> (fd_entry \<Rightarrow> fd_entry) \<Rightarrow> ('d, 'x) fds_scheme \<Rightarrow> ('d, 'x) fds_scheme" where
  "upd_fd pid fd f s = s\<lparr>g_fds := (g_fds s)(pid := (g_fds s pid)(fd := f (g_fds s pid fd)))\<rparr>"

text \<open>A descriptor that now names a file: the two assignments every function that opens one ends with.\<close>

definition open_fd :: "nat \<Rightarrow> nat \<Rightarrow> u16 \<Rightarrow> ('d, 'x) fds_scheme \<Rightarrow> ('d, 'x) fds_scheme" where
  "open_fd pid fd fid = upd_fd pid fd (\<lambda>_. \<lparr>en_open = True, en_file_id = fid\<rparr>)"

definition add_reference :: "fd_file \<Rightarrow> fd_file" where
  "add_reference f = f\<lparr>ff_references := ff_references f + 1\<rparr>"

subsection \<open>Lookups\<close>

definition valid_pid :: "int \<Rightarrow> bool" where
  "valid_pid pid \<longleftrightarrow> pid \<ge> 0 \<and> pid < int FD_MAX_PROCESSES"

definition entry_for :: "('d, 'x) fds_scheme \<Rightarrow> int \<Rightarrow> int \<Rightarrow> fd_entry option" where
  "entry_for s pid fd =
     (if valid_pid pid \<and> fd \<ge> 0 \<and> fd < int FD_MAX_PER_PROCESS \<and> en_open (g_fds s (nat pid) (nat fd))
      then Some (g_fds s (nat pid) (nat fd)) else None)"

definition file_for :: "('d, 'x) fds_scheme \<Rightarrow> fd_entry option \<Rightarrow> nat option" where
  "file_for s entry =
     (case entry of
        None \<Rightarrow> None
      | Some e \<Rightarrow> if unat (en_file_id e) < FD_FILE_MAX \<and> ff_references (g_files s (unat (en_file_id e))) \<noteq> 0 then Some (unat (en_file_id e)) else None)"

definition free_file_slot :: "('d, 'x) fds_scheme \<Rightarrow> nat option" where
  "free_file_slot s = first_from (\<lambda>i. ff_references (g_files s i) = 0) 0 FD_FILE_MAX"

text \<open>\<open>skip\<close> is the slot to leave out, \<open>None\<close> for the code's \<open>-1\<close>.\<close>

definition free_fd_slot :: "('d, 'x) fds_scheme \<Rightarrow> nat \<Rightarrow> nat option \<Rightarrow> nat option" where
  "free_fd_slot s pid skip = first_from (\<lambda>i. Some i \<noteq> skip \<and> \<not> en_open (g_fds s pid i)) 0 FD_MAX_PER_PROCESS"

definition copy_path :: "string \<Rightarrow> string \<times> bool" where
  "copy_path path = (take (FD_PATH_MAX - 1) path, length path \<le> FD_PATH_MAX - 1)"

definition add_clamped :: "u64 \<Rightarrow> u64 \<Rightarrow> u64" where
  "add_clamped a b = (if b > - 1 - a then - 1 else a + b)"

definition fd_init :: "('d, 'x) fds_scheme \<Rightarrow> ('d, 'x) fds_scheme" where
  "fd_init s =
     s\<lparr>g_fds := (\<lambda>pid fd. if pid < FD_MAX_PROCESSES \<and> fd < FD_MAX_PER_PROCESS then (g_fds s pid fd)\<lparr>en_open := False\<rparr> else g_fds s pid fd),
       g_files := (\<lambda>i. if i < FD_FILE_MAX then (g_files s i)\<lparr>ff_references := 0\<rparr> else g_files s i),
       g_pipes := (\<lambda>i. if i < FD_PIPE_MAX then (g_pipes s i)\<lparr>fp_allocated := False\<rparr> else g_pipes s i)\<rparr>"

subsection \<open>Opening\<close>

definition open_flags_ok :: "u32 \<Rightarrow> bool" where
  "open_flags_ok flags \<longleftrightarrow>
     flags AND NOT 0x3F = 0 \<and> flags AND (FD_OPEN_READ OR FD_OPEN_WRITE) \<noteq> 0 \<and>
     \<not> (flags AND (FD_OPEN_TRUNC OR FD_OPEN_APPEND OR FD_OPEN_CREATE) \<noteq> 0 \<and> flags AND FD_OPEN_WRITE = 0) \<and>
     \<not> (flags AND FD_OPEN_DIRECTORY \<noteq> 0 \<and> flags AND (FD_OPEN_WRITE OR FD_OPEN_CREATE OR FD_OPEN_TRUNC OR FD_OPEN_APPEND) \<noteq> 0)"

text \<open>The part of \<open>fd_open\<close> that works on the file system: the state of the file after creating and truncating it.\<close>

definition open_stat :: "'d drivers \<Rightarrow> string \<Rightarrow> u32 \<Rightarrow> ('d, 'x, kesh_vfs_stat option) nio" where
  "open_stat drv path flags = do {
     (r, st) \<leftarrow> vfs_stat drv path;
     st1 \<leftarrow> (if r = 0 then State_Monad.return st
             else if flags AND FD_OPEN_CREATE = 0 then State_Monad.return None
             else do {
               w \<leftarrow> vfs_write drv path [0] 0;
               if w < 0 then State_Monad.return None
               else do {
                 (r1, st1) \<leftarrow> vfs_stat drv path;
                 State_Monad.return (if r1 = 0 then st1 else None)
               }
             });
     case st1 of
       None \<Rightarrow> State_Monad.return None
     | Some stat \<Rightarrow>
         if ks_is_dir stat \<noteq> (flags AND FD_OPEN_DIRECTORY \<noteq> 0) then State_Monad.return None
         else if flags AND FD_OPEN_TRUNC = 0 then State_Monad.return (Some stat)
         else do {
           w \<leftarrow> vfs_write drv path [0] 0;
           if w < 0 then State_Monad.return None
           else do {
             (r2, st2) \<leftarrow> vfs_stat drv path;
             State_Monad.return (if r2 = 0 then st2 else None)
           }
         }
   }"

definition open_slot :: "nat \<Rightarrow> string \<Rightarrow> u32 \<Rightarrow> kesh_vfs_stat \<Rightarrow> ('d, 'x) fds_scheme \<Rightarrow> int \<times> ('d, 'x) fds_scheme" where
  "open_slot pid path flags stat s =
     (case free_file_slot s of
        None \<Rightarrow> (- 1, s)
      | Some i \<Rightarrow>
          (case free_fd_slot s pid None of
             None \<Rightarrow> (- 1, s)
           | Some fd \<Rightarrow>
               let (p, fits) = copy_path path;
                   s1 = upd_file i (\<lambda>f. f\<lparr>ff_path := p\<rparr>) s
               in if \<not> fits then (- 1, s1)
                  else (int fd, open_fd pid fd (word_of_nat i) (upd_file i (\<lambda>f. f\<lparr>ff_references := 1, ff_flags := flags,
                          ff_offset := (if flags AND FD_OPEN_APPEND \<noteq> 0 then ucast (ks_size stat) else 0),
                          ff_kind := (if ks_is_dir stat then FD_KIND_DIRECTORY else FD_KIND_FILE)\<rparr>) s1))))"

definition fd_open :: "'d drivers \<Rightarrow> int \<Rightarrow> string \<Rightarrow> u32 \<Rightarrow> ('d, 'x, int) dio" where
  "fd_open drv pid path flags =
     (if \<not> valid_pid pid \<or> path = '''' \<or> \<not> open_flags_ok flags then State_Monad.return (- 1)
      else do {
        st \<leftarrow> open_stat drv path flags;
        case st of
          None \<Rightarrow> State_Monad.return (- 1)
        | Some stat \<Rightarrow> State (open_slot (nat pid) path flags stat)
      })"

definition fd_create_custom :: "int \<Rightarrow> fd_kind \<Rightarrow> nat option \<Rightarrow> u32 \<Rightarrow> ('d, 'x) fds_scheme \<Rightarrow> int \<times> ('d, 'x) fds_scheme" where
  "fd_create_custom pid knd ptr flags s =
     (if \<not> valid_pid pid then (- 1, s)
      else
        case free_file_slot s of
          None \<Rightarrow> (- 1, s)
        | Some i \<Rightarrow>
            (case free_fd_slot s (nat pid) None of
               None \<Rightarrow> (- 1, s)
             | Some fd \<Rightarrow>
                 (int fd, open_fd (nat pid) fd (word_of_nat i) (upd_file i (\<lambda>f. f\<lparr>ff_references := 1, ff_flags := flags OR FD_OPEN_READ OR FD_OPEN_WRITE,
                    ff_offset := 0, ff_kind := knd, ff_custom_ptr := ptr, ff_path := ''''\<rparr>) s))))"

text \<open>The two descriptors of a new pipe, read end first. The file of the read end is reserved while that of the write end is looked for.\<close>

definition fd_pipe_create :: "int \<Rightarrow> ('d, 'x) fds_scheme \<Rightarrow> (nat \<times> nat) option \<times> ('d, 'x) fds_scheme" where
  "fd_pipe_create pid s =
     (if \<not> valid_pid pid then (None, s)
      else
        let read_slot = free_fd_slot s (nat pid) None in
        case (read_slot, free_fd_slot s (nat pid) read_slot, free_file_slot s) of
          (Some rfd, Some wfd, Some rfile) \<Rightarrow>
            let s1 = upd_file rfile (\<lambda>f. f\<lparr>ff_references := 1\<rparr>) s;
                undo = upd_file rfile (\<lambda>f. f\<lparr>ff_references := 0\<rparr>) s1
            in (case free_file_slot s1 of
                  None \<Rightarrow> (None, undo)
                | Some wfile \<Rightarrow>
                    (case first_from (\<lambda>i. \<not> fp_allocated (g_pipes s1 i)) 0 FD_PIPE_MAX of
                       None \<Rightarrow> (None, undo)
                     | Some p \<Rightarrow>
                         (Some (rfd, wfd),
                          open_fd (nat pid) wfd (word_of_nat wfile) (open_fd (nat pid) rfd (word_of_nat rfile)
                            (upd_file wfile (\<lambda>f. f\<lparr>ff_references := 1, ff_kind := FD_KIND_PIPE_WRITE, ff_pipe_id := word_of_nat p, ff_flags := FD_OPEN_WRITE\<rparr>)
                              (upd_file rfile (\<lambda>f. f\<lparr>ff_kind := FD_KIND_PIPE_READ, ff_pipe_id := word_of_nat p, ff_flags := FD_OPEN_READ\<rparr>)
                                (upd_pipe p (\<lambda>q. q\<lparr>fp_allocated := True, fp_readers := 1, fp_writers := 1, fp_ring := ring_reset (fp_ring q)\<rparr>) s1)))))))
        | _ \<Rightarrow> (None, s))"

definition fd_bind_pty :: "int \<Rightarrow> int \<Rightarrow> u32 \<Rightarrow> ('d, 'x) fds_scheme \<Rightarrow> int \<times> ('d, 'x) fds_scheme" where
  "fd_bind_pty pid handle flags s =
     (if \<not> valid_pid pid \<or> flags AND (FD_OPEN_READ OR FD_OPEN_WRITE) = 0 \<or> flags AND NOT (FD_OPEN_READ OR FD_OPEN_WRITE) \<noteq> 0 then (- 1, s)
      else
        case (free_fd_slot s (nat pid) None, free_file_slot s) of
          (Some fd, Some i) \<Rightarrow>
            (int fd, open_fd (nat pid) fd (word_of_nat i) (upd_file i (\<lambda>f. f\<lparr>ff_references := 1, ff_flags := flags, ff_offset := 0,
               ff_kind := FD_KIND_PTY, ff_pipe_id := word_of_int handle\<rparr>) s))
        | _ \<Rightarrow> (- 1, s))"

definition fd_bind_pty_stdio :: "int \<Rightarrow> int \<Rightarrow> ('d, 'x) fds_scheme \<Rightarrow> int \<times> ('d, 'x) fds_scheme" where
  "fd_bind_pty_stdio pid handle s =
     (if \<not> valid_pid pid \<or> en_open (g_fds s (nat pid) 0) \<or> en_open (g_fds s (nat pid) 1) \<or> en_open (g_fds s (nat pid) 2) then (- 1, s)
      else
        case free_file_slot s of
          None \<Rightarrow> (- 1, s)
        | Some i \<Rightarrow>
            (0, fold (\<lambda>fd. open_fd (nat pid) fd (word_of_nat i)) [0, 1, 2]
                  (upd_file i (\<lambda>f. f\<lparr>ff_references := 3, ff_flags := FD_OPEN_READ OR FD_OPEN_WRITE, ff_offset := 0,
                     ff_kind := FD_KIND_PTY, ff_pipe_id := word_of_int handle\<rparr>) s)))"

subsection \<open>Duplicating and closing\<close>

definition fd_dup_min :: "int \<Rightarrow> int \<Rightarrow> int \<Rightarrow> ('d, 'x) fds_scheme \<Rightarrow> int \<times> ('d, 'x) fds_scheme" where
  "fd_dup_min pid fd min_fd s =
     (case (entry_for s pid fd, file_for s (entry_for s pid fd)) of
        (Some e, Some i) \<Rightarrow>
          if min_fd < 0 \<or> min_fd \<ge> int FD_MAX_PER_PROCESS then (- 1, s)
          else (case first_from (\<lambda>c. \<not> en_open (g_fds s (nat pid) c)) (nat min_fd) (FD_MAX_PER_PROCESS - nat min_fd) of
                  None \<Rightarrow> (- 1, s)
                | Some c \<Rightarrow> (int c, upd_file i add_reference (open_fd (nat pid) c (en_file_id e) s)))
      | _ \<Rightarrow> (- 1, s))"

definition fd_dup :: "int \<Rightarrow> int \<Rightarrow> ('d, 'x) fds_scheme \<Rightarrow> int \<times> ('d, 'x) fds_scheme" where
  "fd_dup pid fd = fd_dup_min pid fd 0"

text \<open>What the last close of a file does to the object behind it.\<close>

definition pipe_drop :: "fd_kind \<Rightarrow> fd_pipe \<Rightarrow> fd_pipe" where
  "pipe_drop k p =
     (let p1 = (if k = FD_KIND_PIPE_READ \<and> fp_readers p \<noteq> 0 then p\<lparr>fp_readers := fp_readers p - 1\<rparr> else p);
          p2 = (if k = FD_KIND_PIPE_WRITE \<and> fp_writers p1 \<noteq> 0 then p1\<lparr>fp_writers := fp_writers p1 - 1\<rparr> else p1)
      in if fp_readers p2 = 0 \<and> fp_writers p2 = 0 then p2\<lparr>fp_allocated := False\<rparr> else p2)"

definition release_memfd :: "nat option \<Rightarrow> ('d, 'x) fds_scheme \<Rightarrow> ('d, 'x) fds_scheme" where
  "release_memfd ptr s = (case unix_memfd_release ptr (k_unix s) (m_mm s) of (u, m) \<Rightarrow> s\<lparr>k_unix := u, m_mm := m\<rparr>)"

definition release_object :: "int \<Rightarrow> fd_file \<Rightarrow> ('d, 'x) fds_scheme \<Rightarrow> ('d, 'x) fds_scheme" where
  "release_object pid f s =
     (case ff_kind f of
        FD_KIND_FILE \<Rightarrow> s
      | FD_KIND_DIRECTORY \<Rightarrow> s
      | FD_KIND_PIPE_READ \<Rightarrow> if unat (ff_pipe_id f) < FD_PIPE_MAX then upd_pipe (unat (ff_pipe_id f)) (pipe_drop (ff_kind f)) s else s
      | FD_KIND_PIPE_WRITE \<Rightarrow> if unat (ff_pipe_id f) < FD_PIPE_MAX then upd_pipe (unat (ff_pipe_id f)) (pipe_drop (ff_kind f)) s else s
      | FD_KIND_PTY \<Rightarrow> s\<lparr>k_ttys := snd (pty_close pid (uint (ff_pipe_id f)) (k_ttys s))\<rparr>
      | FD_KIND_UNIX_SOCKET \<Rightarrow> s\<lparr>k_unix := unix_socket_release (ff_custom_ptr f) (k_unix s)\<rparr>
      | FD_KIND_MEMFD \<Rightarrow> release_memfd (ff_custom_ptr f) s
      | FD_KIND_EPOLL \<Rightarrow> s\<lparr>k_unix := unix_epoll_release (ff_custom_ptr f) (k_unix s)\<rparr>
      | FD_KIND_EVDEV \<Rightarrow> s\<lparr>k_evdev := evdev_release (ff_custom_ptr f) (k_evdev s)\<rparr>
      | FD_KIND_DRM_FB \<Rightarrow> s
      | FD_KIND_EVENTFD \<Rightarrow> s\<lparr>k_unix := unix_eventfd_release (ff_custom_ptr f) (k_unix s)\<rparr>)"

definition fd_close :: "int \<Rightarrow> int \<Rightarrow> ('d, 'x) fds_scheme \<Rightarrow> int \<times> ('d, 'x) fds_scheme" where
  "fd_close pid fd s =
     (case file_for s (entry_for s pid fd) of
        None \<Rightarrow> (- 1, s)
      | Some i \<Rightarrow>
          let r = ff_references (g_files s i) - 1;
              s1 = upd_file i (\<lambda>f. f\<lparr>ff_references := r\<rparr>) s;
              s2 = (if r = 0
                    then upd_file i (\<lambda>f. f\<lparr>ff_custom_ptr := None, ff_path := ''''\<rparr>) (release_object pid (g_files s1 i) s1)
                    else s1)
          in (0, upd_fd (nat pid) (nat fd) (\<lambda>e. e\<lparr>en_open := False\<rparr>) s2))"

definition fd_dup2 :: "int \<Rightarrow> int \<Rightarrow> int \<Rightarrow> ('d, 'x) fds_scheme \<Rightarrow> int \<times> ('d, 'x) fds_scheme" where
  "fd_dup2 pid source_fd target_fd s =
     (case (entry_for s pid source_fd, file_for s (entry_for s pid source_fd)) of
        (Some e, Some i) \<Rightarrow>
          if target_fd < 0 \<or> target_fd \<ge> int FD_MAX_PER_PROCESS then (- 1, s)
          else if source_fd = target_fd then (target_fd, s)
          else
            let (r, s1) = (if en_open (g_fds s (nat pid) (nat target_fd)) then fd_close pid target_fd s else (0, s)) in
            if r \<noteq> 0 then (- 1, s1)
            else (target_fd, upd_file i add_reference (open_fd (nat pid) (nat target_fd) (en_file_id e) s1))
      | _ \<Rightarrow> (- 1, s))"

definition inherit_one :: "nat \<Rightarrow> nat \<Rightarrow> nat \<Rightarrow> ('d, 'x) fds_scheme \<Rightarrow> ('d, 'x) fds_scheme" where
  "inherit_one parent child fd s =
     (case (entry_for s (int parent) (int fd), file_for s (entry_for s (int parent) (int fd))) of
        (Some e, Some i) \<Rightarrow>
          if ff_kind (g_files s i) = FD_KIND_PTY then s
          else upd_file i add_reference (open_fd child fd (en_file_id e) s)
      | _ \<Rightarrow> s)"

definition fd_inherit :: "int \<Rightarrow> int \<Rightarrow> ('d, 'x) fds_scheme \<Rightarrow> int \<times> ('d, 'x) fds_scheme" where
  "fd_inherit parent child s =
     (if \<not> valid_pid parent \<or> \<not> valid_pid child \<or> parent = child then (- 1, s)
      else if \<exists>fd < FD_MAX_PER_PROCESS. en_open (g_fds s (nat child) fd) then (- 1, s)
      else (0, fold (inherit_one (nat parent) (nat child)) [0..<FD_MAX_PER_PROCESS] s))"

definition fd_close_owner :: "int \<Rightarrow> ('d, 'x) fds_scheme \<Rightarrow> ('d, 'x) fds_scheme" where
  "fd_close_owner pid s =
     (if \<not> valid_pid pid then s
      else fold (\<lambda>fd s. if en_open (g_fds s (nat pid) fd) then snd (fd_close pid (int fd) s) else s) [0..<FD_MAX_PER_PROCESS] s)"

definition fd_bind_file_id :: "int \<Rightarrow> u16 \<Rightarrow> ('d, 'x) fds_scheme \<Rightarrow> int \<times> ('d, 'x) fds_scheme" where
  "fd_bind_file_id pid fid s =
     (if \<not> valid_pid pid \<or> unat fid \<ge> FD_FILE_MAX \<or> ff_references (g_files s (unat fid)) = 0 then (- 1, s)
      else
        case free_fd_slot s (nat pid) None of
          None \<Rightarrow> (- 1, s)
        | Some fd \<Rightarrow> (int fd, open_fd (nat pid) fd fid (upd_file (unat fid) add_reference s)))"

subsection \<open>Queries\<close>

definition fd_get_custom :: "int \<Rightarrow> int \<Rightarrow> ('d, 'x) fds_scheme \<Rightarrow> nat option \<times> fd_kind option" where
  "fd_get_custom pid fd s =
     (case file_for s (entry_for s pid fd) of
        None \<Rightarrow> (None, None)
      | Some i \<Rightarrow> (ff_custom_ptr (g_files s i), Some (ff_kind (g_files s i))))"

definition fd_get_kind :: "int \<Rightarrow> int \<Rightarrow> ('d, 'x) fds_scheme \<Rightarrow> fd_kind option" where
  "fd_get_kind pid fd s = map_option (\<lambda>i. ff_kind (g_files s i)) (file_for s (entry_for s pid fd))"

definition fd_get_file_id :: "int \<Rightarrow> int \<Rightarrow> ('d, 'x) fds_scheme \<Rightarrow> u16" where
  "fd_get_file_id pid fd s = (case entry_for s pid fd of None \<Rightarrow> 0xFFFF | Some e \<Rightarrow> en_file_id e)"

subsection \<open>Pipes\<close>

text \<open>The copy loops of a pipe; the fill count is brought up to date after the loop.\<close>

definition pipe_put :: "u8 list \<Rightarrow> ring \<Rightarrow> nat \<times> ring" where
  "pipe_put data r =
     (let available = FD_PIPE_BUFFER - ring_used r;
          count = (if length data < available then length data else available)
      in (count, (fold (ring_push FD_PIPE_BUFFER) (take count data) r)\<lparr>ring_used := ring_used r + count\<rparr>))"

primrec pipe_pop :: "nat \<Rightarrow> ring \<Rightarrow> u8 list \<times> ring" where
  "pipe_pop 0 r = ([], r)"
| "pipe_pop (Suc n) r = (let (b, r1) = ring_pop FD_PIPE_BUFFER r; (bs, r2) = pipe_pop n r1 in (b # bs, r2))"

definition pipe_get :: "nat \<Rightarrow> ring \<Rightarrow> u8 list \<times> ring" where
  "pipe_get max_bytes r =
     (let count = (if max_bytes < ring_used r then max_bytes else ring_used r);
          (bs, r1) = pipe_pop count r
      in (bs, r1\<lparr>ring_used := ring_used r - count\<rparr>))"

definition pipe_read :: "u16 \<Rightarrow> nat \<Rightarrow> ('d, 'x) fds_scheme \<Rightarrow> (int \<times> u8 list) \<times> ('d, 'x) fds_scheme" where
  "pipe_read pipe_id max_bytes s =
     (let p = unat pipe_id in
      if p \<ge> FD_PIPE_MAX \<or> \<not> fp_allocated (g_pipes s p) then ((- 1, []), s)
      else let (bs, r) = pipe_get max_bytes (fp_ring (g_pipes s p))
           in ((int (length bs), bs), upd_pipe p (\<lambda>q. q\<lparr>fp_ring := r\<rparr>) s))"

definition pipe_write :: "u16 \<Rightarrow> u8 list \<Rightarrow> ('d, 'x) fds_scheme \<Rightarrow> int \<times> ('d, 'x) fds_scheme" where
  "pipe_write pipe_id data s =
     (let p = unat pipe_id in
      if p \<ge> FD_PIPE_MAX \<or> \<not> fp_allocated (g_pipes s p) then (- 1, s)
      else if fp_readers (g_pipes s p) = 0 then (- 2, s)
      else let (n, r) = pipe_put data (fp_ring (g_pipes s p))
           in (int n, upd_pipe p (\<lambda>q. q\<lparr>fp_ring := r\<rparr>) s))"

subsection \<open>Reading and writing\<close>

definition fd_read_at :: "'d drivers \<Rightarrow> int \<Rightarrow> int \<Rightarrow> u64 \<Rightarrow> u32 \<Rightarrow> ('d, 'x, int \<times> u8 list) dio" where
  "fd_read_at drv pid fd off max_bytes = do {
     s \<leftarrow> State_Monad.get;
     case file_for s (entry_for s pid fd) of
       None \<Rightarrow> State_Monad.return (- 1, [])
     | Some i \<Rightarrow>
         if ff_kind (g_files s i) \<noteq> FD_KIND_FILE \<or> max_bytes = 0 \<or> unat max_bytes > FD_IO_MAX then State_Monad.return (- 1, [])
         else vfs_read_at drv (ff_path (g_files s i)) off (int (unat max_bytes))
   }"

text \<open>The operations of the objects behind a file, lifted to the state of the descriptors: the result and the bytes read.\<close>

definition read_file_kind :: "'d drivers \<Rightarrow> int \<Rightarrow> int \<Rightarrow> nat \<Rightarrow> u32 \<Rightarrow> ('d, 'x, int \<times> u8 list) dio" where
  "read_file_kind drv pid fd i max_bytes = do {
     s \<leftarrow> State_Monad.get;
     (copied, bs) \<leftarrow> fd_read_at drv pid fd (ff_offset (g_files s i)) max_bytes;
     _ \<leftarrow> (if copied > 0 then State_Monad.update (upd_file i (\<lambda>f. f\<lparr>ff_offset := ff_offset f + word_of_int copied\<rparr>)) else State_Monad.return ());
     State_Monad.return (copied, bs)
   }"

definition fd_read :: "'d drivers \<Rightarrow> int \<Rightarrow> int \<Rightarrow> u32 \<Rightarrow> ('d, 'x, int \<times> u8 list) dio" where
  "fd_read drv pid fd max_bytes = do {
     s \<leftarrow> State_Monad.get;
     case file_for s (entry_for s pid fd) of
       None \<Rightarrow> State_Monad.return (- 1, [])
     | Some i \<Rightarrow>
         let f = g_files s i in
         if ff_flags f AND FD_OPEN_READ = 0 \<or> max_bytes = 0 \<or> unat max_bytes > FD_IO_MAX then State_Monad.return (- 1, [])
         else (case ff_kind f of
             FD_KIND_UNIX_SOCKET \<Rightarrow> State (\<lambda>s. case unix_socket_recv_stream (ff_custom_ptr f) max_bytes (k_unix s) of (r, bs, u) \<Rightarrow> ((r, bs), s\<lparr>k_unix := u\<rparr>))
           | FD_KIND_MEMFD \<Rightarrow> State (\<lambda>s. case unix_memfd_read (ff_custom_ptr f) (ff_offset f) max_bytes (k_unix s) (m_mm s) of
               (r, bs, off) \<Rightarrow> ((r, bs), upd_file i (\<lambda>f. f\<lparr>ff_offset := off\<rparr>) s))
           | FD_KIND_EVDEV \<Rightarrow> State (\<lambda>s. case evdev_read (ff_custom_ptr f) max_bytes (k_evdev s) of (r, bs, e) \<Rightarrow> ((r, bs), s\<lparr>k_evdev := e\<rparr>))
           | FD_KIND_EVENTFD \<Rightarrow> State (\<lambda>s. case unix_eventfd_read (ff_custom_ptr f) max_bytes (k_unix s) of (r, bs, u) \<Rightarrow> ((r, bs), s\<lparr>k_unix := u\<rparr>))
           | FD_KIND_PIPE_READ \<Rightarrow> State (pipe_read (ff_pipe_id f) (unat max_bytes))
           | FD_KIND_PTY \<Rightarrow> State (\<lambda>s. case pty_read pid (uint (ff_pipe_id f)) (unat max_bytes) (k_ttys s) of (r, bs, t) \<Rightarrow> ((r, bs), s\<lparr>k_ttys := t\<rparr>))
           | FD_KIND_FILE \<Rightarrow> read_file_kind drv pid fd i max_bytes
           | _ \<Rightarrow> State_Monad.return (- 1, []))
   }"

text \<open>
  Writing to a file: the whole content is put together in fresh pages, with the new bytes at the offset, and written back.
\<close>

definition alloc_buffer :: "u64 \<Rightarrow> ('d, 'x, u64 \<times> u64) dio" where
  "alloc_buffer bytes = State (\<lambda>s.
     if bytes = 0 \<or> unat bytes > FD_IO_MAX then ((0, 0), s)
     else let pages = (bytes + PAGE_SIZE - 1) div PAGE_SIZE; (phys, m) = pmm_alloc_pages pages (m_mm s) in ((phys, pages), s\<lparr>m_mm := m\<rparr>))"

definition free_buffer :: "u64 \<Rightarrow> u64 \<Rightarrow> ('d, 'x, unit) dio" where
  "free_buffer phys pages = State_Monad.update (\<lambda>s. if phys \<noteq> 0 \<and> pages \<noteq> 0 then s\<lparr>m_mm := snd (pmm_free_pages phys pages (m_mm s))\<rparr> else s)"

definition write_file_kind :: "'d drivers \<Rightarrow> nat \<Rightarrow> u8 list \<Rightarrow> ('d, 'x, int) dio" where
  "write_file_kind drv i data = do {
     s \<leftarrow> State_Monad.get;
     let f = g_files s i;
     (r, st) \<leftarrow> vfs_stat drv (ff_path f);
     case st of
       None \<Rightarrow> State_Monad.return (- 1)
     | Some stat \<Rightarrow>
         if r \<noteq> 0 \<or> ks_is_dir stat then State_Monad.return (- 1)
         else do {
           let e = add_clamped (ff_offset f) (word_of_nat (length data));
           let sz = (if ucast (ks_size stat) > e then ucast (ks_size stat) else e);
           if unat sz > FD_IO_MAX then State_Monad.return (- 1)
           else do {
             (phys, pages) \<leftarrow> alloc_buffer (if sz \<noteq> 0 then sz else 1);
             if phys = 0 then State_Monad.return (- 1)
             else do {
               (q, old) \<leftarrow> (if ks_size stat \<noteq> 0 then vfs_read drv (ff_path f) (int (unat (ks_size stat))) else State_Monad.return (0, []));
               if q < 0 then do { _ \<leftarrow> free_buffer phys pages; State_Monad.return (- 1) }
               else do {
                 _ \<leftarrow> write_pages phys old;
                 _ \<leftarrow> write_pages (phys + ff_offset f) data;
                 s1 \<leftarrow> State_Monad.get;
                 result \<leftarrow> vfs_write drv (ff_path f) (read_bytes (phys_mem (m_mm s1)) phys (unat sz)) (int (unat sz));
                 _ \<leftarrow> (if result \<ge> 0 then State_Monad.update (upd_file i (\<lambda>f. f\<lparr>ff_offset := e\<rparr>)) else State_Monad.return ());
                 _ \<leftarrow> free_buffer phys pages;
                 State_Monad.return (if result < 0 then result else int (length data))
               }
             }
           }
         }
   }"

text \<open>The result, and the signal that the line discipline of a pty asks for.\<close>

definition fd_write :: "'d drivers \<Rightarrow> int \<Rightarrow> int \<Rightarrow> u8 list \<Rightarrow> ('d, 'x, int \<times> (int \<times> int) option) dio" where
  "fd_write drv pid fd data = do {
     s \<leftarrow> State_Monad.get;
     case file_for s (entry_for s pid fd) of
       None \<Rightarrow> State_Monad.return (- 1, None)
     | Some i \<Rightarrow>
         let f = g_files s i in
         if ff_flags f AND FD_OPEN_WRITE = 0 \<or> length data > FD_IO_MAX then State_Monad.return (- 1, None)
         else (case ff_kind f of
             FD_KIND_UNIX_SOCKET \<Rightarrow> State (\<lambda>s. case unix_socket_send_stream (ff_custom_ptr f) data (k_unix s) of (r, u) \<Rightarrow> ((r, None), s\<lparr>k_unix := u\<rparr>))
           | FD_KIND_MEMFD \<Rightarrow> State (\<lambda>s. case unix_memfd_write (ff_custom_ptr f) (ff_offset f) data (k_unix s) (m_mm s) of
               (r, off, u, m) \<Rightarrow> ((r, None), upd_file i (\<lambda>f. f\<lparr>ff_offset := off\<rparr>) (s\<lparr>k_unix := u, m_mm := m\<rparr>)))
           | FD_KIND_EVENTFD \<Rightarrow> State (\<lambda>s. case unix_eventfd_write (ff_custom_ptr f) data (k_unix s) of (r, u) \<Rightarrow> ((r, None), s\<lparr>k_unix := u\<rparr>))
           | FD_KIND_PIPE_WRITE \<Rightarrow> State (\<lambda>s. case pipe_write (ff_pipe_id f) data s of (r, s1) \<Rightarrow> ((r, None), s1))
           | FD_KIND_PTY \<Rightarrow> State (\<lambda>s. case pty_write pid (uint (ff_pipe_id f)) data (k_ttys s) of (r, t, sig) \<Rightarrow> ((r, sig), s\<lparr>k_ttys := t\<rparr>))
           | FD_KIND_FILE \<Rightarrow> do { r \<leftarrow> write_file_kind drv i data; State_Monad.return (r, None) }
           | _ \<Rightarrow> State_Monad.return (- 1, None))
   }"

subsection \<open>Positions, readiness, directories\<close>

text \<open>The number of entries of the directory of a descriptor, for files the size.\<close>

definition fd_extent :: "'d drivers \<Rightarrow> fd_file \<Rightarrow> u32 \<Rightarrow> ('d, 'x, int) nio" where
  "fd_extent drv f sz =
     (if ff_kind f = FD_KIND_DIRECTORY then do { (n, _) \<leftarrow> vfs_list drv (ff_path f) (int VFS_MAX_CHILDREN); State_Monad.return n }
      else State_Monad.return (int (unat sz)))"

text \<open>
  The offset and the base are 64-bit signed integers. The sum is formed only after the test that it does not overflow; for the least offset, whose
  negation the code forms, both the test over the integers and the code refuse the call.
\<close>

definition fd_seek :: "'d drivers \<Rightarrow> int \<Rightarrow> int \<Rightarrow> int \<Rightarrow> int \<Rightarrow> ('d, 'x, int) dio" where
  "fd_seek drv pid fd off whence = do {
     s \<leftarrow> State_Monad.get;
     case file_for s (entry_for s pid fd) of
       None \<Rightarrow> State_Monad.return (- 1)
     | Some i \<Rightarrow>
         let f = g_files s i in
         if ff_kind f \<noteq> FD_KIND_FILE \<and> ff_kind f \<noteq> FD_KIND_DIRECTORY \<or> whence \<noteq> 0 \<and> whence \<noteq> 1 \<and> whence \<noteq> 2 then State_Monad.return (- 1)
         else do {
           (r, st) \<leftarrow> vfs_stat drv (ff_path f);
           case st of
             None \<Rightarrow> State_Monad.return (- 1)
           | Some stat \<Rightarrow>
               if r \<noteq> 0 \<or> ks_is_dir stat \<noteq> (ff_kind f = FD_KIND_DIRECTORY) then State_Monad.return (- 1)
               else do {
                 extent \<leftarrow> fd_extent drv f (ks_size stat);
                 if extent < 0 then State_Monad.return (- 1)
                 else do {
                   let base = (if whence = 0 then 0 else if whence = 1 then sint (ff_offset f) else extent);
                   if off > 0 \<and> base > 0x7FFFFFFFFFFFFFFF - off \<or> off < 0 \<and> base < - off then State_Monad.return (- 1)
                   else if base + off < 0 \<or> ff_kind f = FD_KIND_FILE \<and> base + off > int FD_IO_MAX \<or>
                           ff_kind f = FD_KIND_DIRECTORY \<and> base + off > extent then State_Monad.return (- 1)
                   else do {
                     _ \<leftarrow> State_Monad.update (upd_file i (\<lambda>f. f\<lparr>ff_offset := word_of_int (base + off)\<rparr>));
                     State_Monad.return (base + off)
                   }
                 }
               }
         }
   }"

definition pipe_ready :: "fd_kind \<Rightarrow> fd_pipe \<Rightarrow> u32" where
  "pipe_ready k p =
     (if k = FD_KIND_PIPE_READ \<and> ring_used (fp_ring p) \<noteq> 0 then FD_POLL_READ else 0) OR
     (if k = FD_KIND_PIPE_WRITE \<and> ring_used (fp_ring p) < FD_PIPE_BUFFER \<and> fp_readers p \<noteq> 0 then FD_POLL_WRITE else 0) OR
     (if k = FD_KIND_PIPE_READ \<and> fp_writers p = 0 \<or> k = FD_KIND_PIPE_WRITE \<and> fp_readers p = 0 then FD_POLL_HANGUP else 0)"

definition fd_poll :: "'d drivers \<Rightarrow> int \<Rightarrow> int \<Rightarrow> u32 \<Rightarrow> ('d, 'x, int) dio" where
  "fd_poll drv pid fd events = do {
     s \<leftarrow> State_Monad.get;
     if events AND NOT (FD_POLL_READ OR FD_POLL_WRITE OR FD_POLL_HANGUP) \<noteq> 0 then State_Monad.return (- 1)
     else case file_for s (entry_for s pid fd) of
       None \<Rightarrow> State_Monad.return (- 1)
     | Some i \<Rightarrow>
         let f = g_files s i in
         (case ff_kind f of
            FD_KIND_UNIX_SOCKET \<Rightarrow> State_Monad.return (unix_socket_poll_events (ff_custom_ptr f) events (k_unix s))
          | FD_KIND_MEMFD \<Rightarrow> State_Monad.return (sint (events AND (FD_POLL_READ OR FD_POLL_WRITE)))
          | FD_KIND_EVDEV \<Rightarrow> State_Monad.return (evdev_poll (ff_custom_ptr f) events (k_evdev s))
          | FD_KIND_DRM_FB \<Rightarrow> State_Monad.return (sint (events AND (FD_POLL_READ OR FD_POLL_WRITE)))
          | FD_KIND_EVENTFD \<Rightarrow> State_Monad.return (unix_eventfd_poll (ff_custom_ptr f) events (k_unix s))
          | FD_KIND_FILE \<Rightarrow>
              State_Monad.return (sint (events AND ((if ff_flags f AND FD_OPEN_READ \<noteq> 0 then FD_POLL_READ else 0) OR
                (if ff_flags f AND FD_OPEN_WRITE \<noteq> 0 then FD_POLL_WRITE else 0))))
          | FD_KIND_DIRECTORY \<Rightarrow>
              if ff_flags f AND FD_OPEN_READ = 0 then State_Monad.return 0
              else do {
                (count, _) \<leftarrow> vfs_list drv (ff_path f) (int VFS_MAX_CHILDREN);
                State_Monad.return (sint (events AND (if count \<ge> 0 \<and> ff_offset f < word_of_int count then FD_POLL_READ else 0)))
              }
          | FD_KIND_PTY \<Rightarrow>
              State_Monad.return (sint (events AND ((if ff_flags f AND FD_OPEN_WRITE \<noteq> 0 then FD_POLL_WRITE else 0) OR
                (if ff_flags f AND FD_OPEN_READ \<noteq> 0 \<and> pty_available pid (uint (ff_pipe_id f)) (k_ttys s) > 0 then FD_POLL_READ else 0))))
          | _ \<Rightarrow>
              if unat (ff_pipe_id f) \<ge> FD_PIPE_MAX \<or> \<not> fp_allocated (g_pipes s (unat (ff_pipe_id f))) then State_Monad.return (- 1)
              else State_Monad.return (sint (pipe_ready (ff_kind f) (g_pipes s (unat (ff_pipe_id f))) AND events)))
   }"

record fd_dirent =
  de_name :: string
  de_size :: u32
  de_is_dir :: bool

text \<open>1 with an entry, 0 at the end of the directory.\<close>

definition fd_readdir :: "'d drivers \<Rightarrow> int \<Rightarrow> int \<Rightarrow> ('d, 'x, int \<times> fd_dirent option) dio" where
  "fd_readdir drv pid fd = do {
     s \<leftarrow> State_Monad.get;
     case file_for s (entry_for s pid fd) of
       None \<Rightarrow> State_Monad.return (- 1, None)
     | Some i \<Rightarrow>
         let f = g_files s i in
         if ff_kind f \<noteq> FD_KIND_DIRECTORY \<or> ff_flags f AND FD_OPEN_READ = 0 then State_Monad.return (- 1, None)
         else do {
           (count, es) \<leftarrow> vfs_list drv (ff_path f) (int VFS_MAX_CHILDREN);
           if count < 0 then State_Monad.return (- 1, None)
           else if ff_offset f \<ge> word_of_int count then State_Monad.return (0, None)
           else do {
             let src = es ! unat (ff_offset f);
             _ \<leftarrow> State_Monad.update (upd_file i (\<lambda>f. f\<lparr>ff_offset := ff_offset f + 1\<rparr>));
             State_Monad.return (1, Some \<lparr>de_name = take 63 (ke_name src), de_size = ke_size src, de_is_dir = ke_is_dir src\<rparr>)
           }
         }
   }"

definition fd_stat :: "'d drivers \<Rightarrow> int \<Rightarrow> int \<Rightarrow> ('d, 'x, (u64 \<times> bool) option) dio" where
  "fd_stat drv pid fd = do {
     s \<leftarrow> State_Monad.get;
     case file_for s (entry_for s pid fd) of
       None \<Rightarrow> State_Monad.return None
     | Some i \<Rightarrow>
         if ff_kind (g_files s i) \<noteq> FD_KIND_FILE \<and> ff_kind (g_files s i) \<noteq> FD_KIND_DIRECTORY then State_Monad.return None
         else do {
           (r, st) \<leftarrow> vfs_stat drv (ff_path (g_files s i));
           State_Monad.return (if r = 0 then map_option (\<lambda>t. (ucast (ks_size t), ks_is_dir t)) st else None)
         }
   }"

subsection \<open>A pipe is a byte queue\<close>

lemma ring_push_used: "ring_push N b (r\<lparr>ring_used := u\<rparr>) = (ring_push N b r)\<lparr>ring_used := u\<rparr>" "ring_used (ring_push N b r) = ring_used r"
  by (simp_all add: ring_push_def)

lemma fold_ring_push: "(fold (ring_push N) bs r)\<lparr>ring_used := ring_used r + length bs\<rparr> = fold (ring_store N) bs r"
proof -
  have "fold (ring_store N) bs (r\<lparr>ring_used := u\<rparr>) = (fold (ring_push N) bs r)\<lparr>ring_used := u + length bs\<rparr>" for u
    by (induction bs arbitrary: r u) (simp_all add: ring_store_def ring_push_used)
  from this [of "ring_used r"] show ?thesis by simp
qed

lemma ring_pop_used: "ring_pop N (r\<lparr>ring_used := u\<rparr>) = (fst (ring_pop N r), (snd (ring_pop N r))\<lparr>ring_used := u\<rparr>)"
  by (simp add: ring_pop_def)

lemma pipe_pop_used: "pipe_pop n (r\<lparr>ring_used := u\<rparr>) = (fst (pipe_pop n r), (snd (pipe_pop n r))\<lparr>ring_used := u\<rparr>)"
  by (induction n arbitrary: r) (simp_all add: ring_pop_used case_prod_beta Let_def)

lemma pipe_pop_ok:
  assumes "ring_wf FD_PIPE_BUFFER r" and "n \<le> ring_used r"
  shows "fst (pipe_pop n r) = take n (ring_content FD_PIPE_BUFFER r) \<and>
    ring_wf FD_PIPE_BUFFER ((snd (pipe_pop n r))\<lparr>ring_used := ring_used r - n\<rparr>) \<and>
    ring_content FD_PIPE_BUFFER ((snd (pipe_pop n r))\<lparr>ring_used := ring_used r - n\<rparr>) = drop n (ring_content FD_PIPE_BUFFER r)"
  using assms
proof (induction n arbitrary: r)
  case (Suc n)
  have pos: "0 < ring_used r" using Suc.prems(2) by simp
  note f = ring_fetch_ok [OF Suc.prems(1) pos]
  have pop: "snd (ring_pop FD_PIPE_BUFFER r) = (snd (ring_fetch FD_PIPE_BUFFER r))\<lparr>ring_used := ring_used r\<rparr>"
    "fst (ring_pop FD_PIPE_BUFFER r) = fst (ring_fetch FD_PIPE_BUFFER r)"
    by (simp_all add: ring_fetch_def ring_pop_def)
  have le: "n \<le> ring_used (snd (ring_fetch FD_PIPE_BUFFER r))" "ring_used (snd (ring_fetch FD_PIPE_BUFFER r)) - n = ring_used r - Suc n"
    using Suc.prems(2) f(3) by simp_all
  show ?case using Suc.IH [OF f(1) le(1)] f(2) le(2) by (simp add: pop pipe_pop_used case_prod_beta Let_def)
qed simp

interpretation pipe_ring: byte_fifo "4096" "ring_wf 4096" "ring_content 4096" pipe_put pipe_get
proof unfold_locales
  fix r :: ring and bs :: "u8 list"
  assume ok: "ring_wf 4096 r"
  define k where "k = min (length bs) (4096 - ring_used r)"
  have le: "length (take k bs) + ring_used r \<le> 4096" and len: "length (take k bs) = k" using ok by (auto simp: k_def ring_wf_def)
  have "pipe_put bs r = (k, (fold (ring_push 4096) (take k bs) r)\<lparr>ring_used := ring_used r + k\<rparr>)"
    by (auto simp: pipe_put_def Let_def k_def min_def)
  then have put: "pipe_put bs r = (k, fold (ring_store 4096) (take k bs) r)" using fold_ring_push [where N = 4096 and bs = "take k bs" and r = r] len by simp
  show "ring_wf 4096 (snd (pipe_put bs r))" "fst (pipe_put bs r) = min (length bs) (4096 - length (ring_content 4096 r))"
    "ring_content 4096 (snd (pipe_put bs r)) = ring_content 4096 r @ take (fst (pipe_put bs r)) bs"
    using fold_ring_store [OF ok le] by (simp_all add: put k_def)
next
  fix r :: ring and n :: nat
  assume ok: "ring_wf 4096 r"
  define k where "k = min n (ring_used r)"
  have get: "pipe_get n r = (fst (pipe_pop k r), (snd (pipe_pop k r))\<lparr>ring_used := ring_used r - k\<rparr>)"
    by (auto simp: pipe_get_def Let_def k_def min_def case_prod_beta)
  have k: "take k (ring_content 4096 r) = take n (ring_content 4096 r)" "drop k (ring_content 4096 r) = drop n (ring_content 4096 r)"
    by (auto simp: k_def min_def)
  show "ring_wf 4096 (snd (pipe_get n r))" "fst (pipe_get n r) = take n (ring_content 4096 r)"
    "ring_content 4096 (snd (pipe_get n r)) = drop n (ring_content 4096 r)"
    using pipe_pop_ok [OF ok, of k] k by (simp_all add: get k_def)
qed (simp add: ring_wf_def)

end
