(* ===== verification/Windows.thy ===== *)
theory Windows
  imports Vmm
begin

text \<open>
  The windows of user processes (\<open>kernel/uwindow.c\<close>): the table of windows, their frame buffers in pages mapped into the owner, and the queues of
  events. Drawing, dragging and animation (\<open>uwindow_render_all\<close>) are not modelled.
\<close>

abbreviation (input) MAX_USER_WINDOWS :: nat where "MAX_USER_WINDOWS \<equiv> 8"
abbreviation (input) USER_WINDOW_FB_VADDR :: u64 where "USER_WINDOW_FB_VADDR \<equiv> 0x50000000"
abbreviation (input) USER_WINDOW_FB_STRIDE :: u64 where "USER_WINDOW_FB_STRIDE \<equiv> 16 * 1024 * 1024"
abbreviation (input) EVENT_KEY_DOWN :: int where "EVENT_KEY_DOWN \<equiv> 4"

subsection \<open>Mapping runs of frames\<close>

text \<open>
  The loops that map frames at consecutive pages: the number of pages mapped before the first failure. The loops that take pages back
  do so in the order of the list of page numbers.
\<close>

fun map_frames :: "u64 \<Rightarrow> u64 \<Rightarrow> u64 list \<Rightarrow> u64 \<Rightarrow> mm \<Rightarrow> nat \<times> mm" where
  "map_frames pml4 va [] flags m = (0, m)"
| "map_frames pml4 va (phys # rest) flags m =
     (case vmm_map_page pml4 va phys flags m of
        (r, m1) \<Rightarrow>
          if r \<noteq> 0 then (0, m1)
          else (case map_frames pml4 (va + PAGE_SIZE) rest flags m1 of (n, m2) \<Rightarrow> (Suc n, m2)))"

definition unmap_run :: "u64 \<Rightarrow> u64 \<Rightarrow> bool \<Rightarrow> nat list \<Rightarrow> mm \<Rightarrow> mm" where
  "unmap_run pml4 va free_phys ps m = fold (\<lambda>p m. snd (vmm_unmap_page pml4 (va + word_of_nat p * PAGE_SIZE) free_phys m)) ps m"

subsection \<open>Windows\<close>

record uevent =
  ue_type :: int
  ue_mx :: int
  ue_my :: int
  ue_btn :: int
  ue_key :: int

text \<open>The frame buffer is named by its physical address; of the circular array of events the indices are kept.\<close>

record user_window =
  uw_active :: bool
  uw_win_id :: nat
  uw_is_desktop :: bool
  uw_is_glass :: bool
  uw_x :: int
  uw_y :: int
  uw_w :: int
  uw_h :: int
  uw_title :: string
  uw_framebuffer :: u64
  uw_user_fb_vaddr :: u64
  uw_pml4_phys :: u64
  uw_is_open :: bool
  uw_minimized :: bool
  uw_dragging :: bool
  uw_drag_ox :: int
  uw_drag_oy :: int
  uw_dirty :: bool
  uw_anim_state :: int
  uw_anim_t :: int
  uw_events :: "nat \<Rightarrow> uevent"
  uw_ev_head :: nat
  uw_ev_tail :: nat

record windows =
  g_windows :: "nat \<Rightarrow> user_window"
  g_focused_win_id :: int

definition upd_window :: "nat \<Rightarrow> (user_window \<Rightarrow> user_window) \<Rightarrow> windows \<Rightarrow> windows" where
  "upd_window i f s = s\<lparr>g_windows := (g_windows s)(i := f (g_windows s i))\<rparr>"

definition uwindow_init :: "windows \<Rightarrow> windows" where
  "uwindow_init s =
     s\<lparr>g_windows := (\<lambda>i. if i < MAX_USER_WINDOWS
        then (g_windows s i)\<lparr>uw_active := False, uw_is_open := False, uw_ev_head := 0, uw_ev_tail := 0\<rparr> else g_windows s i)\<rparr>"

definition clamp :: "int \<Rightarrow> int \<Rightarrow> int \<Rightarrow> int" where
  "clamp lo hi v = (let v1 = (if v < lo then lo else v) in if v1 > hi then hi else v1)"

definition title_is_glass :: "string \<Rightarrow> bool" where
  "title_is_glass title \<longleftrightarrow>
     (\<exists>si < length title. take 3 (drop si title) \<in> {''Set'', ''set''} \<or> take 5 (drop si title) \<in> {''Glass'', ''glass'', ''About'', ''about''})"

text \<open>A slot that a new window takes, before its frame buffer exists. The title may be missing.\<close>

definition window_setup :: "nat \<Rightarrow> int \<Rightarrow> int \<Rightarrow> string option \<Rightarrow> u64 \<Rightarrow> user_window \<Rightarrow> user_window" where
  "window_setup slot w h title pml4 win =
     (let t = (case title of None \<Rightarrow> '''' | Some s \<Rightarrow> s);
          is_desk = (take 3 t = ''__d'')
      in win\<lparr>uw_win_id := slot, uw_is_desktop := is_desk, uw_w := w, uw_h := h,
           uw_x := (if is_desk then 0 else 220 + int slot * 30), uw_y := (if is_desk then 0 else 120 + int slot * 30),
           uw_is_glass := title_is_glass t, uw_is_open := True, uw_minimized := False, uw_dragging := False, uw_drag_ox := 0, uw_drag_oy := 0,
           uw_dirty := True, uw_anim_state := (if is_desk then 0 else 1), uw_anim_t := 0, uw_pml4_phys := pml4,
           uw_user_fb_vaddr := USER_WINDOW_FB_VADDR + word_of_nat slot * USER_WINDOW_FB_STRIDE, uw_ev_head := 0, uw_ev_tail := 0, uw_title := take 63 t\<rparr>)"

definition fb_pages :: "int \<Rightarrow> int \<Rightarrow> u64" where
  "fb_pages w h = (word_of_int w * word_of_int h * 4 + PAGE_SIZE - 1) div PAGE_SIZE + 4"

definition uwindow_create :: "int \<Rightarrow> int \<Rightarrow> string option \<Rightarrow> u64 \<Rightarrow> windows \<Rightarrow> mm \<Rightarrow> nat option \<times> windows \<times> mm" where
  "uwindow_create w0 h0 title pml4 s m =
     (let w = clamp 100 1920 w0; h = clamp 50 1200 h0 in
      case first_from (\<lambda>i. \<not> uw_active (g_windows s i)) 0 MAX_USER_WINDOWS of
        None \<Rightarrow> (None, s, m)
      | Some slot \<Rightarrow>
          let s1 = upd_window slot (window_setup slot w h title pml4) s;
              va = uw_user_fb_vaddr (g_windows s1 slot);
              n = fb_pages w h
          in if n * PAGE_SIZE > USER_WINDOW_FB_STRIDE then (None, s1, m)
             else case pmm_alloc_pages n m of
               (phys, m1) \<Rightarrow>
                 if phys = 0 then (None, s1, m1)
                 else (case map_frames pml4 va (map (\<lambda>p. phys + word_of_nat p * PAGE_SIZE) [0..<unat n]) (PTE_USER OR PTE_WRITABLE OR PTE_NO_EXECUTE) m1 of
                         (k, m2) \<Rightarrow>
                           if k < unat n then (None, s1, snd (pmm_free_pages phys n (unmap_run pml4 va False (rev [0..<k]) m2)))
                           else
                             let m3 = vmm_switch_pml4 pml4 m2;
                                 m4 = m3\<lparr>phys_mem := write_bytes phys (concat (replicate (nat (w * h)) (le_bytes 4 0xFF1E1E22))) (phys_mem m3)\<rparr>
                             in (Some slot, (upd_window slot (\<lambda>win. win\<lparr>uw_framebuffer := phys, uw_active := True\<rparr>) s1)\<lparr>g_focused_win_id := int slot\<rparr>, m4)))"

definition uwindow_destroy :: "int \<Rightarrow> windows \<Rightarrow> windows" where
  "uwindow_destroy win_id s =
     (if win_id < 0 \<or> win_id \<ge> int MAX_USER_WINDOWS then s
      else let s1 = upd_window (nat win_id) (\<lambda>win. win\<lparr>uw_active := False, uw_is_open := False\<rparr>) s
           in if g_focused_win_id s1 = win_id then s1\<lparr>g_focused_win_id := - 1\<rparr> else s1)"

definition uwindow_destroy_process :: "u64 \<Rightarrow> windows \<Rightarrow> windows" where
  "uwindow_destroy_process pml4 s =
     fold (\<lambda>i s. if uw_active (g_windows s i) \<and> uw_pml4_phys (g_windows s i) = pml4 then uwindow_destroy (int i) s else s) [0..<MAX_USER_WINDOWS] s"

definition uwindow_get :: "int \<Rightarrow> windows \<Rightarrow> nat option" where
  "uwindow_get win_id s =
     (if win_id < 0 \<or> win_id \<ge> int MAX_USER_WINDOWS \<or> \<not> uw_active (g_windows s (nat win_id)) then None else Some (nat win_id))"

definition uwindow_get_process_window :: "u64 \<Rightarrow> windows \<Rightarrow> nat option" where
  "uwindow_get_process_window pml4 s =
     (if pml4 = 0 then None else first_from (\<lambda>i. uw_active (g_windows s i) \<and> uw_pml4_phys (g_windows s i) = pml4) 0 MAX_USER_WINDOWS)"

subsection \<open>Events\<close>

definition uwindow_push_event :: "int \<Rightarrow> uevent \<Rightarrow> windows \<Rightarrow> bool \<times> windows" where
  "uwindow_push_event win_id ev s =
     (case uwindow_get win_id s of
        None \<Rightarrow> (False, s)
      | Some i \<Rightarrow>
          (True, upd_window i (\<lambda>win.
             let nxt = (uw_ev_head win + 1) mod 32 in
             win\<lparr>uw_ev_tail := (if nxt = uw_ev_tail win then (uw_ev_tail win + 1) mod 32 else uw_ev_tail win),
               uw_events := (uw_events win)(uw_ev_head win := ev), uw_ev_head := nxt\<rparr>) s))"

definition uwindow_pop_event :: "int \<Rightarrow> windows \<Rightarrow> uevent option \<times> windows" where
  "uwindow_pop_event win_id s =
     (case uwindow_get win_id s of
        None \<Rightarrow> (None, s)
      | Some i \<Rightarrow>
          let win = g_windows s i in
          if uw_ev_head win = uw_ev_tail win then (None, s)
          else (Some (uw_events win (uw_ev_tail win)), upd_window i (\<lambda>win. win\<lparr>uw_ev_tail := (uw_ev_tail win + 1) mod 32\<rparr>) s))"

text \<open>The key is the C character, a signed integer.\<close>

definition uwindow_feed_key :: "int \<Rightarrow> windows \<Rightarrow> windows" where
  "uwindow_feed_key c s =
     (if g_focused_win_id s \<ge> 0 \<and> g_focused_win_id s < int MAX_USER_WINDOWS
      then snd (uwindow_push_event (g_focused_win_id s) \<lparr>ue_type = EVENT_KEY_DOWN, ue_mx = 0, ue_my = 0, ue_btn = 0, ue_key = c\<rparr> s) else s)"

definition uwindow_is_any_open :: "windows \<Rightarrow> bool" where
  "uwindow_is_any_open s \<longleftrightarrow>
     (\<exists>i < MAX_USER_WINDOWS. let win = g_windows s i in uw_active win \<and> uw_is_open win \<and> \<not> uw_minimized win \<and> \<not> uw_is_desktop win)"

definition uwindow_has_desktop_surface :: "windows \<Rightarrow> bool" where
  "uwindow_has_desktop_surface s \<longleftrightarrow> (\<exists>i < MAX_USER_WINDOWS. let win = g_windows s i in uw_active win \<and> uw_is_open win \<and> uw_is_desktop win)"

definition uwindow_is_focused :: "windows \<Rightarrow> bool" where
  "uwindow_is_focused s \<longleftrightarrow>
     g_focused_win_id s \<ge> 0 \<and> uw_active (g_windows s (nat (g_focused_win_id s))) \<and> uw_is_open (g_windows s (nat (g_focused_win_id s)))"

definition uwindow_set_focused :: "bool \<Rightarrow> windows \<Rightarrow> windows" where
  "uwindow_set_focused focused s = (if focused then s else s\<lparr>g_focused_win_id := - 1\<rparr>)"

definition uwindow_is_focused_idx :: "int \<Rightarrow> windows \<Rightarrow> bool" where
  "uwindow_is_focused_idx idx s \<longleftrightarrow> g_focused_win_id s = idx"

end
