(* ===== verification/Sockets.thy ===== *)
theory Sockets
  imports Prelude
begin

text \<open>
  The network sockets of processes (\<open>kernel/socket.c\<close>), over the calls of the network stack, which is a parameter.
\<close>

abbreviation (input) SOCKET_MAX :: nat where "SOCKET_MAX \<equiv> 8"
abbreviation (input) KESH_SOCKET_TCP :: int where "KESH_SOCKET_TCP \<equiv> 1"
abbreviation (input) KESH_SOCKET_UDP :: int where "KESH_SOCKET_UDP \<equiv> 2"
abbreviation (input) SOCKET_POLL_READ :: u32 where "SOCKET_POLL_READ \<equiv> 1"
abbreviation (input) SOCKET_POLL_WRITE :: u32 where "SOCKET_POLL_WRITE \<equiv> 2"
abbreviation (input) SOCKET_POLL_HANGUP :: u32 where "SOCKET_POLL_HANGUP \<equiv> 4"

subsection \<open>State\<close>

record socket =
  so_owner_pid :: int
  so_open :: bool
  so_connected :: bool
  so_protocol :: int
  so_udp_ready :: bool
  so_local_port :: u16
  so_remote_port :: u16
  so_remote_address :: u32
  so_udp_source_address :: u32
  so_udp_source_port :: u16
  so_udp_data :: "u8 list"

record sockets =
  g_sockets :: "nat \<Rightarrow> socket"
  g_connected_handle :: int

text \<open>
  The calls of the network stack. They work on the state \<open>'d\<close> of the devices; \<open>net_poll\<close> returns the datagrams it hands to the handler, each with
  source address, source port, destination port and bytes.
\<close>

type_synonym datagram = "u32 \<times> u16 \<times> u16 \<times> u8 list"

record 'd net_ops =
  net_tcp_connect :: "u32 \<Rightarrow> u16 \<Rightarrow> u32 \<Rightarrow> 'd \<Rightarrow> int \<times> 'd"
  net_tcp_send :: "u8 list \<Rightarrow> 'd \<Rightarrow> int \<times> 'd"
  net_tcp_recv :: "nat \<Rightarrow> u32 \<Rightarrow> 'd \<Rightarrow> (int \<times> u8 list) \<times> 'd"
  net_tcp_close :: "'d \<Rightarrow> 'd"
  net_tcp_available :: "'d \<Rightarrow> int"
  net_tcp_is_connected :: "'d \<Rightarrow> bool"
  net_udp_send :: "u32 \<Rightarrow> u16 \<Rightarrow> u16 \<Rightarrow> u8 list \<Rightarrow> 'd \<Rightarrow> int \<times> 'd"
  net_get_my_ip :: "'d \<Rightarrow> u32"
  net_poll :: "'d \<Rightarrow> datagram list \<times> 'd"

definition upd_sock :: "nat \<Rightarrow> (socket \<Rightarrow> socket) \<Rightarrow> sockets \<Rightarrow> sockets" where
  "upd_sock i f s = s\<lparr>g_sockets := (g_sockets s)(i := f (g_sockets s i))\<rparr>"

definition socket_udp_input :: "datagram \<Rightarrow> sockets \<Rightarrow> sockets" where
  "socket_udp_input dg s =
     (case dg of (source_ip, source_port, destination_port, data) \<Rightarrow>
        (case first_from (\<lambda>i. let k = g_sockets s i in
               so_open k \<and> so_protocol k = KESH_SOCKET_UDP \<and> so_local_port k = destination_port \<and>
               \<not> (so_connected k \<and> (so_remote_address k \<noteq> source_ip \<or> so_remote_port k \<noteq> source_port))) 0 SOCKET_MAX of
           None \<Rightarrow> s
         | Some i \<Rightarrow> upd_sock i (\<lambda>k. k\<lparr>so_udp_data := take 2048 data, so_udp_source_address := source_ip, so_udp_source_port := source_port, so_udp_ready := True\<rparr>) s))"

definition poll_network :: "'d net_ops \<Rightarrow> sockets \<Rightarrow> 'd \<Rightarrow> sockets \<times> 'd" where
  "poll_network net s d = (case net_poll net d of (dgs, d1) \<Rightarrow> (fold socket_udp_input dgs s, d1))"

definition socket_init :: "sockets \<Rightarrow> sockets" where
  "socket_init s =
     s\<lparr>g_sockets := (\<lambda>i. if i < SOCKET_MAX
          then (g_sockets s i)\<lparr>so_owner_pid := - 1, so_open := False, so_connected := False, so_udp_ready := False\<rparr> else g_sockets s i),
       g_connected_handle := - 1\<rparr>"

definition owned :: "int \<Rightarrow> int \<Rightarrow> sockets \<Rightarrow> nat option" where
  "owned owner_pid handle s =
     (if handle \<ge> 0 \<and> handle < int SOCKET_MAX \<and> so_open (g_sockets s (nat handle)) \<and> so_owner_pid (g_sockets s (nat handle)) = owner_pid
      then Some (nat handle) else None)"

definition socket_open :: "int \<Rightarrow> int \<Rightarrow> sockets \<Rightarrow> int \<times> sockets" where
  "socket_open owner_pid protocol s =
     (if owner_pid < 0 \<or> protocol \<noteq> KESH_SOCKET_TCP \<and> protocol \<noteq> KESH_SOCKET_UDP then (- 1, s)
      else case first_from (\<lambda>i. \<not> so_open (g_sockets s i)) 0 SOCKET_MAX of
        None \<Rightarrow> (- 1, s)
      | Some i \<Rightarrow> (int i, upd_sock i (\<lambda>k. k\<lparr>so_owner_pid := owner_pid, so_open := True, so_connected := False, so_protocol := protocol,
                     so_local_port := 0, so_udp_ready := False\<rparr>) s))"

text \<open>The port a UDP socket gets when it has none.\<close>

definition ensure_port :: "nat \<Rightarrow> socket \<Rightarrow> socket" where
  "ensure_port i k = (if so_local_port k = 0 then k\<lparr>so_local_port := word_of_nat (49152 + i)\<rparr> else k)"

definition socket_connect :: "'d net_ops \<Rightarrow> int \<Rightarrow> int \<Rightarrow> u32 \<Rightarrow> u16 \<Rightarrow> sockets \<Rightarrow> 'd \<Rightarrow> int \<times> sockets \<times> 'd" where
  "socket_connect net owner_pid handle address port s d =
     (case owned owner_pid handle s of
        None \<Rightarrow> (- 1, s, d)
      | Some i \<Rightarrow>
          if address = 0 \<or> port = 0 then (- 1, s, d)
          else if so_protocol (g_sockets s i) = KESH_SOCKET_UDP
          then (0, upd_sock i (\<lambda>k. (ensure_port i k)\<lparr>so_remote_address := address, so_remote_port := port, so_connected := True\<rparr>) s, d)
          else if g_connected_handle s \<ge> 0 \<and> g_connected_handle s \<noteq> handle then (- 1, s, d)
          else (case net_tcp_connect net address port 5000 d of
                  (r, d1) \<Rightarrow> if r \<noteq> 0 then (- 1, s, d1)
                             else (0, (upd_sock i (\<lambda>k. k\<lparr>so_connected := True\<rparr>) s)\<lparr>g_connected_handle := handle\<rparr>, d1)))"

definition socket_bind :: "'d net_ops \<Rightarrow> int \<Rightarrow> int \<Rightarrow> u32 \<Rightarrow> u16 \<Rightarrow> sockets \<Rightarrow> 'd \<Rightarrow> int \<times> sockets" where
  "socket_bind net owner_pid handle address port s d =
     (case owned owner_pid handle s of
        None \<Rightarrow> (- 1, s)
      | Some h \<Rightarrow>
          if so_protocol (g_sockets s h) \<noteq> KESH_SOCKET_UDP \<or> port = 0 then (- 1, s)
          else if address \<noteq> 0 \<and> address \<noteq> net_get_my_ip net d then (- 1, s)
          else if \<exists>i < SOCKET_MAX. i \<noteq> h \<and> so_open (g_sockets s i) \<and> so_protocol (g_sockets s i) = KESH_SOCKET_UDP \<and> so_local_port (g_sockets s i) = port
          then (- 1, s)
          else (0, upd_sock h (\<lambda>k. k\<lparr>so_local_port := port\<rparr>) s))"

definition socket_send_to :: "'d net_ops \<Rightarrow> int \<Rightarrow> int \<Rightarrow> u32 \<Rightarrow> u16 \<Rightarrow> u8 list \<Rightarrow> sockets \<Rightarrow> 'd \<Rightarrow> int \<times> sockets \<times> 'd" where
  "socket_send_to net owner_pid handle address port data s d =
     (case owned owner_pid handle s of
        None \<Rightarrow> (- 1, s, d)
      | Some i \<Rightarrow>
          if so_protocol (g_sockets s i) \<noteq> KESH_SOCKET_UDP \<or> address = 0 \<or> port = 0 \<or> data = [] then (- 1, s, d)
          else let s1 = upd_sock i (ensure_port i) s
               in (case net_udp_send net address (so_local_port (g_sockets s1 i)) port data d of (r, d1) \<Rightarrow> (r, s1, d1)))"

text \<open>
  The wait for a datagram. \<open>ticks\<close> are the readings of \<open>timer_millis\<close> after each poll of the network; \<open>None\<close> means that they do not suffice for the
  wait to end.
\<close>

fun socket_wait :: "'d net_ops \<Rightarrow> nat \<Rightarrow> u64 \<Rightarrow> u64 \<Rightarrow> u64 list \<Rightarrow> sockets \<Rightarrow> 'd \<Rightarrow> (bool \<times> sockets \<times> 'd) option" where
  "socket_wait net i start timeout [] s d = (if so_udp_ready (g_sockets s i) then Some (True, s, d) else None)"
| "socket_wait net i start timeout (t # ts) s d =
     (if so_udp_ready (g_sockets s i) then Some (True, s, d)
      else (case poll_network net s d of
              (s1, d1) \<Rightarrow> if t - start \<ge> timeout then Some (False, s1, d1) else socket_wait net i start timeout ts s1 d1))"

text \<open>The status, the bytes, and the address and port of the sender.\<close>

definition socket_recv_from :: "'d net_ops \<Rightarrow> int \<Rightarrow> int \<Rightarrow> nat \<Rightarrow> u32 \<Rightarrow> u64 \<Rightarrow> u64 list \<Rightarrow> sockets \<Rightarrow> 'd \<Rightarrow>
    (int \<times> u8 list \<times> (u32 \<times> u16) option \<times> sockets \<times> 'd) option" where
  "socket_recv_from net owner_pid handle len timeout_ms start ticks s d =
     (case owned owner_pid handle s of
        None \<Rightarrow> Some (- 1, [], None, s, d)
      | Some i \<Rightarrow>
          if so_protocol (g_sockets s i) \<noteq> KESH_SOCKET_UDP \<or> so_local_port (g_sockets s i) = 0 \<or> len = 0 then Some (- 1, [], None, s, d)
          else
            map_option (\<lambda>(ready, s1, d1).
              if \<not> ready then (0, [], None, s1, d1)
              else let k = g_sockets s1 i; bs = take len (so_udp_data k)
                   in (int (length bs), bs, Some (so_udp_source_address k, so_udp_source_port k), upd_sock i (\<lambda>k. k\<lparr>so_udp_ready := False\<rparr>) s1, d1))
              (socket_wait net i start (ucast timeout_ms) ticks s d))"

definition socket_send :: "'d net_ops \<Rightarrow> int \<Rightarrow> int \<Rightarrow> u8 list \<Rightarrow> sockets \<Rightarrow> 'd \<Rightarrow> int \<times> 'd" where
  "socket_send net owner_pid handle data s d =
     (case owned owner_pid handle s of
        None \<Rightarrow> (- 1, d)
      | Some i \<Rightarrow>
          let k = g_sockets s i in
          if \<not> so_connected k \<or> data = [] then (- 1, d)
          else if so_protocol k = KESH_SOCKET_UDP then net_udp_send net (so_remote_address k) (so_local_port k) (so_remote_port k) data d
          else net_tcp_send net data d)"

definition socket_recv :: "'d net_ops \<Rightarrow> int \<Rightarrow> int \<Rightarrow> nat \<Rightarrow> u32 \<Rightarrow> u64 \<Rightarrow> u64 list \<Rightarrow> sockets \<Rightarrow> 'd \<Rightarrow> (int \<times> u8 list \<times> sockets \<times> 'd) option" where
  "socket_recv net owner_pid handle len timeout_ms start ticks s d =
     (case owned owner_pid handle s of
        None \<Rightarrow> Some (- 1, [], s, d)
      | Some i \<Rightarrow>
          if \<not> so_connected (g_sockets s i) \<or> len = 0 then Some (- 1, [], s, d)
          else if so_protocol (g_sockets s i) = KESH_SOCKET_TCP
          then (case net_tcp_recv net len timeout_ms d of ((r, bs), d1) \<Rightarrow> Some (r, bs, s, d1))
          else map_option (\<lambda>(r, bs, _, s1, d1). (r, bs, s1, d1)) (socket_recv_from net owner_pid handle len timeout_ms start ticks s d))"

definition socket_poll :: "'d net_ops \<Rightarrow> int \<Rightarrow> int \<Rightarrow> u32 \<Rightarrow> sockets \<Rightarrow> 'd \<Rightarrow> int \<times> sockets \<times> 'd" where
  "socket_poll net owner_pid handle events s d =
     (if events AND NOT (SOCKET_POLL_READ OR SOCKET_POLL_WRITE OR SOCKET_POLL_HANGUP) \<noteq> 0 then (- 1, s, d)
      else case owned owner_pid handle s of
        None \<Rightarrow> (- 1, s, d)
      | Some i \<Rightarrow>
          (case poll_network net s d of
             (s1, d1) \<Rightarrow>
               let k = g_sockets s1 i;
                   ready = (if so_protocol k = KESH_SOCKET_UDP then (if so_udp_ready k then SOCKET_POLL_READ else 0) OR SOCKET_POLL_WRITE
                            else (if net_tcp_available net d1 > 0 then SOCKET_POLL_READ else 0) OR
                                 (if net_tcp_is_connected net d1 then SOCKET_POLL_WRITE else 0) OR
                                 (if so_connected k \<and> \<not> net_tcp_is_connected net d1 then SOCKET_POLL_HANGUP else 0))
               in (sint (ready AND events), s1, d1)))"

definition socket_close :: "'d net_ops \<Rightarrow> int \<Rightarrow> int \<Rightarrow> sockets \<Rightarrow> 'd \<Rightarrow> int \<times> sockets \<times> 'd" where
  "socket_close net owner_pid handle s d =
     (case owned owner_pid handle s of
        None \<Rightarrow> (- 1, s, d)
      | Some i \<Rightarrow>
          let last = (so_protocol (g_sockets s i) = KESH_SOCKET_TCP \<and> so_connected (g_sockets s i) \<and> g_connected_handle s = handle);
              s1 = (if last then s\<lparr>g_connected_handle := - 1\<rparr> else s);
              d1 = (if last then net_tcp_close net d else d)
          in (0, upd_sock i (\<lambda>k. k\<lparr>so_open := False, so_connected := False, so_owner_pid := - 1\<rparr>) s1, d1))"

definition socket_close_owner :: "'d net_ops \<Rightarrow> int \<Rightarrow> sockets \<Rightarrow> 'd \<Rightarrow> sockets \<times> 'd" where
  "socket_close_owner net owner_pid s d =
     fold (\<lambda>i (s, d). if so_open (g_sockets s i) \<and> so_owner_pid (g_sockets s i) = owner_pid then snd (socket_close net owner_pid (int i) s d) else (s, d))
       [0..<SOCKET_MAX] (s, d)"

end
