(* ===== verification/Process_Vm.thy ===== *)
theory Process_Vm
  imports Fd Ipc Windows Sockets
begin

text \<open>
  The state of the kernel as a whole, and the memory of processes (\<open>process_vm_*\<close> of \<open>kernel/process.c\<close>): regions, fixed mappings, mappings of given frames,
  protection, and the program break.
\<close>

subsection \<open>The state of the kernel\<close>

text \<open>The tables of the processes, messages, sockets and windows beside those of the descriptors.\<close>

record 'd kernel = "'d fds" +
  k_procs :: procs
  k_ipc :: ipc
  k_sockets :: sockets
  k_windows :: windows

definition upd_process :: "nat \<Rightarrow> (process \<Rightarrow> process) \<Rightarrow> ('d, 'x) kernel_scheme \<Rightarrow> ('d, 'x) kernel_scheme" where
  "upd_process i f s = s\<lparr>k_procs := upd_proc i f (k_procs s)\<rparr>"

definition upd_region :: "nat \<Rightarrow> (process_vm_region \<Rightarrow> process_vm_region) \<Rightarrow> process \<Rightarrow> process" where
  "upd_region r f p = p\<lparr>vm_regions := (vm_regions p)(r := f (vm_regions p r))\<rparr>"

abbreviation (input) the_process :: "('d, 'x) kernel_scheme \<Rightarrow> nat \<Rightarrow> process" where
  "the_process s i \<equiv> g_processes (k_procs s) i"

abbreviation (input) FD_KIND_MEMFD_NUMBER :: nat where "FD_KIND_MEMFD_NUMBER \<equiv> 6"

subsection \<open>Pages\<close>

definition protection_ok :: "u32 \<Rightarrow> bool" where
  "protection_ok protection \<longleftrightarrow> protection AND NOT 7 = 0 \<and> \<not> (protection AND 2 \<noteq> 0 \<and> protection AND 4 \<noteq> 0)"

definition protection_flags :: "u32 \<Rightarrow> u64" where
  "protection_flags protection =
     PTE_USER OR (if protection AND 2 \<noteq> 0 then PTE_WRITABLE else 0) OR (if protection AND 4 = 0 then PTE_NO_EXECUTE else 0)"

definition page_present :: "u64 \<Rightarrow> u64 \<Rightarrow> mm \<Rightarrow> bool" where
  "page_present pml4 va m \<longleftrightarrow> vmm_get_page_flags pml4 va m AND PTE_PRESENT \<noteq> 0"

definition round_up :: "u64 \<Rightarrow> u64" where
  "round_up n = (n + PAGE_SIZE - 1) AND NOT (PAGE_SIZE - 1)"

text \<open>The search for a run of pages without mappings: the base it ends with. The size is never zero where the code calls it.\<close>

function find_base :: "u64 \<Rightarrow> nat \<Rightarrow> u64 \<Rightarrow> u64 \<Rightarrow> mm \<Rightarrow> u64" where
  "find_base pml4 pages mapped_size base m =
     (if base < USER_VA_LIMIT \<and> mapped_size \<le> USER_VA_LIMIT - base \<and> 0 < mapped_size \<and>
         (\<exists>p < pages. page_present pml4 (base + word_of_nat p * PAGE_SIZE) m)
      then find_base pml4 pages mapped_size (base + mapped_size) m else base)"
  by auto
termination
proof (relation "measure (\<lambda>(_, _, _, base, _). unat USER_VA_LIMIT - unat base)", goal_cases)
  case (2 pml4 pages mapped_size base m)
  then have lt: "base < USER_VA_LIMIT" and le: "mapped_size \<le> USER_VA_LIMIT - base" and pos: "0 < mapped_size" by auto
  have sub: "unat (USER_VA_LIMIT - base) = unat USER_VA_LIMIT - unat base" using lt by (simp add: unat_sub less_imp_le)
  have ln: "unat base < 140737488355328" "unat mapped_size \<le> 140737488355328 - unat base" "0 < unat mapped_size"
    using lt le pos sub by (simp_all add: word_less_nat_alt word_le_nat_alt)
  have "unat base + unat mapped_size < 2 ^ LENGTH(64)" using ln by simp
  then have "unat (base + mapped_size) = unat base + unat mapped_size" by (simp only: unat_add_lem)
  then show ?case using ln by simp
qed simp

declare find_base.simps [simp del]

text \<open>The loops that map fresh zeroed pages: the number of pages mapped before the first failure, after which the frame at hand is given back.\<close>

primrec map_fresh :: "nat \<Rightarrow> u64 \<Rightarrow> u64 \<Rightarrow> u64 \<Rightarrow> mm \<Rightarrow> nat \<times> mm" where
  "map_fresh 0 pml4 va flags m = (0, m)"
| "map_fresh (Suc n) pml4 va flags m =
     (case pmm_alloc_page m of
        (phys, m1) \<Rightarrow>
          if phys = 0 then (0, m1)
          else (case vmm_map_page pml4 va phys flags m1 of
                  (r, m2) \<Rightarrow>
                    if r \<noteq> 0 then (0, snd (pmm_free_page phys m2))
                    else (case map_fresh n pml4 (va + PAGE_SIZE) flags (m2\<lparr>phys_mem := write_bytes phys (replicate 4096 0) (phys_mem m2)\<rparr>) of
                            (k, m3) \<Rightarrow> (Suc k, m3))))"

text \<open>The loop of \<open>process_vm_map_fixed\<close>, which takes away what is mapped and does not clear the new page.\<close>

primrec map_over :: "nat \<Rightarrow> u64 \<Rightarrow> u64 \<Rightarrow> u64 \<Rightarrow> mm \<Rightarrow> nat \<times> mm" where
  "map_over 0 pml4 va flags m = (0, m)"
| "map_over (Suc n) pml4 va flags m =
     (let m0 = (if page_present pml4 va m then snd (vmm_unmap_page pml4 va True m) else m) in
      case pmm_alloc_page m0 of
        (phys, m1) \<Rightarrow>
          if phys = 0 then (0, m1)
          else (case vmm_map_page pml4 va phys flags m1 of
                  (r, m2) \<Rightarrow>
                    if r \<noteq> 0 then (0, snd (pmm_free_page phys m2))
                    else (case map_over n pml4 (va + PAGE_SIZE) flags m2 of (k, m3) \<Rightarrow> (Suc k, m3))))"

text \<open>The loop of \<open>process_vm_brk\<close>, which stops at a page that is mapped already.\<close>

primrec brk_grow :: "nat \<Rightarrow> u64 \<Rightarrow> u64 \<Rightarrow> mm \<Rightarrow> nat \<times> mm" where
  "brk_grow 0 pml4 va m = (0, m)"
| "brk_grow (Suc n) pml4 va m =
     (if page_present pml4 va m then (0, m)
      else case map_fresh 1 pml4 va (PTE_USER OR PTE_WRITABLE OR PTE_NO_EXECUTE) m of
        (k, m1) \<Rightarrow> if k = 0 then (0, m1) else (case brk_grow n pml4 (va + PAGE_SIZE) m1 of (j, m2) \<Rightarrow> (Suc j, m2)))"

subsection \<open>Mapping memory\<close>

definition free_region :: "process \<Rightarrow> nat option" where
  "free_region p = first_from (\<lambda>r. \<not> region_active (vm_regions p r)) 0 MAX_VM_REGIONS_PER_PROCESS"

definition new_region :: "u64 \<Rightarrow> u64 \<Rightarrow> u32 \<Rightarrow> bool \<Rightarrow> process_vm_region" where
  "new_region base sz protection owns =
     \<lparr>region_base = base, region_size = sz, region_protection = protection, owns_physical = owns, backing_kind = 0, backing_ptr = None, region_active = True\<rparr>"

definition process_vm_map :: "u64 \<Rightarrow> u32 \<Rightarrow> ('d, 'x) kernel_scheme \<Rightarrow> u64 \<times> ('d, 'x) kernel_scheme" where
  "process_vm_map sz protection s =
     (case active_slot (k_procs s) of
        None \<Rightarrow> (0, s)
      | Some i \<Rightarrow>
          if sz = 0 \<or> sz > PROCESS_VM_MAX_SIZE \<or> \<not> protection_ok protection then (0, s)
          else
            let p = the_process s i;
                pages = (sz + PAGE_SIZE - 1) div PAGE_SIZE;
                mapped_size = pages * PAGE_SIZE
            in if mapped_size < sz then (0, s)
               else (case free_region p of
                 None \<Rightarrow> (0, s)
               | Some r \<Rightarrow>
                   let base = find_base (pml4_phys p) (unat pages) mapped_size (round_up (vm_next_base p)) (m_mm s) in
                   if base \<ge> USER_VA_LIMIT \<or> mapped_size > USER_VA_LIMIT - base then (0, s)
                   else (case map_fresh (unat pages) (pml4_phys p) base (protection_flags protection) (m_mm s) of
                     (k, m) \<Rightarrow>
                       if k < unat pages then (0, s\<lparr>m_mm := unmap_run (pml4_phys p) base True [0..<k] m\<rparr>)
                       else (base, upd_process i (\<lambda>p. (upd_region r (\<lambda>_. new_region base mapped_size protection True) p)\<lparr>vm_next_base := base + mapped_size\<rparr>)
                                     (s\<lparr>m_mm := m\<rparr>)))))"

text \<open>The pages of a region, one after the other, until one cannot be unmapped.\<close>

primrec unmap_all :: "nat \<Rightarrow> u64 \<Rightarrow> u64 \<Rightarrow> bool \<Rightarrow> mm \<Rightarrow> bool \<times> mm" where
  "unmap_all 0 pml4 va owns m = (True, m)"
| "unmap_all (Suc n) pml4 va owns m =
     (case vmm_unmap_page pml4 va owns m of (r, m1) \<Rightarrow> if r \<noteq> 0 then (False, m1) else unmap_all n pml4 (va + PAGE_SIZE) owns m1)"

definition pages_of :: "u64 \<Rightarrow> nat" where
  "pages_of sz = unat ((sz + PAGE_SIZE - 1) div PAGE_SIZE)"

definition release_backing :: "process_vm_region \<Rightarrow> ('d, 'x) kernel_scheme \<Rightarrow> ('d, 'x) kernel_scheme" where
  "release_backing region s =
     (if backing_kind region = FD_KIND_MEMFD_NUMBER \<and> backing_ptr region \<noteq> None
      then (case unix_memfd_release (backing_ptr region) (k_unix s) (m_mm s) of (u, m) \<Rightarrow> s\<lparr>k_unix := u, m_mm := m\<rparr>) else s)"

definition process_vm_unmap :: "u64 \<Rightarrow> u64 \<Rightarrow> ('d, 'x) kernel_scheme \<Rightarrow> int \<times> ('d, 'x) kernel_scheme" where
  "process_vm_unmap address sz s =
     (case active_slot (k_procs s) of
        None \<Rightarrow> (- 1, s)
      | Some i \<Rightarrow>
          if address = 0 \<or> sz = 0 \<or> round_up sz < sz then (- 1, s)
          else
            let p = the_process s i in
            (case first_from (\<lambda>r. region_active (vm_regions p r) \<and> region_base (vm_regions p r) = address \<and> region_size (vm_regions p r) = round_up sz)
                    0 MAX_VM_REGIONS_PER_PROCESS of
               None \<Rightarrow> (- 1, s)
             | Some r \<Rightarrow>
                 let region = vm_regions p r in
                 (case unmap_all (pages_of (region_size region)) (pml4_phys p) (region_base region) (owns_physical region) (m_mm s) of
                    (ok, m) \<Rightarrow>
                      if \<not> ok then (- 1, s\<lparr>m_mm := m\<rparr>)
                      else (0, upd_process i (upd_region r (\<lambda>x. x\<lparr>region_active := False\<rparr>)) (release_backing region (s\<lparr>m_mm := m\<rparr>))))))"

definition overlapping_region :: "process \<Rightarrow> u64 \<Rightarrow> u64 \<Rightarrow> nat option" where
  "overlapping_region p address sz =
     first_from (\<lambda>r. let x = vm_regions p r in region_active x \<and> address < region_base x + region_size x \<and> region_base x < address + sz)
       0 MAX_VM_REGIONS_PER_PROCESS"

definition process_vm_map_fixed :: "u64 \<Rightarrow> u64 \<Rightarrow> u32 \<Rightarrow> ('d, 'x) kernel_scheme \<Rightarrow> u64 \<times> ('d, 'x) kernel_scheme" where
  "process_vm_map_fixed address sz protection s =
     (case active_slot (k_procs s) of
        None \<Rightarrow> (0, s)
      | Some i \<Rightarrow>
          let mapped_size = round_up sz; p = the_process s i in
          if address = 0 \<or> sz = 0 \<or> address AND (PAGE_SIZE - 1) \<noteq> 0 \<or> sz > PROCESS_VM_MAX_SIZE \<or> \<not> protection_ok protection then (0, s)
          else if mapped_size < sz \<or> address \<ge> USER_VA_LIMIT \<or> mapped_size > USER_VA_LIMIT - address then (0, s)
          else
            let (slot, s1) =
              (case overlapping_region p address mapped_size of
                 None \<Rightarrow> (free_region p, s)
               | Some r \<Rightarrow>
                   if region_base (vm_regions p r) \<noteq> address \<or> region_size (vm_regions p r) \<noteq> mapped_size then (None, s)
                   else case process_vm_unmap address mapped_size s of (c, s1) \<Rightarrow> (if c \<noteq> 0 then None else Some r, s1))
            in (case slot of
                  None \<Rightarrow> (0, s1)
                | Some r \<Rightarrow>
                    let n = unat (mapped_size div PAGE_SIZE) in
                    (case map_over n (pml4_phys p) address (protection_flags protection) (m_mm s1) of
                       (k, m) \<Rightarrow>
                         if k < n then (0, s1\<lparr>m_mm := unmap_run (pml4_phys p) address True [0..<k] m\<rparr>)
                         else (address, upd_process i (upd_region r (\<lambda>_. new_region address mapped_size protection True)) (s1\<lparr>m_mm := m\<rparr>)))))"

text \<open>The frames to map are the elements of an array from some position on; \<open>None\<close> stands for the null pointer.\<close>

definition process_vm_map_phys :: "u64 list option \<Rightarrow> u64 \<Rightarrow> u32 \<Rightarrow> ('d, 'x) kernel_scheme \<Rightarrow> u64 \<times> ('d, 'x) kernel_scheme" where
  "process_vm_map_phys frames num_pages protection s =
     (case (active_slot (k_procs s), frames) of
        (Some i, Some phys_pages) \<Rightarrow>
          if num_pages = 0 \<or> \<not> protection_ok protection \<or> num_pages > PROCESS_VM_MAX_SIZE div PAGE_SIZE then (0, s)
          else
            let p = the_process s i; mapped_size = num_pages * PAGE_SIZE in
            (case free_region p of
               None \<Rightarrow> (0, s)
             | Some r \<Rightarrow>
                 let base = find_base (pml4_phys p) (unat num_pages) mapped_size (round_up (vm_next_base p)) (m_mm s) in
                 if base \<ge> USER_VA_LIMIT \<or> mapped_size > USER_VA_LIMIT - base then (0, s)
                 else (case map_frames (pml4_phys p) base (take (unat num_pages) phys_pages) (protection_flags protection) (m_mm s) of
                   (k, m) \<Rightarrow>
                     if k < unat num_pages then (0, s\<lparr>m_mm := unmap_run (pml4_phys p) base False [0..<k] m\<rparr>)
                     else (base, upd_process i (\<lambda>p. (upd_region r (\<lambda>_. new_region base mapped_size protection False) p)\<lparr>vm_next_base := base + mapped_size\<rparr>)
                                   (s\<lparr>m_mm := m\<rparr>))))
      | _ \<Rightarrow> (0, s))"

definition process_vm_attach_backing :: "u64 \<Rightarrow> nat \<Rightarrow> nat option \<Rightarrow> ('d, 'x) kernel_scheme \<Rightarrow> int \<times> ('d, 'x) kernel_scheme" where
  "process_vm_attach_backing address bkind ptr s =
     (case active_slot (k_procs s) of
        None \<Rightarrow> (- 1, s)
      | Some i \<Rightarrow>
          if address = 0 \<or> ptr = None then (- 1, s)
          else
            let p = the_process s i in
            (case first_from (\<lambda>r. region_active (vm_regions p r) \<and> region_base (vm_regions p r) = address) 0 MAX_VM_REGIONS_PER_PROCESS of
               None \<Rightarrow> (- 1, s)
             | Some r \<Rightarrow> (0, upd_process i (upd_region r (\<lambda>x. x\<lparr>backing_kind := bkind, backing_ptr := ptr\<rparr>)) s)))"

primrec protect_all :: "nat \<Rightarrow> u64 \<Rightarrow> u64 \<Rightarrow> u64 \<Rightarrow> mm \<Rightarrow> bool \<times> mm" where
  "protect_all 0 pml4 va flags m = (True, m)"
| "protect_all (Suc n) pml4 va flags m =
     (case vmm_set_page_flags pml4 va flags m of (r, m1) \<Rightarrow> if r \<noteq> 0 then (False, m1) else protect_all n pml4 (va + PAGE_SIZE) flags m1)"

definition process_vm_protect :: "u64 \<Rightarrow> u64 \<Rightarrow> u32 \<Rightarrow> ('d, 'x) kernel_scheme \<Rightarrow> int \<times> ('d, 'x) kernel_scheme" where
  "process_vm_protect address sz protection s =
     (case active_slot (k_procs s) of
        None \<Rightarrow> (- 1, s)
      | Some i \<Rightarrow>
          let mapped_size = round_up sz; p = the_process s i; n = unat (mapped_size div PAGE_SIZE) in
          if address = 0 \<or> sz = 0 \<or> address AND (PAGE_SIZE - 1) \<noteq> 0 \<or> \<not> protection_ok protection then (- 1, s)
          else if mapped_size < sz \<or> address \<ge> USER_VA_LIMIT \<or> mapped_size > USER_VA_LIMIT - address then (- 1, s)
          else if \<exists>k < n. let page = address + word_of_nat k * PAGE_SIZE in
            \<not> (\<exists>r < MAX_VM_REGIONS_PER_PROCESS. let x = vm_regions p r in region_active x \<and> page \<ge> region_base x \<and> page < region_base x + region_size x) \<or>
            \<not> page_present (pml4_phys p) page (m_mm s)
          then (- 1, s)
          else (case protect_all n (pml4_phys p) address (protection_flags protection) (m_mm s) of (ok, m) \<Rightarrow> (if ok then 0 else - 1, s\<lparr>m_mm := m\<rparr>)))"

definition process_vm_brk :: "u64 \<Rightarrow> ('d, 'x) kernel_scheme \<Rightarrow> u64 \<times> ('d, 'x) kernel_scheme" where
  "process_vm_brk address s =
     (case active_slot (k_procs s) of
        None \<Rightarrow> (0, s)
      | Some i \<Rightarrow>
          let p = the_process s i; target = round_up address; old = heap_mapped_end p in
          if address = 0 then (heap_break p, s)
          else if address < heap_base p \<or> address > heap_base p + PROCESS_VM_MAX_SIZE \<or> target < address then (heap_break p, s)
          else if target > old then
            (case brk_grow (pages_of (target - old)) (pml4_phys p) old (m_mm s) of
               (k, m) \<Rightarrow>
                 if old + word_of_nat k * PAGE_SIZE \<noteq> target
                 then (heap_break p, s\<lparr>m_mm := unmap_run (pml4_phys p) old True (rev [0..<k]) m\<rparr>)
                 else (address, upd_process i (\<lambda>p. p\<lparr>heap_mapped_end := target, heap_break := address\<rparr>) (s\<lparr>m_mm := m\<rparr>)))
          else if target < old then
            (address, upd_process i (\<lambda>p. p\<lparr>heap_mapped_end := target, heap_break := address\<rparr>)
               (s\<lparr>m_mm := unmap_run (pml4_phys p) target True [0..<pages_of (old - target)] (m_mm s)\<rparr>))
          else (address, upd_process i (\<lambda>p. p\<lparr>heap_break := address\<rparr>) s))"

end
