(* ===== verification/Unix_Ipc.thy ===== *)
theory Unix_Ipc
  imports Process_Vm
begin

text \<open>
  The calls of \<open>kernel/unix_ipc.c\<close> that work on descriptors (memory files, connections, messages with descriptors, event counters, epoll), with
  \<open>evdev_open\<close> of \<open>kernel/evdev.c\<close> and the frame buffer device of \<open>kernel/drm_fb.c\<close>.
\<close>

abbreviation (input) SOCK_STREAM :: u32 where "SOCK_STREAM \<equiv> 1"
abbreviation (input) SOCK_DGRAM :: u32 where "SOCK_DGRAM \<equiv> 2"
abbreviation (input) SOL_SOCKET :: u64 where "SOL_SOCKET \<equiv> 1"
abbreviation (input) SCM_RIGHTS :: u64 where "SCM_RIGHTS \<equiv> 1"
abbreviation (input) MSGHDR_SIZE :: u64 where "MSGHDR_SIZE \<equiv> 56"
abbreviation (input) CMSGHDR_SIZE :: u64 where "CMSGHDR_SIZE \<equiv> 16"
abbreviation (input) IOVEC_SIZE :: u64 where "IOVEC_SIZE \<equiv> 16"
abbreviation (input) EPOLL_CTL_ADD :: int where "EPOLL_CTL_ADD \<equiv> 1"
abbreviation (input) EPOLL_CTL_DEL :: int where "EPOLL_CTL_DEL \<equiv> 2"
abbreviation (input) EPOLL_CTL_MOD :: int where "EPOLL_CTL_MOD \<equiv> 3"
abbreviation (input) EPOLLIN :: u32 where "EPOLLIN \<equiv> 1"
abbreviation (input) EPOLLPRI :: u32 where "EPOLLPRI \<equiv> 2"
abbreviation (input) EPOLLOUT :: u32 where "EPOLLOUT \<equiv> 4"
abbreviation (input) EPOLLHUP :: u32 where "EPOLLHUP \<equiv> 16"

text \<open>The object of the given kind behind a descriptor.\<close>

definition object_of :: "fd_kind \<Rightarrow> int \<Rightarrow> int \<Rightarrow> ('d, 'x) fds_scheme \<Rightarrow> nat option" where
  "object_of k pid fd s = (case fd_get_custom pid fd s of (ptr, kd) \<Rightarrow> if kd = Some k then ptr else None)"

definition upd_unix :: "(unix_objs \<Rightarrow> unix_objs) \<Rightarrow> ('d, 'x) fds_scheme \<Rightarrow> ('d, 'x) fds_scheme" where
  "upd_unix f s = s\<lparr>k_unix := f (k_unix s)\<rparr>"

subsection \<open>Memory files\<close>

definition unix_memfd_create :: "int \<Rightarrow> string option \<Rightarrow> u32 \<Rightarrow> ('d, 'x) fds_scheme \<Rightarrow> int \<times> ('d, 'x) fds_scheme" where
  "unix_memfd_create pid name flags s =
     (case alloc_memfd (k_unix s) of
        (None, _) \<Rightarrow> (- 1, s)
      | (Some i, u) \<Rightarrow>
          let u1 = upd_memfd i (\<lambda>f. f\<lparr>mf_flags := flags, mf_name := (case name of None \<Rightarrow> '''' | Some n \<Rightarrow> take 63 n)\<rparr>) u in
          (case fd_create_custom pid FD_KIND_MEMFD (Some i) (FD_OPEN_READ OR FD_OPEN_WRITE) (s\<lparr>k_unix := u1\<rparr>) of
             (fd, s1) \<Rightarrow>
               if fd < 0 then (- 1, upd_unix (upd_memfd i (\<lambda>f. f\<lparr>mf_in_use := False, mf_refcount := 0\<rparr>)) s1) else (fd, s1)))"

definition unix_memfd_ftruncate :: "int \<Rightarrow> int \<Rightarrow> u64 \<Rightarrow> ('d, 'x) fds_scheme \<Rightarrow> int \<times> ('d, 'x) fds_scheme" where
  "unix_memfd_ftruncate pid fd len s =
     (case object_of FD_KIND_MEMFD pid fd s of
        None \<Rightarrow> (- 1, s)
      | Some i \<Rightarrow>
          (case memfd_truncate len (g_memfds (k_unix s) i) (m_mm s) of
             (r, f, m) \<Rightarrow> (r, s\<lparr>k_unix := upd_memfd i (\<lambda>_. f) (k_unix s), m_mm := m\<rparr>)))"

text \<open>
  The \<open>n\<close> frames from position \<open>start\<close> of the array \<open>phys_pages\<close> on, as far as the array goes; entries without page are 0. \<open>None\<close> when
  \<open>start\<close> is no position of the array.
\<close>

definition memfd_frames :: "memfd_object \<Rightarrow> u64 \<Rightarrow> u64 \<Rightarrow> u64 list option" where
  "memfd_frames f start n =
     (if start > MEMFD_MAX_PAGES then None
      else Some (map (\<lambda>i. if i < length (mf_pages f) then mf_pages f ! i else 0) [unat start..<min (unat MEMFD_MAX_PAGES) (unat start + unat n)]))"

text \<open>The result \<open>None\<close> stands for the pointer beyond the array that an offset near \<open>2\<^sup>6\<^sup>4\<close> leads to.\<close>

definition unix_memfd_mmap :: "int \<Rightarrow> int \<Rightarrow> u64 \<Rightarrow> u32 \<Rightarrow> u64 \<Rightarrow> ('d, 'x) kernel_scheme \<Rightarrow> u64 option \<times> ('d, 'x) kernel_scheme" where
  "unix_memfd_mmap pid fd len prot offset s =
     (case object_of FD_KIND_MEMFD pid fd s of
        None \<Rightarrow> (Some 0, s)
      | Some i \<Rightarrow>
          let start = offset div PAGE_SIZE; n = needed_pages len;
              (r, s1) = (if start + n > word_of_nat (length (mf_pages (g_memfds (k_unix s) i)))
                         then unix_memfd_ftruncate pid fd ((start + n) * PAGE_SIZE) s else (0, s))
          in if r \<noteq> 0 then (Some 0, s1)
             else (case memfd_frames (g_memfds (k_unix s1) i) start n of
               None \<Rightarrow> (None, s1)
             | Some frames \<Rightarrow>
                 (case process_vm_map_phys (Some frames) n prot s1 of
                    (base, s2) \<Rightarrow>
                      if base = 0 then (Some 0, s2)
                      else (case process_vm_attach_backing base FD_KIND_MEMFD_NUMBER (Some i) (upd_unix (unix_memfd_retain (Some i)) s2) of
                        (a, s3) \<Rightarrow>
                          if a \<noteq> 0 then (Some 0, snd (process_vm_unmap base (n * PAGE_SIZE) (release_memfd (Some i) s3)))
                          else (Some base, s3)))))"

subsection \<open>Connections\<close>

abbreviation (input) sock :: "('d, 'x) fds_scheme \<Rightarrow> nat \<Rightarrow> unix_socket" where
  "sock s i \<equiv> g_unix_sockets (k_unix s) i"

definition unix_socket_create :: "int \<Rightarrow> u32 \<Rightarrow> ('d, 'x) fds_scheme \<Rightarrow> int \<times> ('d, 'x) fds_scheme" where
  "unix_socket_create pid type s =
     (let clean_type = type AND 0xFF in
      if clean_type \<noteq> SOCK_STREAM \<and> clean_type \<noteq> SOCK_DGRAM then (- 1, s)
      else case alloc_unix_socket pid (k_unix s) of
        (None, _) \<Rightarrow> (- 1, s)
      | (Some i, u) \<Rightarrow>
          (case fd_create_custom pid FD_KIND_UNIX_SOCKET (Some i) (FD_OPEN_READ OR FD_OPEN_WRITE) (s\<lparr>k_unix := u\<rparr>) of
             (fd, s1) \<Rightarrow>
               if fd < 0 then (- 1, upd_unix (upd_socket i (\<lambda>k. k\<lparr>us_in_use := False, us_refcount := 0\<rparr>)) s1) else (fd, s1)))"

definition unix_socket_bind :: "int \<Rightarrow> int \<Rightarrow> string \<Rightarrow> ('d, 'x) fds_scheme \<Rightarrow> int \<times> ('d, 'x) fds_scheme" where
  "unix_socket_bind pid fd path s =
     (case object_of FD_KIND_UNIX_SOCKET pid fd s of
        None \<Rightarrow> (- 1, s)
      | Some i \<Rightarrow> if path = '''' then (- 1, s) else (0, upd_unix (upd_socket i (\<lambda>k. k\<lparr>us_path := take 107 path\<rparr>)) s))"

definition unix_socket_listen :: "int \<Rightarrow> int \<Rightarrow> ('d, 'x) fds_scheme \<Rightarrow> int \<times> ('d, 'x) fds_scheme" where
  "unix_socket_listen pid fd s =
     (case object_of FD_KIND_UNIX_SOCKET pid fd s of
        None \<Rightarrow> (- 1, s)
      | Some i \<Rightarrow> (0, upd_unix (upd_socket i (\<lambda>k. k\<lparr>us_state := UNIX_STATE_LISTENING\<rparr>)) s))"

definition listener_for :: "string \<Rightarrow> unix_objs \<Rightarrow> nat option" where
  "listener_for path u =
     first_from (\<lambda>i. us_in_use (g_unix_sockets u i) \<and> us_state (g_unix_sockets u i) = UNIX_STATE_LISTENING \<and> us_path (g_unix_sockets u i) = path)
       0 MAX_UNIX_SOCKETS"

text \<open>Two sockets become the ends of one connection.\<close>

definition connect_pair :: "nat \<Rightarrow> nat \<Rightarrow> unix_objs \<Rightarrow> unix_objs" where
  "connect_pair a b u =
     upd_socket b (\<lambda>k. k\<lparr>us_state := UNIX_STATE_CONNECTED\<rparr>) (upd_socket a (\<lambda>k. k\<lparr>us_state := UNIX_STATE_CONNECTED\<rparr>)
       (upd_socket b (\<lambda>k. k\<lparr>us_peer := Some a\<rparr>) (upd_socket a (\<lambda>k. k\<lparr>us_peer := Some b\<rparr>) u)))"

definition unix_socket_connect :: "int \<Rightarrow> int \<Rightarrow> string \<Rightarrow> ('d, 'x) fds_scheme \<Rightarrow> int \<times> ('d, 'x) fds_scheme" where
  "unix_socket_connect pid fd path s =
     (case object_of FD_KIND_UNIX_SOCKET pid fd s of
        None \<Rightarrow> (- 1, s)
      | Some client \<Rightarrow>
          (case listener_for path (k_unix s) of
             None \<Rightarrow> (- 1, s)
           | Some l \<Rightarrow>
               if length (us_backlog (sock s l)) \<ge> UNIX_BACKLOG then (- 1, s)
               else (case alloc_unix_socket (us_owner_pid (sock s l)) (k_unix s) of
                 (None, _) \<Rightarrow> (- 1, s)
               | (Some p, u) \<Rightarrow> (0, s\<lparr>k_unix := upd_socket l (\<lambda>k. k\<lparr>us_backlog := us_backlog k @ [p]\<rparr>) (connect_pair client p u)\<rparr>))))"

text \<open>The second component is whether the caller is asked to yield.\<close>

definition unix_socket_accept :: "int \<Rightarrow> int \<Rightarrow> bool \<Rightarrow> ('d, 'x) fds_scheme \<Rightarrow> int \<times> bool \<times> ('d, 'x) fds_scheme" where
  "unix_socket_accept pid fd nonblock s =
     (case object_of FD_KIND_UNIX_SOCKET pid fd s of
        None \<Rightarrow> (- 1, False, s)
      | Some l \<Rightarrow>
          if us_state (sock s l) \<noteq> UNIX_STATE_LISTENING then (- 1, False, s)
          else (case us_backlog (sock s l) of
            [] \<Rightarrow> (- 1, \<not> nonblock, s)
          | p # rest \<Rightarrow>
              (case fd_create_custom pid FD_KIND_UNIX_SOCKET (Some p) (FD_OPEN_READ OR FD_OPEN_WRITE)
                      (upd_unix (upd_socket l (\<lambda>k. k\<lparr>us_backlog := rest\<rparr>)) s) of
                 (r, s1) \<Rightarrow> (r, False, s1))))"

definition unix_socket_pair :: "int \<Rightarrow> ('d, 'x) fds_scheme \<Rightarrow> int \<times> (int \<times> int) option \<times> ('d, 'x) fds_scheme" where
  "unix_socket_pair pid s =
     (case alloc_unix_socket pid (k_unix s) of
        (None, _) \<Rightarrow> (- 1, None, s)
      | (Some a, u) \<Rightarrow>
          (case alloc_unix_socket pid u of
             (None, _) \<Rightarrow> (- 1, None, s\<lparr>k_unix := unix_socket_release (Some a) u\<rparr>)
           | (Some b, u1) \<Rightarrow>
               let (f0, s1) = fd_create_custom pid FD_KIND_UNIX_SOCKET (Some a) (FD_OPEN_READ OR FD_OPEN_WRITE) (s\<lparr>k_unix := connect_pair a b u1\<rparr>);
                   (f1, s2) = fd_create_custom pid FD_KIND_UNIX_SOCKET (Some b) (FD_OPEN_READ OR FD_OPEN_WRITE) s1
               in if f0 < 0 \<or> f1 < 0
                  then (- 1, Some (f0, f1), upd_unix (unix_socket_release (Some b) \<circ> unix_socket_release (Some a)) s2)
                  else (0, Some (f0, f1), s2)))"

definition unix_socket_get_peercred :: "int \<Rightarrow> int \<Rightarrow> ('d, 'x) kernel_scheme \<Rightarrow> (int \<times> u32 \<times> u32) option" where
  "unix_socket_get_peercred pid fd s =
     (case object_of FD_KIND_UNIX_SOCKET pid fd s of
        None \<Rightarrow> None
      | Some i \<Rightarrow>
          (case us_peer (sock s i) of
             None \<Rightarrow> None
           | Some p \<Rightarrow>
               if us_state (sock s i) \<noteq> UNIX_STATE_CONNECTED \<or> \<not> us_in_use (sock s p) then None
               else map_option (\<lambda>c. (us_owner_pid (sock s p), uid c, gid c)) (process_get_credentials (k_procs s) (us_owner_pid (sock s p)))))"

subsection \<open>Messages with descriptors\<close>

record u_msghdr =
  mh_iov :: u64
  mh_iovlen :: u64
  mh_control :: u64
  mh_controllen :: u64

definition msghdr_of :: "u8 list \<Rightarrow> u_msghdr" where
  "msghdr_of bs = \<lparr>mh_iov = field bs 16 8, mh_iovlen = field bs 24 8, mh_control = field bs 32 8, mh_controllen = field bs 40 8\<rparr>"

text \<open>The descriptors named in the control data of a message, for a header that passes them and names at most eight.\<close>

definition passed_fds :: "u_msghdr \<Rightarrow> mm \<Rightarrow> int list" where
  "passed_fds msg m =
     (if mh_control msg = 0 \<or> mh_controllen msg < CMSGHDR_SIZE then []
      else case copy_from_user (mh_control msg) CMSGHDR_SIZE m of
        None \<Rightarrow> []
      | Some c \<Rightarrow>
          if field c 8 4 \<noteq> SOL_SOCKET \<or> field c 12 4 \<noteq> SCM_RIGHTS then []
          else
            let data_len = (if field c 0 8 > CMSGHDR_SIZE then field c 0 8 - CMSGHDR_SIZE else 0);
                num_fds = sint (ucast (data_len div 4) :: u32)
            in if num_fds > 0 \<and> num_fds \<le> 8
               then (case copy_from_user (mh_control msg + CMSGHDR_SIZE) (word_of_int (num_fds * 4)) m of
                       None \<Rightarrow> []
                     | Some d \<Rightarrow> map (\<lambda>k. sint (ucast (field d (4 * k) 4) :: u32)) [0..<nat num_fds])
               else [])"

definition queue_fd :: "int \<Rightarrow> nat \<Rightarrow> int \<Rightarrow> ('d, 'x) fds_scheme \<Rightarrow> ('d, 'x) fds_scheme" where
  "queue_fd pid peer fd s =
     (let file_id = fd_get_file_id pid fd s in
      if file_id \<noteq> 0xFFFF \<and> length (us_queued (sock s peer)) < MAX_QUEUED_FDS
      then upd_unix (upd_socket peer (\<lambda>k. k\<lparr>us_queued := us_queued k @ [file_id]\<rparr>)) s else s)"

text \<open>
  The inner loop of a send, over one piece of user memory in blocks of 512 bytes. A value \<open>Inl\<close> is returned from the call at once; \<open>Inr\<close> is the
  number of bytes sent so far.
\<close>

function send_piece :: "nat \<Rightarrow> u64 \<Rightarrow> nat \<Rightarrow> int \<Rightarrow> ('d, 'x) fds_scheme \<Rightarrow> (int + int) \<times> ('d, 'x) fds_scheme" where
  "send_piece i address left sofar s =
     (if left = 0 then (Inr sofar, s)
      else case copy_from_user address (word_of_nat (min left 512)) (m_mm s) of
        None \<Rightarrow> (Inl (if sofar > 0 then sofar else - 14), s)
      | Some kbuf \<Rightarrow>
          (case unix_socket_send_stream (Some i) kbuf (k_unix s) of
             (sent, u) \<Rightarrow>
               if sent \<le> 0 then (Inl (if sofar > 0 then sofar else sent), s\<lparr>k_unix := u\<rparr>)
               else send_piece i (address + word_of_int sent) (left - nat sent) (sofar + sent) (s\<lparr>k_unix := u\<rparr>)))"
  by auto
termination
  by (relation "measure (\<lambda>(_, _, left, _, _). left)") auto

declare send_piece.simps [simp del]

text \<open>The loop over the pieces; a piece that cannot be read ends it, an empty one is left out.\<close>

fun send_pieces :: "nat \<Rightarrow> u64 \<Rightarrow> nat list \<Rightarrow> int \<Rightarrow> ('d, 'x) fds_scheme \<Rightarrow> int \<times> ('d, 'x) fds_scheme" where
  "send_pieces i iov [] sofar s = (sofar, s)"
| "send_pieces i iov (k # ks) sofar s =
     (case copy_from_user (iov + word_of_nat k * IOVEC_SIZE) IOVEC_SIZE (m_mm s) of
        None \<Rightarrow> (sofar, s)
      | Some v \<Rightarrow>
          if field v 0 8 = 0 \<or> field v 8 8 = 0 then send_pieces i iov ks sofar s
          else (case send_piece i (field v 0 8) (unat (field v 8 8)) sofar s of
            (Inl r, s1) \<Rightarrow> (r, s1)
          | (Inr t, s1) \<Rightarrow> send_pieces i iov ks t s1))"

definition unix_socket_sendmsg :: "int \<Rightarrow> int \<Rightarrow> u64 \<Rightarrow> ('d, 'x) fds_scheme \<Rightarrow> int \<times> ('d, 'x) fds_scheme" where
  "unix_socket_sendmsg pid fd msghdr_ptr s =
     (case object_of FD_KIND_UNIX_SOCKET pid fd s of
        None \<Rightarrow> (- 1, s)
      | Some i \<Rightarrow>
          if msghdr_ptr = 0 then (- 1, s)
          else (case us_peer (sock s i) of
            None \<Rightarrow> (- 1, s)
          | Some p \<Rightarrow>
              if us_state (sock s i) \<noteq> UNIX_STATE_CONNECTED then (- 1, s)
              else (case copy_from_user msghdr_ptr MSGHDR_SIZE (m_mm s) of
                None \<Rightarrow> (- 14, s)
              | Some bs \<Rightarrow>
                  let msg = msghdr_of bs; s1 = fold (queue_fd pid p) (passed_fds msg (m_mm s)) s
                  in send_pieces i (mh_iov msg) [0..<min 16 (unat (mh_iovlen msg))] 0 s1)))"

text \<open>The loop that turns queued files into descriptors, at most eight: the descriptors, what is left in the queue, and the state.\<close>

fun deliver_fds :: "int \<Rightarrow> u16 list \<Rightarrow> nat \<Rightarrow> ('d, 'x) fds_scheme \<Rightarrow> int list \<times> u16 list \<times> ('d, 'x) fds_scheme" where
  "deliver_fds pid [] n s = ([], [], s)"
| "deliver_fds pid (fid # q) n s =
     (if n \<ge> 8 then ([], fid # q, s)
      else case fd_bind_file_id pid fid s of
        (fd, s1) \<Rightarrow>
          if fd \<ge> 0 then (case deliver_fds pid q (Suc n) s1 of (fds, rest, s2) \<Rightarrow> (fd # fds, rest, s2))
          else deliver_fds pid q n s1)"

definition user_store :: "u64 \<Rightarrow> u8 list \<Rightarrow> ('d, 'x) fds_scheme \<Rightarrow> ('d, 'x) fds_scheme" where
  "user_store address bs s = s\<lparr>m_mm := snd (copy_to_user address bs (m_mm s))\<rparr>"

text \<open>The control data of a received message; the new length of it is the first component.\<close>

definition receive_rights :: "int \<Rightarrow> nat \<Rightarrow> u_msghdr \<Rightarrow> ('d, 'x) fds_scheme \<Rightarrow> u64 \<times> ('d, 'x) fds_scheme" where
  "receive_rights pid i msg s =
     (if mh_control msg = 0 \<or> mh_controllen msg < CMSGHDR_SIZE + 4 \<or> us_queued (sock s i) = [] then (0, s)
      else case deliver_fds pid (us_queued (sock s i)) 0 s of
        (fds, rest, s1) \<Rightarrow>
          let s2 = upd_unix (upd_socket i (\<lambda>k. k\<lparr>us_queued := rest\<rparr>)) s1; len = CMSGHDR_SIZE + word_of_nat (length fds) * 4 in
          if fds = [] then (0, s2)
          else (len, user_store (mh_control msg + CMSGHDR_SIZE) (concat (map (\<lambda>fd. le_bytes 4 (word_of_int fd)) fds))
                       (user_store (mh_control msg) (le_bytes 8 len @ le_bytes 4 SOL_SOCKET @ le_bytes 4 SCM_RIGHTS) s2)))"

function recv_piece :: "nat \<Rightarrow> u64 \<Rightarrow> nat \<Rightarrow> int \<Rightarrow> ('d, 'x) fds_scheme \<Rightarrow> (int + int) \<times> ('d, 'x) fds_scheme" where
  "recv_piece i address left sofar s =
     (if left = 0 then (Inr sofar, s)
      else case unix_socket_recv_stream (Some i) (word_of_nat (min left 512)) (k_unix s) of
        (r, kbuf, u) \<Rightarrow>
          if r \<le> 0 then (Inl (if sofar > 0 then sofar else r), s\<lparr>k_unix := u\<rparr>)
          else (case copy_to_user address kbuf (m_mm s) of
            (c, m) \<Rightarrow>
              let s1 = s\<lparr>k_unix := u, m_mm := m\<rparr> in
              if c \<noteq> 0 then (Inl (if sofar > 0 then sofar else - 14), s1)
              else if nat r < min left 512 then (Inr (sofar + r), s1)
              else recv_piece i (address + word_of_int r) (left - nat r) (sofar + r) s1))"
  by auto
termination
  by (relation "measure (\<lambda>(_, _, left, _, _). left)") auto

declare recv_piece.simps [simp del]

fun recv_pieces :: "nat \<Rightarrow> u64 \<Rightarrow> nat list \<Rightarrow> int \<Rightarrow> ('d, 'x) fds_scheme \<Rightarrow> int \<times> ('d, 'x) fds_scheme" where
  "recv_pieces i iov [] sofar s = (sofar, s)"
| "recv_pieces i iov (k # ks) sofar s =
     (case copy_from_user (iov + word_of_nat k * IOVEC_SIZE) IOVEC_SIZE (m_mm s) of
        None \<Rightarrow> (sofar, s)
      | Some v \<Rightarrow>
          if field v 0 8 = 0 \<or> field v 8 8 = 0 then recv_pieces i iov ks sofar s
          else (case recv_piece i (field v 0 8) (unat (field v 8 8)) sofar s of
            (Inl r, s1) \<Rightarrow> (r, s1)
          | (Inr t, s1) \<Rightarrow> recv_pieces i iov ks t s1))"

definition unix_socket_recvmsg :: "int \<Rightarrow> int \<Rightarrow> u64 \<Rightarrow> ('d, 'x) fds_scheme \<Rightarrow> int \<times> ('d, 'x) fds_scheme" where
  "unix_socket_recvmsg pid fd msghdr_ptr s =
     (case object_of FD_KIND_UNIX_SOCKET pid fd s of
        None \<Rightarrow> (- 1, s)
      | Some i \<Rightarrow>
          if msghdr_ptr = 0 then (- 1, s)
          else (case copy_from_user msghdr_ptr MSGHDR_SIZE (m_mm s) of
            None \<Rightarrow> (- 14, s)
          | Some bs \<Rightarrow>
              let msg = msghdr_of bs;
                  (len, s1) = receive_rights pid i msg s;
                  s2 = (if mh_control msg \<noteq> 0 then user_store msghdr_ptr (take 40 bs @ le_bytes 8 len @ drop 48 bs) s1 else s1)
              in recv_pieces i (mh_iov msg) [0..<min 16 (unat (mh_iovlen msg))] 0 s2))"

subsection \<open>Event counters and epoll\<close>

definition unix_eventfd_create :: "int \<Rightarrow> u32 \<Rightarrow> u32 \<Rightarrow> ('d, 'x) fds_scheme \<Rightarrow> int \<times> ('d, 'x) fds_scheme" where
  "unix_eventfd_create pid initial_value flags s =
     (if flags AND NOT (1 OR 0x800 OR 0x80000) \<noteq> 0 then (- 1, s)
      else case first_from (\<lambda>i. \<not> ev_in_use (g_eventfds (k_unix s) i)) 0 MAX_EVENTFDS of
        None \<Rightarrow> (- 1, s)
      | Some i \<Rightarrow>
          (case fd_create_custom pid FD_KIND_EVENTFD (Some i) (FD_OPEN_READ OR FD_OPEN_WRITE)
                  (upd_unix (upd_eventfd i (\<lambda>_. \<lparr>ev_in_use = True, ev_semaphore = (flags AND 1 \<noteq> 0), ev_counter = ucast initial_value\<rparr>)) s) of
             (fd, s1) \<Rightarrow> if fd \<ge> 0 then (fd, s1) else (- 1, upd_unix (upd_eventfd i (\<lambda>e. e\<lparr>ev_in_use := False\<rparr>)) s1)))"

definition unix_epoll_create :: "int \<Rightarrow> ('d, 'x) fds_scheme \<Rightarrow> int \<times> ('d, 'x) fds_scheme" where
  "unix_epoll_create pid s =
     (case first_from (\<lambda>i. \<not> ep_in_use (g_epolls (k_unix s) i) \<and> ep_refcount (g_epolls (k_unix s) i) = 0) 0 MAX_EPOLLS of
        None \<Rightarrow> (- 1, s)
      | Some i \<Rightarrow>
          fd_create_custom pid FD_KIND_EPOLL (Some i) 0
            (upd_unix (upd_epoll i (\<lambda>e. e\<lparr>ep_in_use := True, ep_refcount := 1, ep_owner_pid := pid, ep_count := 0,
               ep_items := (\<lambda>k. if k < MAX_EPOLL_ITEMS then (ep_items e k)\<lparr>it_active := False\<rparr> else ep_items e k)\<rparr>)) s))"

definition item_for :: "int \<Rightarrow> epoll_instance \<Rightarrow> nat option" where
  "item_for fd e = first_from (\<lambda>k. it_active (ep_items e k) \<and> it_fd (ep_items e k) = fd) 0 MAX_EPOLL_ITEMS"

definition upd_item :: "nat \<Rightarrow> (epoll_item \<Rightarrow> epoll_item) \<Rightarrow> epoll_instance \<Rightarrow> epoll_instance" where
  "upd_item k f e = e\<lparr>ep_items := (ep_items e)(k := f (ep_items e k))\<rparr>"

text \<open>What the three operations do to an instance; \<open>None\<close> when they fail.\<close>

definition epoll_change :: "int \<Rightarrow> int \<Rightarrow> u32 \<Rightarrow> u64 \<Rightarrow> epoll_instance \<Rightarrow> epoll_instance option" where
  "epoll_change op target_fd events data e =
     (if op = EPOLL_CTL_ADD
      then (case (item_for target_fd e, first_from (\<lambda>k. \<not> it_active (ep_items e k)) 0 MAX_EPOLL_ITEMS) of
              (None, Some k) \<Rightarrow>
                Some ((upd_item k (\<lambda>_. \<lparr>it_fd = target_fd, it_events = events, it_data = data, it_active = True\<rparr>) e)\<lparr>ep_count := ep_count e + 1\<rparr>)
            | _ \<Rightarrow> None)
      else if op = EPOLL_CTL_MOD then map_option (\<lambda>k. upd_item k (\<lambda>t. t\<lparr>it_events := events, it_data := data\<rparr>) e) (item_for target_fd e)
      else if op = EPOLL_CTL_DEL
      then map_option (\<lambda>k. (upd_item k (\<lambda>t. t\<lparr>it_active := False\<rparr>) e)\<lparr>ep_count := ep_count e - 1\<rparr>) (item_for target_fd e)
      else None)"

definition unix_epoll_ctl :: "int \<Rightarrow> int \<Rightarrow> int \<Rightarrow> int \<Rightarrow> u64 \<Rightarrow> ('d, 'x) fds_scheme \<Rightarrow> int \<times> ('d, 'x) fds_scheme" where
  "unix_epoll_ctl pid epfd op target_fd event_ptr s =
     (case object_of FD_KIND_EPOLL pid epfd s of
        None \<Rightarrow> (- 1, s)
      | Some i \<Rightarrow>
          (case (if op = EPOLL_CTL_DEL then Some (replicate 12 0) else if event_ptr = 0 then None else copy_from_user event_ptr 12 (m_mm s)) of
             None \<Rightarrow> (- 1, s)
           | Some ev \<Rightarrow>
               (case epoll_change op target_fd (ucast (field ev 0 4)) (field ev 4 8) (g_epolls (k_unix s) i) of
                  None \<Rightarrow> (- 1, s)
                | Some e \<Rightarrow> (0, upd_unix (upd_epoll i (\<lambda>_. e)) s))))"

definition requested_events :: "u32 \<Rightarrow> u32" where
  "requested_events ev =
     (if ev AND (EPOLLIN OR EPOLLPRI) \<noteq> 0 then FD_POLL_READ else 0) OR (if ev AND EPOLLOUT \<noteq> 0 then FD_POLL_WRITE else 0) OR FD_POLL_HANGUP"

definition returned_events :: "u32 \<Rightarrow> u32" where
  "returned_events r =
     (if r AND FD_POLL_READ \<noteq> 0 then EPOLLIN else 0) OR (if r AND FD_POLL_WRITE \<noteq> 0 then EPOLLOUT else 0) OR
     (if r AND FD_POLL_HANGUP \<noteq> 0 then EPOLLHUP else 0)"

text \<open>The events of the items that are ready, in table order, at most \<open>room\<close>.\<close>

fun epoll_scan :: "'d drivers \<Rightarrow> int \<Rightarrow> nat \<Rightarrow> nat list \<Rightarrow> nat \<Rightarrow> ('d, 'x, (u32 \<times> u64) list) dio" where
  "epoll_scan drv pid i [] room = State_Monad.return []"
| "epoll_scan drv pid i (k # ks) room =
     (if room = 0 then State_Monad.return []
      else do {
        s \<leftarrow> State_Monad.get;
        let item = ep_items (g_epolls (k_unix s) i) k;
        if \<not> it_active item then epoll_scan drv pid i ks room
        else do {
          r \<leftarrow> fd_poll drv pid (it_fd item) (requested_events (it_events item));
          if r > 0 then do {
            rest \<leftarrow> epoll_scan drv pid i ks (room - 1);
            State_Monad.return ((returned_events (word_of_int r), it_data item) # rest)
          }
          else epoll_scan drv pid i ks room
        }
      })"

definition epoll_event_bytes :: "u32 \<times> u64 \<Rightarrow> u8 list" where
  "epoll_event_bytes ev = le_bytes 4 (ucast (fst ev)) @ le_bytes 8 (snd ev)"

text \<open>The result, and whether the caller is asked to yield.\<close>

definition unix_epoll_wait :: "'d drivers \<Rightarrow> int \<Rightarrow> int \<Rightarrow> u64 \<Rightarrow> int \<Rightarrow> int \<Rightarrow> ('d, 'x, int \<times> bool) dio" where
  "unix_epoll_wait drv pid epfd events_ptr maxevents timeout_ms = do {
     s \<leftarrow> State_Monad.get;
     case object_of FD_KIND_EPOLL pid epfd s of
       None \<Rightarrow> State_Monad.return (- 1, False)
     | Some i \<Rightarrow>
         if events_ptr = 0 \<or> maxevents \<le> 0 then State_Monad.return (- 1, False)
         else do {
           ready \<leftarrow> epoll_scan drv pid i [0..<MAX_EPOLL_ITEMS] (min (nat maxevents) 16);
           if ready \<noteq> [] then do {
             c \<leftarrow> State (\<lambda>s. case copy_to_user events_ptr (concat (map epoll_event_bytes ready)) (m_mm s) of (c, m) \<Rightarrow> (c, s\<lparr>m_mm := m\<rparr>));
             State_Monad.return (if c \<noteq> 0 then - 14 else int (length ready), False)
           }
           else State_Monad.return (if timeout_ms = 0 then (0, False) else (- 4, True))
         }
   }"

subsection \<open>Event devices and the frame buffer\<close>

definition evdev_open :: "int \<Rightarrow> int \<Rightarrow> int \<Rightarrow> int \<Rightarrow> ('d, 'x) fds_scheme \<Rightarrow> int \<times> ('d, 'x) fds_scheme" where
  "evdev_open pid dev_id mouse_x mouse_y s =
     (case evdev_alloc dev_id pid mouse_x mouse_y (k_evdev s) of
        (None, _) \<Rightarrow> (- 1, s)
      | (Some i, e) \<Rightarrow> fd_create_custom pid FD_KIND_EVDEV (Some i) FD_OPEN_READ (s\<lparr>k_evdev := e\<rparr>))"

text \<open>The frame buffer as the boot loader reports it, with the address in physical memory and the offset at which all of it is mapped.\<close>

record screen =
  g_fb_vram :: u64
  g_screen_w :: u32
  g_screen_h :: u32
  g_screen_pitch :: u32
  sc_hhdm_offset :: u64

abbreviation (input) FBIOGET_VSCREENINFO :: u64 where "FBIOGET_VSCREENINFO \<equiv> 0x4600"
abbreviation (input) FBIOGET_FSCREENINFO :: u64 where "FBIOGET_FSCREENINFO \<equiv> 0x4602"
abbreviation (input) FBIOBLANK :: u64 where "FBIOBLANK \<equiv> 0x4611"
abbreviation (input) DRM_IOCTL_VERSION :: u64 where "DRM_IOCTL_VERSION \<equiv> 0xc0406400"
abbreviation (input) DRM_IOCTL_GET_CAP :: u64 where "DRM_IOCTL_GET_CAP \<equiv> 0xc010640c"
abbreviation (input) MAX_FB_PAGES :: u64 where "MAX_FB_PAGES \<equiv> 2048"

text \<open>The two static devices are numbered 0 and 1.\<close>

definition drm_fb_open_fb0 :: "int \<Rightarrow> ('d, 'x) fds_scheme \<Rightarrow> int \<times> ('d, 'x) fds_scheme" where
  "drm_fb_open_fb0 pid = fd_create_custom pid FD_KIND_DRM_FB (Some 0) (FD_OPEN_READ OR FD_OPEN_WRITE)"

definition drm_fb_open_card0 :: "int \<Rightarrow> ('d, 'x) fds_scheme \<Rightarrow> int \<times> ('d, 'x) fds_scheme" where
  "drm_fb_open_card0 pid = fd_create_custom pid FD_KIND_DRM_FB (Some 1) (FD_OPEN_READ OR FD_OPEN_WRITE)"

definition fb_phys :: "screen \<Rightarrow> u64" where
  "fb_phys sc = (if g_fb_vram sc \<ge> sc_hhdm_offset sc then g_fb_vram sc - sc_hhdm_offset sc else g_fb_vram sc)"

definition fb_var_screeninfo :: "screen \<Rightarrow> u8 list" where
  "fb_var_screeninfo sc =
     concat (map (\<lambda>w. le_bytes 4 (ucast w)) ([g_screen_w sc, g_screen_h sc, g_screen_w sc, g_screen_h sc, 0, 0, 32, 0, 16, 8, 0, 8, 8, 0, 0, 8, 0, 24, 8, 0] @
       replicate 20 0))"

definition fb_fix_screeninfo :: "screen \<Rightarrow> u8 list" where
  "fb_fix_screeninfo sc =
     string_bytes ''keshos-fb'' @ replicate 6 0 @ le_bytes 8 (fb_phys sc) @ le_bytes 4 (ucast (g_screen_pitch sc * g_screen_h sc)) @ replicate 8 0 @
     le_bytes 4 2 @ replicate 8 0 @ le_bytes 4 (ucast (g_screen_pitch sc)) @ replicate 28 0"

definition put_string :: "u64 \<Rightarrow> u64 \<Rightarrow> string \<Rightarrow> mm \<Rightarrow> mm" where
  "put_string ptr len str m = (if ptr \<noteq> 0 \<and> len > 0 then snd (copy_to_user ptr (string_bytes str) m) else m)"

definition drm_fb_ioctl :: "screen \<Rightarrow> u64 \<Rightarrow> u64 \<Rightarrow> mm \<Rightarrow> int \<times> mm" where
  "drm_fb_ioctl sc req arg m =
     (if req = FBIOBLANK then (0, m)
      else if arg = 0 then (- 1, m)
      else if req = FBIOGET_VSCREENINFO then copy_to_user arg (fb_var_screeninfo sc) m
      else if req = FBIOGET_FSCREENINFO then copy_to_user arg (fb_fix_screeninfo sc) m
      else if req = DRM_IOCTL_VERSION
      then (case copy_from_user arg 64 m of
              None \<Rightarrow> (- 1, m)
            | Some v \<Rightarrow>
                copy_to_user arg (le_bytes 4 1 @ le_bytes 4 0 @ le_bytes 4 0 @ drop 12 v)
                  (put_string (field v 56 8) (field v 48 8) ''KeshOS KMS/DRM Driver'' (put_string (field v 40 8) (field v 32 8) ''20261003''
                    (put_string (field v 24 8) (field v 16 8) ''keshos-drm'' m))))
      else if req = DRM_IOCTL_GET_CAP
      then (case copy_from_user arg 16 m of None \<Rightarrow> (- 1, m) | Some v \<Rightarrow> copy_to_user arg (take 8 v @ le_bytes 8 1) m)
      else (0, m))"

definition drm_fb_mmap :: "screen \<Rightarrow> u64 \<Rightarrow> u32 \<Rightarrow> ('d, 'x) kernel_scheme \<Rightarrow> u64 \<times> ('d, 'x) kernel_scheme" where
  "drm_fb_mmap sc len prot s =
     (if g_fb_vram sc = 0 \<or> len = 0 then (0, s)
      else
        let total_size = g_screen_pitch sc * g_screen_h sc;
            actual_len = (if len > ucast total_size then ucast total_size else len);
            n = (actual_len + 4095) div 4096;
            num_pages = (if n > MAX_FB_PAGES then MAX_FB_PAGES else n)
        in process_vm_map_phys (Some (map (\<lambda>i. fb_phys sc + word_of_nat i * 4096) [0..<unat num_pages])) num_pages prot s)"

end
