(* ===== verification/Kea.thy ===== *)
theory Kea
  imports Gpt
begin

text \<open>
  Application packages (\<open>kpm/kea_verify.c\<close>): the headers, the checks of bounds and checksum, and the check of digest and signature under the trusted keys.
\<close>

abbreviation (input) KEA_MAGIC :: u32 where "KEA_MAGIC \<equiv> 0x0141454B"
abbreviation (input) KEA_VERSION_LEGACY :: u16 where "KEA_VERSION_LEGACY \<equiv> 1"
abbreviation (input) KEA_VERSION :: u16 where "KEA_VERSION \<equiv> 2"
abbreviation (input) KEA_FLAG_SIGNED :: u16 where "KEA_FLAG_SIGNED \<equiv> 1"
abbreviation (input) KEA_HEADER_SIZE :: nat where "KEA_HEADER_SIZE \<equiv> 248"
abbreviation (input) KEA_HEADER_V2_SIZE :: nat where "KEA_HEADER_V2_SIZE \<equiv> 312"
abbreviation (input) KEA_DEPENDENCY_SIZE :: nat where "KEA_DEPENDENCY_SIZE \<equiv> 48"
abbreviation (input) KEA_MAX_DEPENDENCIES :: nat where "KEA_MAX_DEPENDENCIES \<equiv> 16"
abbreviation (input) KEA_SIGNATURE_SIZE :: nat where "KEA_SIGNATURE_SIZE \<equiv> 64"
abbreviation (input) KEA_SIGNATURE_ECDSA_P256_SHA256 :: u16 where "KEA_SIGNATURE_ECDSA_P256_SHA256 \<equiv> 1"
abbreviation (input) KEA_DIGEST_OFFSET :: nat where "KEA_DIGEST_OFFSET \<equiv> 280"
abbreviation (input) KEA_DIGEST_SIZE :: nat where "KEA_DIGEST_SIZE \<equiv> 32"
abbreviation (input) KEA_PERM_FS :: u32 where "KEA_PERM_FS \<equiv> 2"
abbreviation (input) KEA_PERM_GUI :: u32 where "KEA_PERM_GUI \<equiv> 8"
abbreviation (input) KEA_PERM_ROOT :: u32 where "KEA_PERM_ROOT \<equiv> 16"
abbreviation (input) KEA_PERM_ALL :: u32 where "KEA_PERM_ALL \<equiv> 31"

subsection \<open>Headers and keys\<close>

record kea_header =
  kh_magic :: u32
  kh_hdr_size :: u32
  kh_version :: u16
  kh_flags :: u16
  kh_name :: "u8 list"
  kh_permissions :: u32
  kh_icon_offset :: u32
  kh_icon_size :: u32
  kh_elf_offset :: u64
  kh_elf_size :: u64
  kh_checksum :: u32

record kea_header_v2 =
  kv_dependency_offset :: u32
  kv_dependency_count :: u16
  kv_dependency_stride :: u16
  kv_signature_offset :: u32
  kv_signature_size :: u16
  kv_signature_algorithm :: u16
  kv_key_id :: "u8 list"
  kv_package_sha256 :: "u8 list"

record kpm_trusted_key =
  tk_id :: "u8 list"
  tk_public_key :: "u8 list"

definition g_kpm_trusted_keys :: "kpm_trusted_key list" where
  "g_kpm_trusted_keys =
    [\<lparr>tk_id =
     [0xce, 0x25, 0x14, 0xf7, 0x20, 0xd3, 0xe5, 0xfd, 0x34, 0x1e, 0x7b, 0xd9, 0x6b, 0x83, 0xf9, 0x9e],
     tk_public_key =
     [0x04, 0x24, 0xd3, 0xbb, 0x09, 0x12, 0xb8, 0x60, 0xe5, 0xb1, 0xb9, 0xc8, 0x60, 0xfe, 0x52, 0x90, 0xb0, 0x0c, 0xb2, 0x87, 0xfb, 0xda, 0x25, 0x49,
     0xfe, 0x34, 0xfd, 0x4e, 0x8e, 0x13, 0x22, 0x57, 0xce, 0xd2, 0x3b, 0xa2, 0xcf, 0x2c, 0xc4, 0x3a, 0xfc, 0xa1, 0xab, 0xe7, 0x90, 0x15, 0x87, 0xa2,
     0x01, 0xea, 0xa1, 0x50, 0x6a, 0x36, 0xba, 0xc0, 0x5a, 0x1d, 0x21, 0x0d, 0xf9, 0x60, 0x81, 0x38, 0xe0]\<rparr>]"

text \<open>The hash and the signature check are those of the BearSSL library: \<open>verify key digest signature\<close>.\<close>

record crypto =
  cr_sha256 :: "u8 list \<Rightarrow> u8 list"
  cr_ecdsa_verify :: "u8 list \<Rightarrow> u8 list \<Rightarrow> u8 list \<Rightarrow> bool"

definition kea_header_of :: "u8 list \<Rightarrow> kea_header" where
  "kea_header_of d =
     \<lparr>kh_magic = ucast (field d 0 4), kh_hdr_size = ucast (field d 4 4), kh_version = ucast (field d 8 2), kh_flags = ucast (field d 10 2),
      kh_name = take 32 (drop 12 d), kh_permissions = ucast (field d 172 4), kh_icon_offset = ucast (field d 176 4),
      kh_icon_size = ucast (field d 180 4), kh_elf_offset = field d 188 8, kh_elf_size = field d 196 8, kh_checksum = ucast (field d 212 4)\<rparr>"

definition kea_header_v2_of :: "u8 list \<Rightarrow> kea_header_v2" where
  "kea_header_v2_of d =
     \<lparr>kv_dependency_offset = ucast (field d 248 4), kv_dependency_count = ucast (field d 252 2), kv_dependency_stride = ucast (field d 254 2),
      kv_signature_offset = ucast (field d 256 4), kv_signature_size = ucast (field d 260 2), kv_signature_algorithm = ucast (field d 262 2),
      kv_key_id = take 16 (drop 264 d), kv_package_sha256 = take KEA_DIGEST_SIZE (drop KEA_DIGEST_OFFSET d)\<rparr>"

subsection \<open>Checks\<close>

text \<open>The checksum loop is the one of the partition tables.\<close>

definition kea_crc32 :: "u8 list \<Rightarrow> u32" where
  "kea_crc32 data = NOT (fold crc32_byte data 0xFFFFFFFF)"

definition bytes_equal :: "u8 list \<Rightarrow> u8 list \<Rightarrow> bool" where
  "bytes_equal a b \<longleftrightarrow> fold (\<lambda>(x, y) diff. diff OR (x XOR y)) (zip a b) 0 = (0 :: u8)"

definition base_valid :: "kea_header \<Rightarrow> nat \<Rightarrow> bool" where
  "base_valid h sz \<longleftrightarrow>
     kh_magic h = KEA_MAGIC \<and> kh_permissions h AND NOT KEA_PERM_ALL = 0 \<and>
     unat (kh_icon_offset h) \<le> sz \<and> unat (kh_icon_size h) \<le> sz - unat (kh_icon_offset h) \<and>
     unat (kh_elf_offset h) \<le> sz \<and> unat (kh_elf_size h) \<le> sz - unat (kh_elf_offset h) \<and> kh_elf_size h \<ge> 4"

definition kea_base_header :: "u8 list \<Rightarrow> kea_header option" where
  "kea_base_header d = (if length d < KEA_HEADER_SIZE \<or> \<not> base_valid (kea_header_of d) (length d) then None else Some (kea_header_of d))"

text \<open>The number of dependencies and the position of the table; \<open>None\<close> for the null pointer. The code reads the second header without a look at the size.\<close>

definition kea_dependencies :: "u8 list \<Rightarrow> u16 \<times> nat option" where
  "kea_dependencies d =
     (case kea_base_header d of
        None \<Rightarrow> (0, None)
      | Some b \<Rightarrow>
          let h = kea_header_v2_of d; bytes = unat (kv_dependency_count h) * unat (kv_dependency_stride h) in
          if kh_version b \<noteq> KEA_VERSION \<or> unat (kh_hdr_size b) \<noteq> KEA_HEADER_V2_SIZE then (0, None)
          else if unat (kv_dependency_count h) > KEA_MAX_DEPENDENCIES \<or> unat (kv_dependency_stride h) \<noteq> KEA_DEPENDENCY_SIZE \<or>
                  unat (kv_dependency_offset h) > length d \<or> bytes > length d - unat (kv_dependency_offset h) then (0, None)
          else (kv_dependency_count h, if kv_dependency_count h \<noteq> 0 then Some (unat (kv_dependency_offset h)) else None))"

definition trusted_key_for :: "u8 list \<Rightarrow> kpm_trusted_key option" where
  "trusted_key_for key_id = find (\<lambda>k. bytes_equal key_id (tk_id k)) g_kpm_trusted_keys"

text \<open>What is hashed: the package up to the signature, with zeros where the digest is stored.\<close>

definition signed_content :: "u8 list \<Rightarrow> u8 list" where
  "signed_content d =
     take KEA_DIGEST_OFFSET d @ replicate KEA_DIGEST_SIZE 0 @
     take (unat (kv_signature_offset (kea_header_v2_of d)) - KEA_DIGEST_OFFSET - KEA_DIGEST_SIZE) (drop (KEA_DIGEST_OFFSET + KEA_DIGEST_SIZE) d)"

definition package_signature :: "u8 list \<Rightarrow> u8 list" where
  "package_signature d = (let h = kea_header_v2_of d in take (unat (kv_signature_size h)) (drop (unat (kv_signature_offset h)) d))"

definition kea_verify_signed :: "crypto \<Rightarrow> u8 list \<Rightarrow> kea_header \<Rightarrow> int" where
  "kea_verify_signed c d b =
     (let h = kea_header_v2_of d; so = unat (kv_signature_offset h); ss = unat (kv_signature_size h) in
      if kh_flags b AND KEA_FLAG_SIGNED = 0 \<or> kv_signature_algorithm h \<noteq> KEA_SIGNATURE_ECDSA_P256_SHA256 \<or> ss \<noteq> KEA_SIGNATURE_SIZE then - 4
      else if so < KEA_HEADER_V2_SIZE \<or> so > length d \<or> ss > length d - so \<or>
              unat (kv_signature_offset h + ucast (kv_signature_size h)) \<noteq> length d then - 2
      else if kv_dependency_count h \<noteq> 0 \<and> snd (kea_dependencies d) = None then - 2
      else (case trusted_key_for (kv_key_id h) of
              None \<Rightarrow> - 5
            | Some k \<Rightarrow>
                let digest = cr_sha256 c (signed_content d) in
                if \<not> bytes_equal digest (kv_package_sha256 h) then - 6
                else if \<not> cr_ecdsa_verify c (tk_public_key k) digest (package_signature d) then - 7
                else 0))"

definition kea_verify_package :: "crypto \<Rightarrow> u8 list \<Rightarrow> bool \<Rightarrow> int" where
  "kea_verify_package c d require_signature =
     (case kea_base_header d of
        None \<Rightarrow> - 1
      | Some b \<Rightarrow>
          if kea_crc32 (take (unat (kh_elf_size b)) (drop (unat (kh_elf_offset b)) d)) \<noteq> kh_checksum b then - 3
          else if kh_version b = KEA_VERSION_LEGACY \<and> unat (kh_hdr_size b) = KEA_HEADER_SIZE then (if require_signature then - 4 else 0)
          else if kh_version b \<noteq> KEA_VERSION \<or> unat (kh_hdr_size b) \<noteq> KEA_HEADER_V2_SIZE \<or> length d < KEA_HEADER_V2_SIZE then - 1
          else kea_verify_signed c d b)"

subsection \<open>What a verified package is\<close>

lemma bytes_equal_iff: "length a = length b \<Longrightarrow> bytes_equal a b \<longleftrightarrow> a = b"
proof -
  have xor: "x XOR y = 0 \<longleftrightarrow> x = y" for x y :: u8
    by (metis xor.assoc xor.left_neutral xor.right_neutral xor_self_eq)
  have acc: "fold (\<lambda>(x, y) diff. diff OR (x XOR y)) ps z = 0 \<longleftrightarrow> z = 0 \<and> (\<forall>(x, y) \<in> set ps. x = y)" for ps and z :: u8
    by (induction ps arbitrary: z) (auto simp: or_eq_0_iff xor)
  assume len: "length a = length b"
  then show ?thesis
    unfolding bytes_equal_def acc by (induction a b rule: list_induct2) auto
qed

text \<open>The package is signed under a key of the table: digest and signature fit the content, which reaches to the signature, the last part of the package.\<close>

definition properly_signed :: "crypto \<Rightarrow> u8 list \<Rightarrow> bool" where
  "properly_signed c d \<longleftrightarrow>
     (let h = kea_header_v2_of d in
      \<exists>k \<in> set g_kpm_trusted_keys.
        cr_ecdsa_verify c (tk_public_key k) (cr_sha256 c (signed_content d)) (package_signature d) \<and>
        length (package_signature d) = KEA_SIGNATURE_SIZE \<and> unat (kv_signature_offset h) + KEA_SIGNATURE_SIZE = length d \<and>
        unat (kv_signature_offset h) \<ge> KEA_HEADER_V2_SIZE)"

lemma kea_verify_signed_ok:
  assumes "kea_verify_signed c d b = 0"
  shows "properly_signed c d"
proof -
  let ?h = "kea_header_v2_of d"
  have len: "unat (kv_signature_size ?h) = KEA_SIGNATURE_SIZE" "unat (kv_signature_offset ?h) \<ge> KEA_HEADER_V2_SIZE"
    "unat (kv_signature_offset ?h) \<le> length d" "unat (kv_signature_size ?h) \<le> length d - unat (kv_signature_offset ?h)"
    "unat (kv_signature_offset ?h + ucast (kv_signature_size ?h)) = length d"
    using assms by (auto simp: kea_verify_signed_def Let_def split: if_splits option.splits)
  have fit: "unat (kv_signature_offset ?h + ucast (kv_signature_size ?h)) \<le> unat (kv_signature_offset ?h) + KEA_SIGNATURE_SIZE"
  proof -
    have "unat (ucast (kv_signature_size ?h) :: u32) = unat (kv_signature_size ?h)" using len(1) by (simp add: unsigned_ucast_eq)
    then show ?thesis using len(1) by (simp add: unat_word_ariths)
  qed
  have eq: "unat (kv_signature_offset ?h) + KEA_SIGNATURE_SIZE = length d" using len fit by linarith
  obtain k where k: "trusted_key_for (kv_key_id ?h) = Some k"
    "cr_ecdsa_verify c (tk_public_key k) (cr_sha256 c (signed_content d)) (package_signature d)"
    using assms by (auto simp: kea_verify_signed_def Let_def split: if_splits option.splits)
  then have "k \<in> set g_kpm_trusted_keys" unfolding trusted_key_for_def find_Some_iff by auto
  then show ?thesis using k len eq by (auto simp: properly_signed_def Let_def package_signature_def)
qed

lemma kea_verify_package_ok:
  assumes "kea_verify_package c d require = 0"
  shows "\<exists>b. kea_base_header d = Some b \<and> kea_crc32 (take (unat (kh_elf_size b)) (drop (unat (kh_elf_offset b)) d)) = kh_checksum b \<and>
    (kh_version b = KEA_VERSION_LEGACY \<and> \<not> require \<or> kh_version b = KEA_VERSION \<and> properly_signed c d)"
  using assms by (auto simp: kea_verify_package_def split: option.splits if_splits intro: kea_verify_signed_ok)

end
