(* ===== verification/Process_Life.thy ===== *)
theory Process_Life
  imports Process_Vm Kea Elf
begin

text \<open>
  Processes from start to end (\<open>kernel/process.c\<close>): threads, signals, the release of everything a process holds, and starting programs from packages,
  images and paths.
\<close>

abbreviation (input) KESH_SIGINT :: int where "KESH_SIGINT \<equiv> 2"
abbreviation (input) KESH_SIGKILL :: int where "KESH_SIGKILL \<equiv> 9"
abbreviation (input) KESH_SIGTERM :: int where "KESH_SIGTERM \<equiv> 15"
abbreviation (input) KESH_SIGCONT :: int where "KESH_SIGCONT \<equiv> 18"
abbreviation (input) KESH_SIGSTOP :: int where "KESH_SIGSTOP \<equiv> 19"
abbreviation (input) PT_PHDR :: u32 where "PT_PHDR \<equiv> 6"

subsection \<open>Threads\<close>

definition thread_entry_is_executable :: "process \<Rightarrow> u64 \<Rightarrow> mm \<Rightarrow> bool" where
  "thread_entry_is_executable p entry m \<longleftrightarrow>
     entry \<noteq> 0 \<and> entry < USER_VA_LIMIT \<and>
     (let flags = vmm_get_page_flags (pml4_phys p) (entry AND NOT (PAGE_SIZE - 1)) m
      in flags AND PTE_PRESENT \<noteq> 0 \<and> flags AND PTE_USER \<noteq> 0 \<and> flags AND PTE_NO_EXECUTE = 0)"

definition process_create_thread :: "u64 \<Rightarrow> ('d, 'x) kernel_scheme \<Rightarrow> int \<times> ('d, 'x) kernel_scheme" where
  "process_create_thread entry s =
     (case active_slot (k_procs s) of
        None \<Rightarrow> (- 1, s)
      | Some i \<Rightarrow>
          let p = the_process s i in
          if process_state p = PROCESS_STATE_UNUSED \<or> \<not> thread_entry_is_executable p entry (m_mm s) then (- 1, s)
          else (case free_thread_slot p of
            None \<Rightarrow> (- 1, s)
          | Some t \<Rightarrow>
              let base = 0x6E000000 + word_of_nat (t - 1) * 0x00020000 in
              (case map_fresh 8 (pml4_phys p) base (PTE_USER OR PTE_WRITABLE OR PTE_NO_EXECUTE) (m_mm s) of
                 (k, m) \<Rightarrow>
                   if k < 8 then (- 1, s\<lparr>m_mm := unmap_run (pml4_phys p) base True [0..<k] m\<rparr>)
                   else (int t, upd_process i (upd_thread t (\<lambda>th. th\<lparr>tid := t, owner_pid := process_id p, thread_state := THREAD_STATE_READY,
                      stack_base := base, stack_pages := 8,
                      thread_ctx := (thread_ctx (threads p 0))\<lparr>rip := entry, rsp := base + 8 * PAGE_SIZE - 16, rbp := 0, rbx := 0, r12 := 0, r13 := 0,
                        r14 := 0, r15 := 0, rdi := 0, rsi := 0, rdx := 0, r8 := 0, r9 := 0, r10 := 0, rflags := 0x202, is_started := 0, return_rax := 0\<rparr>\<rparr>))
                      (s\<lparr>m_mm := m\<rparr>)))))"

subsection \<open>Ending a process\<close>

text \<open>One region of a process that goes away: its pages, whatever unmapping returns, and its backing object.\<close>

definition release_region :: "nat \<Rightarrow> nat \<Rightarrow> ('d, 'x) kernel_scheme \<Rightarrow> ('d, 'x) kernel_scheme" where
  "release_region i r s =
     (let p = the_process s i; region = vm_regions p r in
      if \<not> region_active region then s
      else upd_process i (upd_region r (\<lambda>x. x\<lparr>region_active := False\<rparr>))
             (release_backing region (s\<lparr>m_mm := unmap_run (pml4_phys p) (region_base region) (owns_physical region) [0..<pages_of (region_size region)] (m_mm s)\<rparr>)))"

definition thread_release :: "thread \<Rightarrow> thread" where
  "thread_release th =
     th\<lparr>thread_state := THREAD_STATE_UNUSED, stack_base := 0, stack_pages := 0, wake_at_ms := 0, thread_fs_base := 0, clear_child_tid := 0,
        thread_ctx := (thread_ctx th)\<lparr>cr3 := 0, is_started := 0\<rparr>\<rparr>"

definition process_reset :: "process \<Rightarrow> process" where
  "process_reset p =
     p\<lparr>entry_point := 0, user_stack_top := 0, permissions := 0, process_credentials := \<lparr>uid = KESH_UID_USER, gid = KESH_UID_USER, groups = 0\<rparr>,
       is_linux_abi := False, process_fs_base := 0, process_ctx := (process_ctx p)\<lparr>rip := 0, rsp := 0, cr3 := 0, is_started := 0\<rparr>,
       threads := (\<lambda>t. if t < MAX_THREADS_PER_PROCESS then thread_release (threads p t) else threads p t),
       active_thread_idx := 0, vm_next_base := PROCESS_VM_BASE, heap_base := PROCESS_HEAP_BASE, heap_break := PROCESS_HEAP_BASE,
       heap_mapped_end := PROCESS_HEAP_BASE,
       vm_regions := (\<lambda>r. if r < MAX_VM_REGIONS_PER_PROCESS then (vm_regions p r)\<lparr>region_active := False\<rparr> else vm_regions p r)\<rparr>"

definition release_space :: "nat \<Rightarrow> ('d, 'x) kernel_scheme \<Rightarrow> ('d, 'x) kernel_scheme" where
  "release_space i s =
     (let pml4 = pml4_phys (the_process s i) in
      if pml4 = 0 then s
      else let s1 = fold (release_region i) [0..<MAX_VM_REGIONS_PER_PROCESS] (s\<lparr>k_windows := uwindow_destroy_process pml4 (k_windows s)\<rparr>)
           in upd_process i (\<lambda>p. p\<lparr>pml4_phys := 0\<rparr>) (s1\<lparr>m_mm := snd (vmm_destroy_user_pml4 pml4 (m_mm s1))\<rparr>))"

definition process_release_resources :: "nat \<Rightarrow> ('d, 'x) kernel_scheme \<Rightarrow> ('d, 'x) kernel_scheme" where
  "process_release_resources i s = upd_process i process_reset (release_space i s)"

text \<open>The four calls that take back what a process holds in other tables.\<close>

definition close_owner :: "'d net_ops \<Rightarrow> int \<Rightarrow> ('d, 'x) kernel_scheme \<Rightarrow> ('d, 'x) kernel_scheme" where
  "close_owner net pid s =
     (let s1 = (case socket_close_owner net pid (k_sockets s) (m_dev s) of (k, d) \<Rightarrow> s\<lparr>k_sockets := k, m_dev := d\<rparr>);
          s2 = s1\<lparr>k_ttys := tty_close_owner pid (k_ttys s1)\<rparr>;
          s3 = fd_close_owner pid s2
      in s3\<lparr>k_ipc := ipc_close_owner pid (k_ipc s3)\<rparr>)"

definition process_kill :: "'d net_ops \<Rightarrow> int \<Rightarrow> ('d, 'x) kernel_scheme \<Rightarrow> int \<times> ('d, 'x) kernel_scheme" where
  "process_kill net pid s =
     (if pid < 0 \<or> pid \<ge> int MAX_PROCESSES then (- 1, s)
      else
        let i = nat pid; p = the_process s i in
        if process_state p \<notin> {PROCESS_STATE_READY, PROCESS_STATE_RUNNING, PROCESS_STATE_STOPPED} then (- 1, s)
        else (0, process_release_resources i
                   (close_owner net (process_id p) (upd_process i (\<lambda>p. p\<lparr>process_state := PROCESS_STATE_EXITED\<rparr>) s))))"

definition process_exit_current_thread :: "'d net_ops \<Rightarrow> ('d, 'x) kernel_scheme \<Rightarrow> int \<times> ('d, 'x) kernel_scheme" where
  "process_exit_current_thread net s =
     (case (active_slot (k_procs s), g_active_thread_idx (k_procs s)) of
        (None, _) \<Rightarrow> (- 1, s)
      | (Some i, tidx) \<Rightarrow>
          if tidx < 0 \<or> tidx \<ge> int MAX_THREADS_PER_PROCESS then (- 1, s)
          else
            let t = nat tidx; p = the_process s i; th = threads p t in
            if thread_state th = THREAD_STATE_UNUSED \<or> thread_state th = THREAD_STATE_EXITED then (- 1, s)
            else
              let m1 = (if clear_child_tid th \<noteq> 0 then snd (copy_to_user (clear_child_tid th) (le_bytes 4 0) (m_mm s)) else m_mm s);
                  m2 = (if t \<noteq> 0 \<and> stack_base th \<noteq> 0 then unmap_run (pml4_phys p) (stack_base th) True [0..<unat (stack_pages th)] m1 else m1);
                  s1 = upd_process i (upd_thread t (\<lambda>th. th\<lparr>clear_child_tid := 0, thread_state := THREAD_STATE_EXITED, stack_base := 0,
                         stack_pages := 0, wake_at_ms := 0\<rparr>)) (s\<lparr>m_mm := m2\<rparr>)
              in if \<exists>j < MAX_THREADS_PER_PROCESS. thread_live (threads (the_process s1 i) j)
                 then (0, upd_process i (\<lambda>p. p\<lparr>process_state := PROCESS_STATE_READY\<rparr>) s1)
                 else (1, upd_process i (\<lambda>p. p\<lparr>process_state := PROCESS_STATE_EXITED\<rparr>)
                            (process_release_resources i (close_owner net (process_id p) s1))))"

subsection \<open>Signals\<close>

definition stop_threads :: "process \<Rightarrow> process" where
  "stop_threads p =
     p\<lparr>threads := (\<lambda>t. if t < MAX_THREADS_PER_PROCESS \<and> thread_state (threads p t) = THREAD_STATE_RUNNING
         then (threads p t)\<lparr>thread_state := THREAD_STATE_READY\<rparr> else threads p t), process_state := PROCESS_STATE_STOPPED\<rparr>"

text \<open>Whether a caller may signal a process; a negative caller is the kernel.\<close>

definition may_signal :: "procs \<Rightarrow> int \<Rightarrow> int \<Rightarrow> int \<Rightarrow> bool" where
  "may_signal ps caller pid sig \<longleftrightarrow>
     caller < 0 \<or>
     process_exists ps caller \<and>
     (let sender = uid (process_credentials (g_processes ps (nat caller))); target = uid (process_credentials (g_processes ps (nat pid)))
      in (sender = KESH_UID_ROOT \<or> sender = target) \<and> \<not> (pid = caller \<and> sig = KESH_SIGSTOP))"

definition process_send_signal :: "'d net_ops \<Rightarrow> int \<Rightarrow> int \<Rightarrow> int \<Rightarrow> ('d, 'x) kernel_scheme \<Rightarrow> int \<times> ('d, 'x) kernel_scheme" where
  "process_send_signal net caller pid sig s =
     (if \<not> process_exists (k_procs s) pid \<or> \<not> may_signal (k_procs s) caller pid sig then (- 1, s)
      else
        let p = the_process s (nat pid) in
        if sig = KESH_SIGKILL \<or> sig = KESH_SIGTERM \<or> sig = KESH_SIGINT then process_kill net pid s
        else if sig = KESH_SIGSTOP then
          (if process_state p = PROCESS_STATE_STOPPED then (0, s)
           else if process_state p \<noteq> PROCESS_STATE_READY \<and> process_state p \<noteq> PROCESS_STATE_RUNNING then (- 1, s)
           else (0, upd_process (nat pid) stop_threads s))
        else if sig = KESH_SIGCONT then
          (if process_state p \<noteq> PROCESS_STATE_STOPPED then (- 1, s)
           else (0, upd_process (nat pid) (\<lambda>p. p\<lparr>process_state := PROCESS_STATE_READY\<rparr>) s))
        else (- 1, s))"

definition signal_one :: "'d net_ops \<Rightarrow> int \<Rightarrow> int \<Rightarrow> int \<Rightarrow> nat \<Rightarrow> nat \<times> ('d, 'x) kernel_scheme \<Rightarrow> nat \<times> ('d, 'x) kernel_scheme" where
  "signal_one net caller grp sig i acc =
     (case acc of (delivered, s) \<Rightarrow>
        if \<not> process_exists (k_procs s) (int i) \<or> process_group (the_process s i) \<noteq> grp then (delivered, s)
        else (case process_send_signal net caller (int i) sig s of (r, s1) \<Rightarrow> (if r = 0 then Suc delivered else delivered, s1)))"

definition process_signal_group :: "'d net_ops \<Rightarrow> int \<Rightarrow> int \<Rightarrow> int \<Rightarrow> ('d, 'x) kernel_scheme \<Rightarrow> int \<times> ('d, 'x) kernel_scheme" where
  "process_signal_group net caller grp sig s =
     (if grp < 0 then (- 1, s)
      else case fold (signal_one net caller grp sig) [0..<MAX_PROCESSES] (0, s) of
        (delivered, s1) \<Rightarrow> (if delivered \<noteq> 0 then int delivered else - 1, s1))"

subsection \<open>Terminals of a process\<close>

definition pty_attach :: "int \<Rightarrow> int \<Rightarrow> int \<Rightarrow> ('d, 'x) kernel_scheme \<Rightarrow> int \<times> ('d, 'x) kernel_scheme" where
  "pty_attach owner slave_handle target s =
     (case pty_at (k_ttys s) slave_handle of
        None \<Rightarrow> (- 1, s)
      | Some i \<Rightarrow>
          if \<not> pty_is_slave slave_handle \<or> master_pid (g_ptys (k_ttys s) i) \<noteq> owner \<or> \<not> process_exists (k_procs s) target then (- 1, s)
          else (case fd_bind_pty_stdio target slave_handle s of
            (r, s1) \<Rightarrow>
              if r \<noteq> 0 then (- 1, s1)
              else
                let s2 = s1\<lparr>k_ttys := pty_attach_slave slave_handle target (process_get_group (k_procs s1) target) (k_ttys s1)\<rparr>
                in (case process_set_controlling_pty target slave_handle (k_procs s2) of (c, ps) \<Rightarrow> (c, s2\<lparr>k_procs := ps\<rparr>))))"

subsection \<open>Starting programs\<close>

definition spawn_slot :: "procs \<Rightarrow> nat option" where
  "spawn_slot ps =
     first_from (\<lambda>i. process_state (g_processes ps i) = PROCESS_STATE_UNUSED \<or> process_state (g_processes ps i) = PROCESS_STATE_EXITED) 0 MAX_PROCESSES"

text \<open>
  The address of the program headers in the new process: that of a header segment, where the search ends, or the place of the table inside the
  last loadable segment that contains it.
\<close>

fun phdr_address :: "elf64_ehdr \<Rightarrow> elf64_phdr option list \<Rightarrow> u64 \<Rightarrow> u64" where
  "phdr_address eh [] va = va"
| "phdr_address eh (None # rest) va = phdr_address eh rest va"
| "phdr_address eh (Some ph # rest) va =
     (if p_type ph = PT_PHDR then p_vaddr ph
      else if p_type ph = PT_LOAD \<and> e_phoff eh \<ge> p_offset ph \<and>
              e_phoff eh + ucast (e_phnum eh) * ucast (e_phentsize eh) \<le> p_offset ph + p_filesz ph
      then phdr_address eh rest (p_vaddr ph + (e_phoff eh - p_offset ph))
      else phdr_address eh rest va)"

text \<open>The first words of the stack: arguments, environment and auxiliary vector.\<close>

definition stack_words :: "elf64_ehdr \<Rightarrow> u64 \<Rightarrow> u64 \<Rightarrow> u64 list" where
  "stack_words eh phdr_va entry =
     (let name_va = 0x6FFFF000 + 3800; random_va = 0x6FFFF000 + 3900 in
      [1, name_va, 0, 0, 3, phdr_va, 4, ucast (e_phentsize eh), 5, ucast (e_phnum eh), 6, 4096, 25, random_va, 9, entry,
       11, 0, 12, 0, 13, 0, 14, 0, 23, 0, 31, name_va, 0, 0])"

definition stack_page :: "u8 list \<Rightarrow> u8 list \<Rightarrow> u64 \<Rightarrow> u64 \<Rightarrow> mm \<Rightarrow> mm" where
  "stack_page name img phys entry m =
     (let eh = parse_ehdr (take EHDR_SIZE img);
          phdr_va = phdr_address eh (map (phdr_at img eh) [0..<unat (e_phnum eh)]) 0;
          put = (\<lambda>off bs m. m\<lparr>phys_mem := write_bytes (phys + off) bs (phys_mem m)\<rparr>)
      in put 3520 (concat (map (le_bytes 8) (stack_words eh phdr_va entry)))
           (put 3900 (map (\<lambda>r. 0x42 + word_of_nat r * 7) [0..<16])
             (put 3800 (take 63 name @ [0]) (put 0 (replicate 4096 0) m))))"

definition thread_clear :: "thread \<Rightarrow> thread" where
  "thread_clear th = th\<lparr>thread_state := THREAD_STATE_UNUSED, stack_base := 0, stack_pages := 0, wake_at_ms := 0, thread_fs_base := 0, clear_child_tid := 0\<rparr>"

definition process_start :: "u8 list \<Rightarrow> u64 \<Rightarrow> u64 \<Rightarrow> u64 \<Rightarrow> u32 \<Rightarrow> bool \<Rightarrow> process \<Rightarrow> process" where
  "process_start name pml4 entry stack perms trusted_root p =
     (let root = (if trusted_root then KESH_UID_ROOT else KESH_UID_USER);
          ctx = (process_ctx p)\<lparr>rip := entry, rsp := stack, rflags := 0x202, rbp := 0, rbx := 0, r12 := 0, r13 := 0, r14 := 0, r15 := 0,
                  cr3 := pml4, is_started := 0, return_rax := 0\<rparr>;
          cleared = (\<lambda>t. if t < MAX_THREADS_PER_PROCESS then thread_clear (threads p t) else threads p t)
      in p\<lparr>process_name := take 31 name, pml4_phys := pml4, entry_point := entry, process_fs_base := 0,
           is_linux_abi := (length name \<ge> 4 \<and> drop (length name - 4) name = butlast (string_bytes ''.elf'')),
           user_stack_top := stack, permissions := perms, process_credentials := \<lparr>uid = root, gid = root, groups = 0\<rparr>,
           process_state := PROCESS_STATE_READY, controlling_pty := - 1, process_group := process_id p, process_ctx := ctx,
           threads := cleared(0 := (cleared 0)\<lparr>tid := 0, owner_pid := process_id p, thread_state := THREAD_STATE_READY, thread_ctx := ctx\<rparr>),
           active_thread_idx := 0, vm_next_base := PROCESS_VM_BASE, heap_base := PROCESS_HEAP_BASE, heap_break := PROCESS_HEAP_BASE,
           heap_mapped_end := PROCESS_HEAP_BASE,
           vm_regions := (\<lambda>r. if r < MAX_VM_REGIONS_PER_PROCESS then (vm_regions p r)\<lparr>region_active := False\<rparr> else vm_regions p r)\<rparr>)"

text \<open>
  A missing name is \<open>user_app\<close>. The loader does not read outside the image, so that its fault, which stands for that, does not arise; the
  kernel stack that \<open>gdt_set_kernel_stack\<close> installs is not modelled.
\<close>

definition process_spawn_elf_with_permissions ::
    "u8 list option \<Rightarrow> u8 list \<Rightarrow> u32 \<Rightarrow> bool \<Rightarrow> ('d, 'x) kernel_scheme \<Rightarrow> nat option \<times> ('d, 'x) kernel_scheme" where
  "process_spawn_elf_with_permissions name img perms trusted_root s =
     (case spawn_slot (k_procs s) of
        None \<Rightarrow> (None, s)
      | Some i \<Rightarrow>
          (case elf_load img (m_mm s) of
             Elf_fault \<Rightarrow> (None, s)
           | Elf_error c m \<Rightarrow> (None, s\<lparr>m_mm := m\<rparr>)
           | Elf_ok pml4 entry m \<Rightarrow>
               let src_name = (case name of None \<Rightarrow> butlast (string_bytes ''user_app'') | Some n \<Rightarrow> n);
                   phys = vmm_get_page_phys pml4 0x6FFFF000 m;
                   m1 = (if phys \<noteq> 0 then stack_page src_name img phys entry m else m);
                   stack = (if phys \<noteq> 0 then 0x6FFFF000 + 3520 else 0x70000000 - 16)
               in (Some i, upd_process i (process_start src_name pml4 entry stack perms trusted_root) (s\<lparr>m_mm := m1\<rparr>))))"

definition process_spawn_elf :: "u8 list option \<Rightarrow> u8 list \<Rightarrow> ('d, 'x) kernel_scheme \<Rightarrow> nat option \<times> ('d, 'x) kernel_scheme" where
  "process_spawn_elf name img = process_spawn_elf_with_permissions name img (KEA_PERM_GUI OR KEA_PERM_FS) False"

definition c_string :: "u8 list \<Rightarrow> u8 list" where
  "c_string bs = takeWhile (\<lambda>b. b \<noteq> 0) bs"

definition process_spawn_kea :: "crypto \<Rightarrow> u8 list option \<Rightarrow> u8 list \<Rightarrow> ('d, 'x) kernel_scheme \<Rightarrow> nat option \<times> ('d, 'x) kernel_scheme" where
  "process_spawn_kea c name d s =
     (let h = kea_header_of d in
      if length d < KEA_HEADER_SIZE then (None, s)
      else if kh_magic h \<noteq> KEA_MAGIC
      then (if take 4 d = [0x7F, 0x45, 0x4C, 0x46] then process_spawn_elf name d s else (None, s))
      else
        let signed_package = (kh_version h = KEA_VERSION) in
        if kea_verify_package c d signed_package \<noteq> 0 then (None, s)
        else if kh_permissions h AND KEA_PERM_ROOT \<noteq> 0 \<and> \<not> signed_package then (None, s)
        else
          let payload = take (unat (kh_elf_size h)) (drop (unat (kh_elf_offset h)) d);
              app_name = (if take 1 (kh_name h) \<noteq> [0] then Some (c_string (drop 12 d)) else name)
          in process_spawn_elf_with_permissions app_name payload (kh_permissions h) (signed_package \<and> kh_permissions h AND KEA_PERM_ROOT \<noteq> 0) s)"

text \<open>The path as bytes is the name of the program when the file is read from a volume.\<close>

definition process_spawn_path :: "'d drivers \<Rightarrow> crypto \<Rightarrow> string \<Rightarrow> (('d, 'x) kernel_scheme, nat option) state" where
  "process_spawn_path drv c path = do {
     (r, st) \<leftarrow> vfs_stat drv path;
     case st of
       None \<Rightarrow> State_Monad.return None
     | Some stat \<Rightarrow>
         if r \<noteq> 0 \<or> ks_is_dir stat \<or> ks_size stat = 0 then State_Monad.return None
         else do {
           node \<leftarrow> vfs_get_node drv path;
           s \<leftarrow> State_Monad.get;
           let held = (case node of
               None \<Rightarrow> None
             | Some i \<Rightarrow> if vn_data (g_nodes s i) \<noteq> No_data \<and> \<not> vn_is_fat32 (g_nodes s i) then Some (g_nodes s i) else None);
           case held of
             Some n \<Rightarrow>
               State (process_spawn_kea c (Some (butlast (string_bytes (vn_name n)))) (data_bytes (m_mm s) (vn_data n) 0 (unat (vn_size n))))
           | None \<Rightarrow>
               if unat (ks_size stat) > 0x7FFFFFFF then State_Monad.return None
               else do {
                 let pages = (ucast (ks_size stat) + PAGE_SIZE - 1) div PAGE_SIZE;
                 phys \<leftarrow> State (\<lambda>s. case pmm_alloc_pages pages (m_mm s) of (phys, m) \<Rightarrow> (phys, s\<lparr>m_mm := m\<rparr>));
                 if phys = 0 then State_Monad.return None
                 else do {
                   (n, bs) \<leftarrow> vfs_read drv path (int (unat (ks_size stat)));
                   if n \<le> 0 then do {
                     _ \<leftarrow> State_Monad.update (\<lambda>s. s\<lparr>m_mm := snd (pmm_free_pages phys pages (m_mm s))\<rparr>);
                     State_Monad.return None
                   }
                   else do {
                     _ \<leftarrow> write_pages phys bs;
                     p \<leftarrow> State (process_spawn_kea c (Some (butlast (string_bytes path))) bs);
                     _ \<leftarrow> State_Monad.update (\<lambda>s. s\<lparr>m_mm := snd (pmm_free_pages phys pages (m_mm s))\<rparr>);
                     State_Monad.return p
                   }
                 }
               }
         }
   }"

end
