(* ===== verification/Fd_Refs.thy ===== *)
theory Fd_Refs
  imports Fd Vfs_Tree
begin

text \<open>
  The counts behind the descriptors: the calls of the VFS leave the tables of \<open>fd.c\<close> alone, every call of \<open>fd.c\<close> keeps reference counts and pipe
  counts exact, and a pipe carries a stream between its two ends.
\<close>

subsection \<open>The calls of the VFS leave the descriptors alone\<close>

lemma keeps_above_fat: "keeps fat32.more m \<Longrightarrow> keeps vfs.more m"
proof (unfold keeps_def, rule allI)
  fix s :: "('a, 'b) vfs_scheme"
  assume "\<forall>s. fat32.more (snd (run_state m s)) = fat32.more s"
  then have "fat32.more (snd (run_state m s)) = fat32.more s" by blast
  then show "vfs.more (snd (run_state m s)) = vfs.more s"
    by (cases s, cases "snd (run_state m s)") simp
qed

lemmas keeps_above_drivers [keeps] =
  keeps_above_fat [OF keeps_more [OF keeps_fat32_list_dir]] keeps_above_fat [OF keeps_more [OF keeps_fat32_read_file]]
  keeps_above_fat [OF keeps_more [OF keeps_fat32_write_file]]

lemma above_upd_node [simp]: "vfs.more (upd_node i f s) = vfs.more s"
  by (simp add: upd_node_def)

lemma above_iso_read [keeps]: "keeps vfs.more (iso_read drv i lba n)"
  unfolding iso_read_def by (intro keeps_State) (auto split: prod.splits)

lemma above_iso_list_loop [keeps]: "keeps vfs.more (iso_list_loop n drv i lba k acc)"
  by (induction n arbitrary: lba acc) (simp_all only: iso_list_loop.simps, (intro keeps | assumption)+)

lemma above_iso9660_list_dir [keeps]: "keeps vfs.more (iso9660_list_dir drv lba sz k)"
  unfolding iso9660_list_dir_def by (intro keeps)

lemma above_iso_read_full [keeps]: "keeps vfs.more (iso_read_full drv i lba c b dst)"
proof (induction drv i lba c b dst rule: iso_read_full.induct)
  case (1 drv i lba c b dst)
  show ?case
    by (subst iso_read_full.simps) (intro keeps 1)
qed

lemma above_iso9660_read_file_offset [keeps]: "keeps vfs.more (iso9660_read_file_offset drv lba sz off k)"
  unfolding iso9660_read_file_offset_def iso_read_head_def iso_read_tail_def by (intro keeps)

lemma above_alloc_node [keeps]: "keeps vfs.more (alloc_node name d sz data p)"
  unfolding alloc_node_def keeps_def by (auto simp: Let_def split: option.splits)

lemma above_update_node [keeps]: "keeps vfs.more (State_Monad.update (upd_node i f))"
  by (intro keeps_update) simp

lemma above_add_fat32_children [keeps]: "keeps vfs.more (add_fat32_children d es)"
  by (induction es) (simp_all only: add_fat32_children.simps, (intro keeps | assumption)+)

lemma above_add_iso9660_children [keeps]: "keeps vfs.more (add_iso9660_children d es)"
  by (induction es) (simp_all only: add_iso9660_children.simps, (intro keeps | assumption)+)

lemma above_populate_fat32_node [keeps]: "keeps vfs.more (populate_fat32_node drv d)"
  unfolding populate_fat32_node_def by (intro keeps)

lemma above_populate_iso9660_node [keeps]: "keeps vfs.more (populate_iso9660_node drv d)"
  unfolding populate_iso9660_node_def by (intro keeps)

lemma above_find_component [keeps]: "keeps vfs.more (find_component drv r c n)"
  unfolding find_component_def by (intro keeps)

lemma above_find_loop [keeps]: "keeps vfs.more (find_loop drv r c p :: ('d, 'x, nat option) nio)"
proof (induction p arbitrary: c rule: length_induct)
  case (1 p)
  note fl = find_loop.simps [of drv r c p]
  show ?case
  proof (cases "p = []")
    case True
    then show ?thesis unfolding fl if_P [OF True] by (intro keeps)
  next
    case False
    have IH: "keeps vfs.more (find_loop drv r c (path_rest p) :: ('d, 'x, nat option) nio)" for c using 1 path_rest_shorter [OF False] by blast
    show ?thesis unfolding fl if_not_P [OF False] by (intro keeps IH)
  qed
qed

lemma above_find_node_by_path [keeps]: "keeps vfs.more (find_node_by_path drv path)"
  unfolding find_node_by_path_def by (intro keeps)

lemma above_vfs_list [keeps]: "keeps vfs.more (vfs_list drv path n)"
  unfolding vfs_list_def populate_def by (intro keeps)

lemma above_vfs_read_at [keeps]: "keeps vfs.more (vfs_read_at drv path off n)"
  unfolding vfs_read_at_def by (intro keeps)

lemma above_vfs_read [keeps]: "keeps vfs.more (vfs_read drv path n)"
  unfolding vfs_read_def by (intro keeps)

lemma above_vfs_stat [keeps]: "keeps vfs.more (vfs_stat drv path)"
  unfolding vfs_stat_def by (intro keeps)

lemma above_alloc_file [keeps]: "keeps vfs.more (alloc_file n)"
  unfolding alloc_file_def by (intro keeps_State) (auto simp: Let_def split: prod.splits)

lemma above_write_pages [keeps]: "keeps vfs.more (write_pages a bs)"
  unfolding write_pages_def by (intro keeps_update) simp

lemma above_write_fat32 [keeps]: "keeps vfs.more (write_fat32 drv parent path bs e)"
  unfolding write_fat32_def by (intro keeps)

lemma above_store_data [keeps]: "keeps vfs.more (store_data i d bs)"
  unfolding store_data_def by (cases d) (simp_all, (intro keeps)+)

lemma above_write_memory [keeps]: "keeps vfs.more (write_memory i bs)"
  unfolding write_memory_def by (intro keeps)

lemma above_write_new [keeps]: "keeps vfs.more (write_new drv path bs)"
  unfolding write_new_def by (intro keeps)

lemma above_vfs_write [keeps]: "keeps vfs.more (vfs_write drv path buf n)"
  unfolding vfs_write_def by (intro keeps)

lemma above_open_stat [keeps]: "keeps vfs.more (open_stat drv path flags)"
  unfolding open_stat_def by (intro keeps)

subsection \<open>The counts\<close>

text \<open>The descriptors that name the file \<open>i\<close>.\<close>

definition descriptors_of :: "(nat \<Rightarrow> nat \<Rightarrow> fd_entry) \<Rightarrow> nat \<Rightarrow> (nat \<times> nat) set" where
  "descriptors_of fds i =
     {(pid, fd). pid < FD_MAX_PROCESSES \<and> fd < FD_MAX_PER_PROCESS \<and> en_open (fds pid fd) \<and> unat (en_file_id (fds pid fd)) = i}"

text \<open>The end of a pipe that an open file is, if it is one, and the files that are a given end.\<close>

definition pipe_end :: "fd_file \<Rightarrow> (fd_kind \<times> nat) option" where
  "pipe_end f = (if ff_references f \<noteq> 0 \<and> ff_kind f \<in> {FD_KIND_PIPE_READ, FD_KIND_PIPE_WRITE} then Some (ff_kind f, unat (ff_pipe_id f)) else None)"

definition ends_of :: "(nat \<Rightarrow> (fd_kind \<times> nat) option) \<Rightarrow> fd_kind \<Rightarrow> nat \<Rightarrow> nat set" where
  "ends_of e k p = {i. i < FD_FILE_MAX \<and> e i = Some (k, p)}"

definition refs_ok :: "(nat \<Rightarrow> nat \<Rightarrow> fd_entry) \<Rightarrow> (nat \<Rightarrow> u32) \<Rightarrow> bool" where
  "refs_ok fds refs \<longleftrightarrow>
     (\<forall>i < FD_FILE_MAX. unat (refs i) = card (descriptors_of fds i)) \<and>
     (\<forall>pid < FD_MAX_PROCESSES. \<forall>fd < FD_MAX_PER_PROCESS. en_open (fds pid fd) \<longrightarrow> unat (en_file_id (fds pid fd)) < FD_FILE_MAX)"

definition pipe_ok :: "nat \<Rightarrow> nat \<Rightarrow> fd_pipe \<Rightarrow> bool" where
  "pipe_ok r w p \<longleftrightarrow>
     fp_allocated p = (r + w \<noteq> 0) \<and> (fp_allocated p \<longrightarrow> fp_readers p = r \<and> fp_writers p = w \<and> ring_wf FD_PIPE_BUFFER (fp_ring p))"

definition pipes_ok :: "(nat \<Rightarrow> (fd_kind \<times> nat) option) \<Rightarrow> (nat \<Rightarrow> fd_pipe) \<Rightarrow> bool" where
  "pipes_ok e pipes \<longleftrightarrow>
     (\<forall>p < FD_PIPE_MAX. pipe_ok (card (ends_of e FD_KIND_PIPE_READ p)) (card (ends_of e FD_KIND_PIPE_WRITE p)) (pipes p)) \<and>
     (\<forall>i < FD_FILE_MAX. \<forall>k p. e i = Some (k, p) \<longrightarrow> p < FD_PIPE_MAX)"

definition fd_ok :: "('d, 'x) fds_scheme \<Rightarrow> bool" where
  "fd_ok s \<longleftrightarrow> refs_ok (g_fds s) (ff_references \<circ> g_files s) \<and> pipes_ok (pipe_end \<circ> g_files s) (g_pipes s)"

lemma finite_descriptors [simp]: "finite (descriptors_of fds i)"
  and card_descriptors: "card (descriptors_of fds i) \<le> FD_FILE_MAX"
proof -
  have sub: "descriptors_of fds i \<subseteq> {..<FD_MAX_PROCESSES} \<times> {..<FD_MAX_PER_PROCESS}" by (auto simp: descriptors_of_def)
  then show "finite (descriptors_of fds i)" by (rule finite_subset) simp
  show "card (descriptors_of fds i) \<le> FD_FILE_MAX" using card_mono [OF _ sub] by simp
qed

lemma finite_ends [simp]: "finite (ends_of e k p)"
  by (simp add: ends_of_def)

lemma refs_okD:
  assumes "refs_ok fds refs"
  shows "i < FD_FILE_MAX \<Longrightarrow> unat (refs i) = card (descriptors_of fds i)"
    and "pid < FD_MAX_PROCESSES \<Longrightarrow> fd < FD_MAX_PER_PROCESS \<Longrightarrow> en_open (fds pid fd) \<Longrightarrow> unat (en_file_id (fds pid fd)) < FD_FILE_MAX"
  using assms by (auto simp: refs_ok_def)

text \<open>A file that no descriptor names is opened through some descriptors that were closed.\<close>

lemma refs_ok_new:
  assumes ok: "refs_ok fds refs" and i: "i < FD_FILE_MAX" "refs i = 0" and pid: "pid < FD_MAX_PROCESSES" and D: "D \<subseteq> {..<FD_MAX_PER_PROCESS}"
    and closed: "\<And>d. d \<in> D \<Longrightarrow> \<not> en_open (fds pid d)"
    and fds': "\<And>q d. fds' q d = (if q = pid \<and> d \<in> D then \<lparr>en_open = True, en_file_id = word_of_nat i\<rparr> else fds q d)"
    and refs': "refs' = refs(i := n)" and n: "unat n = card D"
  shows "refs_ok fds' refs'"
proof -
  have fid: "unat (word_of_nat i :: u16) = i" using i(1) by (simp add: unsigned_of_nat take_bit_nat_eq_self)
  have "descriptors_of fds i = {}" using refs_okD(1) [OF ok i(1)] i(2) by simp
  then have di: "descriptors_of fds' i = Pair pid ` D" using D pid by (auto simp: descriptors_of_def fds' fid)
  have dj: "descriptors_of fds' j = descriptors_of fds j" if "j \<noteq> i" for j
    using that closed by (auto simp: descriptors_of_def fds' fid)
  have "card (Pair pid ` D) = card D" by (rule card_image) (simp add: inj_on_def)
  then show ?thesis
    unfolding refs_ok_def refs' using refs_okD [OF ok] di dj n i(1) by (auto simp: fds' fid)
qed

lemma refs_ok_add:
  assumes ok: "refs_ok fds refs" and i: "unat fid < FD_FILE_MAX" and slot: "pid < FD_MAX_PROCESSES" "fd < FD_MAX_PER_PROCESS" "\<not> en_open (fds pid fd)"
    and fds': "fds' = fds(pid := (fds pid)(fd := \<lparr>en_open = True, en_file_id = fid\<rparr>))"
    and refs': "refs' = refs(unat fid := refs (unat fid) + 1)"
  shows "refs_ok fds' refs'"
proof -
  have di: "descriptors_of fds' (unat fid) = insert (pid, fd) (descriptors_of fds (unat fid))" and new: "(pid, fd) \<notin> descriptors_of fds (unat fid)"
    using slot by (auto simp: descriptors_of_def fds' split: if_splits)
  have dj: "descriptors_of fds' j = descriptors_of fds j" if "j \<noteq> unat fid" for j
    using that slot(3) by (auto simp: descriptors_of_def fds' split: if_splits)
  have "card (descriptors_of fds' (unat fid)) = Suc (card (descriptors_of fds (unat fid)))" using di new by simp
  moreover have "unat (refs (unat fid)) \<le> FD_FILE_MAX" using refs_okD(1) [OF ok i] card_descriptors by metis
  then have "unat (refs (unat fid) + 1) = Suc (unat (refs (unat fid)))" using unat_add_lem [of "refs (unat fid)" 1] by simp
  ultimately show ?thesis
    unfolding refs_ok_def refs' using refs_okD [OF ok] dj i slot by (auto simp: fds')
qed

lemma refs_ok_drop:
  assumes ok: "refs_ok fds refs" and slot: "pid < FD_MAX_PROCESSES" "fd < FD_MAX_PER_PROCESS" "en_open (fds pid fd)"
    and i: "i = unat (en_file_id (fds pid fd))"
    and fds': "fds' = fds(pid := (fds pid)(fd := (fds pid fd)\<lparr>en_open := False\<rparr>))" and refs': "refs' = refs(i := refs i - 1)"
  shows "refs_ok fds' refs'"
proof -
  have lt: "i < FD_FILE_MAX" using refs_okD(2) [OF ok slot] i by simp
  have di: "descriptors_of fds' i = descriptors_of fds i - {(pid, fd)}" and old: "(pid, fd) \<in> descriptors_of fds i"
    using slot by (auto simp: descriptors_of_def fds' i split: if_splits)
  have dj: "descriptors_of fds' j = descriptors_of fds j" if "j \<noteq> i" for j
    using that i by (auto simp: descriptors_of_def fds' split: if_splits)
  have pos: "0 < card (descriptors_of fds i)" using old card_gt_0_iff [of "descriptors_of fds i"] by auto
  then have "refs i \<noteq> 0" using refs_okD(1) [OF ok lt] by auto
  then have "unat (refs i - 1) = unat (refs i) - 1" by (simp add: unat_minus_one)
  then have "unat (refs i - 1) = card (descriptors_of fds' i)" using refs_okD(1) [OF ok lt] di old by simp
  then show ?thesis
    unfolding refs_ok_def refs' using refs_okD [OF ok] dj by (auto simp: fds' split: if_splits)
qed

text \<open>The two ends of a new pipe, and the last descriptor of an end closed.\<close>

lemma pipes_okD: "pipes_ok e pipes \<Longrightarrow> p < FD_PIPE_MAX \<Longrightarrow> pipe_ok (card (ends_of e FD_KIND_PIPE_READ p)) (card (ends_of e FD_KIND_PIPE_WRITE p)) (pipes p)"
  by (simp add: pipes_ok_def)

lemma pipes_ok_new:
  assumes ok: "pipes_ok e pipes" and files: "r < FD_FILE_MAX" "w < FD_FILE_MAX" "r \<noteq> w" "e r = None" "e w = None"
    and p: "p < FD_PIPE_MAX" "\<not> fp_allocated (pipes p)"
  shows "pipes_ok (e(r := Some (FD_KIND_PIPE_READ, p), w := Some (FD_KIND_PIPE_WRITE, p)))
    (pipes(p := (pipes p)\<lparr>fp_allocated := True, fp_readers := 1, fp_writers := 1, fp_ring := ring_reset (fp_ring (pipes p))\<rparr>))"
proof -
  let ?e = "e(r := Some (FD_KIND_PIPE_READ, p), w := Some (FD_KIND_PIPE_WRITE, p))"
  have none: "ends_of e FD_KIND_PIPE_READ p = {}" "ends_of e FD_KIND_PIPE_WRITE p = {}" using pipes_okD [OF ok p(1)] p(2) by (auto simp: pipe_ok_def)
  have p': "ends_of ?e FD_KIND_PIPE_READ p = {r}" "ends_of ?e FD_KIND_PIPE_WRITE p = {w}" using none files by (auto simp: ends_of_def split: if_splits)
  have q: "ends_of ?e k q = ends_of e k q" if "q \<noteq> p" for k q using that files by (auto simp: ends_of_def)
  show ?thesis using ok p p' q by (auto simp: pipes_ok_def pipe_ok_def)
qed

lemma pipe_drop_ok:
  assumes "pipe_ok r w p" and "k = FD_KIND_PIPE_READ \<and> 0 < r \<or> k = FD_KIND_PIPE_WRITE \<and> 0 < w"
  shows "pipe_ok (if k = FD_KIND_PIPE_READ then r - 1 else r) (if k = FD_KIND_PIPE_WRITE then w - 1 else w) (pipe_drop k p)"
  using assms by (auto simp: pipe_ok_def pipe_drop_def Let_def)

lemma pipes_ok_drop:
  assumes ok: "pipes_ok e pipes" and i: "i < FD_FILE_MAX" "e i = Some (k, p)" and k: "k \<in> {FD_KIND_PIPE_READ, FD_KIND_PIPE_WRITE}"
  shows "pipes_ok (e(i := None)) (pipes(p := pipe_drop k (pipes p)))"
proof -
  have p: "p < FD_PIPE_MAX" using ok i by (auto simp: pipes_ok_def)
  have gone: "ends_of (e(i := None)) k p = ends_of e k p - {i}" and was: "i \<in> ends_of e k p" using i by (auto simp: ends_of_def)
  have same: "ends_of (e(i := None)) l q = ends_of e l q" if "(l, q) \<noteq> (k, p)" for l q using that i by (auto simp: ends_of_def)
  have pos: "0 < card (ends_of e k p)" using was card_gt_0_iff [of "ends_of e k p"] by auto
  have "pipe_ok (card (ends_of (e(i := None)) FD_KIND_PIPE_READ p)) (card (ends_of (e(i := None)) FD_KIND_PIPE_WRITE p)) (pipe_drop k (pipes p))"
    using pipe_drop_ok [OF pipes_okD [OF ok p], of k] k pos was gone same [of FD_KIND_PIPE_READ p] same [of FD_KIND_PIPE_WRITE p] by auto
  then show ?thesis using ok same by (auto simp: pipes_ok_def)
qed

subsection \<open>Every operation keeps the counts\<close>

lemma fd_fields [simp]:
  "g_fds (upd_file i f s) = g_fds s" "g_files (upd_file i f s) = (g_files s)(i := f (g_files s i))" "g_pipes (upd_file i f s) = g_pipes s"
  "g_fds (upd_pipe p g s) = g_fds s" "g_files (upd_pipe p g s) = g_files s" "g_pipes (upd_pipe p g s) = (g_pipes s)(p := g (g_pipes s p))"
  "g_fds (upd_fd pid fd h s) = (g_fds s)(pid := (g_fds s pid)(fd := h (g_fds s pid fd)))" "g_files (upd_fd pid fd h s) = g_files s"
  "g_pipes (upd_fd pid fd h s) = g_pipes s"
  by (simp_all add: upd_file_def upd_pipe_def upd_fd_def)

lemma open_fd_fields [simp]:
  "g_fds (open_fd pid fd fid s) = (g_fds s)(pid := (g_fds s pid)(fd := \<lparr>en_open = True, en_file_id = fid\<rparr>))"
  "g_files (open_fd pid fd fid s) = g_files s" "g_pipes (open_fd pid fd fid s) = g_pipes s"
  by (simp_all add: open_fd_def)

lemma valid_pidD: "valid_pid pid \<Longrightarrow> nat pid < FD_MAX_PROCESSES"
  by (auto simp: valid_pid_def)

lemma free_file_slotD: "free_file_slot s = Some i \<Longrightarrow> i < FD_FILE_MAX \<and> ff_references (g_files s i) = 0"
  by (auto simp: free_file_slot_def first_from_Some_iff simp del: first_from_numeral)

lemma free_fd_slotD: "free_fd_slot s pid skip = Some fd \<Longrightarrow> fd < FD_MAX_PER_PROCESS \<and> \<not> en_open (g_fds s pid fd) \<and> Some fd \<noteq> skip"
  by (auto simp: free_fd_slot_def first_from_Some_iff simp del: first_from_numeral)

lemma entry_forD:
  "entry_for s pid fd = Some e \<Longrightarrow> nat pid < FD_MAX_PROCESSES \<and> nat fd < FD_MAX_PER_PROCESS \<and> e = g_fds s (nat pid) (nat fd) \<and> en_open e"
  by (auto simp: entry_for_def valid_pid_def split: if_splits)

lemma file_forD:
  "file_for s (Some e) = Some i \<Longrightarrow> i = unat (en_file_id e) \<and> i < FD_FILE_MAX \<and> ff_references (g_files s i) \<noteq> 0"
  by (auto simp: file_for_def split: if_splits)

lemma pipe_end_dead [simp]: "ff_references f = 0 \<Longrightarrow> pipe_end f = None"
  by (simp add: pipe_end_def)

lemma open_live:
  assumes "refs_ok fds refs" "pid < FD_MAX_PROCESSES" "fd < FD_MAX_PER_PROCESS" "en_open (fds pid fd)"
  shows "unat (en_file_id (fds pid fd)) < FD_FILE_MAX \<and> refs (unat (en_file_id (fds pid fd))) \<noteq> 0"
proof -
  have lt: "unat (en_file_id (fds pid fd)) < FD_FILE_MAX" using refs_okD(2) [OF assms] .
  have "(pid, fd) \<in> descriptors_of fds (unat (en_file_id (fds pid fd)))" using assms by (simp add: descriptors_of_def)
  then have "card (descriptors_of fds (unat (en_file_id (fds pid fd)))) \<noteq> 0" by (metis card_0_eq empty_iff finite_descriptors)
  then show ?thesis using refs_okD(1) [OF assms(1) lt] lt by auto
qed

text \<open>A new file, a new descriptor of an open file.\<close>

lemma fd_ok_new:
  assumes ok: "fd_ok s" and slot: "free_file_slot s = Some i" and pid: "pid < FD_MAX_PROCESSES" and D: "D \<subseteq> {..<FD_MAX_PER_PROCESS}"
    and closed: "\<And>d. d \<in> D \<Longrightarrow> \<not> en_open (g_fds s pid d)"
    and fds': "\<And>q d. g_fds s' q d = (if q = pid \<and> d \<in> D then \<lparr>en_open = True, en_file_id = word_of_nat i\<rparr> else g_fds s q d)"
    and files': "g_files s' = (g_files s)(i := f)" and f: "unat (ff_references f) = card D" "ff_kind f \<notin> {FD_KIND_PIPE_READ, FD_KIND_PIPE_WRITE}"
    and pipes': "g_pipes s' = g_pipes s"
  shows "fd_ok s'"
proof -
  note i = free_file_slotD [OF slot]
  have "refs_ok (g_fds s') (ff_references \<circ> g_files s')"
    by (rule refs_ok_new [OF _ _ _ pid D closed fds' _ f(1), where refs = "ff_references \<circ> g_files s"])
      (use ok i in \<open>auto simp: fd_ok_def files' fun_eq_iff\<close>)
  moreover have "pipe_end \<circ> g_files s' = pipe_end \<circ> g_files s" using i f(2) by (auto simp: files' fun_eq_iff pipe_end_def)
  ultimately show ?thesis using ok pipes' by (simp add: fd_ok_def)
qed

lemma pipe_end_add_reference:
  "ff_references f \<noteq> 0 \<Longrightarrow> ff_references (add_reference f) \<noteq> 0 \<Longrightarrow> pipe_end (add_reference f) = pipe_end f"
  by (simp add: pipe_end_def add_reference_def)

lemma fd_ok_add:
  assumes ok: "fd_ok s" and i: "unat fid < FD_FILE_MAX" "ff_references (g_files s (unat fid)) \<noteq> 0"
    and slot: "pid < FD_MAX_PROCESSES" "fd < FD_MAX_PER_PROCESS" "\<not> en_open (g_fds s pid fd)"
    and fds': "g_fds s' = (g_fds s)(pid := (g_fds s pid)(fd := \<lparr>en_open = True, en_file_id = fid\<rparr>))"
    and files': "g_files s' = (g_files s)(unat fid := add_reference (g_files s (unat fid)))" and pipes': "g_pipes s' = g_pipes s"
  shows "fd_ok s'"
proof -
  have refs: "refs_ok (g_fds s') (ff_references \<circ> g_files s')"
    by (rule refs_ok_add [OF _ i(1) slot fds', where refs = "ff_references \<circ> g_files s"])
      (use ok in \<open>auto simp: fd_ok_def files' add_reference_def fun_eq_iff\<close>)
  have "ff_references (g_files s' (unat fid)) \<noteq> 0" using open_live [OF refs slot(1,2)] by (simp add: fds')
  then have "pipe_end (add_reference (g_files s (unat fid))) = pipe_end (g_files s (unat fid))"
    using i(2) by (intro pipe_end_add_reference) (simp_all add: files')
  then have "pipe_end \<circ> g_files s' = pipe_end \<circ> g_files s" by (simp add: files' fun_eq_iff)
  then show ?thesis using ok refs pipes' by (simp add: fd_ok_def)
qed

lemma fd_ok_init: "fd_ok (fd_init s)"
proof -
  have "descriptors_of (g_fds (fd_init s)) i = {}" for i by (auto simp: descriptors_of_def fd_init_def)
  moreover have "ends_of (pipe_end \<circ> g_files (fd_init s)) k p = {}" for k p by (auto simp: ends_of_def fd_init_def)
  ultimately show ?thesis by (auto simp: fd_ok_def refs_ok_def pipes_ok_def pipe_ok_def fd_init_def)
qed

lemma fd_ok_open_slot:
  assumes "fd_ok s" and "pid < FD_MAX_PROCESSES"
  shows "fd_ok (snd (open_slot pid path flags stat s))"
proof -
  have path: "fd_ok (upd_file i (\<lambda>f. f\<lparr>ff_path := p\<rparr>) s)" for i p
  proof -
    have "ff_references \<circ> g_files (upd_file i (\<lambda>f. f\<lparr>ff_path := p\<rparr>) s) = ff_references \<circ> g_files s"
      "pipe_end \<circ> g_files (upd_file i (\<lambda>f. f\<lparr>ff_path := p\<rparr>) s) = pipe_end \<circ> g_files s"
      by (auto simp: fun_eq_iff pipe_end_def)
    then show ?thesis using assms(1) by (simp add: fd_ok_def)
  qed
  show ?thesis
  proof (cases "free_file_slot s")
    case (Some i)
    show ?thesis
    proof (cases "free_fd_slot s pid None")
      case (Some fd)
      note d = free_fd_slotD [OF Some]
      show ?thesis
        unfolding open_slot_def Let_def copy_path_def
        using \<open>free_file_slot s = Some i\<close> Some path
        by (auto intro!: fd_ok_new [OF assms(1) \<open>free_file_slot s = Some i\<close> assms(2), of "{fd}"] simp: d)
    qed (simp add: open_slot_def assms \<open>free_file_slot s = Some i\<close>)
  qed (simp add: open_slot_def assms)
qed

lemma fd_ok_create_custom:
  assumes "fd_ok s" and "knd \<notin> {FD_KIND_PIPE_READ, FD_KIND_PIPE_WRITE}"
  shows "fd_ok (snd (fd_create_custom pid knd ptr flags s))"
  using assms(2) unfolding fd_create_custom_def
  by (auto simp: assms(1) split: option.splits dest!: free_fd_slotD valid_pidD intro!: fd_ok_new [OF assms(1), where pid = "nat pid" and D = "{_}"])

lemma fd_ok_bind_pty:
  assumes "fd_ok s"
  shows "fd_ok (snd (fd_bind_pty pid handle flags s))"
  unfolding fd_bind_pty_def
  by (auto simp: assms split: option.splits dest!: free_fd_slotD valid_pidD intro!: fd_ok_new [OF assms(1), where pid = "nat pid" and D = "{_}"])

lemma fd_ok_bind_pty_stdio:
  assumes "fd_ok s"
  shows "fd_ok (snd (fd_bind_pty_stdio pid handle s))"
  unfolding fd_bind_pty_stdio_def
  by (auto simp: assms split: option.splits dest!: valid_pidD intro!: fd_ok_new [OF assms(1), where pid = "nat pid" and D = "{0, 1, 2}"])

lemma fd_ok_dup_min:
  assumes "fd_ok s"
  shows "fd_ok (snd (fd_dup_min pid fd min_fd s))"
proof -
  have "fd_ok (upd_file i add_reference (open_fd (nat pid) c (en_file_id e) s))"
    if "entry_for s pid fd = Some e" "file_for s (Some e) = Some i" "min_fd < int FD_MAX_PER_PROCESS"
      "first_from (\<lambda>c. \<not> en_open (g_fds s (nat pid) c)) (nat min_fd) (FD_MAX_PER_PROCESS - nat min_fd) = Some c" for e i c
    by (rule fd_ok_add [OF assms, where pid = "nat pid" and fd = c and fid = "en_file_id e"])
      (use that entry_forD [OF that(1)] file_forD [OF that(2)] first_from_SomeD [OF that(4)] in auto)
  then show ?thesis by (auto simp: fd_dup_min_def assms split: option.splits)
qed

lemma fd_ok_bind_file_id:
  assumes "fd_ok s"
  shows "fd_ok (snd (fd_bind_file_id pid fid s))"
  unfolding fd_bind_file_id_def
  by (auto simp: assms split: option.splits dest!: free_fd_slotD valid_pidD intro!: fd_ok_add [OF assms, where pid = "nat pid"])

text \<open>Closing.\<close>

lemma release_object_fields [simp]:
  "g_fds (release_object pid f s) = g_fds s" "g_files (release_object pid f s) = g_files s"
  "g_pipes (release_object pid f s) =
     (if ff_kind f \<in> {FD_KIND_PIPE_READ, FD_KIND_PIPE_WRITE} \<and> unat (ff_pipe_id f) < FD_PIPE_MAX
      then (g_pipes s)(unat (ff_pipe_id f) := pipe_drop (ff_kind f) (g_pipes s (unat (ff_pipe_id f)))) else g_pipes s)"
  by (cases "ff_kind f"; simp add: release_object_def release_memfd_def split: prod.splits)+

definition close_file :: "int \<Rightarrow> nat \<Rightarrow> ('d, 'x) fds_scheme \<Rightarrow> ('d, 'x) fds_scheme" where
  "close_file pid i s =
     (let r = ff_references (g_files s i) - 1; s1 = upd_file i (\<lambda>f. f\<lparr>ff_references := r\<rparr>) s
      in if r = 0 then upd_file i (\<lambda>f. f\<lparr>ff_custom_ptr := None, ff_path := ''''\<rparr>) (release_object pid (g_files s1 i) s1) else s1)"

lemma fd_close_eq:
  "fd_close pid fd s =
     (case file_for s (entry_for s pid fd) of
        None \<Rightarrow> (- 1, s)
      | Some i \<Rightarrow> (0, upd_fd (nat pid) (nat fd) (\<lambda>e. e\<lparr>en_open := False\<rparr>) (close_file pid i s)))"
  by (cases "file_for s (entry_for s pid fd)") (simp_all add: fd_close_def close_file_def Let_def)

lemma close_file_fds [simp]: "g_fds (close_file pid i s) = g_fds s"
  by (simp add: close_file_def Let_def)

lemma close_file_refs: "ff_references \<circ> g_files (close_file pid i s) = (ff_references \<circ> g_files s)(i := ff_references (g_files s i) - 1)"
  by (auto simp: close_file_def Let_def fun_eq_iff)

lemma close_file_pipes:
  assumes ok: "pipes_ok (pipe_end \<circ> g_files s) (g_pipes s)" and i: "i < FD_FILE_MAX" "ff_references (g_files s i) \<noteq> 0"
  shows "pipes_ok (pipe_end \<circ> g_files (close_file pid i s)) (g_pipes (close_file pid i s))"
proof (cases "ff_references (g_files s i) - 1 = 0")
  case False
  then have "pipe_end \<circ> g_files (close_file pid i s) = pipe_end \<circ> g_files s" "g_pipes (close_file pid i s) = g_pipes s"
    using i(2) by (auto simp: close_file_def Let_def fun_eq_iff pipe_end_def)
  then show ?thesis using ok by simp
next
  case True
  have e: "pipe_end \<circ> g_files (close_file pid i s) = (pipe_end \<circ> g_files s)(i := None)"
    using True by (auto simp: close_file_def Let_def fun_eq_iff)
  show ?thesis
  proof (cases "ff_kind (g_files s i) \<in> {FD_KIND_PIPE_READ, FD_KIND_PIPE_WRITE}")
    case k: True
    let ?p = "unat (ff_pipe_id (g_files s i))" and ?k = "ff_kind (g_files s i)"
    have pe: "(pipe_end \<circ> g_files s) i = Some (?k, ?p)" using k i(2) by (simp add: pipe_end_def)
    then have "?p < FD_PIPE_MAX" using ok i(1) by (auto simp: pipes_ok_def)
    then have "g_pipes (close_file pid i s) = (g_pipes s)(?p := pipe_drop ?k (g_pipes s ?p))"
      using True k by (auto simp: close_file_def Let_def)
    then show ?thesis using pipes_ok_drop [OF ok i(1) pe k] by (simp only: e)
  next
    case False
    have pe: "pipe_end (g_files s i) = None" using False by (simp add: pipe_end_def)
    have "(pipe_end \<circ> g_files s)(i := None) = pipe_end \<circ> g_files s" using pe by (auto simp: fun_eq_iff)
    then show ?thesis using ok e False True by (simp add: close_file_def Let_def)
  qed
qed

lemma fd_ok_close:
  assumes "fd_ok s"
  shows "fd_ok (snd (fd_close pid fd s))"
proof (cases "file_for s (entry_for s pid fd)")
  case (Some i)
  then obtain e where e: "entry_for s pid fd = Some e" "file_for s (Some e) = Some i" by (cases "entry_for s pid fd") (auto simp: file_for_def)
  note en = entry_forD [OF e(1)] and fl = file_forD [OF e(2)]
  have "refs_ok ((g_fds s)(nat pid := (g_fds s (nat pid))(nat fd := (g_fds s (nat pid) (nat fd))\<lparr>en_open := False\<rparr>)))
      (ff_references \<circ> g_files (close_file pid i s))"
    by (rule refs_ok_drop [where fds = "g_fds s" and refs = "ff_references \<circ> g_files s" and pid = "nat pid" and fd = "nat fd" and i = i])
      (use assms en fl in \<open>auto simp: fd_ok_def close_file_refs\<close>)
  moreover have "pipes_ok (pipe_end \<circ> g_files (close_file pid i s)) (g_pipes (close_file pid i s))"
    using assms fl by (intro close_file_pipes) (auto simp: fd_ok_def)
  ultimately show ?thesis by (simp add: fd_close_eq Some fd_ok_def)
qed (simp add: fd_close_eq assms)

lemma fd_close_fds: "(q, d) \<noteq> (nat pid, nat fd) \<Longrightarrow> g_fds (snd (fd_close pid fd s)) q d = g_fds s q d"
  by (auto simp: fd_close_eq split: option.splits)

lemma fd_close_done:
  assumes "fst (fd_close pid fd s) = 0"
  shows "\<not> en_open (g_fds (snd (fd_close pid fd s)) (nat pid) (nat fd))"
  using assms by (auto simp: fd_close_eq split: option.splits)

lemma fd_ok_dup2:
  assumes ok: "fd_ok s"
  shows "fd_ok (snd (fd_dup2 pid source target s))"
proof -
  let ?t = "if en_open (g_fds s (nat pid) (nat target)) then fd_close pid target s else (0, s)"
  have "fd_ok (snd ?t)" using ok fd_ok_close [OF ok] by simp
  moreover have "fd_ok (upd_file i add_reference (open_fd (nat pid) (nat target) (en_file_id e) (snd ?t)))"
    if e: "entry_for s pid source = Some e" "file_for s (Some e) = Some i" and t: "\<not> target < 0" "target < int FD_MAX_PER_PROCESS" "source \<noteq> target"
      and r: "fst ?t = 0" for e i
  proof -
    note en = entry_forD [OF e(1)] and fl = file_forD [OF e(2)]
    have ne: "nat source \<noteq> nat target" using e(1) t by (auto simp: entry_for_def split: if_splits)
    have src: "g_fds (snd ?t) (nat pid) (nat source) = e" using en ne by (auto simp: fd_close_fds)
    have closed: "\<not> en_open (g_fds (snd ?t) (nat pid) (nat target))" using r fd_close_done [where s = s and pid = pid and fd = target] by auto
    have live: "ff_references (g_files (snd ?t) (unat (en_file_id e))) \<noteq> 0"
      using open_live [of "g_fds (snd ?t)" "ff_references \<circ> g_files (snd ?t)" "nat pid" "nat source"] \<open>fd_ok (snd ?t)\<close> en src by (auto simp: fd_ok_def split del: if_split)
    show ?thesis
      by (rule fd_ok_add [OF \<open>fd_ok (snd ?t)\<close>, where pid = "nat pid" and fd = "nat target" and fid = "en_file_id e"])
        (use en fl t live closed in auto)
  qed
  ultimately show ?thesis by (auto simp: fd_dup2_def ok case_prod_beta Let_def split: option.splits)
qed

lemma inherit_one_ok:
  assumes ok: "fd_ok s" and child: "child < FD_MAX_PROCESSES" and fd: "fd < FD_MAX_PER_PROCESS" "\<not> en_open (g_fds s child fd)"
  shows "fd_ok (inherit_one parent child fd s)" and "d \<noteq> fd \<Longrightarrow> g_fds (inherit_one parent child fd s) child d = g_fds s child d"
proof -
  have "fd_ok (upd_file i add_reference (open_fd child fd (en_file_id e) s))" if "file_for s (Some e) = Some i" for e i
    by (rule fd_ok_add [OF ok, where pid = child and fd = fd and fid = "en_file_id e"]) (use file_forD [OF that] child fd in auto)
  then show "fd_ok (inherit_one parent child fd s)" by (auto simp: inherit_one_def ok split: option.splits)
  show "d \<noteq> fd \<Longrightarrow> g_fds (inherit_one parent child fd s) child d = g_fds s child d"
    by (auto simp: inherit_one_def split: option.splits)
qed

lemma fd_ok_inherit:
  assumes "fd_ok s"
  shows "fd_ok (snd (fd_inherit parent child s))"
proof -
  have "fd_ok (fold (inherit_one p c) ds t)"
    if "fd_ok t" "c < FD_MAX_PROCESSES" "distinct ds" "\<forall>d \<in> set ds. d < FD_MAX_PER_PROCESS \<and> \<not> en_open (g_fds t c d)" for p c ds and t :: "('a, 'b) fds_scheme"
    using that
  proof (induction ds arbitrary: t)
    case (Cons d ds)
    have d: "d < FD_MAX_PER_PROCESS" "\<not> en_open (g_fds t c d)" using Cons.prems(4) by simp_all
    note one = inherit_one_ok [OF Cons.prems(1,2) d, where parent = p]
    have "\<forall>x \<in> set ds. x < FD_MAX_PER_PROCESS \<and> \<not> en_open (g_fds (inherit_one p c d t) c x)"
    proof
      fix x assume "x \<in> set ds"
      then have "x \<noteq> d" using Cons.prems(3) by auto
      with \<open>x \<in> set ds\<close> show "x < FD_MAX_PER_PROCESS \<and> \<not> en_open (g_fds (inherit_one p c d t) c x)" using Cons.prems(4) one(2) by simp
    qed
    then show ?case using Cons.IH [OF one(1) Cons.prems(2)] Cons.prems(3) by simp
  qed simp
  then show ?thesis using assms valid_pidD unfolding fd_inherit_def by (auto simp del: upt_Suc)
qed

lemma fd_ok_close_owner:
  assumes "fd_ok s"
  shows "fd_ok (fd_close_owner pid s)"
proof -
  have "fd_ok (fold (\<lambda>fd s. if en_open (g_fds s (nat pid) fd) then snd (fd_close pid (int fd) s) else s) ds t)" if "fd_ok t"
    for ds and t :: "('a, 'b) fds_scheme"
    using that by (induction ds arbitrary: t) (auto simp: fd_ok_close)
  then show ?thesis using assms by (simp add: fd_close_owner_def)
qed

text \<open>The two files of a new pipe.\<close>

lemma fd_ok_pipe_create:
  assumes ok: "fd_ok s"
  shows "fd_ok (snd (fd_pipe_create pid s))"
proof -
  have undo: "upd_file i (\<lambda>f. f\<lparr>ff_references := 0\<rparr>) (upd_file i (\<lambda>f. f\<lparr>ff_references := 1\<rparr>) s) = s"
    if "free_file_slot s = Some i" for i
  proof -
    have "(g_files s)(i := (g_files s i)\<lparr>ff_references := 0\<rparr>) = g_files s" using free_file_slotD [OF that] by (simp add: fun_eq_iff)
    then show ?thesis by (simp add: upd_file_def)
  qed
  have "fd_ok (open_fd (nat pid) wfd (word_of_nat wfile) (open_fd (nat pid) rfd (word_of_nat rfile)
      (upd_file wfile (\<lambda>f. f\<lparr>ff_references := 1, ff_kind := FD_KIND_PIPE_WRITE, ff_pipe_id := word_of_nat p, ff_flags := FD_OPEN_WRITE\<rparr>)
        (upd_file rfile (\<lambda>f. f\<lparr>ff_kind := FD_KIND_PIPE_READ, ff_pipe_id := word_of_nat p, ff_flags := FD_OPEN_READ\<rparr>)
          (upd_pipe p (\<lambda>q. q\<lparr>fp_allocated := True, fp_readers := 1, fp_writers := 1, fp_ring := ring_reset (fp_ring q)\<rparr>) s1)))))" (is "fd_ok ?s")
    if pid: "valid_pid pid" and fds: "free_fd_slot s (nat pid) None = Some rfd" "free_fd_slot s (nat pid) (Some rfd) = Some wfd"
      and files: "free_file_slot s = Some rfile" "free_file_slot s1 = Some wfile" and s1: "s1 = upd_file rfile (\<lambda>f. f\<lparr>ff_references := 1\<rparr>) s"
      and p: "first_from (\<lambda>i. \<not> fp_allocated (g_pipes s1 i)) 0 FD_PIPE_MAX = Some p" for rfd wfd rfile wfile s1 p
  proof -
    note r = free_fd_slotD [OF fds(1)] free_file_slotD [OF files(1)] and w = free_fd_slotD [OF fds(2)] free_file_slotD [OF files(2)]
    have ne: "rfile \<noteq> wfile" "rfd \<noteq> wfd" "ff_references (g_files s wfile) = 0" using r w by (auto simp: s1 split: if_splits)
    have pp: "p < FD_PIPE_MAX" "\<not> fp_allocated (g_pipes s p)" using first_from_SomeD [OF p] by (simp_all add: s1)
    have pid16: "unat (word_of_nat p :: u16) = p" using pp(1) by (simp add: unsigned_of_nat take_bit_nat_eq_self)
    let ?fds = "(g_fds s)(nat pid := (g_fds s (nat pid))(rfd := \<lparr>en_open = True, en_file_id = word_of_nat rfile\<rparr>))"
    have one: "refs_ok ?fds ((ff_references \<circ> g_files s)(rfile := 1))"
      by (rule refs_ok_new [where fds = "g_fds s" and refs = "ff_references \<circ> g_files s" and i = rfile and pid = "nat pid" and D = "{rfd}" and n = 1])
        (use ok r valid_pidD [OF pid] in \<open>auto simp: fd_ok_def\<close>)
    have "refs_ok (g_fds ?s) (ff_references \<circ> g_files ?s)"
      by (rule refs_ok_new [OF one, where i = wfile and pid = "nat pid" and D = "{wfd}" and n = 1])
        (use w ne valid_pidD [OF pid] in \<open>auto simp: s1 fun_eq_iff\<close>)
    moreover have "pipe_end \<circ> g_files ?s =
        (pipe_end \<circ> g_files s)(rfile := Some (FD_KIND_PIPE_READ, p), wfile := Some (FD_KIND_PIPE_WRITE, p))"
      using ne pid16 by (auto simp: s1 fun_eq_iff pipe_end_def)
    then have "pipes_ok (pipe_end \<circ> g_files ?s) (g_pipes ?s)"
      using pipes_ok_new [of "pipe_end \<circ> g_files s" "g_pipes s" rfile wfile p] ok r w ne pp by (simp add: fd_ok_def s1)
    ultimately show ?thesis by (simp only: fd_ok_def)
  qed
  then show ?thesis
    using ok undo by (auto simp: fd_pipe_create_def Let_def split: option.splits simp del: first_from_numeral)
qed

text \<open>
  Reading, writing and the other calls that go through a descriptor. A computation is \<open>safe\<close> when it keeps the counts; the rules are
  collected as \<open>safe\<close>.
\<close>

named_theorems safe \<open>introduction rules for computations that keep the counts\<close>

definition safe :: "(('d, 'x) fds_scheme, 'a) state \<Rightarrow> bool" where
  "safe m \<longleftrightarrow> (\<forall>s. fd_ok s \<longrightarrow> fd_ok (snd (run_state m s)))"

definition fd_view :: "('d, 'x) fds_scheme \<Rightarrow> (nat \<Rightarrow> nat \<Rightarrow> fd_entry) \<times> (nat \<Rightarrow> u32) \<times> (nat \<Rightarrow> (fd_kind \<times> nat) option) \<times> (nat \<Rightarrow> fd_pipe)" where
  "fd_view s = (g_fds s, ff_references \<circ> g_files s, pipe_end \<circ> g_files s, g_pipes s)"

lemma fd_view_ok: "fd_view s' = fd_view s \<Longrightarrow> fd_ok s' = fd_ok s"
  by (simp add: fd_view_def fd_ok_def)

lemma safe_keeps: "keeps fd_view m \<Longrightarrow> safe m"
  unfolding safe_def keeps_def using fd_view_ok by blast

lemma keeps_view: "keeps vfs.more m \<Longrightarrow> keeps fd_view m"
proof (unfold keeps_def, rule allI)
  fix s :: "('a, 'b) fds_scheme"
  assume "\<forall>s. vfs.more (snd (run_state m s)) = vfs.more s"
  then have "vfs.more (snd (run_state m s)) = vfs.more s" by blast
  then show "fd_view (snd (run_state m s)) = fd_view s"
    by (cases s, cases "snd (run_state m s)") (simp add: fd_view_def)
qed

lemma view_fields [simp]:
  "fd_view (s\<lparr>k_unix := u\<rparr>) = fd_view s" "fd_view (s\<lparr>k_evdev := v\<rparr>) = fd_view s" "fd_view (s\<lparr>k_ttys := t\<rparr>) = fd_view s" "fd_view (s\<lparr>m_mm := m\<rparr>) = fd_view s"
  by (simp_all add: fd_view_def)

lemma view_upd_offset [simp]: "fd_view (upd_file i (\<lambda>f. f\<lparr>ff_offset := g f\<rparr>) s) = fd_view s"
  by (auto simp: fd_view_def fun_eq_iff pipe_end_def)

lemma safe_return [safe]: "safe (State_Monad.return a)"
  by (simp add: safe_def)

lemma safe_get [safe]: "safe State_Monad.get"
  by (simp add: safe_def)

lemma safe_bind [safe]: "safe m \<Longrightarrow> (\<And>a. safe (g a)) \<Longrightarrow> safe (State_Monad.bind m g)"
  by (auto simp: safe_def split: prod.splits)

lemma safe_if [safe]: "(b \<Longrightarrow> safe m) \<Longrightarrow> (\<not> b \<Longrightarrow> safe n) \<Longrightarrow> safe (if b then m else n)"
  by simp

lemma safe_Let [safe]: "safe (g x) \<Longrightarrow> safe (Let x g)"
  by simp

lemma safe_option [safe]: "safe m \<Longrightarrow> (\<And>y. safe (g y)) \<Longrightarrow> safe (case x of None \<Rightarrow> m | Some y \<Rightarrow> g y)"
  by (cases x) auto

lemma safe_prod [safe]: "(\<And>a b. safe (g a b)) \<Longrightarrow> safe (case x of (a, b) \<Rightarrow> g a b)"
  by (cases x) auto

lemma safe_kind [safe]:
  "safe m1 \<Longrightarrow> safe m2 \<Longrightarrow> safe m3 \<Longrightarrow> safe m4 \<Longrightarrow> safe m5 \<Longrightarrow> safe m6 \<Longrightarrow> safe m7 \<Longrightarrow> safe m8 \<Longrightarrow> safe m9 \<Longrightarrow> safe m10 \<Longrightarrow> safe m11 \<Longrightarrow>
   safe (case k of FD_KIND_FILE \<Rightarrow> m1 | FD_KIND_DIRECTORY \<Rightarrow> m2 | FD_KIND_PIPE_READ \<Rightarrow> m3 | FD_KIND_PIPE_WRITE \<Rightarrow> m4 | FD_KIND_PTY \<Rightarrow> m5
     | FD_KIND_UNIX_SOCKET \<Rightarrow> m6 | FD_KIND_MEMFD \<Rightarrow> m7 | FD_KIND_EPOLL \<Rightarrow> m8 | FD_KIND_EVDEV \<Rightarrow> m9 | FD_KIND_DRM_FB \<Rightarrow> m10 | FD_KIND_EVENTFD \<Rightarrow> m11)"
  by (cases k) auto

lemma safe_State: "(\<And>s. fd_view (snd (g s)) = fd_view s) \<Longrightarrow> safe (State g)"
  by (intro safe_keeps keeps_State)

lemma safe_update: "(\<And>s. fd_view (g s) = fd_view s) \<Longrightarrow> safe (State_Monad.update g)"
  by (intro safe_keeps keeps_update)

lemmas safe_view = safe_keeps [OF keeps_view]

lemmas safe_vfs [safe] =
  safe_view [OF above_vfs_stat] safe_view [OF above_vfs_list] safe_view [OF above_vfs_read] safe_view [OF above_vfs_read_at]
  safe_view [OF above_vfs_write] safe_view [OF above_write_pages] safe_view [OF above_open_stat]

lemma fd_ok_ring:
  assumes "fd_ok s" and "fp_allocated (g_pipes s p) \<Longrightarrow> ring_wf FD_PIPE_BUFFER (fp_ring (g_pipes s p)) \<Longrightarrow> ring_wf FD_PIPE_BUFFER r"
  shows "fd_ok (upd_pipe p (\<lambda>q. q\<lparr>fp_ring := r\<rparr>) s)"
  using assms by (auto simp: fd_ok_def pipes_ok_def pipe_ok_def)

lemma safe_pipe_read [safe]: "safe (State (pipe_read pipe_id n))"
  by (auto simp: safe_def pipe_read_def Let_def case_prod_beta intro!: fd_ok_ring pipe_ring.get_wf)

lemma safe_pipe_write [safe]: "safe (State (\<lambda>s. case pipe_write pipe_id data s of (r, s1) \<Rightarrow> ((r, None), s1)))"
  by (auto simp: safe_def pipe_write_def Let_def case_prod_beta intro!: fd_ok_ring pipe_ring.put_wf)

lemma safe_open_slot: "pid < FD_MAX_PROCESSES \<Longrightarrow> safe (State (open_slot pid path flags stat))"
  by (simp add: safe_def fd_ok_open_slot)

lemma safe_fd_open: "safe (fd_open drv pid path flags)"
  unfolding fd_open_def by (intro safe safe_open_slot) (auto dest: valid_pidD)

lemma safe_fd_read_at [safe]: "safe (fd_read_at drv pid fd off n)"
  unfolding fd_read_at_def by (intro safe)

lemma safe_read_file_kind [safe]: "safe (read_file_kind drv pid fd i n)"
  unfolding read_file_kind_def by (intro safe safe_update) simp

lemma safe_fd_read: "safe (fd_read drv pid fd n)"
  unfolding fd_read_def by (intro safe safe_State) (simp_all split: prod.splits)

lemma safe_alloc_buffer [safe]: "safe (alloc_buffer n)"
  unfolding alloc_buffer_def by (intro safe_State) (simp add: Let_def split: prod.splits)

lemma safe_free_buffer [safe]: "safe (free_buffer p n)"
  unfolding free_buffer_def by (intro safe_update) simp

lemma safe_write_file_kind [safe]: "safe (write_file_kind drv i data)"
  unfolding write_file_kind_def by (intro safe safe_update) simp

lemma safe_fd_write: "safe (fd_write drv pid fd data)"
  unfolding fd_write_def by (intro safe safe_State) (simp_all split: prod.splits)

lemma safe_fd_seek: "safe (fd_seek drv pid fd off whence)"
  unfolding fd_seek_def fd_extent_def by (intro safe safe_update) simp

lemma safe_fd_poll: "safe (fd_poll drv pid fd events)"
  unfolding fd_poll_def by (intro safe)

lemma safe_fd_readdir: "safe (fd_readdir drv pid fd)"
  unfolding fd_readdir_def by (intro safe safe_update) simp

lemma safe_fd_stat: "safe (fd_stat drv pid fd)"
  unfolding fd_stat_def by (intro safe)

subsection \<open>Reachable descriptor tables\<close>

text \<open>The calls of \<open>fd.c\<close>, by any process, with any arguments. Descriptors for objects are made for objects only, as their callers do.\<close>

datatype fd_call =
  Open int string u32 | Custom int fd_kind "nat option" u32 | Make_pipe int | Bind_pty int int u32 | Bind_stdio int int
| Dup int int | Dup_min int int int | Dup2 int int int | Inherit int int | Close int int | Close_owner int | Bind_file int u16
| Read int int u32 | Read_at int int u64 u32 | Write int int "u8 list" | Seek int int int int | Poll int int u32 | Readdir int int | Stat int int

fun fd_step :: "'d drivers \<Rightarrow> fd_call \<Rightarrow> ('d, 'x) fds_scheme \<Rightarrow> ('d, 'x) fds_scheme" where
  "fd_step drv (Open pid path flags) s = snd (run_state (fd_open drv pid path flags) s)"
| "fd_step drv (Custom pid k ptr flags) s = (if k \<in> {FD_KIND_PIPE_READ, FD_KIND_PIPE_WRITE} then s else snd (fd_create_custom pid k ptr flags s))"
| "fd_step drv (Make_pipe pid) s = snd (fd_pipe_create pid s)"
| "fd_step drv (Bind_pty pid h flags) s = snd (fd_bind_pty pid h flags s)"
| "fd_step drv (Bind_stdio pid h) s = snd (fd_bind_pty_stdio pid h s)"
| "fd_step drv (Dup pid fd) s = snd (fd_dup pid fd s)"
| "fd_step drv (Dup_min pid fd lo) s = snd (fd_dup_min pid fd lo s)"
| "fd_step drv (Dup2 pid src dst) s = snd (fd_dup2 pid src dst s)"
| "fd_step drv (Inherit parent child) s = snd (fd_inherit parent child s)"
| "fd_step drv (Close pid fd) s = snd (fd_close pid fd s)"
| "fd_step drv (Close_owner pid) s = fd_close_owner pid s"
| "fd_step drv (Bind_file pid fid) s = snd (fd_bind_file_id pid fid s)"
| "fd_step drv (Read pid fd n) s = snd (run_state (fd_read drv pid fd n) s)"
| "fd_step drv (Read_at pid fd off n) s = snd (run_state (fd_read_at drv pid fd off n) s)"
| "fd_step drv (Write pid fd data) s = snd (run_state (fd_write drv pid fd data) s)"
| "fd_step drv (Seek pid fd off whence) s = snd (run_state (fd_seek drv pid fd off whence) s)"
| "fd_step drv (Poll pid fd events) s = snd (run_state (fd_poll drv pid fd events) s)"
| "fd_step drv (Readdir pid fd) s = snd (run_state (fd_readdir drv pid fd) s)"
| "fd_step drv (Stat pid fd) s = snd (run_state (fd_stat drv pid fd) s)"

text \<open>The tables are static in \<open>fd.c\<close>: between two calls the rest of the kernel may change everything else.\<close>

inductive fd_reach :: "'d drivers \<Rightarrow> ('d, 'x) fds_scheme \<Rightarrow> bool" for drv where
  start: "fd_reach drv (fd_init s)"
| call: "fd_reach drv s \<Longrightarrow> fd_reach drv (fd_step drv c s)"
| other: "fd_reach drv s \<Longrightarrow> g_fds s' = g_fds s \<Longrightarrow> g_files s' = g_files s \<Longrightarrow> g_pipes s' = g_pipes s \<Longrightarrow> fd_reach drv s'"

lemma safeD: "safe m \<Longrightarrow> fd_ok s \<Longrightarrow> fd_ok (snd (run_state m s))"
  by (simp add: safe_def)

lemmas safe_calls =
  safeD [OF safe_fd_open] safeD [OF safe_fd_read] safeD [OF safe_fd_read_at] safeD [OF safe_fd_write] safeD [OF safe_fd_seek]
  safeD [OF safe_fd_poll] safeD [OF safe_fd_readdir] safeD [OF safe_fd_stat]

lemma fd_ok_step: "fd_ok s \<Longrightarrow> fd_ok (fd_step drv c s)"
  by (cases c) (simp_all add: safe_calls fd_dup_def fd_ok_create_custom fd_ok_pipe_create fd_ok_bind_pty fd_ok_bind_pty_stdio fd_ok_dup_min fd_ok_dup2
    fd_ok_inherit fd_ok_close fd_ok_close_owner fd_ok_bind_file_id)

lemma fd_reach_ok: "fd_reach drv s \<Longrightarrow> fd_ok s"
proof (induction rule: fd_reach.induct)
  case (start s)
  show ?case by (rule fd_ok_init)
next
  case (call s c)
  then show ?case by (intro fd_ok_step)
next
  case (other s s')
  then show ?case by (simp add: fd_ok_def)
qed

text \<open>What exact counts mean: for every file, for every descriptor, for every pipe.\<close>

lemma fd_ok_exact:
  assumes "fd_ok s"
  shows "(\<forall>i < FD_FILE_MAX. unat (ff_references (g_files s i)) = card (descriptors_of (g_fds s) i)) \<and>
    (\<forall>pid fd. entry_for s pid fd \<noteq> None \<longrightarrow> file_for s (entry_for s pid fd) \<noteq> None) \<and>
    (\<forall>p < FD_PIPE_MAX. pipe_ok (card (ends_of (pipe_end \<circ> g_files s) FD_KIND_PIPE_READ p))
      (card (ends_of (pipe_end \<circ> g_files s) FD_KIND_PIPE_WRITE p)) (g_pipes s p))"
proof (intro conjI allI impI)
  have ok: "refs_ok (g_fds s) (ff_references \<circ> g_files s)" "pipes_ok (pipe_end \<circ> g_files s) (g_pipes s)"
    using assms by (simp_all add: fd_ok_def)
  show "unat (ff_references (g_files s i)) = card (descriptors_of (g_fds s) i)" if "i < FD_FILE_MAX" for i
    using refs_okD(1) [OF ok(1) that] by simp
  show "file_for s (entry_for s pid fd) \<noteq> None" if "entry_for s pid fd \<noteq> None" for pid fd
  proof -
    obtain e where e: "entry_for s pid fd = Some e" using \<open>entry_for s pid fd \<noteq> None\<close> by auto
    show ?thesis using entry_forD [OF e] open_live [OF ok(1), of "nat pid" "nat fd"] by (auto simp: e file_for_def)
  qed
  show "pipe_ok (card (ends_of (pipe_end \<circ> g_files s) FD_KIND_PIPE_READ p)) (card (ends_of (pipe_end \<circ> g_files s) FD_KIND_PIPE_WRITE p)) (g_pipes s p)"
    if "p < FD_PIPE_MAX" for p
    by (rule pipes_okD [OF ok(2) that])
qed

subsection \<open>The stream of a pipe\<close>

text \<open>The descriptor \<open>fd\<close> of a process is an end of a pipe, open for \<open>mode\<close>.\<close>

definition pipe_fd :: "fd_kind \<Rightarrow> u32 \<Rightarrow> int \<Rightarrow> int \<Rightarrow> u16 \<Rightarrow> ('d, 'x) fds_scheme \<Rightarrow> bool" where
  "pipe_fd k mode pid fd p s \<longleftrightarrow>
     (case file_for s (entry_for s pid fd) of
        None \<Rightarrow> False
      | Some i \<Rightarrow> ff_kind (g_files s i) = k \<and> ff_flags (g_files s i) AND mode \<noteq> 0 \<and> ff_pipe_id (g_files s i) = p)"

text \<open>A run of writes to one descriptor and reads from another: the bytes the writes accepted, those the reads returned.\<close>

fun pipe_session :: "'d drivers \<Rightarrow> int \<times> int \<Rightarrow> int \<times> int \<Rightarrow> fifo_op list \<Rightarrow> ('d, 'x) fds_scheme \<Rightarrow> u8 list \<times> u8 list \<times> ('d, 'x) fds_scheme" where
  "pipe_session drv w r [] s = ([], [], s)"
| "pipe_session drv w r (Put bs # ops) s =
     (let ((n, _), s1) = run_state (fd_write drv (fst w) (snd w) bs) s; (acc, out, s2) = pipe_session drv w r ops s1
      in (take (nat n) bs @ acc, out, s2))"
| "pipe_session drv w r (Get k # ops) s =
     (let ((n, bs), s1) = run_state (fd_read drv (fst r) (snd r) (word_of_nat k)) s; (acc, out, s2) = pipe_session drv w r ops s1
      in (acc, bs @ out, s2))"

definition pipe_op_ok :: "fifo_op \<Rightarrow> bool" where
  "pipe_op_ok op \<longleftrightarrow> (case op of Put bs \<Rightarrow> length bs \<le> FD_IO_MAX | Get k \<Rightarrow> 0 < k \<and> k \<le> FD_IO_MAX)"

abbreviation (input) pipe_ring_of :: "('d, 'x) fds_scheme \<Rightarrow> u16 \<Rightarrow> ring" where
  "pipe_ring_of s p \<equiv> fp_ring (g_pipes s (unat p))"

lemma pipe_fd_upd [simp]: "pipe_fd k mode pid fd p (upd_pipe q g s) = pipe_fd k mode pid fd p s"
  by (simp add: pipe_fd_def file_for_def entry_for_def split: option.splits)

lemma pipe_fd_open:
  assumes ok: "fd_ok s" and fd: "pipe_fd k mode pid fd p s" and k: "k \<in> {FD_KIND_PIPE_READ, FD_KIND_PIPE_WRITE}"
  shows "unat p < FD_PIPE_MAX" and "fp_allocated (g_pipes s (unat p))" and "ring_wf FD_PIPE_BUFFER (pipe_ring_of s p)"
    and "k = FD_KIND_PIPE_READ \<Longrightarrow> fp_readers (g_pipes s (unat p)) \<noteq> 0"
proof -
  obtain e i where e: "entry_for s pid fd = Some e" "file_for s (Some e) = Some i" and f: "ff_kind (g_files s i) = k" "ff_pipe_id (g_files s i) = p"
    using fd by (cases "entry_for s pid fd") (auto simp: pipe_fd_def file_for_def split: if_splits)
  note fl = file_forD [OF e(2)]
  have pe: "(pipe_end \<circ> g_files s) i = Some (k, unat p)" using f fl k by (auto simp: pipe_end_def)
  have ps: "pipes_ok (pipe_end \<circ> g_files s) (g_pipes s)" using ok by (simp add: fd_ok_def)
  show p: "unat p < FD_PIPE_MAX" using ps pe fl unfolding pipes_ok_def by blast
  have "i \<in> ends_of (pipe_end \<circ> g_files s) k (unat p)" using pe fl by (simp add: ends_of_def)
  then have pos: "card (ends_of (pipe_end \<circ> g_files s) k (unat p)) \<noteq> 0" by (metis card_0_eq empty_iff finite_ends)
  note pk = pipes_okD [OF ps p]
  show al: "fp_allocated (g_pipes s (unat p))" using pk pos k by (auto simp: pipe_ok_def)
  then show "ring_wf FD_PIPE_BUFFER (pipe_ring_of s p)" using pk by (simp add: pipe_ok_def)
  show "fp_readers (g_pipes s (unat p)) \<noteq> 0" if "k = FD_KIND_PIPE_READ" using pk al pos that by (simp add: pipe_ok_def)
qed

lemma fd_write_pipe:
  assumes ok: "fd_ok s" and w: "pipe_fd FD_KIND_PIPE_WRITE FD_OPEN_WRITE pid fd p s" and r: "fp_readers (g_pipes s (unat p)) \<noteq> 0"
    and len: "length bs \<le> FD_IO_MAX"
  shows "run_state (fd_write drv pid fd bs) s =
    ((int (fst (pipe_put bs (pipe_ring_of s p))), None), upd_pipe (unat p) (\<lambda>q. q\<lparr>fp_ring := snd (pipe_put bs (pipe_ring_of s p))\<rparr>) s)"
  using w len r pipe_fd_open [OF ok w]
  by (auto simp: pipe_fd_def fd_write_def pipe_write_def Let_def case_prod_beta split: option.splits)

lemma fd_read_pipe:
  assumes ok: "fd_ok s" and r: "pipe_fd FD_KIND_PIPE_READ FD_OPEN_READ pid fd p s" and n: "0 < k" "k \<le> FD_IO_MAX"
  shows "run_state (fd_read drv pid fd (word_of_nat k)) s =
    (let bs = fst (pipe_get k (pipe_ring_of s p)) in
     ((int (length bs), bs), upd_pipe (unat p) (\<lambda>q. q\<lparr>fp_ring := snd (pipe_get k (pipe_ring_of s p))\<rparr>) s))"
proof -
  have k: "unat (word_of_nat k :: u32) = k" using n by (simp add: unsigned_of_nat take_bit_nat_eq_self)
  then have "(word_of_nat k :: u32) \<noteq> 0" using n(1) by (metis less_not_refl unat_0)
  then show ?thesis
    using r n k pipe_fd_open [OF ok r]
    by (auto simp: pipe_fd_def fd_read_def pipe_read_def Let_def case_prod_beta split: option.splits)
qed

lemma pipe_session_refines:
  assumes "fd_ok s" and "pipe_fd FD_KIND_PIPE_WRITE FD_OPEN_WRITE wpid wfd p s" and "pipe_fd FD_KIND_PIPE_READ FD_OPEN_READ rpid rfd p s"
    and "\<forall>op \<in> set ops. pipe_op_ok op" and "pipe_session drv (wpid, wfd) (rpid, rfd) ops s = (acc, out, s')"
  shows "fifo_run pipe_put pipe_get ops (pipe_ring_of s p) = (acc, out, pipe_ring_of s' p)"
  using assms
proof (induction ops arbitrary: s acc out)
  case (Cons op ops)
  note open_r = pipe_fd_open [OF Cons.prems(1,3)]
  show ?case
  proof (cases op)
    case (Put bs)
    let ?s = "upd_pipe (unat p) (\<lambda>q. q\<lparr>fp_ring := snd (pipe_put bs (pipe_ring_of s p))\<rparr>) s"
    have wr: "run_state (fd_write drv wpid wfd bs) s = ((int (fst (pipe_put bs (pipe_ring_of s p))), None), ?s)"
      using fd_write_pipe [OF Cons.prems(1,2)] open_r Cons.prems(4) Put by (simp add: pipe_op_ok_def)
    have ok: "fd_ok ?s" using Cons.prems(1) by (rule fd_ok_ring) (rule pipe_ring.put_wf)
    obtain acc1 where s: "pipe_session drv (wpid, wfd) (rpid, rfd) ops ?s = (acc1, out, s')" and acc: "acc = take (fst (pipe_put bs (pipe_ring_of s p))) bs @ acc1"
      using Cons.prems(5) by (auto simp: Put wr case_prod_beta Let_def prod_eq_iff)
    have "fifo_run pipe_put pipe_get ops (pipe_ring_of ?s p) = (acc1, out, pipe_ring_of s' p)"
      by (rule Cons.IH [OF ok _ _ _ s]) (use Cons.prems in simp_all)
    then show ?thesis by (simp add: Put acc case_prod_beta Let_def)
  next
    case (Get k)
    let ?s = "upd_pipe (unat p) (\<lambda>q. q\<lparr>fp_ring := snd (pipe_get k (pipe_ring_of s p))\<rparr>) s"
    have rd: "run_state (fd_read drv rpid rfd (word_of_nat k)) s =
        ((int (length (fst (pipe_get k (pipe_ring_of s p)))), fst (pipe_get k (pipe_ring_of s p))), ?s)"
      using fd_read_pipe [OF Cons.prems(1,3)] Cons.prems(4) Get by (simp add: pipe_op_ok_def Let_def)
    have ok: "fd_ok ?s" using Cons.prems(1) by (rule fd_ok_ring) (rule pipe_ring.get_wf)
    obtain out1 where s: "pipe_session drv (wpid, wfd) (rpid, rfd) ops ?s = (acc, out1, s')" and out: "out = fst (pipe_get k (pipe_ring_of s p)) @ out1"
      using Cons.prems(5) by (auto simp: Get rd case_prod_beta Let_def prod_eq_iff)
    have "fifo_run pipe_put pipe_get ops (pipe_ring_of ?s p) = (acc, out1, pipe_ring_of s' p)"
      by (rule Cons.IH [OF ok _ _ _ s]) (use Cons.prems in simp_all)
    then show ?thesis by (simp add: Get out case_prod_beta Let_def)
  qed
qed simp

text \<open>
  C40. Take a write end and a read end of one pipe in a reachable state, held by any two processes, and any run of writes to the one and
  reads from the other. What the pipe held followed by the bytes that the writes accepted is what the reads returned followed by what the
  pipe holds now: no byte is lost, repeated or reordered. The calls do on the descriptors what the queue of the pipe does.
\<close>

theorem pipe_session_stream:
  assumes "fd_reach drv s" and "pipe_fd FD_KIND_PIPE_WRITE FD_OPEN_WRITE wpid wfd p s" and "pipe_fd FD_KIND_PIPE_READ FD_OPEN_READ rpid rfd p s"
    and "\<forall>op \<in> set ops. pipe_op_ok op" and "pipe_session drv (wpid, wfd) (rpid, rfd) ops s = (acc, out, s')"
  shows "ring_content FD_PIPE_BUFFER (fp_ring (g_pipes s (unat p))) @ acc = out @ ring_content FD_PIPE_BUFFER (fp_ring (g_pipes s' (unat p))) \<and>
    fifo_run pipe_put pipe_get ops (fp_ring (g_pipes s (unat p))) = (acc, out, fp_ring (g_pipes s' (unat p)))"
proof -
  note ok = fd_reach_ok [OF assms(1)]
  have run: "fifo_run pipe_put pipe_get ops (fp_ring (g_pipes s (unat p))) = (acc, out, fp_ring (g_pipes s' (unat p)))"
    by (rule pipe_session_refines [OF ok assms(2-5)])
  moreover have "ring_wf FD_PIPE_BUFFER (fp_ring (g_pipes s (unat p)))" using pipe_fd_open(3) [OF ok assms(3)] by simp
  ultimately show ?thesis using pipe_ring.run_stream by blast
qed


subsection \<open>Two processes and a pipe\<close>

definition fd_blank :: "(medium \<Rightarrow> nat \<Rightarrow> u8 list) fds" where
  "fd_blank =
     (let r = \<lparr>ring_data = (\<lambda>_. 0), ring_head = 0, ring_tail = 0, ring_used = 0\<rparr> in
      vfs.extend vfs_blank
        \<lparr>k_ttys = \<lparr>g_ttys = (\<lambda>_. \<lparr>tty_allocated = False, tty_owner_pid = 0, tty_input = r, tty_output = r\<rparr>),
             g_ptys = (\<lambda>_. \<lparr>pty_allocated = False, master_open = False, slave_open = False, master_pid = 0, slave_pid = 0, pty_mode = 0, pty_input = r, pty_output = r,
               pty_line = [], foreground_group = 0\<rparr>)\<rparr>,
         k_unix = \<lparr>g_memfds = (\<lambda>_. \<lparr>mf_refcount = 0, mf_in_use = False, mf_name = [], mf_size = 0, mf_pages = [], mf_flags = 0\<rparr>),
             g_unix_sockets = (\<lambda>_. \<lparr>us_refcount = 0, us_in_use = False, us_owner_pid = 0, us_state = UNIX_STATE_CLOSED, us_path = [], us_peer = None,
               us_ring = r, us_queued = [], us_backlog = []\<rparr>),
             g_epolls = (\<lambda>_. \<lparr>ep_refcount = 0, ep_in_use = False, ep_owner_pid = 0, ep_items = (\<lambda>_. \<lparr>it_fd = 0, it_events = 0, it_data = 0, it_active = False\<rparr>), ep_count = 0\<rparr>),
             g_eventfds = (\<lambda>_. \<lparr>ev_in_use = False, ev_semaphore = False, ev_counter = 0\<rparr>)\<rparr>,
         k_evdev = \<lparr>g_instances = (\<lambda>_. \<lparr>ei_in_use = False, ei_dev_id = 0, ei_pid = 0,
               ei_queue = (\<lambda>_. \<lparr>tv_sec = 0, tv_usec = 0, ie_type = 0, ie_code = 0, ie_value = 0\<rparr>), ei_head = 0, ei_tail = 0\<rparr>),
             s_last_mouse_x = 0, s_last_mouse_y = 0, s_last_mouse_left = 0, s_last_mouse_right = 0\<rparr>,
         g_fds = (\<lambda>_ _. \<lparr>en_open = False, en_file_id = 0\<rparr>),
         g_files = (\<lambda>_. \<lparr>ff_references = 0, ff_flags = 0, ff_offset = 0, ff_kind = FD_KIND_FILE, ff_pipe_id = 0, ff_custom_ptr = None, ff_path = []\<rparr>),
         g_pipes = (\<lambda>_. \<lparr>fp_allocated = False, fp_readers = 0, fp_writers = 0, fp_ring = r\<rparr>)\<rparr>)"

text \<open>Process 1 makes a pipe.\<close>

definition fd_example :: "(medium \<Rightarrow> nat \<Rightarrow> u8 list) fds" where
  "fd_example = snd (fd_pipe_create 1 (fd_init fd_blank))"

lemma fd_example_reach: "fd_reach (ram_drivers 512) fd_example"
  using fd_reach.call [OF fd_reach.start, of "ram_drivers 512" "Make_pipe 1" fd_blank] by (simp add: fd_example_def)

lemma fd_blank_tables:
  "g_fds fd_blank = (\<lambda>_ _. \<lparr>en_open = False, en_file_id = 0\<rparr>)"
  "g_files fd_blank = (\<lambda>_. \<lparr>ff_references = 0, ff_flags = 0, ff_offset = 0, ff_kind = FD_KIND_FILE, ff_pipe_id = 0, ff_custom_ptr = None, ff_path = []\<rparr>)"
  "fp_allocated (g_pipes fd_blank i) = False"
  by (simp_all add: fd_blank_def Let_def vfs.defs)

lemmas fd_example_defs =
  fd_example_def fd_pipe_create_def valid_pid_def free_fd_slot_def free_file_slot_def fd_init_def fd_blank_tables Let_def

lemma fd_example_tables:
  "ff_references (g_files fd_example 0) = 1" "pipe_fd FD_KIND_PIPE_WRITE FD_OPEN_WRITE 1 1 0 fd_example"
  "pipe_fd FD_KIND_PIPE_READ FD_OPEN_READ 1 0 0 fd_example" "\<exists>r. fp_ring (g_pipes fd_example 0) = ring_reset r"
  by (auto simp: fd_example_defs pipe_fd_def file_for_def entry_for_def)

theorem pipe_session_stream_witness:
  "\<exists>s'. pipe_session (ram_drivers 512) (1, 1) (1, 0) [Put [10, 20, 30], Get 2] fd_example = ([10, 20, 30], [10, 20], s') \<and>
     ring_content FD_PIPE_BUFFER (fp_ring (g_pipes s' 0)) = [30]"
proof -
  let ?ops = "[Put [10, 20, 30], Get 2]"
  obtain acc out s' where run: "pipe_session (ram_drivers 512) (1, 1) (1, 0) ?ops fd_example = (acc, out, s')"
    by (cases "pipe_session (ram_drivers 512) (1, 1) (1, 0) ?ops fd_example") auto
  obtain r where r: "fp_ring (g_pipes fd_example 0) = ring_reset r" using fd_example_tables(4) by blast
  have "\<forall>op \<in> set ?ops. pipe_op_ok op" by (simp add: pipe_op_ok_def)
  note st = pipe_session_stream [OF fd_example_reach fd_example_tables(2,3) this run, unfolded unat_0 r]
  have fifo: "fifo_run pipe_put pipe_get ?ops (ring_reset r) = (acc, out, fp_ring (g_pipes s' 0))" using st by blast
  have acc: "acc = [10, 20, 30]" and out: "out = [10, 20]"
    using fifo by (auto simp: pipe_put_def pipe_get_def ring_reset_def ring_push_def ring_pop_def Let_def numeral_2_eq_2)
  show ?thesis using run st acc out by simp
qed

end
