(* ===== verification/Process_End.thy ===== *)
theory Process_End
  imports Process_Life Fd_Refs
begin

text \<open>
  The end and the start of processes as properties of the whole kernel state: what \<open>process_kill\<close> gives back in the tables of memory regions, descriptors,
  sockets, terminals, messages and windows, and which programs \<open>process_spawn_kea\<close> starts as root.
\<close>

subsection \<open>Everything a process holds is given back\<close>

lemma upd_process_fields [simp]:
  "g_fds (upd_process i f s) = g_fds s" "g_files (upd_process i f s) = g_files s" "g_pipes (upd_process i f s) = g_pipes s"
  "k_ttys (upd_process i f s) = k_ttys s" "k_sockets (upd_process i f s) = k_sockets s" "k_ipc (upd_process i f s) = k_ipc s"
  "k_windows (upd_process i f s) = k_windows s" "m_mm (upd_process i f s) = m_mm s"
  "g_processes (k_procs (upd_process i f s)) = (g_processes (k_procs s))(i := f (g_processes (k_procs s) i))"
  by (simp_all add: upd_process_def upd_proc_def)

lemma release_backing_fields [simp]:
  "g_fds (release_backing x s) = g_fds s" "g_files (release_backing x s) = g_files s" "g_pipes (release_backing x s) = g_pipes s"
  "k_ttys (release_backing x s) = k_ttys s" "k_sockets (release_backing x s) = k_sockets s" "k_ipc (release_backing x s) = k_ipc s"
  "k_windows (release_backing x s) = k_windows s" "k_procs (release_backing x s) = k_procs s"
  by (simp_all add: release_backing_def split: prod.splits)

text \<open>The tables that the release of an address space leaves alone, with the other processes and the state of the process.\<close>

definition held :: "nat \<Rightarrow> ('d, 'x) kernel_scheme \<Rightarrow>
    (nat \<Rightarrow> nat \<Rightarrow> fd_entry) \<times> (nat \<Rightarrow> fd_file) \<times> (nat \<Rightarrow> fd_pipe) \<times> ttys \<times> sockets \<times> ipc \<times> windows \<times> (nat \<Rightarrow> process) \<times> process_state" where
  "held i s = (g_fds s, g_files s, g_pipes s, k_ttys s, k_sockets s, k_ipc s, k_windows s, (g_processes (k_procs s))(i := undefined),
     process_state (g_processes (k_procs s) i))"

lemma held_release_region: "held i (release_region i r s) = held i s"
  by (simp add: held_def release_region_def upd_region_def Let_def)

lemma held_release_regions: "held i (fold (release_region i) rs s) = held i s"
  by (induction rs arbitrary: s) (simp_all add: held_release_region)

lemma release_space_held:
  "held i (release_space i s) =
     held i (if pml4_phys (the_process s i) = 0 then s else s\<lparr>k_windows := uwindow_destroy_process (pml4_phys (the_process s i)) (k_windows s)\<rparr>)"
proof -
  have "held i (upd_process i (\<lambda>p. p\<lparr>pml4_phys := 0\<rparr>) (t\<lparr>m_mm := m\<rparr>)) = held i t" for t :: "('a, 'b) kernel_scheme" and m
    by (simp add: held_def)
  then show ?thesis by (simp add: release_space_def Let_def held_release_regions)
qed

lemma release_space_pml4: "pml4_phys (the_process (release_space i s) i) = 0"
  by (simp add: release_space_def Let_def)

lemma process_release_held:
  "held i (process_release_resources i s) =
     held i (if pml4_phys (the_process s i) = 0 then s else s\<lparr>k_windows := uwindow_destroy_process (pml4_phys (the_process s i)) (k_windows s)\<rparr>)"
proof -
  have "held i (upd_process i process_reset t) = held i t" for t :: "('a, 'b) kernel_scheme"
    by (simp add: held_def process_reset_def)
  then show ?thesis by (simp add: process_release_resources_def release_space_held)
qed

lemma process_release_process:
  "pml4_phys (the_process (process_release_resources i s) i) = 0"
  "r < MAX_VM_REGIONS_PER_PROCESS \<Longrightarrow> \<not> region_active (vm_regions (the_process (process_release_resources i s) i) r)"
  using release_space_pml4 [where s = s and i = i] by (simp_all add: process_release_resources_def process_reset_def)

lemma uwindow_destroy_process_clean:
  assumes "w < MAX_USER_WINDOWS" and "uw_active (g_windows (uwindow_destroy_process pml4 s) w)"
  shows "uw_pml4_phys (g_windows (uwindow_destroy_process pml4 s) w) \<noteq> pml4"
proof -
  let ?f = "\<lambda>i s. if uw_active (g_windows s i) \<and> uw_pml4_phys (g_windows s i) = pml4 then uwindow_destroy (int i) s else s"
  have "\<forall>i < n. uw_active (g_windows (fold ?f [0..<n] s) i) \<longrightarrow> uw_pml4_phys (g_windows (fold ?f [0..<n] s) i) \<noteq> pml4" if "n \<le> MAX_USER_WINDOWS" for n
    using that
    by (induction n) (auto simp: uwindow_destroy_def upd_window_def Let_def less_Suc_eq)
  from this [of MAX_USER_WINDOWS] show ?thesis using assms unfolding uwindow_destroy_process_def by blast
qed

lemma socket_close_owner_clean:
  assumes "i < SOCKET_MAX" and "so_open (g_sockets (fst (socket_close_owner net pid s d)) i)"
  shows "so_owner_pid (g_sockets (fst (socket_close_owner net pid s d)) i) \<noteq> pid"
proof -
  let ?f = "\<lambda>i (s, d). if so_open (g_sockets s i) \<and> so_owner_pid (g_sockets s i) = pid then snd (socket_close net pid (int i) s d) else (s, d)"
  have "\<forall>i < n. so_open (g_sockets (fst (fold ?f [0..<n] (s, d))) i) \<longrightarrow> so_owner_pid (g_sockets (fst (fold ?f [0..<n] (s, d))) i) \<noteq> pid"
    if "n \<le> SOCKET_MAX" for n
    using that
  proof (induction n)
    case (Suc n)
    obtain s1 d1 where st: "fold ?f [0..<n] (s, d) = (s1, d1)" by fastforce
    show ?case using Suc by (auto simp: st socket_close_def owned_def upd_sock_def Let_def less_Suc_eq)
  qed simp
  from this [of SOCKET_MAX] show ?thesis using assms unfolding socket_close_owner_def by blast
qed

lemma tty_close_owner_clean:
  assumes "i < TTY_MAX" and "tty_allocated (g_ttys (tty_close_owner pid s) i)"
  shows "tty_owner_pid (g_ttys (tty_close_owner pid s) i) \<noteq> pid"
proof -
  let ?f = "\<lambda>i s. if tty_allocated (g_ttys s i) \<and> tty_owner_pid (g_ttys s i) = pid then snd (tty_close pid (int i) s) else s"
  have "\<forall>i < n. tty_allocated (g_ttys (fold ?f [0..<n] s) i) \<longrightarrow> tty_owner_pid (g_ttys (fold ?f [0..<n] s) i) \<noteq> pid" if "n \<le> TTY_MAX" for n
    using that by (induction n) (auto simp: tty_close_def tty_at_def less_Suc_eq Let_def split: option.splits if_splits)
  from this [of TTY_MAX] show ?thesis using assms unfolding tty_close_owner_def Let_def by auto
qed

lemma fd_ok_process [simp]:
  "fd_ok (upd_process i f s) = fd_ok s" "fd_ok (release_backing x s) = fd_ok s" "fd_ok (s\<lparr>m_mm := m\<rparr>) = fd_ok s"
  for s :: "('d, 'x) kernel_scheme"
  by (simp_all add: fd_ok_def)

lemma fd_close_rest [simp]:
  "k_sockets (snd (fd_close pid fd s)) = k_sockets s" "k_ipc (snd (fd_close pid fd s)) = k_ipc s"
  "k_windows (snd (fd_close pid fd s)) = k_windows s" "k_procs (snd (fd_close pid fd s)) = k_procs s"
  "g_ttys (k_ttys (snd (fd_close pid fd s))) = g_ttys (k_ttys s)"
  for s :: "('d, 'x) kernel_scheme"
proof -
  have t: "g_ttys (snd (pty_close p h t)) = g_ttys t" for p h t by (simp add: pty_close_def Let_def split: option.splits)
  have "k_sockets (release_object p f t) = k_sockets t \<and> k_ipc (release_object p f t) = k_ipc t \<and> k_windows (release_object p f t) = k_windows t \<and>
      k_procs (release_object p f t) = k_procs t \<and> g_ttys (k_ttys (release_object p f t)) = g_ttys (k_ttys t)" for p f and t :: "('d, 'x) kernel_scheme"
    by (cases "ff_kind f") (simp_all add: release_object_def release_memfd_def t upd_pipe_def split: prod.splits)
  then show "k_sockets (snd (fd_close pid fd s)) = k_sockets s" "k_ipc (snd (fd_close pid fd s)) = k_ipc s"
    "k_windows (snd (fd_close pid fd s)) = k_windows s" "k_procs (snd (fd_close pid fd s)) = k_procs s"
    "g_ttys (k_ttys (snd (fd_close pid fd s))) = g_ttys (k_ttys s)"
    by (simp_all add: fd_close_eq close_file_def Let_def upd_fd_def upd_file_def split: option.splits)
qed

text \<open>Closing every descriptor of a process.\<close>

abbreviation close_open :: "int \<Rightarrow> nat \<Rightarrow> ('d, 'x) fds_scheme \<Rightarrow> ('d, 'x) fds_scheme" where
  "close_open pid fd s \<equiv> if en_open (g_fds s (nat pid) fd) then snd (fd_close pid (int fd) s) else s"

lemma fd_close_owner_rest [simp]:
  "k_sockets (fd_close_owner pid s) = k_sockets s" "k_ipc (fd_close_owner pid s) = k_ipc s"
  "k_windows (fd_close_owner pid s) = k_windows s" "k_procs (fd_close_owner pid s) = k_procs s"
  "g_ttys (k_ttys (fd_close_owner pid s)) = g_ttys (k_ttys s)"
  for s :: "('d, 'x) kernel_scheme"
proof -
  have "k_sockets (fold (close_open pid) ds s) = k_sockets s \<and> k_ipc (fold (close_open pid) ds s) = k_ipc s \<and>
      k_windows (fold (close_open pid) ds s) = k_windows s \<and> k_procs (fold (close_open pid) ds s) = k_procs s \<and>
      g_ttys (k_ttys (fold (close_open pid) ds s)) = g_ttys (k_ttys s)" for ds
    by (induction ds arbitrary: s) simp_all
  then show "k_sockets (fd_close_owner pid s) = k_sockets s" "k_ipc (fd_close_owner pid s) = k_ipc s"
    "k_windows (fd_close_owner pid s) = k_windows s" "k_procs (fd_close_owner pid s) = k_procs s"
    "g_ttys (k_ttys (fd_close_owner pid s)) = g_ttys (k_ttys s)"
    by (simp_all add: fd_close_owner_def del: upt_rec_numeral)
qed

lemma fd_close_owner_fds:
  assumes "fd_ok s" and "Fd.valid_pid pid"
  shows "d < FD_MAX_PER_PROCESS \<Longrightarrow> \<not> en_open (g_fds (fd_close_owner pid s) (nat pid) d)"
    and "q \<noteq> nat pid \<Longrightarrow> g_fds (fd_close_owner pid s) q = g_fds s q"
proof -
  have closes: "\<not> en_open (g_fds (snd (fd_close pid (int d) t)) (nat pid) d)"
    if "fd_ok t" "d < FD_MAX_PER_PROCESS" for t :: "('a, 'b) fds_scheme" and d
  proof (cases "en_open (g_fds t (nat pid) d)")
    case True
    then have e: "entry_for t pid (int d) = Some (g_fds t (nat pid) d)" using assms(2) that by (simp add: entry_for_def)
    have "unat (en_file_id (g_fds t (nat pid) d)) < FD_FILE_MAX \<and> ff_references (g_files t (unat (en_file_id (g_fds t (nat pid) d)))) \<noteq> 0"
      using open_live [of "g_fds t" "ff_references \<circ> g_files t" "nat pid" d] that True valid_pidD [OF assms(2)] by (auto simp: fd_ok_def)
    then obtain i where "file_for t (entry_for t pid (int d)) = Some i" by (auto simp: e file_for_def)
    then show ?thesis using fd_close_done [of pid "int d" t] by (simp add: fd_close_eq)
  next
    case False
    then show ?thesis by (simp add: fd_close_eq entry_for_def file_for_def)
  qed
  have "fd_ok (fold (close_open pid) [0..<n] s) \<and> (\<forall>d < n. \<not> en_open (g_fds (fold (close_open pid) [0..<n] s) (nat pid) d)) \<and>
      (\<forall>q. q \<noteq> nat pid \<longrightarrow> g_fds (fold (close_open pid) [0..<n] s) q = g_fds s q)" if "n \<le> FD_MAX_PER_PROCESS" for n
    using that
  proof (induction n)
    case (Suc n)
    let ?t = "fold (close_open pid) [0..<n] s"
    have "d < n \<Longrightarrow> g_fds (snd (fd_close pid (int n) ?t)) (nat pid) d = g_fds ?t (nat pid) d" for d by (rule fd_close_fds) simp
    moreover have "q \<noteq> nat pid \<Longrightarrow> g_fds (snd (fd_close pid (int n) ?t)) q = g_fds ?t q" for q by (rule ext, rule fd_close_fds) simp
    ultimately show ?case using Suc closes [of ?t n] fd_ok_close [of ?t pid "int n"] by (auto simp: less_Suc_eq)
  qed (simp add: assms)
  from this [of FD_MAX_PER_PROCESS]
  show "d < FD_MAX_PER_PROCESS \<Longrightarrow> \<not> en_open (g_fds (fd_close_owner pid s) (nat pid) d)"
    and "q \<noteq> nat pid \<Longrightarrow> g_fds (fd_close_owner pid s) q = g_fds s q"
    using assms(2) by (simp_all add: fd_close_owner_def del: upt_rec_numeral)
qed

lemma close_owner_held:
  assumes "fd_ok s" and pid: "Fd.valid_pid pid"
  shows "k_procs (close_owner net pid s) = k_procs s" and "k_windows (close_owner net pid s) = k_windows s"
    and "fd_ok (close_owner net pid s)"
    and "d < FD_MAX_PER_PROCESS \<Longrightarrow> \<not> en_open (g_fds (close_owner net pid s) (nat pid) d)"
    and "q \<noteq> nat pid \<Longrightarrow> g_fds (close_owner net pid s) q = g_fds s q"
    and "k_sockets (close_owner net pid s) = fst (socket_close_owner net pid (k_sockets s) (m_dev s))"
    and "g_ttys (k_ttys (close_owner net pid s)) = g_ttys (tty_close_owner pid (k_ttys s))"
    and "k_ipc (close_owner net pid s) = ipc_close_owner pid (k_ipc s)"
proof -
  obtain k d1 where sc: "socket_close_owner net pid (k_sockets s) (m_dev s) = (k, d1)" by fastforce
  let ?t = "s\<lparr>k_sockets := k, m_dev := d1, k_ttys := tty_close_owner pid (k_ttys s)\<rparr>"
  have ok: "fd_ok ?t" using assms(1) by (simp add: fd_ok_def)
  have eq: "close_owner net pid s = (fd_close_owner pid ?t)\<lparr>k_ipc := ipc_close_owner pid (k_ipc s)\<rparr>" by (simp add: close_owner_def sc Let_def)
  have "fd_ok (fd_close_owner pid ?t)" by (rule fd_ok_close_owner [OF ok])
  then show "fd_ok (close_owner net pid s)" by (simp add: eq fd_ok_def)
  show "k_procs (close_owner net pid s) = k_procs s" "k_windows (close_owner net pid s) = k_windows s"
    "k_sockets (close_owner net pid s) = fst (socket_close_owner net pid (k_sockets s) (m_dev s))"
    "g_ttys (k_ttys (close_owner net pid s)) = g_ttys (tty_close_owner pid (k_ttys s))"
    "k_ipc (close_owner net pid s) = ipc_close_owner pid (k_ipc s)"
    by (simp_all add: eq sc)
  show "d < FD_MAX_PER_PROCESS \<Longrightarrow> \<not> en_open (g_fds (close_owner net pid s) (nat pid) d)"
    using fd_close_owner_fds(1) [OF ok pid] by (simp add: eq)
  show "q \<noteq> nat pid \<Longrightarrow> g_fds (close_owner net pid s) q = g_fds s q"
    using fd_close_owner_fds(2) [OF ok pid] by (simp add: eq)
qed

lemma held_tables:
  assumes "held i s' = held i s"
  shows "g_fds s' = g_fds s" "fd_ok s' = fd_ok s" "k_sockets s' = k_sockets s" "k_ttys s' = k_ttys s" "k_ipc s' = k_ipc s" "k_windows s' = k_windows s"
    "process_state (the_process s' i) = process_state (the_process s i)" "q \<noteq> i \<Longrightarrow> the_process s' q = the_process s q"
proof -
  show "q \<noteq> i \<Longrightarrow> the_process s' q = the_process s q" using assms by (auto simp: held_def dest: fun_cong [where x = q])
qed (use assms in \<open>auto simp: held_def fd_ok_def\<close>)

lemma ipc_close_owner_gone:
  assumes "Ipc.valid_pid pid"
  shows "g_queues (ipc_close_owner pid s) (nat pid) = []"
    and "t < IPC_MAX_PROCESSES \<Longrightarrow> m \<in> set (g_queues (ipc_close_owner pid s) t) \<Longrightarrow> msg_sender m \<noteq> pid"
  using assms by (auto simp: ipc_close_owner_def Let_def split: if_splits)


subsection \<open>Who becomes root\<close>

lemma process_spawn_elf_with_permissions_procs:
  assumes "process_spawn_elf_with_permissions name img perms trusted s = (r, s')"
  shows "case r of
      None \<Rightarrow> k_procs s' = k_procs s
    | Some i \<Rightarrow> spawn_slot (k_procs s) = Some i \<and> (\<forall>q. q \<noteq> i \<longrightarrow> the_process s' q = the_process s q) \<and>
        permissions (the_process s' i) = perms \<and> process_state (the_process s' i) = PROCESS_STATE_READY \<and>
        uid (process_credentials (the_process s' i)) = (if trusted then KESH_UID_ROOT else KESH_UID_USER)"
  using assms by (auto simp: process_spawn_elf_with_permissions_def process_start_def Let_def split: option.splits elf_result.splits)

lemma process_spawn_kea_uid:
  assumes "process_spawn_kea c name d s = (Some i, s')"
  shows "spawn_slot (k_procs s) = Some i" and "q \<noteq> i \<Longrightarrow> the_process s' q = the_process s q"
    and "uid (process_credentials (the_process s' i)) = KESH_UID_USER \<or>
      uid (process_credentials (the_process s' i)) = KESH_UID_ROOT \<and> properly_signed c d \<and> kh_permissions (kea_header_of d) AND KEA_PERM_ROOT \<noteq> 0"
proof -
  let ?h = "kea_header_of d"
  obtain n img perms trusted where run: "process_spawn_elf_with_permissions n img perms trusted s = (Some i, s')"
    and root: "trusted \<longrightarrow> kh_version ?h = KEA_VERSION \<and> kh_permissions ?h AND KEA_PERM_ROOT \<noteq> 0 \<and> kea_verify_package c d True = 0"
    using assms by (auto simp: process_spawn_kea_def process_spawn_elf_def Let_def split: if_splits)
  note p = process_spawn_elf_with_permissions_procs [OF run, simplified]
  from p show "spawn_slot (k_procs s) = Some i" and "q \<noteq> i \<Longrightarrow> the_process s' q = the_process s q" by auto
  have "properly_signed c d" if trusted
    using root that kea_verify_package_ok [of c d True] by (auto simp: kea_base_header_def split: if_splits)
  then show "uid (process_credentials (the_process s' i)) = KESH_UID_USER \<or>
      uid (process_credentials (the_process s' i)) = KESH_UID_ROOT \<and> properly_signed c d \<and> kh_permissions ?h AND KEA_PERM_ROOT \<noteq> 0"
    using p root by (cases trusted) auto
qed

lemma process_spawn_kea_None: "process_spawn_kea c name d s = (None, s') \<Longrightarrow> k_procs s' = k_procs s"
  by (auto simp: process_spawn_kea_def process_spawn_elf_def Let_def split: if_splits
      dest!: process_spawn_elf_with_permissions_procs)

text \<open>
  C15. Only a signed package becomes root. Whatever the bytes \<open>d\<close> are, unless they are a package whose content is signed under one of the kernel's
  trusted keys and whose header asks for root, \<open>process_spawn_kea\<close> gives no process the user id of root: it changes at most one slot, a free
  one, and the process there runs as the ordinary user.
\<close>

theorem spawn_unsigned_not_root:
  assumes "\<not> (properly_signed c d \<and> kh_permissions (kea_header_of d) AND KEA_PERM_ROOT \<noteq> 0)" and run: "process_spawn_kea c name d s = (r, s')"
  shows "\<forall>q. the_process s' q = the_process s q \<or>
    r = Some q \<and> process_state (the_process s q) \<in> {PROCESS_STATE_UNUSED, PROCESS_STATE_EXITED} \<and>
    uid (process_credentials (the_process s' q)) = KESH_UID_USER"
proof (cases r)
  case None
  then show ?thesis using process_spawn_kea_None run by metis
next
  case (Some i)
  note p = process_spawn_kea_uid [OF run [unfolded Some]]
  have "process_state (the_process s i) \<in> {PROCESS_STATE_UNUSED, PROCESS_STATE_EXITED}"
    using first_from_SomeD [OF p(1) [unfolded spawn_slot_def]] by blast
  then show ?thesis using p(2,3) assms(1) Some by metis
qed

subsection \<open>Examples\<close>

text \<open>Process 1 holds both ends of a pipe, an open socket and a window; the network device does nothing.\<close>

definition net_idle :: "'d net_ops" where
  "net_idle = \<lparr>net_tcp_connect = (\<lambda>_ _ _ d. (- 1, d)), net_tcp_send = (\<lambda>_ d. (- 1, d)), net_tcp_recv = (\<lambda>_ _ d. ((- 1, []), d)),
     net_tcp_close = (\<lambda>d. d), net_tcp_available = (\<lambda>_. 0), net_tcp_is_connected = (\<lambda>_. False), net_udp_send = (\<lambda>_ _ _ _ d. (- 1, d)),
     net_get_my_ip = (\<lambda>_. 0), net_poll = (\<lambda>d. ([], d))\<rparr>"

definition socket_example :: "nat \<Rightarrow> socket" where
  "socket_example i =
     \<lparr>so_owner_pid = 1, so_open = (i = 0), so_connected = False, so_protocol = 0, so_udp_ready = False, so_local_port = 0, so_remote_port = 0,
      so_remote_address = 0, so_udp_source_address = 0, so_udp_source_port = 0, so_udp_data = []\<rparr>"

definition window_example :: "nat \<Rightarrow> user_window" where
  "window_example i =
     \<lparr>uw_active = (i = 0), uw_win_id = i, uw_is_desktop = False, uw_is_glass = False, uw_x = 0, uw_y = 0, uw_w = 64, uw_h = 64, uw_title = ''w'',
      uw_framebuffer = 0x9000, uw_user_fb_vaddr = 0x50000000, uw_pml4_phys = 0x5000, uw_is_open = True, uw_minimized = False, uw_dragging = False,
      uw_drag_ox = 0, uw_drag_oy = 0, uw_dirty = False, uw_anim_state = 0, uw_anim_t = 0,
      uw_events = (\<lambda>_. \<lparr>ue_type = 0, ue_mx = 0, ue_my = 0, ue_btn = 0, ue_key = 0\<rparr>), uw_ev_head = 0, uw_ev_tail = 0\<rparr>"

definition kernel_blank :: "(medium \<Rightarrow> nat \<Rightarrow> u8 list) kernel" where
  "kernel_blank = fds.extend fd_blank (kernel.fields (procs_example {1}) ipc_zero
     \<lparr>g_sockets = socket_example, g_connected_handle = - 1\<rparr> \<lparr>g_windows = window_example, g_focused_win_id = 0\<rparr>)"

definition kernel_example :: "(medium \<Rightarrow> nat \<Rightarrow> u8 list) kernel" where
  "kernel_example = snd (fd_pipe_create 1 (fd_init kernel_blank))"

lemma kernel_blank_tables:
  "g_fds kernel_blank = (\<lambda>_ _. \<lparr>en_open = False, en_file_id = 0\<rparr>)"
  "g_files kernel_blank = (\<lambda>_. \<lparr>ff_references = 0, ff_flags = 0, ff_offset = 0, ff_kind = FD_KIND_FILE, ff_pipe_id = 0, ff_custom_ptr = None, ff_path = []\<rparr>)"
  "fp_allocated (g_pipes kernel_blank i) = False" "k_procs kernel_blank = procs_example {1}"
  "k_sockets kernel_blank = \<lparr>g_sockets = socket_example, g_connected_handle = - 1\<rparr>"
  "k_windows kernel_blank = \<lparr>g_windows = window_example, g_focused_win_id = 0\<rparr>"
  by (simp_all add: kernel_blank_def fd_blank_def Let_def vfs.defs fds.defs kernel.defs)

lemmas kernel_example_defs =
  kernel_example_def fd_pipe_create_def Fd.valid_pid_def free_fd_slot_def free_file_slot_def fd_init_def kernel_blank_tables Let_def

lemma kernel_example_tables:
  "k_procs kernel_example = procs_example {1}" "en_open (g_fds kernel_example 1 0)" "en_open (g_fds kernel_example 1 1)"
  "so_open (g_sockets (k_sockets kernel_example) 0)" "uw_active (g_windows (k_windows kernel_example) 0)"
  by (simp_all add: kernel_example_defs upd_file_def upd_pipe_def open_fd_def upd_fd_def socket_example_def window_example_def)

lemma kernel_example_reach: "fd_reach (ram_drivers 512) kernel_example"
  using fd_reach.call [OF fd_reach.start, of "ram_drivers 512" "Make_pipe 1" kernel_blank] by (simp add: kernel_example_def)


theorem spawn_unsigned_not_root_witness:
  "let d = [0x7F, 0x45, 0x4C, 0x46] @ replicate 300 (0 :: u8); c = \<lparr>cr_sha256 = (\<lambda>_. []), cr_ecdsa_verify = (\<lambda>_ _ _. True)\<rparr> in
   \<forall>q. the_process (snd (process_spawn_kea c None d kernel_example)) q = the_process kernel_example q \<or>
     uid (process_credentials (the_process (snd (process_spawn_kea c None d kernel_example)) q)) = KESH_UID_USER"
proof -
  let ?d = "[0x7F, 0x45, 0x4C, 0x46] @ replicate 300 (0 :: u8)" and ?c = "\<lparr>cr_sha256 = (\<lambda>_. []), cr_ecdsa_verify = (\<lambda>_ _ _. True)\<rparr>"
  have "kh_permissions (kea_header_of ?d) = 0" by (simp add: kea_header_of_def field_def numeral_eq_Suc)
  then have "\<not> (properly_signed ?c ?d \<and> kh_permissions (kea_header_of ?d) AND KEA_PERM_ROOT \<noteq> 0)" by simp
  from spawn_unsigned_not_root [OF this, where name = None and s = kernel_example, OF prod.collapse [symmetric]]
  show ?thesis unfolding Let_def by blast
qed

end
