(* ===== verification/Kernel_Calls.thy ===== *)
theory Kernel_Calls
  imports Unix_Ipc Process_End
begin

text \<open>
  All calls on the kernel state together. Every call keeps the counts of the descriptor tables exact: those that do not touch the tables, those that
  make descriptors for objects, and those that start and end processes.
\<close>

subsection \<open>Calls that leave the descriptor tables alone\<close>

text \<open>The tables of \<open>fd.c\<close>.\<close>

definition fd_tables :: "('d, 'x) fds_scheme \<Rightarrow> (nat \<Rightarrow> nat \<Rightarrow> fd_entry) \<times> (nat \<Rightarrow> fd_file) \<times> (nat \<Rightarrow> fd_pipe)" where
  "fd_tables s = (g_fds s, g_files s, g_pipes s)"

lemma fd_tables_ok: "fd_tables s' = fd_tables s \<Longrightarrow> fd_ok s' = fd_ok s"
  by (simp add: fd_tables_def fd_ok_def)

lemma fd_tables_fields [simp]:
  "fd_tables (s\<lparr>k_unix := u\<rparr>) = fd_tables s" "fd_tables (s\<lparr>k_evdev := v\<rparr>) = fd_tables s" "fd_tables (s\<lparr>m_mm := m\<rparr>) = fd_tables s"
  "fd_tables (s\<lparr>k_ttys := t\<rparr>) = fd_tables s" "fd_tables (upd_unix f s) = fd_tables s" "fd_tables (release_memfd ptr s) = fd_tables s"
  "fd_tables (user_store a bs s) = fd_tables s"
  by (simp_all add: fd_tables_def upd_unix_def release_memfd_def user_store_def split: prod.splits)

lemma fd_tables_kernel [simp]:
  "fd_tables (s\<lparr>k_procs := ps\<rparr>) = fd_tables s" "fd_tables (s\<lparr>k_sockets := k\<rparr>) = fd_tables s" "fd_tables (s\<lparr>k_windows := w\<rparr>) = fd_tables s"
  "fd_tables (s\<lparr>k_ipc := i\<rparr>) = fd_tables s" "fd_tables (upd_process j f s) = fd_tables s" "fd_tables (release_backing x s) = fd_tables s"
  for s :: "('d, 'x) kernel_scheme"
  by (simp_all add: fd_tables_def)

lemma fd_ok_fields [simp]:
  "fd_ok (s\<lparr>k_unix := u\<rparr>) = fd_ok s" "fd_ok (s\<lparr>k_evdev := v\<rparr>) = fd_ok s" "fd_ok (s\<lparr>k_ttys := t\<rparr>) = fd_ok s" "fd_ok (upd_unix f s) = fd_ok s"
  "fd_ok (release_memfd ptr s) = fd_ok s" "fd_ok (user_store a bs s) = fd_ok s" "fd_ok (s\<lparr>m_mm := m\<rparr>) = fd_ok s"
  by (rule fd_tables_ok, simp)+

lemma fd_ok_kernel [simp]:
  "fd_ok (s\<lparr>k_procs := ps\<rparr>) = fd_ok s" "fd_ok (s\<lparr>k_ipc := i\<rparr>) = fd_ok s" "fd_ok (s\<lparr>k_windows := w\<rparr>) = fd_ok s"
  for s :: "('d, 'x) kernel_scheme"
  by (rule fd_tables_ok, simp)+

lemma vm_tables:
  "fd_tables (snd (process_vm_map sz prot s)) = fd_tables s"
  "fd_tables (snd (process_vm_unmap a sz s)) = fd_tables s"
  "fd_tables (snd (process_vm_map_phys frames n prot s)) = fd_tables s"
  "fd_tables (snd (process_vm_attach_backing a bk ptr s)) = fd_tables s"
  "fd_tables (snd (process_vm_protect a sz prot s)) = fd_tables s"
  "fd_tables (snd (process_vm_brk a s)) = fd_tables s"
  "fd_tables (snd (process_create_thread a s)) = fd_tables s"
  subgoal by (simp add: process_vm_map_def Let_def split: option.splits prod.splits)
  subgoal by (simp add: process_vm_unmap_def Let_def split: option.splits prod.splits del: first_from_numeral)
  subgoal by (simp add: process_vm_map_phys_def Let_def split: option.splits prod.splits)
  subgoal by (simp add: process_vm_attach_backing_def Let_def split: option.splits del: first_from_numeral)
  subgoal by (simp add: process_vm_protect_def Let_def split: option.splits prod.splits)
  subgoal by (simp add: process_vm_brk_def Let_def split: option.splits prod.splits)
  subgoal by (simp add: process_create_thread_def Let_def split: option.splits prod.splits)
  done

lemma map_fixed_tables: "fd_tables (snd (process_vm_map_fixed a sz prot s)) = fd_tables s"
  using vm_tables(2) [of a "round_up sz" s]
  by (auto simp: process_vm_map_fixed_def Let_def split: option.splits prod.splits if_splits)

subsection \<open>Calls that make descriptors\<close>

text \<open>The calls of \<open>unix_ipc.c\<close>, \<open>evdev.c\<close> and \<open>drm_fb.c\<close> keep the counts.\<close>

lemma fd_ok_objects:
  assumes "fd_ok s"
  shows "fd_ok (snd (unix_memfd_create pid name flags s))" "fd_ok (snd (unix_memfd_ftruncate pid fd len s))"
    "fd_ok (snd (unix_socket_create pid ty s))" "fd_ok (snd (unix_socket_bind pid fd path s))" "fd_ok (snd (unix_socket_listen pid fd s))"
    "fd_ok (snd (unix_socket_connect pid fd path s))" "fd_ok (snd (snd (unix_socket_accept pid fd nb s)))" "fd_ok (snd (snd (unix_socket_pair pid s)))"
    "fd_ok (snd (unix_eventfd_create pid v flags s))" "fd_ok (snd (unix_epoll_create pid s))" "fd_ok (snd (unix_epoll_ctl pid epfd op tfd ev s))"
    "fd_ok (snd (evdev_open pid dev x y s))" "fd_ok (snd (drm_fb_open_fb0 pid s))" "fd_ok (snd (drm_fb_open_card0 pid s))"
  subgoal using assms by (simp add: unix_memfd_create_def Let_def case_prod_beta fd_ok_create_custom split: option.splits)
  subgoal using assms by (simp add: unix_memfd_ftruncate_def case_prod_beta split: option.splits)
  subgoal using assms by (simp add: unix_socket_create_def Let_def case_prod_beta fd_ok_create_custom split: option.splits)
  subgoal using assms by (simp add: unix_socket_bind_def split: option.splits)
  subgoal using assms by (simp add: unix_socket_listen_def split: option.splits)
  subgoal using assms by (simp add: unix_socket_connect_def case_prod_beta split: option.splits)
  subgoal using assms by (simp add: unix_socket_accept_def case_prod_beta fd_ok_create_custom split: option.splits list.splits)
  subgoal using assms by (simp add: unix_socket_pair_def Let_def case_prod_beta fd_ok_create_custom split: option.splits)
  subgoal using assms by (simp add: unix_eventfd_create_def case_prod_beta fd_ok_create_custom split: option.splits del: first_from_numeral)
  subgoal using assms by (simp add: unix_epoll_create_def fd_ok_create_custom split: option.splits del: first_from_numeral)
  subgoal using assms by (simp add: unix_epoll_ctl_def split: option.splits)
  subgoal using assms by (simp add: evdev_open_def case_prod_beta fd_ok_create_custom split: option.splits)
  using assms by (simp_all add: drm_fb_open_fb0_def drm_fb_open_card0_def fd_ok_create_custom)

lemma fd_ok_memfd_mmap:
  assumes "fd_ok s"
  shows "fd_ok (snd (unix_memfd_mmap pid fd len prot off s))"
proof -
  note t = fd_tables_ok [OF vm_tables(2)] fd_tables_ok [OF vm_tables(3)] fd_tables_ok [OF vm_tables(4)]
  show ?thesis using assms
    by (simp add: unix_memfd_mmap_def Let_def case_prod_beta t fd_ok_objects(2) split: option.splits)
qed

text \<open>Messages: only \<open>fd_bind_file_id\<close> touches the tables.\<close>

lemma send_piece_tables: "fd_tables (snd (send_piece i a left n s)) = fd_tables s"
proof (induction i a left n s rule: send_piece.induct)
  case (1 i address left sofar s)
  show ?case
  proof (cases "left = 0 \<or> copy_from_user address (word_of_nat (min left 512)) (m_mm s) = None")
    case False
    then obtain kbuf where k: "left \<noteq> 0" "copy_from_user address (word_of_nat (min left 512)) (m_mm s) = Some kbuf" by auto
    obtain sent u where snt: "unix_socket_send_stream (Some i) kbuf (k_unix s) = (sent, u)" by fastforce
    show ?thesis using 1 [OF k snt [symmetric]] by (subst send_piece.simps) (simp add: k snt)
  qed (auto simp: send_piece.simps)
qed

lemma send_pieces_tables: "fd_tables (snd (send_pieces i iov ks n s)) = fd_tables s"
proof (induction i iov ks n s rule: send_pieces.induct)
  case (2 i iov k ks n s)
  have "fd_tables s1 = fd_tables s" if "send_piece i a left n s = (r, s1)" for a left r s1
    using send_piece_tables [where i = i and a = a and left = left and n = n and s = s] by (simp add: that)
  then show ?case using 2 by (auto split: option.splits prod.splits sum.splits)
qed simp

lemma recv_piece_tables: "fd_tables (snd (recv_piece i a left n s)) = fd_tables s"
proof (induction i a left n s rule: recv_piece.induct)
  case (1 i address left sofar s)
  obtain r kbuf u where rc: "unix_socket_recv_stream (Some i) (word_of_nat (min left 512)) (k_unix s) = (r, kbuf, u)" by (metis prod_cases3)
  obtain c m where cp: "copy_to_user address kbuf (m_mm s) = (c, m)" by fastforce
  show ?case
  proof (cases "left = 0 \<or> r \<le> 0 \<or> c \<noteq> 0 \<or> nat r < min left 512")
    case True
    then show ?thesis by (subst recv_piece.simps) (auto simp: rc cp Let_def)
  next
    case False
    then show ?thesis using 1 [OF _ rc [symmetric] refl _ cp [symmetric] refl] by (subst recv_piece.simps) (simp add: rc cp Let_def)
  qed
qed

lemma recv_pieces_tables: "fd_tables (snd (recv_pieces i iov ks n s)) = fd_tables s"
proof (induction i iov ks n s rule: recv_pieces.induct)
  case (2 i iov k ks n s)
  have "fd_tables s1 = fd_tables s" if "recv_piece i a left n s = (r, s1)" for a left r s1
    using recv_piece_tables [where i = i and a = a and left = left and n = n and s = s] by (simp add: that)
  then show ?case using 2 by (auto split: option.splits prod.splits sum.splits)
qed simp

lemma queue_fds_tables: "fd_tables (fold (queue_fd pid p) fds s) = fd_tables s"
  by (induction fds arbitrary: s) (simp_all add: queue_fd_def Let_def)

lemma fd_ok_sendmsg: "fd_ok s \<Longrightarrow> fd_ok (snd (unix_socket_sendmsg pid fd ptr s))"
  by (simp add: unix_socket_sendmsg_def Let_def fd_tables_ok [OF send_pieces_tables] fd_tables_ok [OF queue_fds_tables] split: option.splits)

lemma deliver_fds_ok: "fd_ok s \<Longrightarrow> fd_ok (snd (snd (deliver_fds pid q n s)))"
proof (induction pid q n s rule: deliver_fds.induct)
  case (2 pid fid q n s)
  obtain fd s1 where b: "fd_bind_file_id pid fid s = (fd, s1)" by fastforce
  have "fd_ok s1" using fd_ok_bind_file_id [OF 2(3), of pid fid] by (simp add: b)
  then show ?case using 2(1,2) [OF _ b [symmetric]] 2(3) by (auto simp: b case_prod_beta)
qed simp

lemma fd_ok_recvmsg: "fd_ok s \<Longrightarrow> fd_ok (snd (unix_socket_recvmsg pid fd ptr s))"
proof -
  assume ok: "fd_ok s"
  have "fd_ok (snd (receive_rights pid i msg s))" for i msg
    using deliver_fds_ok [OF ok] by (simp add: receive_rights_def Let_def case_prod_beta ok)
  then show ?thesis using ok
    by (simp add: unix_socket_recvmsg_def Let_def case_prod_beta fd_tables_ok [OF recv_pieces_tables] split: option.splits)
qed

lemma safe_epoll_scan: "safe (epoll_scan drv pid i ks room)"
proof (induction ks arbitrary: room)
  case (Cons k ks)
  show ?case unfolding epoll_scan.simps by (intro safe safe_fd_poll Cons.IH)
qed (simp add: safe)

lemma safe_epoll_wait: "safe (unix_epoll_wait drv pid epfd ptr n t)"
  unfolding unix_epoll_wait_def by (intro safe safe_epoll_scan safe_State) (simp split: prod.splits)

subsection \<open>Processes\<close>

lemma fd_ok_close_owner_all: "fd_ok s \<Longrightarrow> fd_ok (close_owner net pid s)"
proof -
  assume ok: "fd_ok s"
  have "fd_ok (fd_close_owner pid (s\<lparr>k_sockets := k, m_dev := d, k_ttys := t\<rparr>))" for k d t
    by (rule fd_ok_close_owner) (use ok in \<open>simp add: fd_ok_def\<close>)
  then show ?thesis by (simp add: close_owner_def Let_def case_prod_beta)
qed

lemma release_resources_ok: "fd_ok (process_release_resources i s) = fd_ok s"
proof -
  have "fd_tables (release_region i r s) = fd_tables s" for r and s :: "('a, 'b) kernel_scheme" by (simp add: release_region_def Let_def)
  then have "fd_tables (fold (release_region i) rs s) = fd_tables s" for rs and s :: "('a, 'b) kernel_scheme"
    by (induction rs arbitrary: s) simp_all
  then have "fd_tables (process_release_resources i s) = fd_tables s" by (simp add: process_release_resources_def release_space_def Let_def)
  then show ?thesis by (rule fd_tables_ok)
qed

lemma fd_ok_kill: "fd_ok s \<Longrightarrow> fd_ok (snd (process_kill net pid s))"
  by (simp add: process_kill_def Let_def release_resources_ok fd_ok_close_owner_all)

lemma fd_ok_exit_thread: "fd_ok s \<Longrightarrow> fd_ok (snd (process_exit_current_thread net s))"
  by (simp add: process_exit_current_thread_def Let_def release_resources_ok fd_ok_close_owner_all split: option.splits)

lemma fd_ok_signal: "fd_ok s \<Longrightarrow> fd_ok (snd (process_send_signal net caller pid sig s))"
  by (simp add: process_send_signal_def Let_def fd_ok_kill)

lemma fd_ok_signal_group: "fd_ok s \<Longrightarrow> fd_ok (snd (process_signal_group net caller grp sig s))"
proof -
  assume "fd_ok s"
  then have "fd_ok (snd (fold (signal_one net caller grp sig) is (n, s)))" for "is" n
  proof (induction "is" arbitrary: n s)
    case (Cons i "is")
    have "fd_ok (snd (signal_one net caller grp sig i (n, s)))" using Cons.prems fd_ok_signal [OF Cons.prems] by (simp add: signal_one_def case_prod_beta)
    then show ?case using Cons.IH by (metis fold_simps(2) prod.collapse)
  qed simp
  then show ?thesis using \<open>fd_ok s\<close> by (simp add: process_signal_group_def case_prod_beta del: upt_rec_numeral)
qed

lemma spawn_tables: "fd_tables (snd (process_spawn_kea c name d s)) = fd_tables s"
  by (simp add: process_spawn_kea_def process_spawn_elf_def process_spawn_elf_with_permissions_def Let_def split: option.splits elf_result.splits)

lemma safe_spawn_path: "safe (process_spawn_path drv c path)"
proof -
  have node: "safe (vfs_get_node drv path)" for drv :: "'d drivers" and path
    unfolding vfs_get_node_def by (rule safe_view [OF above_find_node_by_path])
  have kea: "safe (State (process_spawn_kea c name d))" for name d
    by (simp add: safe_def fd_tables_ok [OF spawn_tables])
  show ?thesis
    unfolding process_spawn_path_def by (intro safe node kea safe_State safe_update) (simp_all split: prod.splits)
qed

lemma fd_ok_pty_attach: "fd_ok s \<Longrightarrow> fd_ok (snd (pty_attach owner h target s))"
  using fd_ok_bind_pty_stdio [of s target h]
  by (simp add: pty_attach_def Let_def case_prod_beta split: option.splits)

subsection \<open>The kernel's calls together\<close>

datatype kernel_call =
  Fd fd_call | Memfd_create int "string option" u32 | Memfd_truncate int int u64 | Memfd_map int int u64 u32 u64
| Socket_create int u32 | Socket_bind int int string | Socket_listen int int | Socket_connect int int string | Socket_accept int int bool | Socket_pair int
| Send_message int int u64 | Receive_message int int u64 | Eventfd_create int u32 u32 | Epoll_create int | Epoll_ctl int int int int u64
| Epoll_wait int int u64 int int | Evdev_open int int int int | Open_fb0 int | Open_card0 int | Fb_map screen u64 u32
| Vm_map u64 u32 | Vm_map_fixed u64 u64 u32 | Vm_unmap u64 u64 | Vm_protect u64 u64 u32 | Vm_brk u64 | Thread_create u64 | Thread_exit
| Spawn string | Kill int | Signal int int int | Signal_group int int int | Attach_pty int int int

fun kernel_step :: "'d drivers \<Rightarrow> 'd net_ops \<Rightarrow> crypto \<Rightarrow> kernel_call \<Rightarrow> ('d, 'x) kernel_scheme \<Rightarrow> ('d, 'x) kernel_scheme" where
  "kernel_step drv net c (Fd f) s = fd_step drv f s"
| "kernel_step drv net c (Memfd_create pid name flags) s = snd (unix_memfd_create pid name flags s)"
| "kernel_step drv net c (Memfd_truncate pid fd len) s = snd (unix_memfd_ftruncate pid fd len s)"
| "kernel_step drv net c (Memfd_map pid fd len prot off) s = snd (unix_memfd_mmap pid fd len prot off s)"
| "kernel_step drv net c (Socket_create pid ty) s = snd (unix_socket_create pid ty s)"
| "kernel_step drv net c (Socket_bind pid fd path) s = snd (unix_socket_bind pid fd path s)"
| "kernel_step drv net c (Socket_listen pid fd) s = snd (unix_socket_listen pid fd s)"
| "kernel_step drv net c (Socket_connect pid fd path) s = snd (unix_socket_connect pid fd path s)"
| "kernel_step drv net c (Socket_accept pid fd nb) s = snd (snd (unix_socket_accept pid fd nb s))"
| "kernel_step drv net c (Socket_pair pid) s = snd (snd (unix_socket_pair pid s))"
| "kernel_step drv net c (Send_message pid fd ptr) s = snd (unix_socket_sendmsg pid fd ptr s)"
| "kernel_step drv net c (Receive_message pid fd ptr) s = snd (unix_socket_recvmsg pid fd ptr s)"
| "kernel_step drv net c (Eventfd_create pid v flags) s = snd (unix_eventfd_create pid v flags s)"
| "kernel_step drv net c (Epoll_create pid) s = snd (unix_epoll_create pid s)"
| "kernel_step drv net c (Epoll_ctl pid epfd op tfd ptr) s = snd (unix_epoll_ctl pid epfd op tfd ptr s)"
| "kernel_step drv net c (Epoll_wait pid epfd ptr n t) s = snd (run_state (unix_epoll_wait drv pid epfd ptr n t) s)"
| "kernel_step drv net c (Evdev_open pid dev x y) s = snd (evdev_open pid dev x y s)"
| "kernel_step drv net c (Open_fb0 pid) s = snd (drm_fb_open_fb0 pid s)"
| "kernel_step drv net c (Open_card0 pid) s = snd (drm_fb_open_card0 pid s)"
| "kernel_step drv net c (Fb_map sc len prot) s = snd (drm_fb_mmap sc len prot s)"
| "kernel_step drv net c (Vm_map sz prot) s = snd (process_vm_map sz prot s)"
| "kernel_step drv net c (Vm_map_fixed a sz prot) s = snd (process_vm_map_fixed a sz prot s)"
| "kernel_step drv net c (Vm_unmap a sz) s = snd (process_vm_unmap a sz s)"
| "kernel_step drv net c (Vm_protect a sz prot) s = snd (process_vm_protect a sz prot s)"
| "kernel_step drv net c (Vm_brk a) s = snd (process_vm_brk a s)"
| "kernel_step drv net c (Thread_create a) s = snd (process_create_thread a s)"
| "kernel_step drv net c Thread_exit s = snd (process_exit_current_thread net s)"
| "kernel_step drv net c (Spawn path) s = snd (run_state (process_spawn_path drv c path) s)"
| "kernel_step drv net c (Kill pid) s = snd (process_kill net pid s)"
| "kernel_step drv net c (Signal caller pid sig) s = snd (process_send_signal net caller pid sig s)"
| "kernel_step drv net c (Signal_group caller grp sig) s = snd (process_signal_group net caller grp sig s)"
| "kernel_step drv net c (Attach_pty owner h target) s = snd (pty_attach owner h target s)"

lemma drm_fb_mmap_tables: "fd_tables (snd (drm_fb_mmap sc len prot s)) = fd_tables s"
  by (simp add: drm_fb_mmap_def Let_def vm_tables(3))

lemma fd_ok_kernel_step: "fd_ok s \<Longrightarrow> fd_ok (kernel_step drv net c k s)"
  by (cases k) (simp_all add: fd_ok_step fd_ok_objects fd_ok_memfd_mmap fd_ok_sendmsg fd_ok_recvmsg safeD [OF safe_epoll_wait] safeD [OF safe_spawn_path]
    fd_tables_ok [OF drm_fb_mmap_tables] fd_tables_ok [OF map_fixed_tables] vm_tables [THEN fd_tables_ok] fd_ok_exit_thread fd_ok_kill fd_ok_signal
    fd_ok_signal_group fd_ok_pty_attach)

inductive kernel_reach :: "'d drivers \<Rightarrow> 'd net_ops \<Rightarrow> crypto \<Rightarrow> ('d, 'x) kernel_scheme \<Rightarrow> bool" for drv net c where
  start: "kernel_reach drv net c (fd_init s)"
| call: "kernel_reach drv net c s \<Longrightarrow> kernel_reach drv net c (kernel_step drv net c k s)"

lemma kernel_reach_ok: "kernel_reach drv net c s \<Longrightarrow> fd_ok s"
  by (induction rule: kernel_reach.induct) (simp_all add: fd_ok_init fd_ok_kernel_step)

text \<open>
  C39. The books of the kernel are exact. In every state that any calls lead to from \<open>fd_init\<close>, those of \<open>fd.c\<close>, \<open>unix_ipc.c\<close>, \<open>evdev.c\<close> and
  \<open>drm_fb.c\<close>, mapping and unmapping, starting, signalling and ending processes and threads, and whatever volumes, network and user memory contain:
  the reference count of every open file is the number of descriptors of all processes that name it, so it neither wraps nor reaches zero while
  a descriptor is left; every open descriptor resolves to an open file; a pipe is allocated exactly while one of its ends is open, its counts of
  readers and writers are the numbers of open files that are its read and its write end, and its ring is well formed.
\<close>

theorem kernel_counts_exact:
  assumes "kernel_reach drv net c s"
  shows "(\<forall>i < FD_FILE_MAX. unat (ff_references (g_files s i)) = card (descriptors_of (g_fds s) i)) \<and>
    (\<forall>pid fd. entry_for s pid fd \<noteq> None \<longrightarrow> file_for s (entry_for s pid fd) \<noteq> None) \<and>
    (\<forall>p < FD_PIPE_MAX. pipe_ok (card (ends_of (pipe_end \<circ> g_files s) FD_KIND_PIPE_READ p))
      (card (ends_of (pipe_end \<circ> g_files s) FD_KIND_PIPE_WRITE p)) (g_pipes s p))"
  by (rule fd_ok_exact [OF kernel_reach_ok [OF assms]])

text \<open>The pipe of the example is made and its only process then killed: no descriptor is left and no file open.\<close>

lemma kernel_example_killed:
  "kernel_reach (ram_drivers 512) net_idle c (snd (process_kill net_idle 1 kernel_example))"
proof -
  have "kernel_reach (ram_drivers 512) net_idle c kernel_example"
    using kernel_reach.call [OF kernel_reach.start, of "ram_drivers 512" net_idle c "Fd (Make_pipe 1)" kernel_blank] by (simp add: kernel_example_def)
  from kernel_reach.call [OF this, of "Kill 1"] show ?thesis by simp
qed

theorem kernel_counts_exact_witness:
  "unat (ff_references (g_files (snd (process_kill net_idle 1 kernel_example)) 0)) =
     card (descriptors_of (g_fds (snd (process_kill net_idle 1 kernel_example))) 0)"
proof -
  let ?s = "snd (process_kill net_idle 1 kernel_example)"
  have "\<forall>i < FD_FILE_MAX. unat (ff_references (g_files ?s i)) = card (descriptors_of (g_fds ?s) i)"
    using kernel_counts_exact [OF kernel_example_killed [of "\<lparr>cr_sha256 = (\<lambda>_. []), cr_ecdsa_verify = (\<lambda>_ _ _. True)\<rparr>"]] by blast
  then show ?thesis by simp
qed

end
