(* ===== verification/Spec2Isabelle.thy ===== *)
theory Spec2Isabelle
  imports Pmm Tty Ipc User_Memory Elf Vfs_Lookup Fat32_Mount Fat32_Dirs Kernel_Calls
begin

text \<open>
  KeshOS: a verification library for the kernel's memory, processes, descriptors, communication and storage code.

  \<^bold>\<open>The program.\<close> KeshOS is a small x86-64 kernel in C. At boot \<open>kernel/memory.c\<close> takes over physical memory (free-range table) and builds page
  tables; \<open>kernel/elf.c\<close> loads programs into address spaces; \<open>kernel/process.c\<close> keeps processes and threads and chooses the next thread to run;
  \<open>kernel/tty.c\<close> and \<open>kernel/ipc.c\<close> connect processes by terminals and messages. Programs reach everything through descriptors (\<open>kernel/fd.c\<close>): files,
  pipes, terminals, and the objects of \<open>kernel/unix_ipc.c\<close>, \<open>kernel/evdev.c\<close> and \<open>kernel/drm_fb.c\<close>; \<open>kernel/socket.c\<close> and \<open>kernel/uwindow.c\<close> keep tables of network
  sockets and windows of their own; \<open>kpm/kea_verify.c\<close> decides which packages may run. Storage is a stack: \<open>kernel/block.c\<close> over the AHCI, ATA and
  NVMe drivers, \<open>kernel/gpt.c\<close> for partitions, \<open>drivers/system/fat32.c\<close> and \<open>drivers/system/iso9660.c\<close> for volumes, and \<open>kernel/vfs.c\<close>
  for the one tree of names that programs see.

  \<^bold>\<open>Theories and source files.\<close>
  \<^item> \<open>Prelude\<close>: words, searches, list updates and little-endian fields shared by all; \<open>Frames\<close>: frame rules and weakest preconditions for the
    state monad; \<open>Ring\<close>: the ring buffers of \<open>tty.c\<close> with the locale \<open>byte_fifo\<close> that states their contract. The locale
    has three interpretations on the program: the rings of terminals, of stream sockets and of pipes.
  \<^item> \<open>Pmm\<close> (\<open>memory.c\<close>, physical memory): \<open>pmm_init\<close>, best-fit allocation with zeroing, release, statistics on the record \<open>mm\<close>. C1 to C6.
  \<^item> \<open>Vmm\<close>, \<open>Page_Tables\<close>, \<open>Address_Space\<close>, \<open>User_Memory\<close> (\<open>memory.c\<close>, virtual memory): the four-level tables are words of \<open>phys_mem\<close>; the
    theories relate them to the translation they mean, and the checked copies to what user code may access. C16 to C21.
  \<^item> \<open>Tty\<close> (\<open>tty.c\<close>): terminals and pseudo terminals with their line discipline. C7, C9 to C11.
  \<^item> \<open>Proc\<close> (\<open>process.c\<close>): tables, queries and the scheduler. C12, C13.  \<open>Ipc\<close> (\<open>ipc.c\<close>): message queues. C14.
  \<^item> \<open>Elf\<close> (\<open>elf.c\<close>): the loader as a function from an image to its effect on memory, every read checked. C22.
  \<^item> \<open>Block\<close> (\<open>block.c\<close>): registration, range checks and chunked transfers; the drivers below are a parameter. C23, C24.
  \<^item> \<open>Gpt\<close> (\<open>gpt.c\<close>): header, checksum and partition array. C25 to C27.
  \<^item> \<open>Fat32\<close>, \<open>Fat32_Frame\<close>, \<open>Fat32_Disk\<close>, \<open>Fat32_Files\<close>, \<open>Fat32_Mount\<close>, \<open>Fat32_Dirs\<close> (\<open>fat32.c\<close>): the whole driver; what its operations leave alone; the
    volume that the sectors mean, with the entries of the table and the chains of files; what a mounted volume satisfies; directories and repair. C32 to C38.
  \<^item> \<open>Iso9660\<close> (\<open>iso9660.c\<close>): probing, directories, reading at any offset. C28.
  \<^item> \<open>Vfs\<close>, \<open>Vfs_Tree\<close>, \<open>Vfs_Lookup\<close> (\<open>vfs.c\<close>): the node table and all calls, its shape in every reachable state, stability of lookup,
    and the round trip of files in memory. C29 to C31.
  \<^item> \<open>Unix_Objects\<close>, \<open>Evdev\<close>, \<open>Fd\<close>, \<open>Fd_Refs\<close> (\<open>unix_ipc.c\<close>, \<open>evdev.c\<close>, \<open>fd.c\<close>): the objects behind descriptors, the tables of descriptors, files and
    pipes with every call, and the invariant \<open>fd_ok\<close> that the reference counts are exact. C40.
  \<^item> \<open>Windows\<close> (\<open>uwindow.c\<close>), \<open>Sockets\<close> (\<open>socket.c\<close>), \<open>Kea\<close> (\<open>kea_verify.c\<close>, \<open>trusted_keys.c\<close>): windows, network sockets, packages.
  \<^item> \<open>Process_Vm\<close>, \<open>Process_Life\<close>, \<open>Process_End\<close> (\<open>process.c\<close>): the state of the kernel as one record, the memory of a process, threads, signals, the start and the
    end of processes. C8, C15.
  \<^item> \<open>Unix_Ipc\<close> (\<open>unix_ipc.c\<close>, \<open>drm_fb.c\<close>): the calls on descriptors of objects. \<open>Kernel_Calls\<close>: all calls on the state of the kernel together. C39.

  \<^bold>\<open>How state and operations correspond.\<close> The static variables of a C file are the fields of a record; each record of the storage stack extends
  the one below it, so that a call of a lower layer runs on the same state. A C function is a definition of the same name; a loop is a
  recursive function named after it. Storage code is written in the state monad, the rest passes its record explicitly. Arrays with a count are the
  list of their live prefix, tables with slots are functions from the index, pointers to table entries are indices, status codes are
  integers, and what is stored through pointer arguments is part of the result. Integers keep their width (\<open>u8\<close>, \<open>u16\<close>, \<open>u32\<close>, \<open>u64\<close> are words), so that wrap-around
  is the code's.

  \<^bold>\<open>Parameters and their hypotheses.\<close> Hardware and code outside the repository are arguments: the drivers of \<open>Block\<close> (a record of functions on an
  abstract driver state) with \<open>drivers_ok\<close>, which states that a successful transfer moves the sectors of one medium and nothing else; the memory
  map of the boot loader with its documented form; the images linked into the kernel for \<open>vfs_init\<close>; the hash and the signature
  check of the BearSSL library (\<open>crypto\<close>); the calls of the network stack (\<open>net_ops\<close>), whose results are arbitrary. \<open>ram_drivers\<close> is a concrete driver that meets \<open>drivers_ok\<close>.

  \<^bold>\<open>Bounds and fuel.\<close> Loops that follow a chain on disk carry the code's own bound \<open>s_max_cluster + 1\<close>; the directory queue of the repair has the code's 1024 places;
  scans over a table run over its fixed length; path lookup recurses on the path; a wait for the network consumes a list of clock readings. No other fuel is used: all definitions are total.

  \<^bold>\<open>Not modelled.\<close> Locks and interrupts (each operation is one atomic step), cache and TLB maintenance, port and register access of the drivers
  (the parameter of \<open>Block\<close>), log and serial output, null-pointer guards on buffers, the self tests, and the parts of the repository listed as not
  modelled in the manifest: the desktop and its applications, the vendored game engine, fonts and artwork, the Linux ports, and code that only drives devices.
\<close>

end
